(* ===== verification/Prelude.thy ===== *)
theory Prelude
  imports Main "HOL-Library.Sublist"
begin

text \<open>
  The prelude of the development: the errors a request can end in, the atomic transaction,
  the operations on database tables that the services issue through Prisma, and the generic
  lemmas about them.  A table is a list of rows.  The order of the list stands for the order
  in which the database returns rows that no \<open>orderBy\<close> ranks; every theorem quantifies over
  all tables, hence over all such orders.
\<close>

named_theorems table_simps \<open>equations of the table operations\<close>
named_theorems handler_defs \<open>definitions of the request handlers' helpers\<close>

subsection \<open>Errors\<close>

text \<open>
  \<open>Http s c\<close> is an \<open>HttpException\<close> of status \<open>s\<close> whose body has the code \<open>c\<close>;
  \<open>Http_Message s m\<close> is one whose body is only the message \<open>m\<close>; \<open>Raised m\<close> is any other
  exception (the global filter answers 500).
\<close>

datatype api_error =
    Http nat string
  | Http_Message nat string
  | Raised string

type_synonym 'a result = "api_error + 'a"

definition succeeded :: "'a result \<Rightarrow> bool" where
  "succeeded r \<longleftrightarrow> (case r of Inl e \<Rightarrow> False | Inr x \<Rightarrow> True)"

lemma succeeded_simps [simp]:
  "\<not> succeeded (Inl e)"
  "succeeded (Inr x)"
  by (simp_all add: succeeded_def)

subsection \<open>Transactions\<close>

text \<open>
  \<open>database.$transaction(async (transaction) => body)\<close>: the body runs on the current state;
  an exception it raises leaves the state as it was before.
\<close>

definition transact :: "('d \<Rightarrow> 'a result \<times> 'd) \<Rightarrow> 'd \<Rightarrow> 'a result \<times> 'd" where
  "transact body d = (case body d of
     (Inl e, d') \<Rightarrow> (Inl e, d)
   | (Inr x, d') \<Rightarrow> (Inr x, d'))"

lemma transact_Inl [simp]: "body d = (Inl e, d') \<Longrightarrow> transact body d = (Inl e, d)"
  by (simp add: transact_def)

lemma transact_Inr [simp]: "body d = (Inr x, d') \<Longrightarrow> transact body d = (Inr x, d')"
  by (simp add: transact_def)

lemma transact_InrD: "transact body d = (Inr x, d') \<Longrightarrow> body d = (Inr x, d')"
  by (auto simp: transact_def split: prod.splits sum.splits)

lemma transact_rolls_back: "transact body d = (Inl e, d') \<Longrightarrow> d' = d"
  by (auto simp: transact_def split: prod.splits sum.splits)

lemma transact_cases:
  obtains (rolled_back) e where "transact body d = (Inl e, d)"
  | (committed) x d' where "body d = (Inr x, d')" and "transact body d = (Inr x, d')"
  by (cases "body d"; cases "fst (body d)") auto

text \<open>Sequencing inside a body: stop at the first exception.\<close>

definition and_then ::
  "'a result \<times> 'd \<Rightarrow> ('a \<Rightarrow> 'd \<Rightarrow> 'b result \<times> 'd) \<Rightarrow> 'b result \<times> 'd" where
  "and_then m k = (case m of
     (Inl e, d) \<Rightarrow> (Inl e, d)
   | (Inr x, d) \<Rightarrow> k x d)"

lemma and_then_simps [simp]:
  "and_then (Inl e, d) k = (Inl e, d)"
  "and_then (Inr x, d) k = k x d"
  by (simp_all add: and_then_def)

lemma and_then_InrE:
  assumes "and_then m k = (Inr y, d')"
  obtains x d where "m = (Inr x, d)" and "k x d = (Inr y, d')"
  using assms by (auto simp: and_then_def split: prod.splits sum.splits)

subsection \<open>Table operations\<close>

text \<open>\<open>findUnique\<close> and \<open>findFirst\<close> with a \<open>where\<close> clause.\<close>

abbreviation find_row :: "('r \<Rightarrow> bool) \<Rightarrow> 'r list \<Rightarrow> 'r option" where
  "find_row P t \<equiv> List.find P t"

text \<open>\<open>updateMany\<close>: the new table, and the \<open>count\<close> it reports.\<close>

definition update_rows :: "('r \<Rightarrow> bool) \<Rightarrow> ('r \<Rightarrow> 'r) \<Rightarrow> 'r list \<Rightarrow> 'r list" where
  "update_rows P f t = map (\<lambda>r. if P r then f r else r) t"

definition count_rows :: "('r \<Rightarrow> bool) \<Rightarrow> 'r list \<Rightarrow> nat" where
  "count_rows P t = length (filter P t)"

text \<open>\<open>deleteMany\<close>.\<close>

definition delete_rows :: "('r \<Rightarrow> bool) \<Rightarrow> 'r list \<Rightarrow> 'r list" where
  "delete_rows P t = filter (\<lambda>r. \<not> P r) t"

text \<open>\<open>findMany\<close> with \<open>take\<close>, without and with an ascending or descending \<open>orderBy\<close>.\<close>

definition take_rows :: "nat \<Rightarrow> ('r \<Rightarrow> bool) \<Rightarrow> 'r list \<Rightarrow> 'r list" where
  "take_rows n P t = take n (filter P t)"

definition take_rows_asc :: "('r \<Rightarrow> int) \<Rightarrow> nat \<Rightarrow> ('r \<Rightarrow> bool) \<Rightarrow> 'r list \<Rightarrow> 'r list" where
  "take_rows_asc key n P t = take n (sort_key key (filter P t))"

definition take_rows_desc :: "('r \<Rightarrow> int) \<Rightarrow> nat \<Rightarrow> ('r \<Rightarrow> bool) \<Rightarrow> 'r list \<Rightarrow> 'r list" where
  "take_rows_desc key n P t = take n (sort_key (\<lambda>r. - key r) (filter P t))"

lemma find_row_SomeD: "find_row P t = Some r \<Longrightarrow> r \<in> set t \<and> P r"
  by (induction t) (auto split: if_splits)

lemma find_row_NoneD: "find_row P t = None \<Longrightarrow> r \<in> set t \<Longrightarrow> \<not> P r"
  by (auto simp: find_None_iff)

lemma find_row_append [table_simps]:
  "find_row P (t @ u) = (case find_row P t of None \<Rightarrow> find_row P u | Some r \<Rightarrow> Some r)"
  by (induction t) auto

lemma set_update_rows [table_simps]:
  "set (update_rows P f t) = (\<lambda>r. if P r then f r else r) ` set t"
  by (simp add: update_rows_def)

lemma in_update_rowsE:
  assumes "r \<in> set (update_rows P f t)"
  obtains (updated) r0 where "r0 \<in> set t" "P r0" "r = f r0"
  | (kept) "r \<in> set t" "\<not> P r"
  using assms by (auto simp: update_rows_def split: if_splits)

lemma ball_update_rows:
  "(\<forall>r \<in> set (update_rows P f t). Q r) \<longleftrightarrow> (\<forall>r \<in> set t. (P r \<longrightarrow> Q (f r)) \<and> (\<not> P r \<longrightarrow> Q r))"
  by (auto simp: update_rows_def)

lemma length_update_rows [simp]: "length (update_rows P f t) = length t"
  by (simp add: update_rows_def)

lemma update_rows_Nil [simp]: "update_rows P f [] = []"
  by (simp add: update_rows_def)

lemma update_rows_Cons [simp]:
  "update_rows P f (r # t) = (if P r then f r else r) # update_rows P f t"
  by (simp add: update_rows_def)

lemma update_rows_append [simp]: "update_rows P f (t @ u) = update_rows P f t @ update_rows P f u"
  by (simp add: update_rows_def)

lemma update_rows_none: "count_rows P t = 0 \<Longrightarrow> update_rows P f t = t"
  by (induction t) (auto simp: count_rows_def update_rows_def split: if_splits)

lemma map_update_rows [table_simps]:
  "(\<And>r. P r \<Longrightarrow> key (f r) = key r) \<Longrightarrow> map key (update_rows P f t) = map key t"
  by (induction t) (auto simp: update_rows_def)

lemma count_rows_Nil [simp]: "count_rows P [] = 0"
  by (simp add: count_rows_def)

lemma count_rows_Cons [simp]:
  "count_rows P (r # t) = (if P r then Suc (count_rows P t) else count_rows P t)"
  by (simp add: count_rows_def)

lemma count_rows_append [simp]: "count_rows P (t @ u) = count_rows P t + count_rows P u"
  by (simp add: count_rows_def)

lemma count_rows_0_iff: "count_rows P t = 0 \<longleftrightarrow> (\<forall>r \<in> set t. \<not> P r)"
  by (auto simp: count_rows_def filter_empty_conv)

lemma count_rows_pos_iff: "0 < count_rows P t \<longleftrightarrow> (\<exists>r \<in> set t. P r)"
  using count_rows_0_iff [of P t] by auto

lemma count_rows_1D: "count_rows P t = Suc 0 \<Longrightarrow> \<exists>r \<in> set t. P r"
  using count_rows_pos_iff [of P t] by simp

lemma count_rows_cong: "(\<And>r. r \<in> set t \<Longrightarrow> P r \<longleftrightarrow> Q r) \<Longrightarrow> count_rows P t = count_rows Q t"
  by (simp add: count_rows_def cong: filter_cong)

lemma count_rows_le_update:
  "(\<And>r. Q (f r) \<Longrightarrow> Q r) \<Longrightarrow> count_rows Q (update_rows P f t) \<le> count_rows Q t"
  by (induction t) (auto intro: le_SucI)

text \<open>Rows found by a key under which the table is duplicate-free.\<close>

lemma count_rows_key_le_1:
  "distinct (map key t) \<Longrightarrow> count_rows (\<lambda>r. key r = k \<and> Q r) t \<le> 1"
proof (induction t)
  case Nil
  then show ?case by simp
next
  case (Cons a t)
  have none: "count_rows (\<lambda>r. key r = k \<and> Q r) t = 0" if "key a = k"
    using Cons.prems that by (auto simp: count_rows_0_iff) (metis image_eqI)
  from Cons show ?case by (auto simp: none)
qed

lemma count_rows_key_1:
  assumes "distinct (map key t)" and "r \<in> set t" and "key r = k" and "Q r"
  shows "count_rows (\<lambda>r. key r = k \<and> Q r) t = 1"
proof -
  have "0 < count_rows (\<lambda>r. key r = k \<and> Q r) t"
    using assms(2-4) by (auto simp: count_rows_pos_iff)
  with count_rows_key_le_1 [OF assms(1), of k Q] show ?thesis by linarith
qed

lemma distinct_key_eq:
  "distinct (map key t) \<Longrightarrow> r \<in> set t \<Longrightarrow> s \<in> set t \<Longrightarrow> key r = key s \<Longrightarrow> r = s"
  by (induction t) (auto simp: rev_image_eqI)

lemma find_row_key:
  assumes "distinct (map key t)" and "r \<in> set t" and "key r = k"
  shows "find_row (\<lambda>r. key r = k) t = Some r"
proof (cases "find_row (\<lambda>r. key r = k) t")
  case None
  with assms show ?thesis by (auto dest: find_row_NoneD)
next
  case (Some s)
  then have "s \<in> set t" "key s = k" by (auto dest: find_row_SomeD)
  with assms Some show ?thesis using distinct_key_eq by fastforce
qed

lemma set_delete_rows [table_simps]: "set (delete_rows P t) = {r \<in> set t. \<not> P r}"
  by (auto simp: delete_rows_def)

lemma distinct_delete_rows: "distinct (map key t) \<Longrightarrow> distinct (map key (delete_rows P t))"
  by (simp add: delete_rows_def distinct_map_filter)

lemma set_take_rows: "set (take_rows n P t) \<subseteq> {r \<in> set t. P r}"
  by (auto simp: take_rows_def dest: in_set_takeD)

lemma set_take_rows_asc: "set (take_rows_asc key n P t) \<subseteq> {r \<in> set t. P r}"
  by (auto simp: take_rows_asc_def dest: in_set_takeD)

lemma set_take_rows_desc: "set (take_rows_desc key n P t) \<subseteq> {r \<in> set t. P r}"
  by (auto simp: take_rows_desc_def dest: in_set_takeD)

lemma length_take_rows:
  "length (take_rows n P t) = min n (count_rows P t)"
  "length (take_rows_asc key n P t) = min n (count_rows P t)"
  "length (take_rows_desc key n P t) = min n (count_rows P t)"
  by (simp_all add: take_rows_def take_rows_asc_def take_rows_desc_def count_rows_def min.commute)

lemma take_rows_all:
  "count_rows P t \<le> n \<Longrightarrow> set (take_rows n P t) = {r \<in> set t. P r}"
  by (auto simp: take_rows_def count_rows_def)

lemma find_row_update_key:
  assumes "\<And>r. P r \<Longrightarrow> key (f r) = key r"
  shows "find_row (\<lambda>r. key r = k) (update_rows P f t) =
    map_option (\<lambda>r. if P r then f r else r) (find_row (\<lambda>r. key r = k) t)"
  using assms by (induction t) auto

lemma find_row_fresh:
  "k \<notin> key ` set t \<Longrightarrow> key r = k \<Longrightarrow> find_row (\<lambda>x. key x = k) (t @ [r]) = Some r"
  by (induction t) auto

lemma find_row_update_rows:
  "(\<And>r. Q r \<Longrightarrow> P (f r) = P r) \<Longrightarrow>
   find_row P (update_rows Q f t) = map_option (\<lambda>r. if Q r then f r else r) (find_row P t)"
  by (induction t) auto

lemma find_row_unique:
  assumes "x \<in> set t" and "P x" and "\<And>y. y \<in> set t \<Longrightarrow> P y \<Longrightarrow> y = x"
  shows "find_row P t = Some x"
proof (cases "find_row P t")
  case None
  then show ?thesis using find_row_NoneD [OF None assms(1)] assms(2) by simp
next
  case (Some y)
  then show ?thesis using find_row_SomeD [OF Some] assms(3) by simp
qed

lemma distinct_map_appendI:
  "distinct (map key t) \<Longrightarrow> key r \<notin> key ` set t \<Longrightarrow> distinct (map key (t @ [r]))"
  by simp

subsection \<open>Single use\<close>

text \<open>
  The contract of every one-time credential of the service (a refresh token, a reset token, a
  verification token, an assertion): a request that wins found it unspent and leaves it spent, and
  nothing unspends it.  Then at most one of any sequence of requests wins.
\<close>

fun wins :: "('a \<Rightarrow> 's \<Rightarrow> 'b result \<times> 's) \<Rightarrow> 'a list \<Rightarrow> 's \<Rightarrow> 'a list" where
  "wins attempt [] s = []"
| "wins attempt (a # as) s =
     (if succeeded (fst (attempt a s)) then [a] else []) @ wins attempt as (snd (attempt a s))"

locale single_use =
  fixes attempt :: "'a \<Rightarrow> 's \<Rightarrow> 'b result \<times> 's"
    and spent :: "'s \<Rightarrow> bool"
    and inv :: "'s \<Rightarrow> bool"
    and valid :: "'a \<Rightarrow> bool"
  assumes win_unspent: "inv s \<Longrightarrow> valid a \<Longrightarrow> succeeded (fst (attempt a s)) \<Longrightarrow> \<not> spent s"
    and win_spends: "inv s \<Longrightarrow> valid a \<Longrightarrow> succeeded (fst (attempt a s)) \<Longrightarrow> spent (snd (attempt a s))"
    and stays_spent: "inv s \<Longrightarrow> valid a \<Longrightarrow> spent s \<Longrightarrow> spent (snd (attempt a s))"
    and inv_attempt: "inv s \<Longrightarrow> valid a \<Longrightarrow> inv (snd (attempt a s))"
begin

lemma no_win_when_spent:
  "inv s \<Longrightarrow> list_all valid as \<Longrightarrow> spent s \<Longrightarrow> wins attempt as s = []"
  by (induction as arbitrary: s) (auto dest: win_unspent intro: stays_spent inv_attempt)

lemma at_most_one_win:
  "inv s \<Longrightarrow> list_all valid as \<Longrightarrow> length (wins attempt as s) \<le> 1"
proof (induction as arbitrary: s)
  case Nil
  then show ?case by simp
next
  case (Cons a as)
  let ?s1 = "snd (attempt a s)"
  have i: "inv ?s1" "list_all valid as" using Cons.prems by (auto intro: inv_attempt)
  show ?case
  proof (cases "succeeded (fst (attempt a s))")
    case True
    with Cons.prems have "spent ?s1" by (auto intro: win_spends)
    with i have "wins attempt as ?s1 = []" by (intro no_win_when_spent)
    then show ?thesis by simp
  next
    case False
    with Cons.IH [OF i] show ?thesis by simp
  qed
qed

end

end
