(* ===== verification/Text.thy ===== *)
theory Text
  imports Prelude
begin

text \<open>
  Strings as the services use them.  A string is its UTF-8 bytes (a \<open>char\<close> is one byte), so
  that \<open>Buffer.from(s, 'utf8')\<close> is the identity; lengths are therefore exact for the ASCII
  strings that the identifiers, tokens, keys and codes of the service are.  The character
  classes are those of the source's regular expressions.  The last part models the two
  conversions \<open>toString('base64url')\<close> and \<open>Buffer.from(s, 'base64url')\<close> of Node's
  \<open>Buffer\<close>, and JSON values.
\<close>

subsection \<open>Character classes\<close>

abbreviation code_of :: "char \<Rightarrow> nat" where
  "code_of c \<equiv> of_char c"

definition is_digit :: "char \<Rightarrow> bool" where
  "is_digit c \<longleftrightarrow> 48 \<le> code_of c \<and> code_of c \<le> 57"

definition is_upper :: "char \<Rightarrow> bool" where
  "is_upper c \<longleftrightarrow> 65 \<le> code_of c \<and> code_of c \<le> 90"

definition is_lower :: "char \<Rightarrow> bool" where
  "is_lower c \<longleftrightarrow> 97 \<le> code_of c \<and> code_of c \<le> 122"

definition is_alnum :: "char \<Rightarrow> bool" where
  "is_alnum c \<longleftrightarrow> is_digit c \<or> is_upper c \<or> is_lower c"

definition is_hex :: "char \<Rightarrow> bool" where
  "is_hex c \<longleftrightarrow> is_digit c \<or> (65 \<le> code_of c \<and> code_of c \<le> 70)
     \<or> (97 \<le> code_of c \<and> code_of c \<le> 102)"

text \<open>The white space of \<open>\s\<close> and of \<open>trim\<close> among the one-byte characters.\<close>

definition is_space :: "char \<Rightarrow> bool" where
  "is_space c \<longleftrightarrow> code_of c \<in> {9, 10, 11, 12, 13, 32}"

definition trim :: "string \<Rightarrow> string" where
  "trim s = rev (dropWhile is_space (rev (dropWhile is_space s)))"

lemma char_class_defs:
  "is_digit c \<longleftrightarrow> 48 \<le> code_of c \<and> code_of c \<le> 57"
  "is_upper c \<longleftrightarrow> 65 \<le> code_of c \<and> code_of c \<le> 90"
  "is_lower c \<longleftrightarrow> 97 \<le> code_of c \<and> code_of c \<le> 122"
  "is_alnum c \<longleftrightarrow> is_digit c \<or> is_upper c \<or> is_lower c"
  "is_space c \<longleftrightarrow> code_of c \<in> {9, 10, 11, 12, 13, 32}"
  by (rule is_digit_def is_upper_def is_lower_def is_alnum_def is_space_def)+

subsection \<open>Splitting and searching\<close>

text \<open>\<open>s.split(sep)\<close> for a one-character separator.\<close>

fun split_on :: "char \<Rightarrow> string \<Rightarrow> string list" where
  "split_on sep [] = [[]]"
| "split_on sep (c # cs) =
     (if c = sep then [] # split_on sep cs
      else (case split_on sep cs of
              [] \<Rightarrow> [[c]]
            | w # ws \<Rightarrow> (c # w) # ws))"

lemma split_on_nonempty [simp]: "split_on sep s \<noteq> []"
  by (induction s) (auto split: list.splits)

lemma split_on_none: "sep \<notin> set s \<Longrightarrow> split_on sep s = [s]"
  by (induction s) auto

lemma split_on_append:
  "sep \<notin> set s \<Longrightarrow> split_on sep (s @ sep # t) = s # split_on sep t"
  by (induction s) auto

text \<open>\<open>s.includes(t)\<close>.\<close>

fun str_includes :: "string \<Rightarrow> string \<Rightarrow> bool" where
  "str_includes [] t = (t = [])"
| "str_includes (c # cs) t = (prefix t (c # cs) \<or> str_includes cs t)"

lemma str_includes_iff: "str_includes s t \<longleftrightarrow> (\<exists>u v. s = u @ t @ v)"
proof (induction s)
  case Nil
  then show ?case by auto
next
  case (Cons c s)
  show ?case
  proof
    assume "str_includes (c # s) t"
    then consider "prefix t (c # s)" | "str_includes s t" by auto
    then show "\<exists>u v. c # s = u @ t @ v"
    proof cases
      case 1
      then obtain v where "c # s = [] @ t @ v" by (auto simp: prefix_def)
      then show ?thesis by blast
    next
      case 2
      with Cons obtain u v where "s = u @ t @ v" by blast
      then have "c # s = (c # u) @ t @ v" by simp
      then show ?thesis by blast
    qed
  next
    assume "\<exists>u v. c # s = u @ t @ v"
    then obtain u v where eq: "c # s = u @ t @ v" by blast
    show "str_includes (c # s) t"
    proof (cases u)
      case Nil
      with eq have "prefix t (c # s)" by (metis append_Nil prefixI)
      then show ?thesis by simp
    next
      case (Cons d u')
      with eq have "s = u' @ t @ v" by simp
      with Cons.IH show ?thesis by auto
    qed
  qed
qed

subsection \<open>Base64url\<close>

text \<open>The alphabet of \<open>base64url\<close>: \<open>A-Z a-z 0-9 - _\<close>.\<close>

definition b64_char :: "nat \<Rightarrow> char" where
  "b64_char n =
     (if n < 26 then char_of (65 + n)
      else if n < 52 then char_of (71 + n)
      else if n < 62 then char_of (n - 4)
      else if n = 62 then CHR ''-''
      else CHR ''_'')"

text \<open>
  Node's decoder accepts both alphabets (\<open>+\<close> and \<open>/\<close> beside \<open>-\<close> and \<open>_\<close>), skips any other
  character and stops at the first \<open>=\<close>.
\<close>

definition b64_val :: "char \<Rightarrow> nat option" where
  "b64_val c =
     (if is_upper c then Some (code_of c - 65)
      else if is_lower c then Some (code_of c - 71)
      else if is_digit c then Some (code_of c + 4)
      else if c = CHR ''-'' \<or> c = CHR ''+'' then Some 62
      else if c = CHR ''_'' \<or> c = CHR ''/'' then Some 63
      else None)"

definition is_b64url :: "char \<Rightarrow> bool" where
  "is_b64url c \<longleftrightarrow> is_alnum c \<or> c = CHR ''-'' \<or> c = CHR ''_''"

fun b64_encode :: "string \<Rightarrow> string" where
  "b64_encode [] = []"
| "b64_encode [a] =
     [b64_char (code_of a div 4), b64_char (code_of a mod 4 * 16)]"
| "b64_encode [a, b] =
     [b64_char (code_of a div 4), b64_char (code_of a mod 4 * 16 + code_of b div 16),
      b64_char (code_of b mod 16 * 4)]"
| "b64_encode (a # b # c # s) =
     b64_char (code_of a div 4) # b64_char (code_of a mod 4 * 16 + code_of b div 16)
     # b64_char (code_of b mod 16 * 4 + code_of c div 64) # b64_char (code_of c mod 64)
     # b64_encode s"

fun b64_bytes :: "nat list \<Rightarrow> string" where
  "b64_bytes (w # x # y # z # s) =
     char_of (w * 4 + x div 16) # char_of (x mod 16 * 16 + y div 4)
     # char_of (y mod 4 * 64 + z) # b64_bytes s"
| "b64_bytes [w, x, y] =
     [char_of (w * 4 + x div 16), char_of (x mod 16 * 16 + y div 4)]"
| "b64_bytes [w, x] = [char_of (w * 4 + x div 16)]"
| "b64_bytes _ = []"

definition b64_decode :: "string \<Rightarrow> string" where
  "b64_decode s =
     b64_bytes (List.map_filter b64_val (takeWhile (\<lambda>c. c \<noteq> CHR ''='') s))"

lemma b64_char_cases:
  fixes n :: nat
  assumes "n < 64"
  obtains "n < 26" | "26 \<le> n" "n < 52" | k where "n = 52 + k" "k < 10" | "n = 62" | "n = 63"
proof -
  consider "n < 26" | "26 \<le> n" "n < 52" | "52 \<le> n" "n < 62" | "n = 62" | "n = 63"
    using assms by linarith
  then show ?thesis
  proof cases
    case 3
    then have "n = 52 + (n - 52)" "n - 52 < 10" by simp_all
    then show ?thesis by (rule that(3))
  qed (rule that; assumption)+
qed

lemma b64_val_char: "n < 64 \<Longrightarrow> b64_val (b64_char n) = Some n"
  by (erule b64_char_cases) (simp_all add: b64_val_def b64_char_def char_class_defs)

lemma b64_char_not_pad: "n < 64 \<Longrightarrow> b64_char n \<noteq> CHR ''=''"
  using b64_val_char [of n] by (auto simp: b64_val_def char_class_defs)

lemma b64_char_class: "n < 64 \<Longrightarrow> is_b64url (b64_char n)"
  by (erule b64_char_cases) (simp_all add: is_b64url_def b64_char_def char_class_defs)

lemma sextet_bounds [simp]:
  fixes a b c :: char
  shows "code_of a div 4 < 64"
    and "code_of a mod 4 * 16 < 64"
    and "code_of a mod 4 * 16 + code_of b div 16 < 64"
    and "code_of b mod 16 * 4 < 64"
    and "code_of b mod 16 * 4 + code_of c div 64 < 64"
proof -
  have "code_of a < 256" "code_of b < 256" "code_of c < 256" by simp_all
  then have d: "code_of a div 4 < 64" "code_of b div 16 < 16" "code_of c div 64 < 4"
    by (simp_all add: less_mult_imp_div_less)
  have m: "code_of a mod 4 < 4" "code_of b mod 16 < 16" by simp_all
  show "code_of a div 4 < 64" by (rule d)
  show "code_of a mod 4 * 16 < 64" using m by linarith
  show "code_of a mod 4 * 16 + code_of b div 16 < 64" using d m by linarith
  show "code_of b mod 16 * 4 < 64" using m by linarith
  show "code_of b mod 16 * 4 + code_of c div 64 < 64" using d m by linarith
qed

lemma b64_encode_alphabet: "c \<in> set (b64_encode s) \<Longrightarrow> is_b64url c"
  by (induction s rule: b64_encode.induct) (auto intro: b64_char_class)

lemma b64_decode_sextets:
  "(\<And>n. n \<in> set ns \<Longrightarrow> n < 64) \<Longrightarrow> b64_decode (map b64_char ns) = b64_bytes ns"
proof -
  assume bound: "\<And>n. n \<in> set ns \<Longrightarrow> n < 64"
  have all: "takeWhile (\<lambda>c. c \<noteq> CHR ''='') (map b64_char ns) = map b64_char ns"
    using bound by (subst takeWhile_eq_all_conv) (auto dest: b64_char_not_pad)
  moreover have "List.map_filter b64_val (map b64_char ns) = ns"
    using bound by (induction ns) (auto simp: List.map_filter_simps b64_val_char)
  ultimately show ?thesis unfolding b64_decode_def all by simp
qed

fun b64_sextets :: "string \<Rightarrow> nat list" where
  "b64_sextets [] = []"
| "b64_sextets [a] = [code_of a div 4, code_of a mod 4 * 16]"
| "b64_sextets [a, b] =
     [code_of a div 4, code_of a mod 4 * 16 + code_of b div 16, code_of b mod 16 * 4]"
| "b64_sextets (a # b # c # s) =
     code_of a div 4 # (code_of a mod 4 * 16 + code_of b div 16)
     # (code_of b mod 16 * 4 + code_of c div 64) # code_of c mod 64 # b64_sextets s"

lemma b64_encode_sextets: "b64_encode s = map b64_char (b64_sextets s)"
  by (induction s rule: b64_encode.induct) auto

lemma b64_sextets_bound: "n \<in> set (b64_sextets s) \<Longrightarrow> n < 64"
  by (induction s rule: b64_sextets.induct) auto

lemma byte_of_sextets:
  fixes a b c :: nat
  assumes "b < 256" "c < 256"
  shows "a div 4 * 4 + (a mod 4 * 16 + b div 16) div 16 = a"
    and "(a mod 4 * 16 + b div 16) mod 16 * 16 + (b mod 16 * 4 + c div 64) div 4 = b"
    and "(b mod 16 * 4 + c div 64) mod 4 * 64 + c mod 64 = c"
proof -
  have "b div 16 < 16" "c div 64 < 4" using assms by (simp_all add: less_mult_imp_div_less)
  then show "a div 4 * 4 + (a mod 4 * 16 + b div 16) div 16 = a"
    and "(a mod 4 * 16 + b div 16) mod 16 * 16 + (b mod 16 * 4 + c div 64) div 4 = b"
    and "(b mod 16 * 4 + c div 64) mod 4 * 64 + c mod 64 = c"
    by (simp_all add: div_mult_self4 mod_mult_self4)
qed

lemma b64_bytes_sextets: "b64_bytes (b64_sextets s) = s"
proof (induction s rule: b64_sextets.induct)
  case (2 a)
  show ?case using byte_of_sextets(1) [of 0 0 "code_of a"] by simp
next
  case (3 a b)
  show ?case
    using byte_of_sextets(1) [of "code_of b" 0 "code_of a"]
      byte_of_sextets(2) [of "code_of b" 0 "code_of a"]
    by simp
next
  case (4 a b c s)
  then show ?case using byte_of_sextets(1,2) [of "code_of b" "code_of c" "code_of a"]
      byte_of_sextets(3) [of "code_of b" "code_of c"] by simp
qed simp

lemma b64_decode_encode [simp]: "b64_decode (b64_encode s) = s"
  by (simp add: b64_encode_sextets b64_decode_sextets b64_sextets_bound b64_bytes_sextets)

lemma b64_encode_inj: "b64_encode s = b64_encode t \<Longrightarrow> s = t"
  by (metis b64_decode_encode)

lemma dot_not_b64url: "\<not> is_b64url CHR ''.''"
  by (simp add: is_b64url_def char_class_defs)

lemma dot_not_in_b64_encode [simp]: "CHR ''.'' \<notin> set (b64_encode s)"
  using b64_encode_alphabet dot_not_b64url by blast

lemma length_b64_encode: "length (b64_encode s) = (4 * length s + 2) div 3"
  by (induction s rule: b64_encode.induct) auto

subsection \<open>JSON values\<close>

text \<open>
  JSON values.  Numbers are integers: apart from the scores of the evaluations, which the model counts in
  whole units, every number the service writes or reads back is one.
  \<open>JSON.stringify\<close> and \<open>JSON.parse\<close> are parameters of the model (Environment.thy).
\<close>

datatype json =
    JNull
  | JBool bool
  | JNum int
  | JStr string
  | JArr "json list"
  | JObj "(string \<times> json) list"

text \<open>\<open>value.name\<close> on a parsed value; \<open>None\<close> is \<open>undefined\<close>.\<close>

fun json_field :: "string \<Rightarrow> json \<Rightarrow> json option" where
  "json_field k (JObj fs) = map_of fs k"
| "json_field k _ = None"

end
