(* ===== verification/Schema.thy ===== *)
theory Schema
  imports Text
begin

text \<open>
  The enumerations of the database schema, with the constructors the source and its API contract
  name.  The schema itself is the package \<open>@mucyora/db\<close>, which is not part of the repository:
  where the repository does not list every value of an enumeration, an \<open>Other\<close> constructor
  stands for the rest.
\<close>

datatype user_account_status =
    Account_PENDING_EMAIL_VERIFICATION | Account_ACTIVE | Account_DISABLED
  | Account_SUSPENDED | Account_LOCKED | Account_Other string

datatype identity_status =
    Identity_NOT_STARTED | Identity_PENDING | Identity_VERIFIED
  | Identity_RETRY_REQUIRED | Identity_REVIEW_REQUIRED | Identity_Other string

datatype session_level = LIMITED | FULL

datatype session_status =
    Session_ACTIVE | Session_REVOKED | Session_EXPIRED | Session_COMPROMISED | Session_Other string

datatype attempt_status =
    Attempt_PENDING | Attempt_MEDIA_PENDING | Attempt_PROCESSING | Attempt_PASSED
  | Attempt_FAILED | Attempt_RETRY_REQUIRED | Attempt_REVIEW_REQUIRED
  | Attempt_PROVIDER_UNAVAILABLE | Attempt_EXPIRED

datatype verification_purpose =
    ACCOUNT_ENROLLMENT | DEVICE_TRANSFER | AGREEMENT_SIGNING | ACCOUNT_RECOVERY

datatype step_up_status =
    StepUp_PENDING | StepUp_VERIFIED | StepUp_CONSUMED | StepUp_EXPIRED | StepUp_REVOKED

datatype challenge_status =
    Challenge_PENDING | Challenge_CONSUMED | Challenge_Other string

datatype idempotency_status = Idem_IN_PROGRESS | Idem_COMPLETED | Idem_Other string

datatype consent_type =
    BIOMETRIC_PROCESSING | IDENTITY_DATA_PROCESSING | PRIVACY_POLICY | TERMS_OF_SERVICE

datatype media_type = ID_DOCUMENT | Media_Other string

datatype event_type =
    EMAIL_VERIFICATION_REQUESTED | EMAIL_VERIFIED | IDENTITY_VERIFICATION_COMPLETED
  | IDENTITY_VERIFICATION_STARTED | LOGIN_FAILED | LOGIN_SUCCEEDED | PASSWORD_CHANGED
  | PASSWORD_RESET_REQUESTED | RATE_LIMIT_EXCEEDED | REFRESH_TOKEN_REUSE_DETECTED
  | REGISTRATION_CHALLENGE_CREATED | REGISTRATION_COMPLETED | SESSION_REFRESHED | SESSION_REVOKED

datatype event_severity = Severity_INFO | Severity_WARNING | Severity_HIGH

datatype event_outcome = Outcome_SUCCESS | Outcome_FAILURE | Outcome_DENIED

text \<open>\<open>TokenTransport\<close> (\<open>src/modules/auth/dto/auth.dto.ts\<close>).\<close>

datatype token_transport = COOKIE | NATIVE

text \<open>A full session is above a limited one.\<close>

instantiation session_level :: linorder
begin

definition less_eq_session_level :: "session_level \<Rightarrow> session_level \<Rightarrow> bool" where
  "less_eq_session_level a b \<longleftrightarrow> a = LIMITED \<or> b = FULL"

definition less_session_level :: "session_level \<Rightarrow> session_level \<Rightarrow> bool" where
  "less_session_level a b \<longleftrightarrow> a = LIMITED \<and> b = FULL"

instance
proof
  fix x y z :: session_level
  show "(x < y) = (x \<le> y \<and> \<not> y \<le> x)"
    by (cases x; cases y) (simp_all add: less_session_level_def less_eq_session_level_def)
  show "x \<le> x" by (cases x) (simp_all add: less_eq_session_level_def)
  show "x \<le> y \<Longrightarrow> y \<le> z \<Longrightarrow> x \<le> z"
    by (cases x; cases y; cases z) (simp_all add: less_eq_session_level_def)
  show "x \<le> y \<Longrightarrow> y \<le> x \<Longrightarrow> x = y"
    by (cases x; cases y) (simp_all add: less_eq_session_level_def)
  show "x \<le> y \<or> y \<le> x" by (cases x; cases y) (simp_all add: less_eq_session_level_def)
qed

end

fun session_level_text :: "session_level \<Rightarrow> string" where
  "session_level_text LIMITED = ''LIMITED''"
| "session_level_text FULL = ''FULL''"

text \<open>\<open>sessionLevel.toLowerCase()\<close>, the \<open>tokenType\<close> of a refresh token.\<close>

fun session_level_lower :: "session_level \<Rightarrow> string" where
  "session_level_lower LIMITED = ''limited''"
| "session_level_lower FULL = ''full''"

fun purpose_text :: "verification_purpose \<Rightarrow> string" where
  "purpose_text ACCOUNT_ENROLLMENT = ''ACCOUNT_ENROLLMENT''"
| "purpose_text DEVICE_TRANSFER = ''DEVICE_TRANSFER''"
| "purpose_text AGREEMENT_SIGNING = ''AGREEMENT_SIGNING''"
| "purpose_text ACCOUNT_RECOVERY = ''ACCOUNT_RECOVERY''"

fun transport_text :: "token_transport \<Rightarrow> string" where
  "transport_text COOKIE = ''COOKIE''"
| "transport_text NATIVE = ''NATIVE''"

end
