(* ===== verification/Environment.thy ===== *)
theory Environment
  imports Schema
begin

text \<open>
  What a request runs in: the validated configuration (\<open>ConfigService.get\<close> by key), the two
  services that hold key material, and the code that is not under \<open>src/\<close> as parameters.  These
  are the fields of the record \<open>env\<close>; every handler takes one.  The documented behaviour of a
  parameter is a named hypothesis (\<open>json_laws\<close>, \<open>gcm_laws\<close>, ...), stated at the end and used
  only by the theorems that need it.
\<close>

text \<open>
  The keys of \<open>KeyedDigestService\<close> (three HMAC keys and the lookup key's version) and of
  \<open>IdentityEncryptionService\<close> (one AES key and its version), as their constructors store them.
\<close>

record keyed_digest =
  lookupKey :: string
  tokenKey :: string
  contextKey :: string
  lookupVersion :: string

record identity_encryption =
  encryptionKey :: string
  encryptionVersion :: string

record env =
  \<comment> \<open>the validated environment, by key\<close>
  cfg_num :: "string \<Rightarrow> nat"
  cfg_str :: "string \<Rightarrow> string"
  cfg_flag :: "string \<Rightarrow> bool"
  \<comment> \<open>services constructed at start-up\<close>
  digests :: keyed_digest
  encryption :: identity_encryption
  \<comment> \<open>\<open>createHmac('sha256', key).update(m).digest('base64url')\<close>, \<open>createHash\<close>\<close>
  hmac_sha256 :: "string \<Rightarrow> string \<Rightarrow> string"
  sha256_base64url :: "string \<Rightarrow> string"
  sha1_hex_upper :: "string \<Rightarrow> string"
  \<comment> \<open>AES-256-GCM: key, nonce, additional data, text; the tag comes second\<close>
  gcm_encrypt :: "string \<Rightarrow> string \<Rightarrow> string \<Rightarrow> string \<Rightarrow> string \<times> string"
  gcm_decrypt :: "string \<Rightarrow> string \<Rightarrow> string \<Rightarrow> string \<Rightarrow> string \<Rightarrow> string option"
  \<comment> \<open>\<open>JSON.stringify\<close> and \<open>JSON.parse\<close> (\<open>None\<close>: it throws)\<close>
  stringify :: "json \<Rightarrow> string"
  parse_json :: "string \<Rightarrow> json option"
  \<comment> \<open>\<open>argon2.hash\<close>, \<open>argon2.verify\<close> (\<open>None\<close>: it throws), \<open>argon2.needsRehash\<close>\<close>
  argon2_hash :: "string \<Rightarrow> string"
  argon2_verify :: "string \<Rightarrow> string \<Rightarrow> bool option"
  argon2_needsRehash :: "string \<Rightarrow> bool"
  \<comment> \<open>the body of the breach-range response for a prefix (\<open>None\<close>: the request fails)\<close>
  breach_range :: "string \<Rightarrow> string option"
  \<comment> \<open>the signing provider (private key or KMS) and RSA-SHA256 verification by public key\<close>
  rsa_sign :: "string \<Rightarrow> string"
  rsa_verify :: "string \<Rightarrow> string \<Rightarrow> string \<Rightarrow> bool"
  \<comment> \<open>\<open>createPublicKey\<close> (\<open>None\<close>: it throws) and whether the key is RSA; the members of its JWK\<close>
  rsa_public_key :: "string \<Rightarrow> bool option"
  public_jwk :: "string \<Rightarrow> (string \<times> json) list"
  \<comment> \<open>\<open>normalize('NFKC')\<close>, \<open>toLowerCase()\<close> and \<open>toUpperCase()\<close>\<close>
  nfkc :: "string \<Rightarrow> string"
  to_lower :: "string \<Rightarrow> string"
  to_upper :: "string \<Rightarrow> string"
  \<comment> \<open>\<open>Joi.string().isoDate()\<close>: the converted text (\<open>None\<close>: it does not validate)\<close>
  joi_iso_date :: "string \<Rightarrow> string option"
  \<comment> \<open>\<open>new Date(text)\<close> in milliseconds (\<open>None\<close>: an invalid date)\<close>
  date_value :: "string \<Rightarrow> int option"
  \<comment> \<open>the successive readings of the clock (milliseconds), UUIDs and random byte strings\<close>
  clock :: "nat \<Rightarrow> int"
  uuid :: "nat \<Rightarrow> string"
  random_bytes :: "nat \<Rightarrow> nat \<Rightarrow> string"
  \<comment> \<open>the database: identifiers it generates given those in use, its clock and defaults\<close>
  gen_id :: "string list \<Rightarrow> string"
  db_clock :: int
  default_session_status :: session_status
  default_token_generation :: int
  default_step_up_status :: step_up_status
  default_idempotency_status :: idempotency_status

text \<open>Reading the configuration.\<close>

abbreviation seconds :: "env \<Rightarrow> string \<Rightarrow> int" where
  "seconds E k \<equiv> int (cfg_num E k) * 1000"

abbreviation hours :: "env \<Rightarrow> string \<Rightarrow> int" where
  "hours E k \<equiv> int (cfg_num E k) * 3600000"

abbreviation days :: "env \<Rightarrow> string \<Rightarrow> int" where
  "days E k \<equiv> int (cfg_num E k) * 24 * 3600000"

subsection \<open>Documented behaviour of the parameters\<close>

text \<open>\<open>JSON.parse\<close> reads back what \<open>JSON.stringify\<close> writes, which is never empty.\<close>

definition json_laws :: "env \<Rightarrow> bool" where
  "json_laws E \<longleftrightarrow> (\<forall>j. stringify E j \<noteq> [] \<and> parse_json E (stringify E j) = Some j)"

text \<open>
  Authenticated encryption: decryption under the same key, nonce and additional data returns
  the text; under other additional data the tag does not verify.
\<close>

definition gcm_laws :: "env \<Rightarrow> bool" where
  "gcm_laws E \<longleftrightarrow>
     (\<forall>k n a t. gcm_decrypt E k n a (fst (gcm_encrypt E k n a t)) (snd (gcm_encrypt E k n a t)) = Some t)
     \<and> (\<forall>k n a b t. a \<noteq> b \<longrightarrow>
          gcm_decrypt E k n b (fst (gcm_encrypt E k n a t)) (snd (gcm_encrypt E k n a t)) = None)"

text \<open>Keyed digests do not collide (the idealisation under which a digest names its input).\<close>

definition hmac_laws :: "env \<Rightarrow> bool" where
  "hmac_laws E \<longleftrightarrow> (\<forall>k m k' m'. hmac_sha256 E k m = hmac_sha256 E k' m' \<longrightarrow> k = k' \<and> m = m')"

text \<open>A signature of the signing provider is not empty and verifies under the public key.\<close>

definition rsa_laws :: "env \<Rightarrow> bool" where
  "rsa_laws E \<longleftrightarrow>
     (\<forall>m. rsa_sign E m \<noteq> []
        \<and> rsa_verify E (cfg_str E ''MUCYORA_AUTH_SIGNING_PUBLIC_KEY'') m (rsa_sign E m))"

text \<open>The database generates identifiers that are not in use.\<close>

definition id_laws :: "env \<Rightarrow> bool" where
  "id_laws E \<longleftrightarrow> (\<forall>ids. gen_id E ids \<notin> set ids)"

text \<open>
  The defaults of the columns that a \<open>create\<close> of the source leaves out, which its later
  conditional updates require: a new session is active, a new step-up challenge pending, a new
  idempotency record in progress.
\<close>

definition default_laws :: "env \<Rightarrow> bool" where
  "default_laws E \<longleftrightarrow>
     default_session_status E = Session_ACTIVE \<and> default_step_up_status E = StepUp_PENDING
     \<and> default_idempotency_status E = Idem_IN_PROGRESS"

lemma id_lawsD: "id_laws E \<Longrightarrow> gen_id E ids \<notin> set ids"
  by (simp add: id_laws_def)

lemma json_lawsD: "json_laws E \<Longrightarrow> parse_json E (stringify E j) = Some j"
  by (simp add: json_laws_def)

lemma json_laws_nonempty: "json_laws E \<Longrightarrow> stringify E j \<noteq> []"
  by (simp add: json_laws_def)

lemma gcm_lawsD:
  assumes "gcm_laws E"
  shows "gcm_decrypt E k n a (fst (gcm_encrypt E k n a t)) (snd (gcm_encrypt E k n a t)) = Some t"
    and "a \<noteq> b \<Longrightarrow>
      gcm_decrypt E k n b (fst (gcm_encrypt E k n a t)) (snd (gcm_encrypt E k n a t)) = None"
  using assms by (auto simp: gcm_laws_def)

end
