(* ===== verification/Sample.thy ===== *)
theory Sample
  imports Environment
begin

text \<open>
  An instance of every parameter that satisfies all the laws, on which the witnesses evaluate.
  Its configuration holds the defaults of \<open>environmentSchema\<close>; a digest is its input with the
  key in front, an encryption its input with the additional data as the tag, and a generated
  identifier is longer than those in use.
\<close>

fun show_nat :: "nat \<Rightarrow> string" where
  "show_nat n = (if n < 10 then [char_of (48 + n)] else show_nat (n div 10) @ [char_of (48 + n mod 10)])"

declare show_nat.simps [simp del]

definition sample_numbers :: "(string \<times> nat) list" where
  "sample_numbers = [
    (''LOGIN_LIMIT_PER_MINUTE'', 5), (''REFRESH_LIMIT_PER_MINUTE'', 10),
    (''LOGIN_LOCK_THRESHOLD'', 10), (''LOGIN_LOCK_SECONDS'', 900),
    (''REFRESH_TOKEN_TTL_SECONDS'', 2592000), (''REFRESH_REPLAY_GRACE_SECONDS'', 10),
    (''ACCESS_TOKEN_TTL_SECONDS'', 900), (''LIMITED_ACCESS_TOKEN_TTL_SECONDS'', 900),
    (''SESSION_UPGRADE_IDEMPOTENCY_TTL_SECONDS'', 900),
    (''PASSWORD_RESET_LIMIT_PER_HOUR'', 3), (''PASSWORD_CHANGE_LIMIT_PER_HOUR'', 5),
    (''PASSWORD_RESET_TOKEN_TTL_SECONDS'', 900), (''EMAIL_TOKEN_TTL_SECONDS'', 86400),
    (''REGISTRATION_LIMIT_PER_HOUR'', 3), (''EMAIL_RESEND_LIMIT_PER_HOUR'', 3),
    (''CITIZEN_LOOKUP_IP_LIMIT_PER_MINUTE'', 5), (''CITIZEN_LOOKUP_CLIENT_LIMIT_PER_MINUTE'', 5),
    (''CITIZEN_LOOKUP_NID_LIMIT_PER_MINUTE'', 3), (''REGISTRATION_CHALLENGE_TTL_SECONDS'', 600),
    (''REGISTRATION_CHALLENGE_MAX_ATTEMPTS'', 3), (''RECOVERY_CODE_COUNT'', 8),
    (''STEP_UP_CHALLENGE_TTL_SECONDS'', 600), (''STEP_UP_ASSERTION_TTL_SECONDS'', 300),
    (''VERIFICATION_MAX_ATTEMPTS'', 3), (''VERIFICATION_ATTEMPT_WINDOW_HOURS'', 24),
    (''VERIFICATION_RETRY_DELAY_SECONDS'', 3600), (''VERIFICATION_MEDIA_RETENTION_SECONDS'', 86400),
    (''VERIFICATION_MEDIA_MAX_PIXELS'', 20000000), (''VERIFICATION_MEDIA_MAX_SIZE_BYTES'', 5242880),
    (''OPERATIONAL_JOB_BATCH_SIZE'', 50), (''OPERATIONAL_JOB_LOCK_TTL_SECONDS'', 240),
    (''TOKEN_RETENTION_DAYS'', 7), (''SESSION_RETENTION_DAYS'', 30),
    (''SECURITY_EVENT_RETENTION_DAYS'', 365), (''STALE_VERIFICATION_ATTEMPT_HOURS'', 24),
    (''MEDIA_DELETE_RETRY_BASE_SECONDS'', 60), (''MEDIA_DELETE_RETRY_MAX_SECONDS'', 3600),
    (''OUTBOX_MAX_ATTEMPTS'', 10), (''OUTBOX_LEASE_SECONDS'', 120), (''OUTBOX_BATCH_SIZE'', 20),
    (''OUTBOX_DELIVERY_CONCURRENCY'', 4), (''OUTBOX_RETRY_BASE_SECONDS'', 30),
    (''OUTBOX_RETRY_MAX_SECONDS'', 3600), (''CITIZEN_API_MAX_RETRIES'', 2),
    (''CITIZEN_CIRCUIT_FAILURE_THRESHOLD'', 5), (''CITIZEN_CIRCUIT_RESET_TIMEOUT_MS'', 30000),
    (''PASSWORD_HASH_MAX_CONCURRENCY'', 4), (''MUCYORA_ENGINE_MAX_CONCURRENCY'', 4),
    (''READINESS_CACHE_TTL_MS'', 5000), (''PASSKEY_CHALLENGE_TTL_SECONDS'', 300)]"

definition sample_strings :: "(string \<times> string) list" where
  "sample_strings = [
    (''CACHE_PREFIX'', ''mucyora:auth:''), (''MUCYORA_AUTH_ISSUER'', ''https://auth''),
    (''MUCYORA_AUTH_ACCESS_AUDIENCES'', ''user''), (''MUCYORA_AUTH_SIGNING_KEY_ID'', ''key-2026''),
    (''MUCYORA_AUTH_SIGNING_PUBLIC_KEY'', ''public''), (''VERIFICATION_POLICY_VERSION'', ''policy-1''),
    (''STEP_UP_POLICY_VERSION'', ''stepup-1''),
    (''AWS_S3_VERIFICATION_PREFIX'', ''identity-verification/''),
    (''IDENTITY_ENCRYPTION_KEY_VERSION'', ''v1''), (''IDENTITY_LOOKUP_KEY_VERSION'', ''v1''),
    (''REFRESH_COOKIE_NAME'', ''mucyora_refresh''), (''CSRF_COOKIE_NAME'', ''mucyora_csrf'')]"

definition longer_id :: "string list \<Rightarrow> string" where
  "longer_id ids = replicate (Suc (Max (insert 0 (set (map length ids))))) CHR ''i''"

lemma longer_id_fresh: "longer_id ids \<notin> set ids"
proof
  assume mem: "longer_id ids \<in> set ids"
  have "length (longer_id ids) = Suc (Max (insert 0 (set (map length ids))))"
    by (simp add: longer_id_def)
  moreover have "length (longer_id ids) \<le> Max (insert 0 (set (map length ids)))"
    by (rule Max_ge) (use mem in auto)
  ultimately show False by simp
qed


subsection \<open>A serialisation of JSON values that reads back\<close>

definition show_int :: "int \<Rightarrow> string" where
  "show_int i = (if i < 0 then CHR ''-'' # show_nat (nat (- i)) else CHR ''+'' # show_nat (nat i))"

definition read_nat :: "string \<Rightarrow> nat" where
  "read_nat = foldl (\<lambda>n c. 10 * n + (code_of c - 48)) 0"

fun read_to_dot :: "string \<Rightarrow> string \<times> string" where
  "read_to_dot [] = ([], [])"
| "read_to_dot (c # s) = (if c = CHR ''.'' then ([], s)
     else (case read_to_dot s of (w, r) \<Rightarrow> (c # w, r)))"

definition put_nat :: "nat \<Rightarrow> string" where
  "put_nat n = show_nat n @ ''.''"

definition get_nat :: "string \<Rightarrow> nat \<times> string" where
  "get_nat s = (case read_to_dot s of (w, r) \<Rightarrow> (read_nat w, r))"

definition put_str :: "string \<Rightarrow> string" where
  "put_str s = put_nat (length s) @ s"

definition get_str :: "string \<Rightarrow> string \<times> string" where
  "get_str s = (case get_nat s of (n, r) \<Rightarrow> (take n r, drop n r))"

fun put_json :: "json \<Rightarrow> string" where
  "put_json JNull = ''z''"
| "put_json (JBool b) = (if b then ''t'' else ''f'')"
| "put_json (JNum i) = (if i < 0 then CHR ''-'' # put_nat (nat (- i)) else CHR ''+'' # put_nat (nat i))"
| "put_json (JStr s) = CHR ''s'' # put_str s"
| "put_json (JArr js) = CHR ''a'' # put_nat (length js) @ concat (map put_json js)"
| "put_json (JObj fs) =
     CHR ''o'' # put_nat (length fs) @ concat (map (\<lambda>(k, v). put_str k @ put_json v) fs)"

fun get_json :: "nat \<Rightarrow> string \<Rightarrow> (json \<times> string) option"
  and get_items :: "nat \<Rightarrow> nat \<Rightarrow> string \<Rightarrow> (json list \<times> string) option"
  and get_fields :: "nat \<Rightarrow> nat \<Rightarrow> string \<Rightarrow> ((string \<times> json) list \<times> string) option" where
  "get_json 0 s = None"
| "get_json (Suc k) [] = None"
| "get_json (Suc k) (c # s) =
     (if c = CHR ''z'' then Some (JNull, s)
      else if c = CHR ''t'' then Some (JBool True, s)
      else if c = CHR ''f'' then Some (JBool False, s)
      else if c = CHR ''+'' then (case get_nat s of (n, r) \<Rightarrow> Some (JNum (int n), r))
      else if c = CHR ''-'' then (case get_nat s of (n, r) \<Rightarrow> Some (JNum (- int n), r))
      else if c = CHR ''s'' then (case get_str s of (w, r) \<Rightarrow> Some (JStr w, r))
      else if c = CHR ''a'' then
        (case get_nat s of (n, r) \<Rightarrow> map_option (\<lambda>(js, r). (JArr js, r)) (get_items k n r))
      else if c = CHR ''o'' then
        (case get_nat s of (n, r) \<Rightarrow> map_option (\<lambda>(fs, r). (JObj fs, r)) (get_fields k n r))
      else None)"
| "get_items k 0 s = Some ([], s)"
| "get_items 0 (Suc n) s = None"
| "get_items (Suc k) (Suc n) s =
     (case get_json k s of None \<Rightarrow> None | Some (j, r) \<Rightarrow>
        map_option (\<lambda>(js, r). (j # js, r)) (get_items k n r))"
| "get_fields k 0 s = Some ([], s)"
| "get_fields 0 (Suc n) s = None"
| "get_fields (Suc k) (Suc n) s =
     (case get_str s of (w, r) \<Rightarrow> (case get_json k r of None \<Rightarrow> None | Some (j, r) \<Rightarrow>
        map_option (\<lambda>(fs, r). ((w, j) # fs, r)) (get_fields k n r)))"


lemma read_nat_append: "read_nat (s @ [c]) = 10 * read_nat s + (code_of c - 48)"
  by (simp add: read_nat_def)

lemma read_show_nat: "read_nat (show_nat n) = n"
proof (induction n rule: show_nat.induct)
  case (1 n)
  show ?case
  proof (cases "n < 10")
    case True
    then show ?thesis by (subst show_nat.simps) (simp add: read_nat_def)
  next
    case False
    then have "read_nat (show_nat n) = 10 * (n div 10) + n mod 10"
      using 1 by (subst show_nat.simps) (simp add: read_nat_append)
    then show ?thesis by simp
  qed
qed

lemma show_nat_no_dot: "CHR ''.'' \<notin> set (show_nat n)"
proof (induction n rule: show_nat.induct)
  case (1 n)
  have "char_of (48 + m) \<noteq> CHR ''.''" if "m < 10" for m :: nat
    using that by (simp add: char_of_eq_iff take_bit_eq_mod)
  with 1 show ?case by (subst show_nat.simps) (auto simp: eq_commute)
qed

lemma show_nat_nonempty [simp]: "show_nat n \<noteq> []"
  by (subst show_nat.simps) simp

lemma read_to_dot_append:
  "CHR ''.'' \<notin> set s \<Longrightarrow> read_to_dot (s @ CHR ''.'' # r) = (s, r)"
  by (induction s) auto

lemma get_put_nat [simp]: "get_nat (put_nat n @ r) = (n, r)"
  by (simp add: get_nat_def put_nat_def read_to_dot_append show_nat_no_dot read_show_nat)

lemma get_put_str [simp]: "get_str (put_str s @ r) = (s, r)"
  by (simp add: get_str_def put_str_def)

lemma length_put_nat: "2 \<le> length (put_nat n)"
  by (cases "show_nat n") (simp_all add: put_nat_def)

lemma put_json_nonempty: "1 \<le> length (put_json j)"
  by (cases j) simp_all

lemma get_items_put:
  assumes "\<And>j k r. j \<in> set js \<Longrightarrow> length (put_json j) \<le> k \<Longrightarrow> get_json k (put_json j @ r) = Some (j, r)"
    and "Suc (length (concat (map put_json js))) \<le> k"
  shows "get_items k (length js) (concat (map put_json js) @ r) = Some (js, r)"
  using assms
proof (induction js arbitrary: k)
  case Nil
  then show ?case by simp
next
  case (Cons j js)
  then obtain k' where k: "k = Suc k'" by (cases k) auto
  have "Suc (length (concat (map put_json js))) \<le> k'"
    using Cons.prems(2) put_json_nonempty [of j] k by simp
  then have "get_items k' (length js) (concat (map put_json js) @ r) = Some (js, r)"
    using Cons by simp
  moreover have "get_json k' (put_json j @ concat (map put_json js) @ r)
      = Some (j, concat (map put_json js) @ r)"
    using Cons.prems k by (intro Cons.prems(1)) simp_all
  ultimately show ?case by (simp add: k)
qed

abbreviation put_field :: "string \<times> json \<Rightarrow> string" where
  "put_field \<equiv> \<lambda>(k, v). put_str k @ put_json v"

lemma get_fields_put:
  assumes "\<And>w j k r. (w, j) \<in> set fs \<Longrightarrow> length (put_json j) \<le> k \<Longrightarrow> get_json k (put_json j @ r) = Some (j, r)"
    and "Suc (length (concat (map put_field fs))) \<le> k"
  shows "get_fields k (length fs) (concat (map put_field fs) @ r) = Some (fs, r)"
  using assms
proof (induction fs arbitrary: k)
  case Nil
  then show ?case by simp
next
  case (Cons f fs)
  obtain w j where f: "f = (w, j)" by force
  obtain k' where k: "k = Suc k'" using Cons.prems(2) by (cases k) auto
  have "Suc (length (concat (map put_field fs))) \<le> k'"
    using Cons.prems(2) put_json_nonempty [of j] k f by simp
  then have "get_fields k' (length fs) (concat (map put_field fs) @ r) = Some (fs, r)"
    by (intro Cons.IH Cons.prems(1)) auto
  moreover have "get_json k' (put_json j @ concat (map put_field fs) @ r)
      = Some (j, concat (map put_field fs) @ r)"
    using Cons.prems k f by (intro Cons.prems(1) [of w]) simp_all
  ultimately show ?case by (simp add: k f)
qed

lemma get_put_json: "length (put_json j) \<le> k \<Longrightarrow> get_json k (put_json j @ r) = Some (j, r)"
proof (induction j arbitrary: k r)
  case (JArr js)
  then obtain k' where k: "k = Suc k'" by (cases k) auto
  have "get_items k' (length js) (concat (map put_json js) @ r) = Some (js, r)"
    using JArr length_put_nat [of "length js"] k by (intro get_items_put) simp_all
  then show ?case by (simp add: k)
next
  case (JObj fs)
  then obtain k' where k: "k = Suc k'" by (cases k) auto
  have "get_fields k' (length fs) (concat (map put_field fs) @ r) = Some (fs, r)"
  proof (rule get_fields_put)
    fix w j k r
    assume "(w, j) \<in> set fs" and "length (put_json j) \<le> k"
    then show "get_json k (put_json j @ r) = Some (j, r)"
      by (intro JObj.IH [of "(w, j)"]) simp_all
  next
    show "Suc (length (concat (map put_field fs))) \<le> k'"
      using JObj.prems length_put_nat [of "length fs"] k by simp
  qed
  then show ?case by (simp add: k)
next
  case (JNum i)
  then obtain k' where "k = Suc k'" by (cases k) (auto split: if_splits)
  then show ?case by (cases "i < 0") simp_all
next
  case (JStr s)
  then obtain k' where "k = Suc k'" by (cases k) auto
  then show ?case by simp
next
  case (JBool b)
  then obtain k' where "k = Suc k'" by (cases k) (auto split: if_splits)
  then show ?case by simp
next
  case JNull
  then obtain k' where "k = Suc k'" by (cases k) auto
  then show ?case by simp
qed

definition read_json :: "string \<Rightarrow> json option" where
  "read_json s = map_option fst (get_json (length s) s)"

lemma read_put_json: "read_json (put_json j) = Some j"
  using get_put_json [of j "length (put_json j)" "[]"] by (simp add: read_json_def)

subsection \<open>The environment\<close>

definition sample_env :: env where
  "sample_env = \<lparr>
    cfg_num = (\<lambda>k. case map_of sample_numbers k of None \<Rightarrow> 0 | Some n \<Rightarrow> n),
    cfg_str = (\<lambda>k. if k = ''MUCYORA_AUTH_PREVIOUS_SIGNING_PUBLIC_KEYS_JSON'' then put_json (JArr [])
      else case map_of sample_strings k of None \<Rightarrow> [] | Some v \<Rightarrow> v),
    cfg_flag = (\<lambda>k. False),
    digests = \<lparr>lookupKey = ''L'', tokenKey = ''T'', contextKey = ''C'', lookupVersion = ''v1''\<rparr>,
    encryption = \<lparr>encryptionKey = ''K'', encryptionVersion = ''v1''\<rparr>,
    hmac_sha256 = (\<lambda>k m. put_str k @ m),
    sha256_base64url = (\<lambda>m. ''sha256:'' @ m),
    sha1_hex_upper = (\<lambda>m. ''00000'' @ m),
    gcm_encrypt = (\<lambda>k n a t. (t, a)),
    gcm_decrypt = (\<lambda>k n a c tag. if tag = a then Some c else None),
    stringify = put_json,
    parse_json = read_json,
    argon2_hash = (\<lambda>p. ''argon2:'' @ p),
    argon2_verify = (\<lambda>h p. Some (h = ''argon2:'' @ p)),
    argon2_needsRehash = (\<lambda>h. False),
    breach_range = (\<lambda>p. None),
    rsa_sign = (\<lambda>m. CHR ''S'' # m),
    rsa_verify = (\<lambda>k m s. k = ''public'' \<and> s = CHR ''S'' # m),
    rsa_public_key = (\<lambda>k. Some True),
    public_jwk = (\<lambda>k. [(''kty'', JStr ''RSA'')]),
    nfkc = (\<lambda>s. s),
    to_lower = (\<lambda>s. s),
    to_upper = (\<lambda>s. s),
    joi_iso_date = (\<lambda>s. if s = [] then None else Some s),
    date_value = (\<lambda>s. Some 0),
    clock = (\<lambda>i. 1000000 + int i),
    uuid = (\<lambda>i. ''uuid-'' @ show_nat i),
    random_bytes = (\<lambda>i n. replicate n (CHR ''r'')),
    gen_id = longer_id,
    db_clock = 1000000,
    default_session_status = Session_ACTIVE,
    default_token_generation = 0,
    default_step_up_status = StepUp_PENDING,
    default_idempotency_status = Idem_IN_PROGRESS\<rparr>"

lemma sample_json: "json_laws sample_env"
proof -
  have "put_json j \<noteq> []" for j using put_json_nonempty [of j] by auto
  then show ?thesis by (simp add: json_laws_def sample_env_def read_put_json)
qed

lemma sample_gcm: "gcm_laws sample_env"
  by (simp add: gcm_laws_def sample_env_def)

lemma sample_ids: "id_laws sample_env"
  by (simp add: id_laws_def sample_env_def longer_id_fresh)

lemma sample_hmac: "hmac_laws sample_env"
proof -
  have "k = k' \<and> m = m'" if "put_str k @ m = put_str k' @ m'" for k m k' m'
    using arg_cong [OF that, of get_str] by (simp only: get_put_str prod.inject)
  moreover have "hmac_sha256 sample_env = (\<lambda>k m. put_str k @ m)"
    by (simp add: sample_env_def)
  ultimately show ?thesis unfolding hmac_laws_def by metis
qed

lemma sample_rsa: "rsa_laws sample_env"
  by (simp add: rsa_laws_def sample_env_def sample_strings_def)

lemma sample_defaults: "default_laws sample_env"
  by (simp add: default_laws_def sample_env_def)

lemmas sample_laws = sample_defaults sample_json sample_gcm sample_ids sample_hmac sample_rsa

end
