(* ===== verification/Primitives.thy ===== *)
theory Primitives
  imports Sample
begin

text \<open>
  The security primitives of \<open>src/common/security\<close>: key material, keyed digests, purpose-bound
  encryption, opaque tokens, masking, normalisation and the password policy.  Exceptions are
  \<open>Inl\<close> values; \<open>i\<close> numbers the random draws of a request.
\<close>

subsection \<open>Key material\<close>

text \<open>\<open>/^[A-Za-z0-9_-]+={0,2}$/\<close>\<close>

definition key_syntax :: "string \<Rightarrow> bool" where
  "key_syntax s \<longleftrightarrow>
     (let body = takeWhile is_b64url s; pad = dropWhile is_b64url s
      in body \<noteq> [] \<and> pad \<in> {[], ''='', ''==''})"

definition decodeKeyMaterial :: "string \<Rightarrow> string \<Rightarrow> nat \<Rightarrow> string result" where
  "decodeKeyMaterial encoded name minimumBytes =
     (if \<not> key_syntax encoded
      then Inl (Raised (name @ '' must be base64url-encoded key material.''))
      else let key = b64_decode encoded in
        if length key < minimumBytes
        then Inl (Raised (name @ '' must decode to at least the minimum bytes.''))
        else Inr key)"

lemma decodeKeyMaterial_encode:
  assumes "n \<le> length s" and "s \<noteq> []"
  shows "decodeKeyMaterial (b64_encode s) name n = Inr s"
proof -
  have all: "\<forall>c \<in> set (b64_encode s). is_b64url c" by (simp add: b64_encode_alphabet)
  have "b64_encode s \<noteq> []" using assms(2) by (cases s rule: b64_encode.cases) auto
  then have "key_syntax (b64_encode s)"
    using all by (simp add: key_syntax_def Let_def takeWhile_eq_all_conv [THEN iffD2] dropWhile_eq_Nil_conv)
  then show ?thesis using assms by (simp add: decodeKeyMaterial_def)
qed

text \<open>The inner and the outer loop of \<open>assertPurposeSeparatedKeys\<close>.\<close>

fun separated_from :: "string \<times> string \<Rightarrow> (string \<times> string) list \<Rightarrow> unit result" where
  "separated_from l [] = Inr ()"
| "separated_from l (r # rs) =
     (if snd l = snd r
      then Inl (Raised (fst l @ '' and '' @ fst r @ '' must use different key material.''))
      else separated_from l rs)"

fun assertPurposeSeparatedKeys :: "(string \<times> string) list \<Rightarrow> unit result" where
  "assertPurposeSeparatedKeys [] = Inr ()"
| "assertPurposeSeparatedKeys (l # rs) =
     (case separated_from l rs of
        Inl e \<Rightarrow> Inl e
      | Inr _ \<Rightarrow> assertPurposeSeparatedKeys rs)"

lemma separated_from_ok: "separated_from l rs = Inr () \<longleftrightarrow> snd l \<notin> snd ` set rs"
  by (induction l rs rule: separated_from.induct) auto

lemma assertPurposeSeparatedKeys_ok:
  "assertPurposeSeparatedKeys ks = Inr () \<longleftrightarrow> distinct (map snd ks)"
proof (induction ks)
  case Nil
  then show ?case by simp
next
  case (Cons l ks)
  then show ?case
    using separated_from_ok [of l ks] by (auto split: sum.splits)
qed

subsection \<open>Keyed digests\<close>

definition keyed_digest_new :: "(string \<Rightarrow> string) \<Rightarrow> keyed_digest result" where
  "keyed_digest_new config =
     (case decodeKeyMaterial (config ''IDENTITY_LOOKUP_HMAC_KEY'') ''IDENTITY_LOOKUP_HMAC_KEY'' 32 of
        Inl e \<Rightarrow> Inl e
      | Inr lookup \<Rightarrow>
     (case decodeKeyMaterial (config ''TOKEN_DIGEST_HMAC_KEY'') ''TOKEN_DIGEST_HMAC_KEY'' 32 of
        Inl e \<Rightarrow> Inl e
      | Inr token \<Rightarrow>
     (case decodeKeyMaterial (config ''REQUEST_CONTEXT_HMAC_KEY'') ''REQUEST_CONTEXT_HMAC_KEY'' 32 of
        Inl e \<Rightarrow> Inl e
      | Inr context \<Rightarrow>
     (case assertPurposeSeparatedKeys
             [(''IDENTITY_LOOKUP_HMAC_KEY'', lookup), (''TOKEN_DIGEST_HMAC_KEY'', token),
              (''REQUEST_CONTEXT_HMAC_KEY'', context)] of
        Inl e \<Rightarrow> Inl e
      | Inr _ \<Rightarrow> Inr \<lparr>lookupKey = lookup, tokenKey = token, contextKey = context,
          lookupVersion = config ''IDENTITY_LOOKUP_KEY_VERSION''\<rparr>))))"

datatype digest_purpose = Identity_Lookup | Token_Digest | Request_Context | Citizen_Snapshot

fun digest_purpose_text :: "digest_purpose \<Rightarrow> string" where
  "digest_purpose_text Identity_Lookup = ''identity-lookup''"
| "digest_purpose_text Token_Digest = ''token''"
| "digest_purpose_text Request_Context = ''request-context''"
| "digest_purpose_text Citizen_Snapshot = ''citizen-snapshot''"

definition digest :: "env \<Rightarrow> digest_purpose \<Rightarrow> string \<Rightarrow> string \<Rightarrow> string" where
  "digest E purpose v key =
     hmac_sha256 E key (''mucyora-auth:'' @ digest_purpose_text purpose @ '':'' @ v)"

definition identityLookup :: "env \<Rightarrow> string \<Rightarrow> string" where
  "identityLookup E v =
     lookupVersion (digests E) @ '':'' @ digest E Identity_Lookup v (lookupKey (digests E))"

definition token_digest :: "env \<Rightarrow> string \<Rightarrow> string" where
  "token_digest E v = digest E Token_Digest v (tokenKey (digests E))"

definition requestContext :: "env \<Rightarrow> string \<Rightarrow> string" where
  "requestContext E v = digest E Request_Context v (contextKey (digests E))"

definition citizenSnapshot :: "env \<Rightarrow> string \<Rightarrow> string" where
  "citizenSnapshot E v = digest E Citizen_Snapshot v (contextKey (digests E))"

lemma digest_eqD:
  assumes "hmac_laws E" and "digest E p v k = digest E q w l"
  shows "k = l \<and> p = q \<and> v = w"
proof -
  have "k = l \<and> ''mucyora-auth:'' @ digest_purpose_text p @ '':'' @ v
      = ''mucyora-auth:'' @ digest_purpose_text q @ '':'' @ w"
    using assms unfolding digest_def hmac_laws_def by blast
  then show ?thesis by (cases p; cases q) auto
qed

lemma token_digest_inj: "hmac_laws E \<Longrightarrow> token_digest E v = token_digest E w \<longleftrightarrow> v = w"
  unfolding token_digest_def by (auto dest: digest_eqD)

lemma requestContext_inj: "hmac_laws E \<Longrightarrow> requestContext E v = requestContext E w \<longleftrightarrow> v = w"
  unfolding requestContext_def by (auto dest: digest_eqD)

text \<open>\<open>constantTimeEqual\<close>, the copy every controller and guard has: equal lengths, then bytes.\<close>

definition constantTimeEqual :: "string \<Rightarrow> string \<Rightarrow> bool" where
  "constantTimeEqual left right \<longleftrightarrow>
     length left = length right \<and> list_all (\<lambda>(a, b). a = b) (zip left right)"

lemma constantTimeEqual_iff [simp]: "constantTimeEqual left right \<longleftrightarrow> left = right"
proof
  assume "constantTimeEqual left right"
  then show "left = right"
    unfolding constantTimeEqual_def by (auto simp: list_all_length intro: nth_equalityI)
next
  assume "left = right"
  then show "constantTimeEqual left right"
    by (auto simp: constantTimeEqual_def list_all_length)
qed

subsection \<open>Purpose-bound encryption\<close>

datatype encryption_purpose =
    Rwanda_Nid | Citizen_Snapshot_Text | Email_Verification_Token | Password_Reset_Token
  | Registration_Challenge_Token | Verification_Media_Reference | Session_Upgrade_Result
  | Step_Up_Assertion

fun encryption_purpose_text :: "encryption_purpose \<Rightarrow> string" where
  "encryption_purpose_text Rwanda_Nid = ''rwanda-nid''"
| "encryption_purpose_text Citizen_Snapshot_Text = ''citizen-snapshot''"
| "encryption_purpose_text Email_Verification_Token = ''email-verification-token''"
| "encryption_purpose_text Password_Reset_Token = ''password-reset-token''"
| "encryption_purpose_text Registration_Challenge_Token = ''registration-challenge-token''"
| "encryption_purpose_text Verification_Media_Reference = ''verification-media-reference''"
| "encryption_purpose_text Session_Upgrade_Result = ''session-upgrade-result''"
| "encryption_purpose_text Step_Up_Assertion = ''step-up-assertion''"

lemma encryption_purpose_text_inj:
  "encryption_purpose_text p = encryption_purpose_text q \<longleftrightarrow> p = q"
  by (cases p; cases q) simp_all

record envelope =
  env_version :: string
  env_nonce :: string
  env_ciphertext :: string
  env_authTag :: string

definition identity_encryption_new :: "(string \<Rightarrow> string) \<Rightarrow> identity_encryption result" where
  "identity_encryption_new config =
     (case decodeKeyMaterial (config ''IDENTITY_ENCRYPTION_SECRET'') ''IDENTITY_ENCRYPTION_SECRET'' 32 of
        Inl e \<Rightarrow> Inl e
      | Inr key \<Rightarrow>
          if length key \<noteq> 32
          then Inl (Raised ''IDENTITY_ENCRYPTION_SECRET must decode to exactly 32 bytes.'')
          else Inr \<lparr>encryptionKey = key,
                     encryptionVersion = config ''IDENTITY_ENCRYPTION_KEY_VERSION''\<rparr>)"

definition additionalData :: "env \<Rightarrow> encryption_purpose \<Rightarrow> string" where
  "additionalData E purpose =
     ''mucyora-auth:gcm:'' @ encryptionVersion (encryption E) @ '':''
     @ encryption_purpose_text purpose"

definition encrypt :: "env \<Rightarrow> nat \<Rightarrow> string \<Rightarrow> encryption_purpose \<Rightarrow> envelope result" where
  "encrypt E i plaintext purpose =
     (let nonce = random_bytes E i 12 in
      if length nonce \<noteq> 12 then Inl (Raised ''Identity encryption nonce must be 12 bytes.'')
      else let (ciphertext, tag) =
             gcm_encrypt E (encryptionKey (encryption E)) nonce (additionalData E purpose) plaintext
        in Inr \<lparr>env_version = encryptionVersion (encryption E), env_nonce = b64_encode nonce,
                env_ciphertext = b64_encode ciphertext, env_authTag = b64_encode tag\<rparr>)"

definition decrypt :: "env \<Rightarrow> envelope \<Rightarrow> encryption_purpose \<Rightarrow> string result" where
  "decrypt E v purpose =
     (if env_version v \<noteq> encryptionVersion (encryption E)
      then Inl (Raised ''Unsupported identity encryption envelope.'')
      else (case gcm_decrypt E (encryptionKey (encryption E)) (b64_decode (env_nonce v))
                   (additionalData E purpose) (b64_decode (env_ciphertext v))
                   (b64_decode (env_authTag v)) of
              None \<Rightarrow> Inl (Raised ''Unsupported state or unable to authenticate data'')
            | Some t \<Rightarrow> Inr t))"

definition envelope_json :: "envelope \<Rightarrow> json" where
  "envelope_json v = JObj
     [(''format'', JStr ''gcm''), (''version'', JStr (env_version v)), (''nonce'', JStr (env_nonce v)),
      (''ciphertext'', JStr (env_ciphertext v)), (''authTag'', JStr (env_authTag v))]"

definition parseEnvelope :: "env \<Rightarrow> string \<Rightarrow> envelope result" where
  "parseEnvelope E s =
     (case parse_json E s of
        None \<Rightarrow> Inl (Raised ''Invalid identity encryption envelope.'')
      | Some candidate \<Rightarrow>
        (case (json_field ''format'' candidate, json_field ''version'' candidate,
               json_field ''nonce'' candidate, json_field ''ciphertext'' candidate,
               json_field ''authTag'' candidate) of
           (Some (JStr format), Some (JStr version), Some (JStr nonce), Some (JStr ciphertext),
            Some (JStr tag)) \<Rightarrow>
             if format \<noteq> ''gcm'' then Inl (Raised ''Invalid identity encryption envelope.'')
             else Inr \<lparr>env_version = version, env_nonce = nonce, env_ciphertext = ciphertext,
                        env_authTag = tag\<rparr>
         | _ \<Rightarrow> Inl (Raised ''Invalid identity encryption envelope.'')))"

definition seal :: "env \<Rightarrow> nat \<Rightarrow> string \<Rightarrow> encryption_purpose \<Rightarrow> string result" where
  "seal E i plaintext purpose =
     (case encrypt E i plaintext purpose of
        Inl e \<Rightarrow> Inl e
      | Inr v \<Rightarrow> Inr (stringify E (envelope_json v)))"

definition open_sealed :: "env \<Rightarrow> string \<Rightarrow> encryption_purpose \<Rightarrow> string result" where
  "open_sealed E s purpose =
     (case parseEnvelope E s of
        Inl e \<Rightarrow> Inl e
      | Inr v \<Rightarrow> decrypt E v purpose)"

lemma parse_envelope_json:
  "json_laws E \<Longrightarrow> parseEnvelope E (stringify E (envelope_json v)) = Inr v"
  by (simp add: parseEnvelope_def envelope_json_def json_lawsD)

lemma additionalData_inj: "additionalData E p = additionalData E q \<longleftrightarrow> p = q"
  by (simp add: additionalData_def encryption_purpose_text_inj)

lemma open_seal:
  assumes "json_laws E" and "gcm_laws E" and "seal E i t p = Inr s"
  shows "open_sealed E s p = Inr t"
    and "q \<noteq> p \<Longrightarrow> open_sealed E s q = Inl (Raised ''Unsupported state or unable to authenticate data'')"
  using assms
  by (auto simp: seal_def encrypt_def open_sealed_def decrypt_def parse_envelope_json Let_def
      additionalData_inj gcm_lawsD split_beta split: sum.splits if_splits)

lemma seal_total: "length (random_bytes E i 12) = 12 \<Longrightarrow> \<exists>s. seal E i t p = Inr s"
  by (auto simp: seal_def encrypt_def Let_def split_beta)

subsection \<open>Opaque tokens\<close>

record opaque_token =
  tok_token :: string
  tok_digest :: string

definition generate_token :: "env \<Rightarrow> nat \<Rightarrow> nat \<Rightarrow> opaque_token result" where
  "generate_token E i bytes =
     (if bytes < 32 \<or> bytes > 64
      then Inl (Raised ''Opaque tokens must contain between 32 and 64 bytes.'')
      else let token = b64_encode (random_bytes E i bytes)
        in Inr \<lparr>tok_token = token, tok_digest = token_digest E token\<rparr>)"

lemma generate_tokenD:
  "generate_token E i n = Inr t \<Longrightarrow>
     tok_token t = b64_encode (random_bytes E i n) \<and> tok_digest t = token_digest E (tok_token t)"
  by (auto simp: generate_token_def Let_def split: if_splits)

lemma generate_token_valid [simp]:
  "32 \<le> n \<Longrightarrow> n \<le> 64 \<Longrightarrow> generate_token E i n =
     Inr \<lparr>tok_token = b64_encode (random_bytes E i n),
          tok_digest = token_digest E (b64_encode (random_bytes E i n))\<rparr>"
  by (simp add: generate_token_def Let_def)

subsection \<open>Masking\<close>

text \<open>\<open>value.slice(-n)\<close>: \<open>-0\<close> is \<open>0\<close>, so for \<open>n = 0\<close> it is the whole string.\<close>

definition slice_from_end :: "nat \<Rightarrow> string \<Rightarrow> string" where
  "slice_from_end n s = (if n = 0 then s else drop (length s - n) s)"

definition maskIdentifier :: "string \<Rightarrow> int \<Rightarrow> string result" where
  "maskIdentifier v visibleSuffixLength =
     (if visibleSuffixLength < 0 \<or> visibleSuffixLength > int (length v)
      then Inl (Raised ''Invalid identifier mask length.'')
      else Inr (replicate (length v - nat visibleSuffixLength) (CHR ''*'')
                @ slice_from_end (nat visibleSuffixLength) v))"

subsection \<open>Normalisation\<close>

text \<open>\<open>/^[^\s@]+@[^\s@]+\.[^\s@]+$/\<close>\<close>

definition email_shape :: "string \<Rightarrow> bool" where
  "email_shape s \<longleftrightarrow>
     (\<forall>c \<in> set s. \<not> is_space c)
     \<and> (case split_on (CHR ''@'') s of
          [l, d] \<Rightarrow> l \<noteq> [] \<and> CHR ''.'' \<in> set (butlast (tl d))
        | _ \<Rightarrow> False)"

definition normalizeEmail :: "env \<Rightarrow> string \<Rightarrow> string result" where
  "normalizeEmail E email =
     (let normalized = to_lower E (trim (nfkc E email)) in
      if length normalized < 3 \<or> length normalized > 320 \<or> \<not> email_shape normalized
      then Inl (Http_Message 400 ''A valid email address is required.'')
      else Inr normalized)"

definition normalizeRwandaNid :: "env \<Rightarrow> string \<Rightarrow> string result" where
  "normalizeRwandaNid E nid =
     (let canonical = filter (\<lambda>c. \<not> (is_space c \<or> c = CHR ''-'')) (nfkc E nid) in
      if \<not> (length canonical = 16 \<and> (\<forall>c \<in> set canonical. is_digit c))
      then Inl (Http_Message 400 ''A valid 16-digit Rwanda National ID is required.'')
      else Inr canonical)"

lemma digit_not_separator: "is_digit c \<Longrightarrow> \<not> (is_space c \<or> c = CHR ''-'')"
  by (auto simp: char_class_defs)

subsection \<open>Password policy\<close>

definition COMMON_PASSWORDS :: "string list" where
  "COMMON_PASSWORDS =
     [''123456789012345'', ''correct horse battery staple'', ''iloveyouiloveyou'',
      ''letmeinletmeinletmein'', ''mucyoramucyora'', ''passwordpassword'',
      ''qwertyqwertyqwerty'', ''welcome123456789'']"

text \<open>\<open>Array.from(s).length\<close>: code points, that is bytes that do not continue one.\<close>

definition code_points :: "string \<Rightarrow> nat" where
  "code_points s = length (filter (\<lambda>c. \<not> (128 \<le> code_of c \<and> code_of c < 192)) s)"

definition assertAcceptable :: "env \<Rightarrow> string \<Rightarrow> string \<Rightarrow> unit result" where
  "assertAcceptable E password emailNormalized =
     (let len = code_points password;
          lowered = to_lower E password;
          emailLocalPart = hd (split_on (CHR ''@'') emailNormalized)
      in if len < 15 \<or> len > 128 \<or> lowered \<in> set COMMON_PASSWORDS
            \<or> (length emailLocalPart \<ge> 4 \<and> str_includes lowered emailLocalPart)
         then Inl (Http 400 ''PASSWORD_POLICY_FAILED'') else Inr ())"

text \<open>\<open>text.split(/\r?\n/)\<close>.\<close>

definition strip_cr :: "string \<Rightarrow> string" where
  "strip_cr s = (if s \<noteq> [] \<and> code_of (last s) = 13 then butlast s else s)"

definition text_lines :: "string \<Rightarrow> string list" where
  "text_lines t = (let ls = split_on (char_of (10::nat)) t in map strip_cr (butlast ls) @ [last ls])"

definition assertNotCompromised :: "env \<Rightarrow> string \<Rightarrow> unit result" where
  "assertNotCompromised E password =
     (if \<not> cfg_flag E ''COMPROMISED_PASSWORD_CHECK_ENABLED'' then Inr ()
      else let digest = sha1_hex_upper E password; pre = take 5 digest; suffix = drop 5 digest
        in (case breach_range E pre of
              None \<Rightarrow> Inl (Http 503 ''PASSWORD_SCREENING_UNAVAILABLE'')
            | Some body \<Rightarrow>
                if list_ex (\<lambda>line. hd (split_on (CHR '':'') line) = suffix) (text_lines body)
                then Inl (Http 400 ''PASSWORD_COMPROMISED'') else Inr ()))"

definition password_hash :: "env \<Rightarrow> string \<Rightarrow> string \<Rightarrow> string result" where
  "password_hash E password emailNormalized =
     (case assertAcceptable E password emailNormalized of
        Inl e \<Rightarrow> Inl e
      | Inr _ \<Rightarrow> (case assertNotCompromised E password of
          Inl e \<Rightarrow> Inl e
        | Inr _ \<Rightarrow> Inr (argon2_hash E password)))"

definition password_verify :: "env \<Rightarrow> string \<Rightarrow> string \<Rightarrow> bool" where
  "password_verify E h password =
     (case argon2_verify E h password of None \<Rightarrow> False | Some b \<Rightarrow> b)"

lemma password_hash_InrD:
  "password_hash E p e = Inr h \<Longrightarrow>
     h = argon2_hash E p \<and> 15 \<le> code_points p \<and> code_points p \<le> 128
     \<and> to_lower E p \<notin> set COMMON_PASSWORDS"
  by (auto simp: password_hash_def assertAcceptable_def Let_def split: sum.splits if_splits)

end
