(* ===== verification/Database.thy ===== *)
theory Database
  imports Primitives
begin

text \<open>
  The rows the services read and write and the state that holds them, one field per table, with
  the columns the source names; the identifiers of new rows come from the database
  (\<open>gen_id\<close>).  A \<open>create\<close> fails with Prisma's \<open>P2002\<close> when the row's unique key is taken; the
  unique keys are those the source looks rows up by with \<open>findUnique\<close>.
\<close>

subsection \<open>Rows\<close>

record user_row =
  usr_id :: string
  usr_emailNormalized :: string
  usr_emailVerifiedAt :: "int option"
  usr_accountStatus :: user_account_status
  usr_identityStatus :: identity_status
  usr_isVerified :: bool
  usr_isActive :: bool
  usr_isIdVerified :: bool
  usr_idVerifiedAt :: "int option"
  usr_verificationAttempts :: nat
  usr_version :: nat

record credential_row =
  cred_id :: string
  cred_userId :: string
  cred_passwordHash :: string
  cred_passwordAlgorithm :: string
  cred_passwordChangedAt :: "int option"
  cred_failedLoginCount :: nat
  cred_lockedUntil :: "int option"

record identity_row =
  cit_id :: string
  cit_userId :: string
  cit_encryptedIdentifier :: string
  cit_lookupDigest :: string
  cit_maskedIdentifier :: string
  cit_sourceReference :: "string option"
  cit_verifiedAt :: "int option"
  cit_surName :: string
  cit_postNames :: string
  cit_sex :: string
  cit_dateOfBirth :: int
  cit_countryOfBirth :: string

record consent_row =
  con_id :: string
  con_userId :: string
  con_type :: consent_type
  con_policyVersion :: string
  con_grantedAt :: int
  con_revokedAt :: "int option"

record challenge_row =
  chl_id :: string
  chl_lookupDigest :: string
  chl_emailNormalized :: string
  chl_status :: challenge_status
  chl_snapshotEncrypted :: string
  chl_snapshotDigest :: string
  chl_expiresAt :: int
  chl_consumedAt :: "int option"
  chl_attemptCount :: nat
  chl_createdIpHash :: string

record idempotency_row =
  idm_id :: string
  idm_scope :: string
  idm_key :: string
  idm_requestDigest :: string
  idm_status :: idempotency_status
  idm_responseReference :: "string option"
  idm_expiresAt :: int

record email_token_row =
  emt_id :: string
  emt_userId :: string
  emt_tokenDigest :: string
  emt_expiresAt :: int
  emt_used :: bool
  emt_usedAt :: "int option"
  emt_supersededAt :: "int option"

record reset_request_row =
  rst_id :: string
  rst_userId :: string
  rst_tokenDigest :: string
  rst_expiresAt :: int
  rst_usedAt :: "int option"
  rst_revokedAt :: "int option"
  rst_requestedIpHash :: "string option"

record session_row =
  ses_id :: string
  ses_userId :: string
  ses_familyId :: string
  ses_level :: session_level
  ses_status :: session_status
  ses_deviceId :: string
  ses_deviceLabel :: "string option"
  ses_ipHash :: string
  ses_userAgentHash :: string
  ses_riskLevel :: "string option"
  ses_riskReason :: "string option"
  ses_createdAt :: int
  ses_lastUsedAt :: int
  ses_expiresAt :: int
  ses_revokedAt :: "int option"
  ses_revocationReason :: "string option"
  ses_version :: nat

record refresh_row =
  rft_id :: string
  rft_userId :: string
  rft_sessionId :: string
  rft_tokenDigest :: string
  rft_tokenType :: string
  rft_generation :: int
  rft_issuedAt :: int
  rft_expiresAt :: int
  rft_usedAt :: "int option"
  rft_revoked :: bool
  rft_revokedAt :: "int option"
  rft_replacedBy :: "string option"
  rft_reuseDetectedAt :: "int option"

record attempt_row =
  att_id :: string
  att_userId :: string
  att_purpose :: verification_purpose
  att_status :: attempt_status
  att_policyVersion :: string
  att_documentBindingVerified :: bool
  att_attemptNumber :: nat
  att_ipHash :: string
  att_userAgentHash :: string
  att_startedAt :: int
  att_completedAt :: "int option"
  att_retryAfter :: "int option"
  att_reasonCode :: "string option"
  att_livenessSessionId :: "string option"
  att_engineRequestId :: "string option"
  att_faceSimilarity :: "int option"
  att_livenessConfidence :: "int option"
  att_compositeScore :: "int option"

record media_row =
  med_id :: string
  med_attemptId :: string
  med_mediaType :: media_type
  med_reference :: string
  med_referenceDigest :: "string option"
  med_objectVersion :: "string option"
  med_checksum :: string
  med_contentType :: string
  med_sizeBytes :: nat
  med_expiresAt :: int
  med_deletedAt :: "int option"
  med_nextDeletionAttemptAt :: int
  med_deletionAttemptCount :: nat
  med_lastDeletionError :: "string option"
  med_legalHoldUntil :: "int option"

record step_up_row =
  sup_id :: string
  sup_userId :: string
  sup_sessionId :: string
  sup_attemptId :: string
  sup_purpose :: verification_purpose
  sup_targetDigest :: string
  sup_status :: step_up_status
  sup_policyVersion :: string
  sup_expiresAt :: int
  sup_verifiedAt :: "int option"
  sup_assertionDigest :: "string option"
  sup_assertionEncrypted :: "string option"
  sup_assertionExpiresAt :: "int option"
  sup_consumedAt :: "int option"
  sup_consumedByService :: "string option"

record outbox_row =
  obx_id :: string
  obx_aggregateId :: string
  obx_eventType :: string
  obx_payload :: json
  obx_createdAt :: int
  obx_attemptCount :: nat
  obx_nextAttemptAt :: int
  obx_processingStartedAt :: "int option"
  obx_processingBy :: "string option"
  obx_publishedAt :: "int option"
  obx_deadLetteredAt :: "int option"
  obx_lastError :: "string option"

text \<open>\<open>WriteSecurityEventInput\<close>, and the row it becomes.\<close>

record event_input =
  evi_userId :: "string option"
  evi_sessionId :: "string option"
  evi_type :: event_type
  evi_severity :: event_severity
  evi_outcome :: event_outcome
  evi_reasonCode :: "string option"
  evi_correlationId :: string
  evi_ipHash :: "string option"
  evi_userAgentHash :: "string option"
  evi_metadata :: "(string \<times> json) list option"

record event_row = event_input +
  evt_id :: string
  evt_createdAt :: int
  evt_legalHoldUntil :: "int option"

text \<open>The request context every handler receives (correlation id, address, user agent).\<close>

record request_context =
  rq_correlationId :: string
  rq_ipAddress :: string
  rq_userAgent :: string

subsection \<open>The database\<close>

record db =
  users :: "user_row list"
  credentials :: "credential_row list"
  identities :: "identity_row list"
  consents :: "consent_row list"
  challenges :: "challenge_row list"
  idempotency :: "idempotency_row list"
  email_tokens :: "email_token_row list"
  reset_requests :: "reset_request_row list"
  sessions :: "session_row list"
  refresh_tokens :: "refresh_row list"
  attempts :: "attempt_row list"
  media :: "media_row list"
  step_ups :: "step_up_row list"
  outbox :: "outbox_row list"
  events :: "event_row list"

definition empty_db :: db where
  "empty_db = \<lparr>users = [], credentials = [], identities = [], consents = [], challenges = [],
     idempotency = [], email_tokens = [], reset_requests = [], sessions = [], refresh_tokens = [],
     attempts = [], media = [], step_ups = [], outbox = [], events = []\<rparr>"

abbreviation unique_violation :: api_error where
  "unique_violation \<equiv> Raised ''P2002''"

abbreviation record_not_found :: api_error where
  "record_not_found \<equiv> Raised ''P2025''"

subsection \<open>Creates shared by several services\<close>

definition create_event :: "env \<Rightarrow> event_input \<Rightarrow> db \<Rightarrow> db" where
  "create_event E i d = d\<lparr>events := events d @
     [\<lparr>evi_userId = evi_userId i, evi_sessionId = evi_sessionId i, evi_type = evi_type i,
       evi_severity = evi_severity i, evi_outcome = evi_outcome i,
       evi_reasonCode = evi_reasonCode i, evi_correlationId = evi_correlationId i,
       evi_ipHash = evi_ipHash i, evi_userAgentHash = evi_userAgentHash i,
       evi_metadata = evi_metadata i, evt_id = gen_id E (map evt_id (events d)),
       evt_createdAt = db_clock E, evt_legalHoldUntil = None\<rparr>]\<rparr>"

definition create_outbox :: "env \<Rightarrow> string \<Rightarrow> string \<Rightarrow> json \<Rightarrow> db \<Rightarrow> db" where
  "create_outbox E aggregateId eventType payload d = d\<lparr>outbox := outbox d @
     [\<lparr>obx_id = gen_id E (map obx_id (outbox d)), obx_aggregateId = aggregateId,
       obx_eventType = eventType, obx_payload = payload, obx_createdAt = db_clock E,
       obx_attemptCount = 0, obx_nextAttemptAt = db_clock E, obx_processingStartedAt = None,
       obx_processingBy = None, obx_publishedAt = None, obx_deadLetteredAt = None,
       obx_lastError = None\<rparr>]\<rparr>"

text \<open>\<open>refreshToken.create\<close>: \<open>tokenDigest\<close> is unique.  The identifier argument of the row is replaced.\<close>

definition create_refresh_token :: "env \<Rightarrow> refresh_row \<Rightarrow> db \<Rightarrow> string result \<times> db" where
  "create_refresh_token E r d =
     (if rft_tokenDigest r \<in> rft_tokenDigest ` set (refresh_tokens d) then (Inl unique_violation, d)
      else let new = gen_id E (map rft_id (refresh_tokens d))
        in (Inr new, d\<lparr>refresh_tokens := refresh_tokens d @ [r\<lparr>rft_id := new\<rparr>]\<rparr>))"

definition create_session :: "env \<Rightarrow> session_row \<Rightarrow> db \<Rightarrow> string \<times> db" where
  "create_session E s d =
     (let new = gen_id E (map ses_id (sessions d))
      in (new, d\<lparr>sessions := sessions d @ [s\<lparr>ses_id := new\<rparr>]\<rparr>))"

definition create_reset_request :: "env \<Rightarrow> reset_request_row \<Rightarrow> db \<Rightarrow> unit result \<times> db" where
  "create_reset_request E r d =
     (if rst_tokenDigest r \<in> rst_tokenDigest ` set (reset_requests d) then (Inl unique_violation, d)
      else (Inr (), d\<lparr>reset_requests := reset_requests d @
              [r\<lparr>rst_id := gen_id E (map rst_id (reset_requests d))\<rparr>]\<rparr>))"

definition create_email_token :: "env \<Rightarrow> email_token_row \<Rightarrow> db \<Rightarrow> unit result \<times> db" where
  "create_email_token E r d =
     (if emt_tokenDigest r \<in> emt_tokenDigest ` set (email_tokens d) then (Inl unique_violation, d)
      else (Inr (), d\<lparr>email_tokens := email_tokens d @
              [r\<lparr>emt_id := gen_id E (map emt_id (email_tokens d))\<rparr>]\<rparr>))"

lemma create_event_frame [simp]:
  "users (create_event E i d) = users d" "credentials (create_event E i d) = credentials d"
  "identities (create_event E i d) = identities d" "consents (create_event E i d) = consents d"
  "challenges (create_event E i d) = challenges d" "idempotency (create_event E i d) = idempotency d"
  "email_tokens (create_event E i d) = email_tokens d"
  "reset_requests (create_event E i d) = reset_requests d"
  "sessions (create_event E i d) = sessions d"
  "refresh_tokens (create_event E i d) = refresh_tokens d"
  "attempts (create_event E i d) = attempts d" "media (create_event E i d) = media d"
  "step_ups (create_event E i d) = step_ups d" "outbox (create_event E i d) = outbox d"
  by (simp_all add: create_event_def)

lemma create_outbox_frame [simp]:
  "users (create_outbox E a t p d) = users d" "credentials (create_outbox E a t p d) = credentials d"
  "identities (create_outbox E a t p d) = identities d" "consents (create_outbox E a t p d) = consents d"
  "challenges (create_outbox E a t p d) = challenges d"
  "idempotency (create_outbox E a t p d) = idempotency d"
  "email_tokens (create_outbox E a t p d) = email_tokens d"
  "reset_requests (create_outbox E a t p d) = reset_requests d"
  "sessions (create_outbox E a t p d) = sessions d"
  "refresh_tokens (create_outbox E a t p d) = refresh_tokens d"
  "attempts (create_outbox E a t p d) = attempts d" "media (create_outbox E a t p d) = media d"
  "step_ups (create_outbox E a t p d) = step_ups d" "events (create_outbox E a t p d) = events d"
  by (simp_all add: create_outbox_def)

subsection \<open>The security-event writer\<close>

text \<open>\<open>/^[a-z][A-Za-z0-9]{0,63}$/\<close>, and the forbidden words of a metadata key, in any case.\<close>

definition metadata_key_syntax :: "string \<Rightarrow> bool" where
  "metadata_key_syntax k \<longleftrightarrow>
     (case k of [] \<Rightarrow> False | c # cs \<Rightarrow> is_lower c \<and> (\<forall>x \<in> set cs. is_alnum x) \<and> length cs \<le> 63)"

definition ascii_lower :: "string \<Rightarrow> string" where
  "ascii_lower = map (\<lambda>c. if is_upper c then char_of (code_of c + 32) else c)"

definition forbidden_words :: "string list" where
  "forbidden_words = [''password'', ''token'', ''secret'', ''authorization'', ''cookie'', ''nid'',
     ''identity'', ''biometric'']"

definition forbidden_key :: "string \<Rightarrow> bool" where
  "forbidden_key k \<longleftrightarrow> list_ex (str_includes (ascii_lower k)) forbidden_words"

fun scalar :: "json \<Rightarrow> bool" where
  "scalar (JArr js) = False"
| "scalar (JObj fs) = False"
| "scalar j = True"

definition metadata_entry :: "string \<times> json \<Rightarrow> unit result" where
  "metadata_entry e = (case e of (k, v) \<Rightarrow>
     if \<not> metadata_key_syntax k \<or> forbidden_key k
     then Inl (Raised ''Security event metadata contains a forbidden key.'')
     else if \<not> scalar v then Inl (Raised ''Security event metadata values must be scalar.'')
     else (case v of
        JStr s \<Rightarrow> if length s > 256 then Inl (Raised ''Security event metadata value is too long.'')
                  else Inr ()
      | _ \<Rightarrow> Inr ()))"

fun metadata_entries :: "(string \<times> json) list \<Rightarrow> unit result" where
  "metadata_entries [] = Inr ()"
| "metadata_entries (e # es) =
     (case metadata_entry e of Inl x \<Rightarrow> Inl x | Inr _ \<Rightarrow> metadata_entries es)"

definition sanitizeMetadata ::
  "(string \<times> json) list option \<Rightarrow> (string \<times> json) list option result" where
  "sanitizeMetadata m = (case m of
     None \<Rightarrow> Inr None
   | Some es \<Rightarrow>
       if length es > 20 then Inl (Raised ''Security event metadata has too many fields.'')
       else (case metadata_entries es of Inl x \<Rightarrow> Inl x | Inr _ \<Rightarrow> Inr (Some es)))"

definition write_event :: "env \<Rightarrow> event_input \<Rightarrow> db \<Rightarrow> string result \<times> db" where
  "write_event E i d =
     (case sanitizeMetadata (evi_metadata i) of
        Inl e \<Rightarrow> (Inl e, d)
      | Inr m \<Rightarrow> (Inr (gen_id E (map evt_id (events d))), create_event E (i\<lparr>evi_metadata := m\<rparr>) d))"

lemma sanitizeMetadata_ok:
  assumes "sanitizeMetadata (Some es) = Inr m"
  shows "m = Some es" and "length es \<le> 20"
    and "(k, v) \<in> set es \<Longrightarrow> \<not> forbidden_key k \<and> scalar v"
    and "(k, JStr s) \<in> set es \<Longrightarrow> length s \<le> 256"
proof -
  have all: "metadata_entries es = Inr () \<Longrightarrow> e \<in> set es \<Longrightarrow> metadata_entry e = Inr ()" for e
    by (induction es) (auto split: sum.splits)
  from assms have ok: "metadata_entries es = Inr ()" "m = Some es" "length es \<le> 20"
    by (auto simp: sanitizeMetadata_def split: if_splits sum.splits)
  then show "m = Some es" and "length es \<le> 20" by simp_all
  show "(k, v) \<in> set es \<Longrightarrow> \<not> forbidden_key k \<and> scalar v"
    using all [OF ok(1)] by (force simp: metadata_entry_def split: if_splits)
  show "(k, JStr s) \<in> set es \<Longrightarrow> length s \<le> 256"
    using all [OF ok(1)] by (force simp: metadata_entry_def split: if_splits)
qed

end
