(* ===== verification/Redis.thy ===== *)
theory Redis
  imports Database
begin

text \<open>
  The Redis server as the source uses it: an explicit store of keys with expiry times, the
  commands \<open>INCR\<close>, \<open>PEXPIRE\<close>, \<open>GET\<close>, \<open>SET\<close> (plain and \<open>EX ... NX\<close>) and \<open>DEL\<close>, and the two Lua
  scripts, which run atomically.  On top of it: the connection guard of
  \<open>integrations/redis/redis-connection.ts\<close>, the four rate limiters, the citizen cache and the
  distributed job lock.
\<close>

subsection \<open>The server\<close>

datatype redis_value = Counter nat | Text string

datatype redis_status = Status_ready | Status_wait | Status_other

text \<open>
  \<open>rds_connecting\<close> is the entry of \<open>connectionAttempts\<close> for the client (the outcome the pending
  attempt will have); \<open>rds_online\<close> says whether the server answers.
\<close>

record redis =
  rds_status :: redis_status
  rds_connecting :: "bool option"
  rds_online :: bool
  rds_now :: int
  rds_store :: "string \<rightharpoonup> redis_value \<times> int option"

definition live :: "redis \<Rightarrow> string \<Rightarrow> (redis_value \<times> int option) option" where
  "live r k = (case rds_store r k of
     None \<Rightarrow> None
   | Some (v, None) \<Rightarrow> Some (v, None)
   | Some (v, Some e) \<Rightarrow> if rds_now r < e then Some (v, Some e) else None)"

definition put_entry :: "string \<Rightarrow> redis_value \<times> int option \<Rightarrow> redis \<Rightarrow> redis" where
  "put_entry k v r = r\<lparr>rds_store := (rds_store r)(k \<mapsto> v)\<rparr>"

definition del_entry :: "string \<Rightarrow> redis \<Rightarrow> redis" where
  "del_entry k r = r\<lparr>rds_store := (rds_store r)(k := None)\<rparr>"

definition pass_time :: "nat \<Rightarrow> redis \<Rightarrow> redis" where
  "pass_time dt r = r\<lparr>rds_now := rds_now r + int dt\<rparr>"

definition redis_incr :: "string \<Rightarrow> redis \<Rightarrow> nat result \<times> redis" where
  "redis_incr k r = (case live r k of
     None \<Rightarrow> (Inr 1, put_entry k (Counter 1, None) r)
   | Some (Counter n, e) \<Rightarrow> (Inr (Suc n), put_entry k (Counter (Suc n), e) r)
   | Some (Text s, e) \<Rightarrow> (Inl (Raised ''ERR value is not an integer or out of range''), r))"

definition redis_pexpire :: "string \<Rightarrow> nat \<Rightarrow> redis \<Rightarrow> redis" where
  "redis_pexpire k ms r = (case live r k of
     None \<Rightarrow> r
   | Some (v, e) \<Rightarrow> put_entry k (v, Some (rds_now r + int ms)) r)"

definition redis_get :: "string \<Rightarrow> redis \<Rightarrow> string option" where
  "redis_get k r = (case live r k of Some (Text s, e) \<Rightarrow> Some s | _ \<Rightarrow> None)"

abbreviation redis_unreachable :: api_error where
  "redis_unreachable \<equiv> Raised ''Connection is closed.''"

text \<open>\<open>SET key value EX seconds NX\<close>: \<open>True\<close> stands for the reply \<open>OK\<close>.\<close>

definition redis_set_nx :: "string \<Rightarrow> string \<Rightarrow> nat \<Rightarrow> redis \<Rightarrow> bool result \<times> redis" where
  "redis_set_nx k v secs r =
     (if \<not> rds_online r then (Inl redis_unreachable, r)
      else if live r k \<noteq> None then (Inr False, r)
      else (Inr True, put_entry k (Text v, Some (rds_now r + int secs * 1000)) r))"

text \<open>\<open>INCREMENT_SCRIPT\<close>: the same text in the four limiters.\<close>

definition increment_script :: "string \<Rightarrow> nat \<Rightarrow> redis \<Rightarrow> nat result \<times> redis" where
  "increment_script k ms r =
     (if \<not> rds_online r then (Inl redis_unreachable, r)
      else case redis_incr k r of
        (Inl e, r1) \<Rightarrow> (Inl e, r1)
      | (Inr current, r1) \<Rightarrow>
          (Inr current, if current = 1 then redis_pexpire k ms r1 else r1))"

text \<open>\<open>RELEASE_LOCK_SCRIPT\<close>: delete the key when it still holds the caller's value.\<close>

definition release_script :: "string \<Rightarrow> string \<Rightarrow> redis \<Rightarrow> nat result \<times> redis" where
  "release_script k v r =
     (if \<not> rds_online r then (Inl redis_unreachable, r)
      else if redis_get k r = Some v then (Inr 1, del_entry k r)
      else (Inr 0, r))"

subsection \<open>The connection guard\<close>

definition redis_connect :: "redis \<Rightarrow> unit result \<times> redis" where
  "redis_connect r =
     (if rds_online r then (Inr (), r\<lparr>rds_status := Status_ready\<rparr>)
      else (Inl redis_unreachable, r\<lparr>rds_status := Status_other\<rparr>))"

definition ensureRedisConnected :: "redis \<Rightarrow> unit result \<times> redis" where
  "ensureRedisConnected r =
     (if rds_status r = Status_ready then (Inr (), r)
      else (case rds_connecting r of
        Some ok \<Rightarrow> (if ok then Inr () else Inl redis_unreachable, r)
      | None \<Rightarrow>
          if rds_status r \<noteq> Status_wait then (Inl (Raised ''Redis is not ready''), r)
          else redis_connect r))"

lemma ensureRedisConnected_store [simp]:
  "rds_store (snd (ensureRedisConnected r)) = rds_store r"
  "rds_now (snd (ensureRedisConnected r)) = rds_now r"
  "rds_online (snd (ensureRedisConnected r)) = rds_online r"
  by (auto simp: ensureRedisConnected_def redis_connect_def split: option.splits)

lemma ensureRedisConnected_ready [simp]:
  "rds_status r = Status_ready \<Longrightarrow> ensureRedisConnected r = (Inr (), r)"
  by (simp add: ensureRedisConnected_def)

lemma live_cong:
  "rds_store r = rds_store s \<Longrightarrow> rds_now r = rds_now s \<Longrightarrow> live r k = live s k"
  by (simp add: live_def split: option.splits)

subsection \<open>Rate limiters\<close>

text \<open>
  \<open>await Promise.all(keys.map(k => redis.eval(INCREMENT_SCRIPT, 1, k, window)))\<close>: every key is
  counted, in order; the first failure is the outcome.
\<close>

fun hit_all :: "string list \<Rightarrow> nat \<Rightarrow> redis \<Rightarrow> nat list result \<times> redis" where
  "hit_all [] window r = (Inr [], r)"
| "hit_all (k # ks) window r =
     (let (c, r1) = increment_script k window r; (cs, r2) = hit_all ks window r1
      in ((case c of Inl e \<Rightarrow> Inl e | Inr n \<Rightarrow>
             (case cs of Inl e \<Rightarrow> Inl e | Inr ns \<Rightarrow> Inr (n # ns))), r2))"

abbreviation MINUTE_WINDOW :: nat where "MINUTE_WINDOW \<equiv> 60000"
abbreviation HOUR_WINDOW :: nat where "HOUR_WINDOW \<equiv> 3600000"

text \<open>\<open>auth-rate-limiter.service.ts\<close>\<close>

abbreviation authentication_limit :: api_error where
  "authentication_limit \<equiv> Raised ''AuthenticationRateLimitError''"

definition auth_assertAllowed ::
  "env \<Rightarrow> string \<Rightarrow> nat \<Rightarrow> (string \<times> string) list \<Rightarrow> redis \<Rightarrow> unit result \<times> redis" where
  "auth_assertAllowed E operation limit dimensions r =
     (case ensureRedisConnected r of
        (Inl e, r1) \<Rightarrow> (Inl e, r1)
      | (Inr _, r1) \<Rightarrow>
          (case hit_all (map (\<lambda>(dimension, digest). cfg_str E ''CACHE_PREFIX'' @ ''rate:'' @ operation
                  @ '':'' @ dimension @ '':'' @ digest) dimensions) MINUTE_WINDOW r1 of
             (Inl e, r2) \<Rightarrow> (Inl e, r2)
           | (Inr counts, r2) \<Rightarrow>
               (if list_ex (\<lambda>count. limit < count) counts then Inl authentication_limit
                else Inr (), r2)))"

definition assertLoginAllowed ::
  "env \<Rightarrow> string \<Rightarrow> string \<Rightarrow> string \<Rightarrow> redis \<Rightarrow> unit result \<times> redis" where
  "assertLoginAllowed E ipDigest emailDigest deviceDigest =
     auth_assertAllowed E ''login'' (cfg_num E ''LOGIN_LIMIT_PER_MINUTE'')
       [(''ip'', ipDigest), (''email'', emailDigest), (''device'', deviceDigest)]"

definition assertRefreshAllowed :: "env \<Rightarrow> string \<Rightarrow> redis \<Rightarrow> unit result \<times> redis" where
  "assertRefreshAllowed E tokenDigest =
     auth_assertAllowed E ''refresh'' (cfg_num E ''REFRESH_LIMIT_PER_MINUTE'')
       [(''token'', tokenDigest)]"

text \<open>\<open>password-rate-limiter.service.ts\<close>\<close>

abbreviation password_limit :: api_error where
  "password_limit \<equiv> Raised ''PasswordRateLimitError''"

definition password_assertDimensions ::
  "env \<Rightarrow> string \<Rightarrow> nat \<Rightarrow> string list \<Rightarrow> redis \<Rightarrow> unit result \<times> redis" where
  "password_assertDimensions E operation limit dimensions r =
     (case ensureRedisConnected r of
        (Inl e, r1) \<Rightarrow> (Inl e, r1)
      | (Inr _, r1) \<Rightarrow>
          (case hit_all (map (\<lambda>dimension. cfg_str E ''CACHE_PREFIX'' @ ''limit:password:'' @ operation
                  @ '':'' @ dimension) dimensions) HOUR_WINDOW r1 of
             (Inl e, r2) \<Rightarrow> (Inl e, r2)
           | (Inr counts, r2) \<Rightarrow>
               (if list_ex (\<lambda>count. limit < count) counts then Inl password_limit
                else Inr (), r2)))"

definition assertResetRequestAllowed ::
  "env \<Rightarrow> string \<Rightarrow> string \<Rightarrow> redis \<Rightarrow> unit result \<times> redis" where
  "assertResetRequestAllowed E ipHash emailHash =
     password_assertDimensions E ''forgot'' (cfg_num E ''PASSWORD_RESET_LIMIT_PER_HOUR'')
       [ipHash, emailHash]"

definition assertResetAllowed ::
  "env \<Rightarrow> string \<Rightarrow> string \<Rightarrow> redis \<Rightarrow> unit result \<times> redis" where
  "assertResetAllowed E ipHash tokenDigest =
     password_assertDimensions E ''reset'' (cfg_num E ''PASSWORD_RESET_LIMIT_PER_HOUR'')
       [ipHash, tokenDigest]"

definition assertChangeAllowed ::
  "env \<Rightarrow> string \<Rightarrow> string \<Rightarrow> redis \<Rightarrow> unit result \<times> redis" where
  "assertChangeAllowed E ipHash userId =
     password_assertDimensions E ''change'' (cfg_num E ''PASSWORD_CHANGE_LIMIT_PER_HOUR'')
       [ipHash, userId]"

text \<open>\<open>account-creation-rate-limiter.service.ts\<close>\<close>

abbreviation account_limit :: api_error where
  "account_limit \<equiv> Raised ''AccountCreationRateLimitError''"

definition account_assertDimensions ::
  "env \<Rightarrow> string \<Rightarrow> nat \<Rightarrow> (string \<times> string) list \<Rightarrow> redis \<Rightarrow> unit result \<times> redis" where
  "account_assertDimensions E operation limit dimensions r =
     (case ensureRedisConnected r of
        (Inl e, r1) \<Rightarrow> (Inl e, r1)
      | (Inr _, r1) \<Rightarrow>
          (case hit_all (map (\<lambda>(dimension, digest). cfg_str E ''CACHE_PREFIX'' @ ''rate:'' @ operation
                  @ '':'' @ dimension @ '':'' @ digest) dimensions) HOUR_WINDOW r1 of
             (Inl e, r2) \<Rightarrow> (Inl e, r2)
           | (Inr counts, r2) \<Rightarrow>
               (if list_ex (\<lambda>count. limit < count) counts then Inl account_limit
                else Inr (), r2)))"

definition assertRegistrationAllowed ::
  "env \<Rightarrow> string \<Rightarrow> string \<Rightarrow> redis \<Rightarrow> unit result \<times> redis" where
  "assertRegistrationAllowed E ipDigest identityDigest =
     account_assertDimensions E ''registration'' (cfg_num E ''REGISTRATION_LIMIT_PER_HOUR'')
       [(''ip'', ipDigest), (''identity'', identityDigest)]"

definition assertResendAllowed ::
  "env \<Rightarrow> string \<Rightarrow> string \<Rightarrow> redis \<Rightarrow> unit result \<times> redis" where
  "assertResendAllowed E ipDigest emailDigest =
     account_assertDimensions E ''email-resend'' (cfg_num E ''EMAIL_RESEND_LIMIT_PER_HOUR'')
       [(''ip'', ipDigest), (''email'', emailDigest)]"

text \<open>\<open>citizen-lookup-rate-limiter.service.ts\<close>: one limit per key.\<close>

abbreviation citizen_limit :: api_error where
  "citizen_limit \<equiv> Raised ''CitizenLookupRateLimitError''"

definition citizen_assertAllowed ::
  "env \<Rightarrow> string \<Rightarrow> string \<Rightarrow> string \<Rightarrow> redis \<Rightarrow> unit result \<times> redis" where
  "citizen_assertAllowed E ipDigest clientDigest identityDigest r =
     (case ensureRedisConnected r of
        (Inl e, r1) \<Rightarrow> (Inl e, r1)
      | (Inr _, r1) \<Rightarrow>
          (let pre = cfg_str E ''CACHE_PREFIX'' @ ''rate:citizen-lookup:'';
               dimensions =
                 [(pre @ ''ip:'' @ ipDigest, cfg_num E ''CITIZEN_LOOKUP_IP_LIMIT_PER_MINUTE''),
                  (pre @ ''client:'' @ clientDigest, cfg_num E ''CITIZEN_LOOKUP_CLIENT_LIMIT_PER_MINUTE''),
                  (pre @ ''nid:'' @ identityDigest, cfg_num E ''CITIZEN_LOOKUP_NID_LIMIT_PER_MINUTE'')]
           in (case hit_all (map fst dimensions) MINUTE_WINDOW r1 of
                 (Inl e, r2) \<Rightarrow> (Inl e, r2)
               | (Inr counts, r2) \<Rightarrow>
                   (if list_ex (\<lambda>(count, limit). limit < count) (zip counts (map snd dimensions))
                    then Inl citizen_limit else Inr (), r2))))"

subsection \<open>What a counter promises\<close>

text \<open>The requests for \<open>k\<close> admitted (counted at most \<open>limit\<close>) in a timed sequence of requests.\<close>

fun admitted :: "('k \<Rightarrow> 's \<Rightarrow> nat \<times> 's) \<Rightarrow> (nat \<Rightarrow> 's \<Rightarrow> 's) \<Rightarrow> nat \<Rightarrow> 'k \<Rightarrow> (nat \<times> 'k) list \<Rightarrow> 's \<Rightarrow> nat"
where
  "admitted hit wait limit k [] s = 0"
| "admitted hit wait limit k ((dt, j) # evs) s =
     (if j = k \<and> fst (hit j (wait dt s)) \<le> limit then 1 else 0)
     + admitted hit wait limit k evs (snd (hit j (wait dt s)))"

text \<open>
  The interface between a limiter and the store: a hit returns one more than the hits of its key
  in the current window and touches no other key; the window opens with the first hit and the
  hits are forgotten when it closes.
\<close>

locale window_counter =
  fixes hit :: "'k \<Rightarrow> 's \<Rightarrow> nat \<times> 's"
    and wait :: "nat \<Rightarrow> 's \<Rightarrow> 's"
    and hits :: "'k \<Rightarrow> 's \<Rightarrow> nat"
    and remaining :: "'k \<Rightarrow> 's \<Rightarrow> nat"
    and ok :: "'s \<Rightarrow> bool"
    and window :: nat
  assumes hit_count: "ok s \<Longrightarrow> fst (hit k s) = Suc (hits k s)"
    and hits_hit: "ok s \<Longrightarrow> hits j (snd (hit k s)) = (if j = k then Suc (hits k s) else hits j s)"
    and hits_wait: "ok s \<Longrightarrow> hits j (wait dt s) = (if dt < remaining j s then hits j s else 0)"
    and remaining_hit: "ok s \<Longrightarrow> remaining j (snd (hit k s)) =
      (if j = k \<and> hits k s = 0 then window else remaining j s)"
    and remaining_wait: "ok s \<Longrightarrow> remaining j (wait dt s) = remaining j s - dt"
    and ok_hit: "ok s \<Longrightarrow> ok (snd (hit k s))"
    and ok_wait: "ok s \<Longrightarrow> ok (wait dt s)"
begin

lemma admitted_in_window:
  assumes "ok s"
    and "hits k s = 0 \<Longrightarrow> sum_list (map fst evs) < window"
    and "0 < hits k s \<Longrightarrow> sum_list (map fst evs) < remaining k s"
  shows "admitted hit wait limit k evs s = min (limit - hits k s) (count_rows (\<lambda>(dt, j). j = k) evs)"
  using assms
proof (induction evs arbitrary: s)
  case Nil
  then show ?case by simp
next
  case (Cons ev evs)
  obtain dt j where ev: "ev = (dt, j)" by force
  let ?w = "wait dt s" and ?s1 = "snd (hit j (wait dt s))"
  have okw: "ok ?w" and ok1: "ok ?s1"
    using Cons.prems(1) by (auto intro: ok_wait ok_hit)
  have hw: "hits k ?w = hits k s"
    using Cons.prems ev by (cases "hits k s = 0") (auto simp: hits_wait)
  have rw: "remaining k ?w = remaining k s - dt" using Cons.prems(1) by (rule remaining_wait)
  have h1: "hits k ?s1 = (if j = k then Suc (hits k s) else hits k s)"
    using okw by (simp add: hits_hit hw)
  have c: "fst (hit j ?w) = Suc (hits k s)" if "j = k"
    using that okw hw by (simp add: hit_count)
  have "admitted hit wait limit k evs ?s1 = min (limit - hits k ?s1) (count_rows (\<lambda>(dt, j). j = k) evs)"
  proof (rule Cons.IH [OF ok1])
    show "sum_list (map fst evs) < window" if "hits k ?s1 = 0"
      using Cons.prems(2) ev h1 that by (auto split: if_splits)
    show "sum_list (map fst evs) < remaining k ?s1" if "0 < hits k ?s1"
      using Cons.prems(2,3) ev h1 that okw rw hw
      by (cases "hits k s = 0") (auto simp: remaining_hit split: if_splits)
  qed
  note IH = this
  show ?case
  proof (cases "j = k")
    case True
    with c h1 have "fst (hit k (wait dt s)) = Suc (hits k s)" "hits k (snd (hit k (wait dt s))) = Suc (hits k s)"
      by auto
    with IH True show ?thesis by (auto simp: ev)
  next
    case False
    with IH show ?thesis by (simp add: ev h1)
  qed
qed

lemma forgotten: "ok s \<Longrightarrow> remaining k s \<le> dt \<Longrightarrow> fst (hit k (wait dt s)) = 1"
  by (simp add: hit_count hits_wait ok_wait)

end

text \<open>The store provides it for the keys a limiter forms from a digest.\<close>

definition counted :: "string \<Rightarrow> redis \<Rightarrow> nat" where
  "counted k r = (case live r k of Some (Counter n, e) \<Rightarrow> n | _ \<Rightarrow> 0)"

definition time_left :: "string \<Rightarrow> redis \<Rightarrow> nat" where
  "time_left k r = (case rds_store r k of Some (v, Some e) \<Rightarrow> nat (e - rds_now r) | _ \<Rightarrow> 0)"

text \<open>Under the prefix of a limiter there are only counters that expire.\<close>

definition counters_only :: "string \<Rightarrow> redis \<Rightarrow> bool" where
  "counters_only p r \<longleftrightarrow> rds_online r \<and>
     (\<forall>d v e. rds_store r (p @ d) = Some (v, e) \<longrightarrow> (\<exists>n x. v = Counter (Suc n) \<and> e = Some x))"

lemma counters_onlyE:
  assumes "counters_only p r"
  obtains "rds_store r (p @ d) = None"
  | n x where "rds_store r (p @ d) = Some (Counter (Suc n), Some x)"
  using assms unfolding counters_only_def
  by (cases "rds_store r (p @ d)") (auto, blast)

definition hit_key :: "string \<Rightarrow> nat \<Rightarrow> string \<Rightarrow> redis \<Rightarrow> nat \<times> redis" where
  "hit_key p window d r =
     (case increment_script (p @ d) window r of
        (Inr n, r1) \<Rightarrow> (n, r1) | (Inl e, r1) \<Rightarrow> (0, r1))"

lemma increment_counters_only:
  assumes "counters_only p r"
  shows "increment_script (p @ d) window r =
    (if counted (p @ d) r = 0
     then (Inr 1, put_entry (p @ d) (Counter 1, Some (rds_now r + int window)) (put_entry (p @ d) (Counter 1, None) r))
     else (Inr (Suc (counted (p @ d) r)),
           put_entry (p @ d) (Counter (Suc (counted (p @ d) r)), snd (the (rds_store r (p @ d)))) r))"
proof -
  have on: "rds_online r" using assms by (simp add: counters_only_def)
  show ?thesis
    by (rule counters_onlyE [OF assms, of d])
      (simp_all add: on increment_script_def redis_incr_def counted_def live_def redis_pexpire_def put_entry_def)
qed

interpretation rl: window_counter "hit_key p (Suc w)" pass_time "\<lambda>d. counted (p @ d)" "\<lambda>d. time_left (p @ d)"
  "counters_only p" "Suc w" for p w
proof
  fix s :: redis and k j :: string and dt :: nat
  assume ok: "counters_only p s"
  note inc = increment_counters_only [OF ok]
  show "fst (hit_key p (Suc w) k s) = Suc (counted (p @ k) s)"
    by (simp add: hit_key_def inc)
  show "counted (p @ j) (snd (hit_key p (Suc w) k s)) =
      (if j = k then Suc (counted (p @ k) s) else counted (p @ j) s)"
    by (rule counters_onlyE [OF ok, of k])
      (auto simp: hit_key_def inc counted_def live_def put_entry_def split: option.splits)
  show "counted (p @ j) (pass_time dt s) = (if dt < time_left (p @ j) s then counted (p @ j) s else 0)"
    by (rule counters_onlyE [OF ok, of j]) (auto simp: counted_def live_def pass_time_def time_left_def)
  show "time_left (p @ j) (snd (hit_key p (Suc w) k s)) =
      (if j = k \<and> counted (p @ k) s = 0 then Suc w else time_left (p @ j) s)"
    by (rule counters_onlyE [OF ok, of k])
      (auto simp: hit_key_def inc counted_def live_def put_entry_def time_left_def split: option.splits)
  show "time_left (p @ j) (pass_time dt s) = time_left (p @ j) s - dt"
    by (rule counters_onlyE [OF ok, of j]) (auto simp: pass_time_def time_left_def nat_diff_distrib)
  show "counters_only p (snd (hit_key p (Suc w) k s))"
    by (rule counters_onlyE [OF ok, of k])
      (use ok in \<open>auto simp: hit_key_def inc counted_def live_def put_entry_def counters_only_def\<close>)
  show "counters_only p (pass_time dt s)"
    using ok by (simp add: counters_only_def pass_time_def)
qed

text \<open>A timed sequence of refresh requests through the limiter, with what each was answered.\<close>

definition refresh_prefix :: "env \<Rightarrow> string" where
  "refresh_prefix E = cfg_str E ''CACHE_PREFIX'' @ ''rate:refresh:token:''"

fun refresh_requests :: "env \<Rightarrow> (nat \<times> string) list \<Rightarrow> redis \<Rightarrow> (string \<times> unit result) list" where
  "refresh_requests E [] r = []"
| "refresh_requests E ((dt, tokenDigest) # evs) r =
     (let (res, r1) = assertRefreshAllowed E tokenDigest (pass_time dt r)
      in (tokenDigest, res) # refresh_requests E evs r1)"

lemma hit_key_frame:
  assumes "counters_only p r"
  shows "rds_status (snd (hit_key p w d r)) = rds_status r"
    and "rds_status (pass_time dt r) = rds_status r"
  by (auto simp: hit_key_def increment_counters_only [OF assms] put_entry_def pass_time_def)

lemma assertRefreshAllowed_hit:
  assumes "counters_only (refresh_prefix E) r" and "rds_status r = Status_ready"
  shows "assertRefreshAllowed E d r =
    (if fst (hit_key (refresh_prefix E) MINUTE_WINDOW d r) \<le> cfg_num E ''REFRESH_LIMIT_PER_MINUTE''
     then Inr () else Inl authentication_limit,
     snd (hit_key (refresh_prefix E) MINUTE_WINDOW d r))"
proof -
  have key: "cfg_str E ''CACHE_PREFIX'' @ ''rate:'' @ ''refresh'' @ '':'' @ ''token'' @ '':'' @ d
      = refresh_prefix E @ d"
    by (simp add: refresh_prefix_def)
  show ?thesis
    unfolding assertRefreshAllowed_def auth_assertAllowed_def hit_key_def list.map prod.case key
    by (auto simp: assms(2) increment_counters_only [OF assms(1)])
qed

lemma refresh_requests_admitted:
  assumes "counters_only (refresh_prefix E) r" and "rds_status r = Status_ready"
  shows "count_rows (\<lambda>(d, res). d = k \<and> succeeded res) (refresh_requests E evs r) =
    admitted (hit_key (refresh_prefix E) (Suc 59999)) pass_time
      (cfg_num E ''REFRESH_LIMIT_PER_MINUTE'') k evs r"
  using assms
proof (induction evs arbitrary: r)
  case Nil
  then show ?case by simp
next
  case (Cons ev evs)
  obtain dt d where ev: "ev = (dt, d)" by force
  have w: "counters_only (refresh_prefix E) (pass_time dt r)" "rds_status (pass_time dt r) = Status_ready"
    using Cons.prems by (simp_all add: rl.ok_wait hit_key_frame(2))
  let ?h = "hit_key (refresh_prefix E) (Suc 59999) d (pass_time dt r)"
  have h: "counters_only (refresh_prefix E) (snd ?h)" "rds_status (snd ?h) = Status_ready"
    using w rl.ok_hit [OF w(1), of 59999 d] by (simp_all add: hit_key_frame)
  have "assertRefreshAllowed E d (pass_time dt r) =
    (if fst ?h \<le> cfg_num E ''REFRESH_LIMIT_PER_MINUTE''
     then Inr () else Inl authentication_limit, snd ?h)"
    using assertRefreshAllowed_hit [OF w, of d] by simp
  then show ?case using Cons.IH [OF h] by (cases "d = k") (auto simp: ev)
qed

subsection \<open>Locks\<close>

datatype 'o lock_op = Acquire 'o | Release 'o | Elapse nat

text \<open>Runs lock operations and lists the owners who got the lock.\<close>

fun lock_run :: "('o \<Rightarrow> 's \<Rightarrow> bool \<times> 's) \<Rightarrow> ('o \<Rightarrow> 's \<Rightarrow> 's) \<Rightarrow> (nat \<Rightarrow> 's \<Rightarrow> 's) \<Rightarrow> 'o lock_op list \<Rightarrow> 's
    \<Rightarrow> 'o list \<times> 's" where
  "lock_run acq rel wait [] s = ([], s)"
| "lock_run acq rel wait (Acquire u # ops) s =
     (let (b, s1) = acq u s; (us, s2) = lock_run acq rel wait ops s1
      in (if b then u # us else us, s2))"
| "lock_run acq rel wait (Release u # ops) s = lock_run acq rel wait ops (rel u s)"
| "lock_run acq rel wait (Elapse dt # ops) s = lock_run acq rel wait ops (wait dt s)"

fun elapsed :: "'o lock_op list \<Rightarrow> nat" where
  "elapsed [] = 0"
| "elapsed (Elapse dt # ops) = dt + elapsed ops"
| "elapsed (Acquire u # ops) = elapsed ops"
| "elapsed (Release u # ops) = elapsed ops"

locale owner_lock =
  fixes acq :: "'o \<Rightarrow> 's \<Rightarrow> bool \<times> 's" and rel :: "'o \<Rightarrow> 's \<Rightarrow> 's" and wait :: "nat \<Rightarrow> 's \<Rightarrow> 's"
    and holder :: "'s \<Rightarrow> 'o option" and ttl_left :: "'s \<Rightarrow> nat" and ok :: "'s \<Rightarrow> bool" and ttl :: nat
  assumes acquire_free: "ok s \<Longrightarrow> holder s = None \<Longrightarrow>
      fst (acq u s) \<and> holder (snd (acq u s)) = Some u \<and> ttl_left (snd (acq u s)) = ttl"
    and acquire_held: "ok s \<Longrightarrow> holder s = Some v \<Longrightarrow> acq u s = (False, s)"
    and release_own: "ok s \<Longrightarrow> holder s = Some u \<Longrightarrow> holder (rel u s) = None"
    and release_other: "ok s \<Longrightarrow> holder s \<noteq> Some u \<Longrightarrow> rel u s = s"
    and wait_holder: "ok s \<Longrightarrow> holder (wait dt s) = (if dt < ttl_left s then holder s else None)"
    and wait_ttl: "ok s \<Longrightarrow> ttl_left (wait dt s) = ttl_left s - dt"
    and ok_acq: "ok s \<Longrightarrow> ok (snd (acq u s))"
    and ok_rel: "ok s \<Longrightarrow> ok (rel u s)"
    and ok_wait: "ok s \<Longrightarrow> ok (wait dt s)"
begin

lemma holder_keeps:
  assumes "ok s" and "holder s = Some u" and "Release u \<notin> set ops" and "elapsed ops < ttl_left s"
  shows "fst (lock_run acq rel wait ops s) = [] \<and> holder (snd (lock_run acq rel wait ops s)) = Some u"
  using assms
proof (induction ops arbitrary: s)
  case Nil
  then show ?case by simp
next
  case (Cons p ops)
  show ?case
  proof (cases p)
    case (Acquire v)
    then show ?thesis using Cons acquire_held [of s u v] by simp
  next
    case (Release v)
    then show ?thesis using Cons release_other [of s v] by auto
  next
    case (Elapse dt)
    then show ?thesis
      using Cons.prems by (simp add: Cons.IH [of "wait dt s"] wait_holder wait_ttl ok_wait)
  qed
qed

lemma exclusive:
  assumes "ok s" and "holder s = None" and "Release u \<notin> set ops" and "elapsed ops < ttl"
  shows "fst (lock_run acq rel wait (Acquire u # ops) s) = [u]"
  using acquire_free [OF assms(1,2), of u] holder_keeps [of "snd (acq u s)" u ops] assms ok_acq
  by (simp add: split_beta)

end

text \<open>The lock under a key: \<open>SET NX EX\<close> and the release script.\<close>

definition lock_acquire :: "string \<Rightarrow> nat \<Rightarrow> string \<Rightarrow> redis \<Rightarrow> bool \<times> redis" where
  "lock_acquire key secs owner r =
     (case redis_set_nx key owner secs r of (Inr b, r1) \<Rightarrow> (b, r1) | (Inl e, r1) \<Rightarrow> (False, r1))"

definition lock_release :: "string \<Rightarrow> string \<Rightarrow> redis \<Rightarrow> redis" where
  "lock_release key owner r = snd (release_script key owner r)"

text \<open>Under a lock key there are only texts that expire.\<close>

definition lock_entry :: "string \<Rightarrow> redis \<Rightarrow> bool" where
  "lock_entry key r \<longleftrightarrow> rds_online r \<and>
     (\<forall>v e. rds_store r key = Some (v, e) \<longrightarrow> (\<exists>s x. v = Text s \<and> e = Some x))"

lemma lock_entryE:
  assumes "lock_entry key r"
  obtains "rds_store r key = None" "rds_online r"
  | s x where "rds_store r key = Some (Text s, Some x)" "rds_online r"
  using assms unfolding lock_entry_def by (cases "rds_store r key") auto

interpretation lk: owner_lock "lock_acquire key (Suc secs)" "lock_release key" pass_time
  "redis_get key" "time_left key" "lock_entry key" "Suc secs * 1000" for key secs
proof
  fix s :: redis and u v :: string and dt :: nat
  assume ok: "lock_entry key s"
  note cases = lock_entryE [OF ok]
  note defs = lock_acquire_def lock_release_def redis_set_nx_def redis_get_def live_def put_entry_def
    del_entry_def time_left_def release_script_def pass_time_def lock_entry_def
  show "fst (lock_acquire key (Suc secs) u s) \<and> redis_get key (snd (lock_acquire key (Suc secs) u s)) = Some u
      \<and> time_left key (snd (lock_acquire key (Suc secs) u s)) = Suc secs * 1000"
    if "redis_get key s = None"
    using that by (cases rule: cases) (auto simp: defs split: if_splits)
  show "lock_acquire key (Suc secs) u s = (False, s)" if "redis_get key s = Some v"
    using that by (cases rule: cases) (auto simp: defs split: if_splits)
  show "redis_get key (lock_release key u s) = None" if "redis_get key s = Some u"
    using that by (cases rule: cases) (auto simp: defs split: if_splits)
  show "lock_release key u s = s" if "redis_get key s \<noteq> Some u"
    using that by (cases rule: cases) (auto simp: defs split: if_splits)
  show "redis_get key (pass_time dt s) = (if dt < time_left key s then redis_get key s else None)"
    by (cases rule: cases) (auto simp: defs split: if_splits)
  show "time_left key (pass_time dt s) = time_left key s - dt"
    by (cases rule: cases) (auto simp: defs nat_diff_distrib split: if_splits)
  show "lock_entry key (snd (lock_acquire key (Suc secs) u s))"
    by (cases rule: cases) (auto simp: defs split: if_splits)
  show "lock_entry key (lock_release key u s)"
    by (cases rule: cases) (auto simp: defs split: if_splits)
  show "lock_entry key (pass_time dt s)"
    by (cases rule: cases) (auto simp: defs split: if_splits)
qed

text \<open>
  \<open>try { work } finally { await redis.eval(RELEASE_LOCK_SCRIPT, 1, key, owner) }\<close>: an exception of
  the release replaces the outcome.
\<close>

definition finally_release ::
  "string \<Rightarrow> string \<Rightarrow> 'a result \<times> 'd \<times> redis \<Rightarrow> 'a result \<times> 'd \<times> redis" where
  "finally_release key owner outcome = (case outcome of (res, d, r) \<Rightarrow>
     (case release_script key owner r of
        (Inl e, r1) \<Rightarrow> (Inl e, d, r1)
      | (Inr _, r1) \<Rightarrow> (res, d, r1)))"

text \<open>\<open>DistributedJobLockService.runExclusive\<close>; \<open>Inr None\<close> is the \<open>undefined\<close> of a lock not acquired.\<close>

definition runExclusive ::
  "env \<Rightarrow> nat \<Rightarrow> string \<Rightarrow> nat \<Rightarrow> ('d \<Rightarrow> redis \<Rightarrow> 'a result \<times> 'd \<times> redis) \<Rightarrow> 'd \<Rightarrow> redis
     \<Rightarrow> 'a option result \<times> 'd \<times> redis" where
  "runExclusive E i jobName ttlSeconds work d r =
     (case ensureRedisConnected r of
        (Inl e, r1) \<Rightarrow> (Inl e, d, r1)
      | (Inr _, r1) \<Rightarrow>
     (let key = cfg_str E ''CACHE_PREFIX'' @ ''lock:job:'' @ jobName; owner = uuid E i
      in (case redis_set_nx key owner ttlSeconds r1 of
            (Inl e, r2) \<Rightarrow> (Inl e, d, r2)
          | (Inr acquired, r2) \<Rightarrow>
              if \<not> acquired then (Inr None, d, r2)
              else finally_release key owner
                (case work d r2 of
                   (Inl e, d1, r3) \<Rightarrow> (Inl e, d1, r3)
                 | (Inr x, d1, r3) \<Rightarrow> (Inr (Some x), d1, r3)))))"

lemma runExclusive_held:
  assumes "rds_status r = Status_ready" and "rds_online r"
    and "redis_get (cfg_str E ''CACHE_PREFIX'' @ ''lock:job:'' @ jobName) r = Some u"
  shows "runExclusive E i jobName secs work d r = (Inr None, d, r)"
  using assms by (auto simp: runExclusive_def redis_set_nx_def redis_get_def Let_def split: option.splits)

subsection \<open>The citizen cache\<close>

text \<open>\<open>RedisCitizenCache\<close>.\<close>

definition cache_get :: "string \<Rightarrow> redis \<Rightarrow> string option result \<times> redis" where
  "cache_get key r = (case ensureRedisConnected r of
     (Inl e, r1) \<Rightarrow> (Inl e, r1)
   | (Inr _, r1) \<Rightarrow>
       (if rds_online r1 then (Inr (redis_get key r1), r1) else (Inl redis_unreachable, r1)))"

definition cache_set :: "string \<Rightarrow> string \<Rightarrow> nat \<Rightarrow> redis \<Rightarrow> unit result \<times> redis" where
  "cache_set key v ttlSeconds r = (case ensureRedisConnected r of
     (Inl e, r1) \<Rightarrow> (Inl e, r1)
   | (Inr _, r1) \<Rightarrow>
       (if rds_online r1
        then (Inr (), put_entry key (Text v, Some (rds_now r1 + int ttlSeconds * 1000)) r1)
        else (Inl redis_unreachable, r1)))"

definition cache_delete :: "string \<Rightarrow> redis \<Rightarrow> unit result \<times> redis" where
  "cache_delete key r = (case ensureRedisConnected r of
     (Inl e, r1) \<Rightarrow> (Inl e, r1)
   | (Inr _, r1) \<Rightarrow>
       (if rds_online r1 then (Inr (), del_entry key r1) else (Inl redis_unreachable, r1)))"

end
