(* ===== verification/AccessToken.thy ===== *)
theory AccessToken
  imports Redis
begin

text \<open>
  \<open>AccessTokenService\<close> (\<open>modules/auth/access-token.service.ts\<close>): the verification keys, issuing and
  verifying the signed access tokens.  Claims are JSON values, as \<open>JSON.parse\<close> returns them, so
  that a token with missing or ill-typed claims is a case of the model.  JSON numbers are integers
  and numeric strings are decimal integers.
\<close>

subsection \<open>JavaScript values\<close>

text \<open>The number a value is compared as (\<open>None\<close>: \<open>NaN\<close>).\<close>

definition decimal :: "string \<Rightarrow> int" where
  "decimal = foldl (\<lambda>n c. 10 * n + (int (code_of c) - 48)) 0"

definition text_number :: "string \<Rightarrow> int option" where
  "text_number s = (case trim s of
     [] \<Rightarrow> Some 0
   | c # cs \<Rightarrow>
       if c = CHR ''-'' \<and> cs \<noteq> [] \<and> list_all is_digit cs then Some (- decimal cs)
       else if c = CHR ''+'' \<and> cs \<noteq> [] \<and> list_all is_digit cs then Some (decimal cs)
       else if list_all is_digit (c # cs) then Some (decimal (c # cs)) else None)"

fun js_number :: "json \<Rightarrow> int option" where
  "js_number JNull = Some 0"
| "js_number (JBool b) = Some (of_bool b)"
| "js_number (JNum i) = Some i"
| "js_number (JStr s) = text_number s"
| "js_number (JObj fs) = None"
| "js_number (JArr []) = Some 0"
| "js_number (JArr [j]) =
     (case j of JNull \<Rightarrow> Some 0 | JBool b \<Rightarrow> None | j \<Rightarrow> js_number j)"
| "js_number (JArr (j # k # js)) = None"

text \<open>\<open>value <= n\<close> for a value that may be absent (\<open>undefined\<close> is \<open>NaN\<close>).\<close>

definition js_at_most :: "json option \<Rightarrow> int \<Rightarrow> bool" where
  "js_at_most v n = (case v of None \<Rightarrow> False
     | Some j \<Rightarrow> (case js_number j of None \<Rightarrow> False | Some i \<Rightarrow> i \<le> n))"

subsection \<open>Keys\<close>

text \<open>\<open>/^[A-Za-z0-9._:-]{8,128}$/\<close>\<close>

definition key_id_syntax :: "string \<Rightarrow> bool" where
  "key_id_syntax k \<longleftrightarrow> 8 \<le> length k \<and> length k \<le> 128
     \<and> list_all (\<lambda>c. is_alnum c \<or> c \<in> set ''._:-'') k"

fun previous_keys_from :: "env \<Rightarrow> string list \<Rightarrow> json list \<Rightarrow> (string \<times> string) list result" where
  "previous_keys_from E seen [] = Inr []"
| "previous_keys_from E seen (candidate # rest) =
     (case (json_field ''keyId'' candidate, json_field ''publicKey'' candidate) of
        (Some (JStr keyId), Some (JStr encodedPublicKey)) \<Rightarrow>
          if \<not> key_id_syntax keyId \<or> length encodedPublicKey < 128
             \<or> str_includes encodedPublicKey ''PRIVATE KEY'' \<or> keyId \<in> set seen
          then Inl (Raised ''Invalid or duplicate previous signing key'')
          else (case rsa_public_key E encodedPublicKey of
              None \<Rightarrow> Inl (Raised ''createPublicKey'')
            | Some rsa \<Rightarrow>
                if \<not> rsa then Inl (Raised ''Previous signing keys must be RSA public keys'')
                else (case previous_keys_from E (keyId # seen) rest of
                    Inl e \<Rightarrow> Inl e
                  | Inr ks \<Rightarrow> Inr ((keyId, encodedPublicKey) # ks)))
      | _ \<Rightarrow> Inl (Raised ''Invalid or duplicate previous signing key''))"

definition parsePreviousSigningKeys ::
  "env \<Rightarrow> string \<Rightarrow> string \<Rightarrow> (string \<times> string) list result" where
  "parsePreviousSigningKeys E v activeKeyId = (case parse_json E v of
     Some (JArr cs) \<Rightarrow>
       if 3 < length cs then Inl (Raised ''At most three previous signing keys are allowed'')
       else previous_keys_from E [activeKeyId] cs
   | Some _ \<Rightarrow> Inl (Raised ''At most three previous signing keys are allowed'')
   | None \<Rightarrow> Inl (Raised ''SyntaxError''))"

lemma previous_keys_distinct:
  "previous_keys_from E seen cs = Inr ks \<Longrightarrow>
     distinct (map fst ks) \<and> fst ` set ks \<inter> set seen = {} \<and> length ks = length cs"
  by (induction E seen cs arbitrary: ks rule: previous_keys_from.induct)
    (fastforce split: option.splits json.splits sum.splits if_splits)+

definition keyId :: "env \<Rightarrow> string" where
  "keyId E = cfg_str E ''MUCYORA_AUTH_SIGNING_KEY_ID''"

definition publicKey :: "env \<Rightarrow> string" where
  "publicKey E = cfg_str E ''MUCYORA_AUTH_SIGNING_PUBLIC_KEY''"

text \<open>
  The map the constructor builds, as an association list in insertion order.  A constructor that
  throws on the previous keys starts no service; that case keeps the active key only.
\<close>

definition verificationKeys :: "env \<Rightarrow> (string \<times> string) list" where
  "verificationKeys E = (keyId E, publicKey E) #
     (case parsePreviousSigningKeys E (cfg_str E ''MUCYORA_AUTH_PREVIOUS_SIGNING_PUBLIC_KEYS_JSON'')
             (keyId E) of Inl e \<Rightarrow> [] | Inr ks \<Rightarrow> ks)"

definition issuer :: "env \<Rightarrow> string" where
  "issuer E = cfg_str E ''MUCYORA_AUTH_ISSUER''"

definition audiences :: "env \<Rightarrow> string list" where
  "audiences E = filter (\<lambda>v. v \<noteq> [])
     (map trim (split_on (CHR '','') (cfg_str E ''MUCYORA_AUTH_ACCESS_AUDIENCES'')))"

lemma active_key [simp]: "map_of (verificationKeys E) (keyId E) = Some (publicKey E)"
  by (simp add: verificationKeys_def)

subsection \<open>Issuing\<close>

definition encodeJson :: "env \<Rightarrow> json \<Rightarrow> string" where
  "encodeJson E v = b64_encode (stringify E v)"

definition decodeJson :: "env \<Rightarrow> string \<Rightarrow> json option" where
  "decodeJson E v = parse_json E (b64_decode v)"

lemma decode_encode_json [simp]: "json_laws E \<Longrightarrow> decodeJson E (encodeJson E j) = Some j"
  by (simp add: decodeJson_def encodeJson_def json_lawsD)

lemma no_dot_encodeJson [simp]: "CHR ''.'' \<notin> set (encodeJson E j)"
  by (simp add: encodeJson_def)

definition access_ttl :: "env \<Rightarrow> session_level \<Rightarrow> nat" where
  "access_ttl E sessionLevel = cfg_num E
     (if sessionLevel = LIMITED then ''LIMITED_ACCESS_TOKEN_TTL_SECONDS''
      else ''ACCESS_TOKEN_TTL_SECONDS'')"

definition token_header :: "env \<Rightarrow> json" where
  "token_header E =
     JObj [(''alg'', JStr ''RS256''), (''kid'', JStr (keyId E)), (''typ'', JStr ''JWT'')]"

definition access_claims :: "env \<Rightarrow> int \<Rightarrow> string \<Rightarrow> string \<Rightarrow> string \<Rightarrow> session_level \<Rightarrow> json" where
  "access_claims E now jti userId sessionId sessionLevel = JObj
     [(''iss'', JStr (issuer E)), (''aud'', JArr (map JStr (audiences E))), (''sub'', JStr userId),
      (''sid'', JStr sessionId), (''jti'', JStr jti),
      (''sessionLevel'', JStr (session_level_text sessionLevel)),
      (''identityVerified'', JBool (sessionLevel = FULL)), (''emailVerified'', JBool True),
      (''tokenType'', JStr ''ACCESS''), (''iat'', JNum now),
      (''exp'', JNum (now + int (access_ttl E sessionLevel)))]"

record access_token =
  acc_token :: string
  acc_expiresIn :: nat

definition issue :: "env \<Rightarrow> nat \<Rightarrow> nat \<Rightarrow> string \<Rightarrow> string \<Rightarrow> session_level \<Rightarrow> access_token result" where
  "issue E i j userId sessionId sessionLevel =
     (let now = clock E i div 1000;
          signingInput = encodeJson E (token_header E) @ ''.''
            @ encodeJson E (access_claims E now (uuid E j) userId sessionId sessionLevel);
          signature = b64_encode (rsa_sign E signingInput)
      in if signature = [] then Inl (Raised ''Signing provider returned an empty signature'')
         else Inr \<lparr>acc_token = signingInput @ ''.'' @ signature,
                    acc_expiresIn = access_ttl E sessionLevel\<rparr>)"

lemma b64_encode_eq_Nil [simp]: "b64_encode s = [] \<longleftrightarrow> s = []"
  by (cases s rule: b64_encode.cases) auto

lemma issue_total: "rsa_laws E \<Longrightarrow> \<exists>t. issue E i j u s l = Inr t"
  by (simp add: issue_def rsa_laws_def Let_def)

subsection \<open>Verifying\<close>

abbreviation access_token_invalid :: api_error where
  "access_token_invalid \<equiv> Http 401 ''ACCESS_TOKEN_INVALID''"

text \<open>\<open>claims.aud.some(...)\<close>: a value that is not an array has no \<open>some\<close> and raises.\<close>

definition aud_accepted :: "env \<Rightarrow> json \<Rightarrow> bool" where
  "aud_accepted E claims = (case json_field ''aud'' claims of
     Some (JArr js) \<Rightarrow> list_ex (\<lambda>j. case j of JStr a \<Rightarrow> a \<in> set (audiences E) | _ \<Rightarrow> False) js
   | _ \<Rightarrow> False)"

definition claims_session_level :: "json \<Rightarrow> session_level option" where
  "claims_session_level claims = (case json_field ''sessionLevel'' claims of
     Some (JStr t) \<Rightarrow>
       if t = ''LIMITED'' then Some LIMITED else if t = ''FULL'' then Some FULL else None
   | _ \<Rightarrow> None)"

text \<open>Every exception of the body is the same 401, whatever raised it.\<close>

definition verify :: "env \<Rightarrow> nat \<Rightarrow> string \<Rightarrow> json result" where
  "verify E i token = (case split_on (CHR ''.'') token of
     [encodedHeader, encodedPayload, encodedSignature] \<Rightarrow>
       (case (decodeJson E encodedHeader, decodeJson E encodedPayload) of
          (Some header, Some claims) \<Rightarrow>
            (let verificationKey = (case json_field ''kid'' header of
                   Some (JStr kid) \<Rightarrow> map_of (verificationKeys E) kid | _ \<Rightarrow> None);
                 validSignature = rsa_verify E
                   (case verificationKey of None \<Rightarrow> publicKey E | Some k \<Rightarrow> k)
                   (encodedHeader @ ''.'' @ encodedPayload) (b64_decode encodedSignature);
                 now = clock E i div 1000
             in if \<not> validSignature
                   \<or> verificationKey = None
                   \<or> json_field ''alg'' header \<noteq> Some (JStr ''RS256'')
                   \<or> json_field ''iss'' claims \<noteq> Some (JStr (issuer E))
                   \<or> json_field ''tokenType'' claims \<noteq> Some (JStr ''ACCESS'')
                   \<or> js_at_most (json_field ''exp'' claims) now
                   \<or> \<not> aud_accepted E claims
                   \<or> claims_session_level claims = None
                then Inl access_token_invalid else Inr claims)
        | _ \<Rightarrow> Inl access_token_invalid)
   | _ \<Rightarrow> Inl access_token_invalid)"

definition jwks :: "env \<Rightarrow> json" where
  "jwks E = JObj [(''keys'', JArr (map (\<lambda>(kid, key). JObj (public_jwk E key @
     [(''kid'', JStr kid), (''alg'', JStr ''RS256''), (''use'', JStr ''sig'')])) (verificationKeys E)))]"

lemma split_on_cons:
  "split_on sep s = w # ws \<Longrightarrow>
     (ws = [] \<longrightarrow> s = w) \<and> (ws \<noteq> [] \<longrightarrow> (\<exists>t. s = w @ sep # t \<and> split_on sep t = ws))"
proof (induction s arbitrary: w ws)
  case Nil
  then show ?case by simp
next
  case (Cons c s)
  show ?case
  proof (cases "c = sep")
    case True
    with Cons.prems show ?thesis by (cases ws) auto
  next
    case False
    obtain v vs where vs: "split_on sep s = v # vs" by (cases "split_on sep s") auto
    with Cons.prems False have "w = c # v" "ws = vs" by auto
    with Cons.IH [OF vs] show ?thesis by auto
  qed
qed

lemma verify_error: "verify E i token = Inl e \<Longrightarrow> e = access_token_invalid"
  by (auto simp: verify_def Let_def split: list.splits option.splits if_splits)

lemma verify_InrE:
  assumes "verify E i token = Inr claims"
  obtains h p s header kid key
  where "token = h @ ''.'' @ p @ ''.'' @ s"
    and "decodeJson E h = Some header" and "decodeJson E p = Some claims"
    and "json_field ''kid'' header = Some (JStr kid)" and "map_of (verificationKeys E) kid = Some key"
    and "json_field ''alg'' header = Some (JStr ''RS256'')"
    and "rsa_verify E key (h @ ''.'' @ p) (b64_decode s)"
    and "json_field ''iss'' claims = Some (JStr (issuer E))"
    and "json_field ''tokenType'' claims = Some (JStr ''ACCESS'')"
    and "\<not> js_at_most (json_field ''exp'' claims) (clock E i div 1000)"
    and "aud_accepted E claims" and "claims_session_level claims \<noteq> None"
proof -
  have join: "token = h @ ''.'' @ p @ ''.'' @ s" if "split_on (CHR ''.'') token = [h, p, s]" for h p s
    using split_on_cons [OF that] split_on_cons [of "CHR ''.''" _ p "[s]"] split_on_cons [of "CHR ''.''" _ s "[]"]
    by fastforce
  from assms show ?thesis
    by (auto simp: verify_def Let_def split: list.splits option.splits json.splits if_splits
        intro!: that join)
qed

lemma verify_issue:
  assumes "json_laws E" and "rsa_laws E" and "audiences E \<noteq> []"
    and "issue E i j userId sessionId level = Inr t"
    and "clock E k div 1000 < clock E i div 1000 + int (access_ttl E level)"
  shows "verify E k (acc_token t) =
    Inr (access_claims E (clock E i div 1000) (uuid E j) userId sessionId level)"
proof -
  let ?c = "access_claims E (clock E i div 1000) (uuid E j) userId sessionId level"
  have tok: "acc_token t = encodeJson E (token_header E) @ CHR ''.'' # encodeJson E ?c @ CHR ''.''
      # b64_encode (rsa_sign E (encodeJson E (token_header E) @ ''.'' @ encodeJson E ?c))"
    using assms(4) by (auto simp: issue_def Let_def split: if_splits)
  have aud: "aud_accepted E ?c"
    using assms(3) by (cases "audiences E") (auto simp: aud_accepted_def access_claims_def)
  have lvl: "claims_session_level ?c = Some level"
    by (cases level) (simp_all add: claims_session_level_def access_claims_def)
  have sig: "rsa_verify E (publicKey E) m (rsa_sign E m)" for m
    using assms(2) by (simp add: rsa_laws_def publicKey_def)
  show ?thesis
    unfolding verify_def tok
    using assms(1,5) aud lvl sig
    by (simp add: split_on_append split_on_none Let_def token_header_def js_at_most_def)
      (simp add: access_claims_def)
qed

end
