(* ===== verification/Guards.thy ===== *)
theory Guards
  imports AccessToken
begin

text \<open>
  The guards in front of the handlers: bearer authentication against the session row
  (\<open>access-auth.guard.ts\<close>), the required session level (\<open>session-level.guard.ts\<close>), the guard of the
  session upgrade (\<open>session-upgrade.guard.ts\<close>) and the keys of internal services
  (\<open>internal-service.guard.ts\<close>).
\<close>

text \<open>\<open>/^Bearer ([A-Za-z0-9._-]+)$/.exec(authorization ?? '')\<close>\<close>

definition bearer_char :: "char \<Rightarrow> bool" where
  "bearer_char c \<longleftrightarrow> is_alnum c \<or> c \<in> set ''._-''"

definition bearer_token :: "string option \<Rightarrow> string option" where
  "bearer_token authorization = (case authorization of
     None \<Rightarrow> None
   | Some h \<Rightarrow>
       if take 7 h = ''Bearer '' \<and> drop 7 h \<noteq> [] \<and> list_all bearer_char (drop 7 h)
       then Some (drop 7 h) else None)"

text \<open>
  \<open>authSession.findUnique({ where: { id: claims.sid } })\<close> with the user's account status; a
  \<open>sid\<close> that is not a string is a validation error of the query.
\<close>

definition find_session :: "json option \<Rightarrow> db \<Rightarrow> (session_row \<times> user_account_status option) option result" where
  "find_session sid d = (case sid of
     Some (JStr k) \<Rightarrow> Inr (case find_row (\<lambda>s. ses_id s = k) (sessions d) of
         None \<Rightarrow> None
       | Some s \<Rightarrow> Some (s, map_option usr_accountStatus
           (find_row (\<lambda>u. usr_id u = ses_userId s) (users d))))
   | _ \<Rightarrow> Inl (Raised ''PrismaClientValidationError''))"

definition access_guard :: "env \<Rightarrow> string option \<Rightarrow> db \<Rightarrow> json result" where
  "access_guard E authorization d = (case bearer_token authorization of
     None \<Rightarrow> Inl access_token_invalid
   | Some token \<Rightarrow>
  (case verify E 0 token of
     Inl e \<Rightarrow> Inl e
   | Inr claims \<Rightarrow>
  (case find_session (json_field ''sid'' claims) d of
     Inl e \<Rightarrow> Inl e
   | Inr None \<Rightarrow> Inl access_token_invalid
   | Inr (Some (session, accountStatus)) \<Rightarrow>
       if json_field ''sub'' claims \<noteq> Some (JStr (ses_userId session))
          \<or> ses_status session \<noteq> Session_ACTIVE
          \<or> ses_expiresAt session \<le> clock E 1
          \<or> Some (ses_level session) \<noteq> claims_session_level claims
          \<or> accountStatus \<noteq> Some Account_ACTIVE
       then Inl access_token_invalid else Inr claims)))"

definition session_level_guard :: "session_level option \<Rightarrow> json \<Rightarrow> bool result" where
  "session_level_guard required auth = (case required of
     None \<Rightarrow> Inr True
   | Some level \<Rightarrow>
       if claims_session_level auth = Some FULL \<or> claims_session_level auth = Some level
       then Inr True else Inl (Http 403 ''FULL_SESSION_REQUIRED''))"

definition SESSION_UPGRADE_REVOCATION_REASON :: string where
  "SESSION_UPGRADE_REVOCATION_REASON = ''LIMITED_TO_FULL_SESSION_UPGRADE''"

abbreviation upgrade_auth_invalid :: api_error where
  "upgrade_auth_invalid \<equiv> Http 401 ''SESSION_UPGRADE_AUTH_INVALID''"

definition session_upgrade_guard :: "env \<Rightarrow> string option \<Rightarrow> db \<Rightarrow> json result" where
  "session_upgrade_guard E authorization d = (case bearer_token authorization of
     None \<Rightarrow> Inl upgrade_auth_invalid
   | Some token \<Rightarrow>
  (case verify E 0 token of
     Inl e \<Rightarrow> Inl e
   | Inr claims \<Rightarrow>
  (case find_session (json_field ''sid'' claims) d of
     Inl e \<Rightarrow> Inl e
   | Inr None \<Rightarrow> Inl upgrade_auth_invalid
   | Inr (Some (session, accountStatus)) \<Rightarrow>
       let activeOrUpgradeReplay = ses_status session = Session_ACTIVE
             \<or> ses_status session = Session_REVOKED
               \<and> ses_revocationReason session = Some SESSION_UPGRADE_REVOCATION_REASON
       in if json_field ''sub'' claims \<noteq> Some (JStr (ses_userId session))
             \<or> ses_level session \<noteq> LIMITED
             \<or> claims_session_level claims \<noteq> Some LIMITED
             \<or> \<not> activeOrUpgradeReplay
             \<or> ses_expiresAt session \<le> clock E 1
             \<or> accountStatus \<noteq> Some Account_ACTIVE
          then Inl upgrade_auth_invalid else Inr claims)))"

definition keyFor :: "env \<Rightarrow> string \<Rightarrow> string option" where
  "keyFor E service =
     (if service = ''mucyora-user'' then Some (cfg_str E ''MUCYORA_USER_SERVICE_KEY'')
      else if service = ''mucyora-signature'' then Some (cfg_str E ''MUCYORA_SIGNATURE_SERVICE_KEY'')
      else if service = ''mucyora-auth-recovery''
      then Some (cfg_str E ''MUCYORA_AUTH_RECOVERY_SERVICE_KEY'')
      else if service = ''mucyora-operations'' then Some (cfg_str E ''MUCYORA_OPERATIONS_SERVICE_KEY'')
      else None)"

text \<open>Empty strings are falsy: an absent service, key or configuration never authenticates.\<close>

definition internal_service_guard :: "env \<Rightarrow> string option \<Rightarrow> string option \<Rightarrow> string result" where
  "internal_service_guard E service presented =
     (let expected = (case service of None \<Rightarrow> None | Some s \<Rightarrow> if s = [] then None else keyFor E s)
      in (case (presented, expected, service) of
            (Some p, Some e, Some s) \<Rightarrow>
              if p = [] \<or> e = [] \<or> \<not> constantTimeEqual p e
              then Inl (Http 401 ''INTERNAL_SERVICE_UNAUTHORIZED'') else Inr s
          | _ \<Rightarrow> Inl (Http 401 ''INTERNAL_SERVICE_UNAUTHORIZED'')))"

subsection \<open>What the guards show\<close>

text \<open>A session row that grants access to its user at an instant.\<close>

definition live_session :: "db \<Rightarrow> int \<Rightarrow> session_row \<Rightarrow> bool" where
  "live_session d now s \<longleftrightarrow> s \<in> set (sessions d) \<and> ses_status s = Session_ACTIVE \<and> now < ses_expiresAt s
     \<and> map_option usr_accountStatus (find_row (\<lambda>u. usr_id u = ses_userId s) (users d)) = Some Account_ACTIVE"

lemma access_guard_InrE:
  assumes "access_guard E authorization d = Inr claims"
  obtains token s where "authorization = Some (''Bearer '' @ token)" and "verify E 0 token = Inr claims"
    and "live_session d (clock E 1) s" and "json_field ''sid'' claims = Some (JStr (ses_id s))"
    and "json_field ''sub'' claims = Some (JStr (ses_userId s))"
    and "claims_session_level claims = Some (ses_level s)"
proof -
  obtain h where h: "authorization = Some h" "take 7 h = ''Bearer ''" and v: "verify E 0 (drop 7 h) = Inr claims"
    using assms by (auto simp: access_guard_def bearer_token_def split: option.splits sum.splits if_splits)
  have "h = ''Bearer '' @ drop 7 h" using h(2) append_take_drop_id [of 7 h] by metis
  moreover obtain k where k: "json_field ''sid'' claims = Some (JStr k)"
    using assms v h by (auto simp: access_guard_def bearer_token_def find_session_def
        split: option.splits sum.splits if_splits json.splits)
  moreover obtain s where s: "find_row (\<lambda>s. ses_id s = k) (sessions d) = Some s"
    and "ses_status s = Session_ACTIVE" "clock E 1 < ses_expiresAt s"
    and "map_option usr_accountStatus (find_row (\<lambda>u. usr_id u = ses_userId s) (users d)) = Some Account_ACTIVE"
    and "json_field ''sub'' claims = Some (JStr (ses_userId s))"
    and "claims_session_level claims = Some (ses_level s)"
    using assms v h k by (auto simp: access_guard_def bearer_token_def find_session_def
        split: option.splits if_splits)
  moreover have "s \<in> set (sessions d)" "ses_id s = k" using find_row_SomeD [OF s] by auto
  ultimately show ?thesis using h(1) v that [of "drop 7 h" s] unfolding live_session_def by auto
qed

lemma access_guard_dead:
  assumes "\<And>s. s \<in> set (sessions d) \<Longrightarrow> json_field ''sid'' claims = Some (JStr (ses_id s))
      \<Longrightarrow> ses_status s \<noteq> Session_ACTIVE"
  shows "access_guard E authorization d \<noteq> Inr claims"
  using assms by (auto elim!: access_guard_InrE simp: live_session_def)

text \<open>A session that one of the two guards accepts: active, or replaced by the session of an upgrade.\<close>

definition session_open :: "session_row \<Rightarrow> bool" where
  "session_open s \<longleftrightarrow> ses_status s = Session_ACTIVE
     \<or> ses_status s = Session_REVOKED \<and> ses_revocationReason s = Some SESSION_UPGRADE_REVOCATION_REASON"

lemma upgrade_guard_dead:
  assumes "\<And>s. s \<in> set (sessions d) \<Longrightarrow> json_field ''sid'' claims = Some (JStr (ses_id s)) \<Longrightarrow> \<not> session_open s"
  shows "session_upgrade_guard E authorization d \<noteq> Inr claims"
  using assms
  by (auto simp: session_upgrade_guard_def find_session_def session_open_def Let_def
      split: option.splits sum.splits if_splits json.splits dest!: find_row_SomeD)

lemma bearer_b64 [simp]: "list_all bearer_char (b64_encode s)"
  using b64_encode_alphabet [of _ s]
  by (auto simp: list_all_iff bearer_char_def is_b64url_def)

lemma bearer_json [simp]: "list_all bearer_char (encodeJson E j)"
  by (simp add: encodeJson_def)

lemma bearer_issued:
  assumes "issue E i j u s l = Inr t"
  shows "bearer_token (Some (''Bearer '' @ acc_token t)) = Some (acc_token t)"
  using assms by (auto simp: issue_def Let_def bearer_token_def bearer_char_def split: if_splits)

lemma access_guard_issued:
  assumes "json_laws E" and "rsa_laws E" and "audiences E \<noteq> []"
    and iss: "issue E i j (ses_userId s) (ses_id s) (ses_level s) = Inr t"
    and time: "clock E 0 div 1000 < clock E i div 1000 + int (access_ttl E (ses_level s))"
    and dist: "distinct (map ses_id (sessions d))" and live: "live_session d (clock E 1) s"
  shows "access_guard E (Some (''Bearer '' @ acc_token t)) d =
    Inr (access_claims E (clock E i div 1000) (uuid E j) (ses_userId s) (ses_id s) (ses_level s))"
proof -
  let ?c = "access_claims E (clock E i div 1000) (uuid E j) (ses_userId s) (ses_id s) (ses_level s)"
  have v: "verify E 0 (acc_token t) = Inr ?c"
    using verify_issue [OF assms(1-3) iss time] .
  have "find_row (\<lambda>r. ses_id r = ses_id s) (sessions d) = Some s"
    using dist live by (auto simp: live_session_def intro: find_row_key)
  then have "find_session (json_field ''sid'' ?c) d = Inr (Some (s, Some Account_ACTIVE))"
    using live by (simp add: access_claims_def find_session_def live_session_def)
  moreover have "claims_session_level ?c = Some (ses_level s)"
    by (cases "ses_level s") (simp_all add: claims_session_level_def access_claims_def)
  ultimately show ?thesis
    using live unfolding access_guard_def bearer_issued [OF iss] option.case v sum.case
    by (auto simp: live_session_def) (simp add: access_claims_def)
qed

lemma internal_service_guard_InrD:
  assumes "internal_service_guard E service presented = Inr s"
  shows "service = Some s \<and> (\<exists>k. keyFor E s = Some k \<and> k \<noteq> [] \<and> presented = Some k)"
  using assms by (auto simp: internal_service_guard_def Let_def split: option.splits if_splits)

end
