(* ===== verification/Authentication.thy ===== *)
theory Authentication
  imports Guards
begin

text \<open>
  \<open>AuthenticationService\<close> (\<open>modules/auth/authentication.service.ts\<close>), \<open>LoginRiskService\<close> and the
  cookie handling of \<open>auth.controller.ts\<close>: login, refresh-token rotation and the answer to the reuse
  of a rotated token.  In \<open>login\<close> the clock is read at 0 (lock check), 1 (new lock), 2 (session) and
  3 (access token); in \<open>refresh\<close> at 0 (grace), 1 (reuse), 2 and 3 (expiries), 4 (rotation), 5 (access
  token).
\<close>

subsection \<open>Login risk\<close>

datatype risk_level = Risk_LOW | Risk_ELEVATED

fun risk_text :: "risk_level \<Rightarrow> string" where
  "risk_text Risk_LOW = ''LOW''"
| "risk_text Risk_ELEVATED = ''ELEVATED''"

record login_risk_decision =
  rsk_level :: risk_level
  rsk_reason :: "string option"

definition assess :: "string \<Rightarrow> string \<Rightarrow> string \<Rightarrow> string \<Rightarrow> db \<Rightarrow> login_risk_decision" where
  "assess userId deviceId ipHash userAgentHash d =
     (let recent = take_rows_desc ses_createdAt 20 (\<lambda>s. ses_userId s = userId) (sessions d) in
      if recent = [] then \<lparr>rsk_level = Risk_LOW, rsk_reason = None\<rparr>
      else if \<not> list_ex (\<lambda>s. ses_deviceId s = deviceId) recent
      then \<lparr>rsk_level = Risk_ELEVATED, rsk_reason = Some ''NEW_DEVICE''\<rparr>
      else if list_ex (\<lambda>s. ses_deviceId s = deviceId \<and> ses_ipHash s = ipHash
              \<and> ses_userAgentHash s = userAgentHash) recent
      then \<lparr>rsk_level = Risk_LOW, rsk_reason = None\<rparr>
      else \<lparr>rsk_level = Risk_ELEVATED, rsk_reason = Some ''DEVICE_CONTEXT_CHANGED''\<rparr>)"

subsection \<open>Answers\<close>

record auth_response =
  rsp_accessToken :: string
  rsp_expiresIn :: nat
  rsp_sessionLevel :: session_level
  rsp_identityVerified :: bool
  rsp_refreshToken :: "string option"

record issued_authentication =
  iss_response :: auth_response
  iss_refreshToken :: string
  iss_csrfToken :: string
  iss_transport :: token_transport

record login_input =
  lgi_email :: string
  lgi_password :: string
  lgi_deviceId :: string
  lgi_deviceLabel :: "string option"
  lgi_transport :: token_transport

definition buildIssuedAuthentication ::
  "env \<Rightarrow> nat \<Rightarrow> nat \<Rightarrow> string \<Rightarrow> string \<Rightarrow> session_level \<Rightarrow> string \<Rightarrow> token_transport
     \<Rightarrow> issued_authentication result" where
  "buildIssuedAuthentication E i j userId sessionId sessionLevel refreshToken transport =
     (case issue E i j userId sessionId sessionLevel of
        Inl e \<Rightarrow> Inl e
      | Inr access \<Rightarrow> Inr
          \<lparr>iss_response =
             \<lparr>rsp_accessToken = acc_token access, rsp_expiresIn = acc_expiresIn access,
              rsp_sessionLevel = sessionLevel, rsp_identityVerified = (sessionLevel = FULL),
              rsp_refreshToken = (if transport = NATIVE then Some refreshToken else None)\<rparr>,
           iss_refreshToken = refreshToken,
           iss_csrfToken = requestContext E refreshToken,
           iss_transport = transport\<rparr>)"

abbreviation invalidCredentials :: api_error where
  "invalidCredentials \<equiv> Http 401 ''INVALID_CREDENTIALS''"

abbreviation invalidRefresh :: api_error where
  "invalidRefresh \<equiv> Http 401 ''REFRESH_TOKEN_INVALID''"

abbreviation too_many_requests :: api_error where
  "too_many_requests \<equiv> Http 429 ''RATE_LIMIT_EXCEEDED''"

abbreviation limiter_unavailable :: api_error where
  "limiter_unavailable \<equiv> Http 503 ''RATE_LIMIT_SERVICE_UNAVAILABLE''"

definition applyLoginRateLimit ::
  "env \<Rightarrow> string \<Rightarrow> string \<Rightarrow> string \<Rightarrow> redis \<Rightarrow> unit result \<times> redis" where
  "applyLoginRateLimit E ipDigest emailDigest deviceDigest r =
     (case assertLoginAllowed E ipDigest emailDigest deviceDigest r of
        (Inr _, r1) \<Rightarrow> (Inr (), r1)
      | (Inl e, r1) \<Rightarrow>
          (Inl (if e = authentication_limit then too_many_requests else limiter_unavailable), r1))"

definition applyRefreshRateLimit :: "env \<Rightarrow> string \<Rightarrow> redis \<Rightarrow> unit result \<times> redis" where
  "applyRefreshRateLimit E tokenDigest r =
     (case assertRefreshAllowed E tokenDigest r of
        (Inr _, r1) \<Rightarrow> (Inr (), r1)
      | (Inl e, r1) \<Rightarrow>
          (Inl (if e = authentication_limit then too_many_requests else limiter_unavailable), r1))"

subsection \<open>Failed credentials\<close>

definition login_failed_event :: "string option \<Rightarrow> string \<Rightarrow> string \<Rightarrow> event_input" where
  "login_failed_event userId correlationId ipHash =
     \<lparr>evi_userId = userId, evi_sessionId = None, evi_type = LOGIN_FAILED,
      evi_severity = Severity_WARNING, evi_outcome = Outcome_FAILURE,
      evi_reasonCode = Some ''INVALID_CREDENTIALS'', evi_correlationId = correlationId,
      evi_ipHash = Some ipHash, evi_userAgentHash = None, evi_metadata = None\<rparr>"

definition recordFailedCredential ::
  "env \<Rightarrow> string \<Rightarrow> string \<Rightarrow> nat \<Rightarrow> string \<Rightarrow> string \<Rightarrow> db \<Rightarrow> unit result \<times> db" where
  "recordFailedCredential E userId credentialId failedCount correlationId ipHash =
     transact (\<lambda>d.
       let nextCount = failedCount + 1 in
       if count_rows (\<lambda>c. cred_id c = credentialId) (credentials d) = 0
       then (Inl record_not_found, d)
       else let d1 = d\<lparr>credentials := update_rows (\<lambda>c. cred_id c = credentialId)
              (\<lambda>c. c\<lparr>cred_failedLoginCount := cred_failedLoginCount c + 1,
                     cred_lockedUntil := if cfg_num E ''LOGIN_LOCK_THRESHOLD'' \<le> nextCount
                       then Some (clock E 1 + seconds E ''LOGIN_LOCK_SECONDS'')
                       else cred_lockedUntil c\<rparr>) (credentials d)\<rparr>
         in (Inr (), create_event E (login_failed_event (Some userId) correlationId ipHash) d1))"

text \<open>The writer's failure is swallowed.\<close>

definition writeLoginFailure :: "env \<Rightarrow> string \<Rightarrow> string \<Rightarrow> string option \<Rightarrow> db \<Rightarrow> db" where
  "writeLoginFailure E correlationId ipHash userId d =
     snd (write_event E (login_failed_event userId correlationId ipHash) d)"

subsection \<open>Login\<close>

definition login_session :: "env \<Rightarrow> login_input \<Rightarrow> user_row \<Rightarrow> string \<Rightarrow> string
    \<Rightarrow> login_risk_decision \<Rightarrow> session_level \<Rightarrow> session_row" where
  "login_session E input user ipHash userAgentHash risk sessionLevel =
     \<lparr>ses_id = [], ses_userId = usr_id user, ses_familyId = uuid E 0, ses_level = sessionLevel,
      ses_status = Session_ACTIVE, ses_deviceId = lgi_deviceId input,
      ses_deviceLabel = lgi_deviceLabel input, ses_ipHash = ipHash,
      ses_userAgentHash = userAgentHash, ses_riskLevel = Some (risk_text (rsk_level risk)),
      ses_riskReason = rsk_reason risk, ses_createdAt = db_clock E, ses_lastUsedAt = db_clock E,
      ses_expiresAt = clock E 2 + seconds E ''REFRESH_TOKEN_TTL_SECONDS'', ses_revokedAt = None,
      ses_revocationReason = None, ses_version = 0\<rparr>"

definition login_refresh_row :: "env \<Rightarrow> string \<Rightarrow> string \<Rightarrow> string \<Rightarrow> session_level \<Rightarrow> refresh_row" where
  "login_refresh_row E userId sessionId tokenDigest sessionLevel =
     \<lparr>rft_id = [], rft_userId = userId, rft_sessionId = sessionId, rft_tokenDigest = tokenDigest,
      rft_tokenType = session_level_lower sessionLevel, rft_generation = 0, rft_issuedAt = clock E 2,
      rft_expiresAt = clock E 2 + seconds E ''REFRESH_TOKEN_TTL_SECONDS'', rft_usedAt = None,
      rft_revoked = False, rft_revokedAt = None, rft_replacedBy = None, rft_reuseDetectedAt = None\<rparr>"

definition login_level :: "user_row \<Rightarrow> login_risk_decision \<Rightarrow> session_level" where
  "login_level user risk =
     (if usr_identityStatus user = Identity_VERIFIED \<and> rsk_level risk = Risk_LOW then FULL else LIMITED)"

text \<open>The transaction of a login: session, refresh token, credential reset and audit event.\<close>

definition login_commit :: "env \<Rightarrow> login_input \<Rightarrow> request_context \<Rightarrow> user_row \<Rightarrow> credential_row \<Rightarrow> string
    \<Rightarrow> login_risk_decision \<Rightarrow> string \<Rightarrow> string option \<Rightarrow> db \<Rightarrow> string result \<times> db" where
  "login_commit E input ctx user credential ipHash risk refreshDigest rehashed =
     transact (\<lambda>d.
       let (sid, d1) = create_session E (login_session E input user ipHash
             (requestContext E (rq_userAgent ctx)) risk (login_level user risk)) d
       in and_then (create_refresh_token E (login_refresh_row E (usr_id user) sid refreshDigest
             (login_level user risk)) d1)
       (\<lambda>_ d2.
       if count_rows (\<lambda>c. cred_id c = cred_id credential) (credentials d2) = 0
       then (Inl record_not_found, d2)
       else let d3 = d2\<lparr>credentials := update_rows (\<lambda>c. cred_id c = cred_id credential)
              (\<lambda>c. c\<lparr>cred_failedLoginCount := 0, cred_lockedUntil := None,
                     cred_passwordHash := (case rehashed of None \<Rightarrow> cred_passwordHash c | Some h \<Rightarrow> h),
                     cred_passwordAlgorithm := (case rehashed of None \<Rightarrow> cred_passwordAlgorithm c
                       | Some h \<Rightarrow> ''argon2id-v19'')\<rparr>) (credentials d2)\<rparr>
         in (Inr sid, create_event E
              \<lparr>evi_userId = Some (usr_id user), evi_sessionId = Some sid, evi_type = LOGIN_SUCCEEDED,
               evi_severity = Severity_INFO, evi_outcome = Outcome_SUCCESS, evi_reasonCode = None,
               evi_correlationId = rq_correlationId ctx, evi_ipHash = Some ipHash,
               evi_userAgentHash = None, evi_metadata = None\<rparr> d3)))"

text \<open>From the user lookup on.\<close>

definition login_checked ::
  "env \<Rightarrow> login_input \<Rightarrow> request_context \<Rightarrow> string \<Rightarrow> db \<Rightarrow> issued_authentication result \<times> db" where
  "login_checked E input ctx emailNormalized d =
     (let ipHash = requestContext E (rq_ipAddress ctx);
          user = find_row (\<lambda>u. usr_emailNormalized u = emailNormalized) (users d);
          credential = (case user of None \<Rightarrow> None
            | Some u \<Rightarrow> find_row (\<lambda>c. cred_userId c = usr_id u) (credentials d))
      in (case (user, credential) of
        (Some user, Some credential) \<Rightarrow>
          (let passwordValid = password_verify E (cred_passwordHash credential) (lgi_password input);
               locked = (case cred_lockedUntil credential of None \<Rightarrow> False | Some t \<Rightarrow> clock E 0 < t)
           in if \<not> passwordValid \<or> locked
              then (case recordFailedCredential E (usr_id user) (cred_id credential)
                          (cred_failedLoginCount credential) (rq_correlationId ctx) ipHash d of
                      (Inl e, d1) \<Rightarrow> (Inl e, d1)
                    | (Inr _, d1) \<Rightarrow> (Inl invalidCredentials, d1))
              else if usr_accountStatus user = Account_DISABLED
                    \<or> usr_accountStatus user = Account_SUSPENDED
                    \<or> usr_accountStatus user = Account_LOCKED
              then (Inl invalidCredentials,
                    writeLoginFailure E (rq_correlationId ctx) ipHash (Some (usr_id user)) d)
              else if usr_emailVerifiedAt user = None
              then (Inl (Http 403 ''EMAIL_VERIFICATION_REQUIRED''), d)
              else
                let risk = assess (usr_id user) (lgi_deviceId input) ipHash
                      (requestContext E (rq_userAgent ctx)) d
                in (case generate_token E 0 48 of
                  Inl e \<Rightarrow> (Inl e, d)
                | Inr refresh \<Rightarrow>
                (case (if argon2_needsRehash E (cred_passwordHash credential)
                       then map_sum id Some (password_hash E (lgi_password input) emailNormalized)
                       else Inr None) of
                  Inl e \<Rightarrow> (Inl e, d)
                | Inr rehashed \<Rightarrow>
                (case login_commit E input ctx user credential ipHash risk (tok_digest refresh)
                        rehashed d of
                  (Inl e, d1) \<Rightarrow> (Inl e, d1)
                | (Inr sid, d1) \<Rightarrow>
                    (buildIssuedAuthentication E 3 1 (usr_id user) sid (login_level user risk)
                       (tok_token refresh) (lgi_transport input), d1)))))
      | _ \<Rightarrow> (Inl invalidCredentials, writeLoginFailure E (rq_correlationId ctx) ipHash None d)))"

definition login ::
  "env \<Rightarrow> login_input \<Rightarrow> request_context \<Rightarrow> db \<Rightarrow> redis \<Rightarrow> issued_authentication result \<times> db \<times> redis" where
  "login E input ctx d r =
     (case normalizeEmail E (lgi_email input) of
        Inl e \<Rightarrow> (Inl e, d, r)
      | Inr emailNormalized \<Rightarrow>
     (case applyLoginRateLimit E (requestContext E (rq_ipAddress ctx))
             (requestContext E emailNormalized) (requestContext E (lgi_deviceId input)) r of
        (Inl e, r1) \<Rightarrow> (Inl e, d, r1)
      | (Inr _, r1) \<Rightarrow>
          (let (res, d1) = login_checked E input ctx emailNormalized d in (res, d1, r1))))"

subsection \<open>Refresh\<close>

definition refresh_row_of :: "env \<Rightarrow> refresh_row \<Rightarrow> session_row \<Rightarrow> string \<Rightarrow> refresh_row" where
  "refresh_row_of E current session tokenDigest =
     \<lparr>rft_id = [], rft_userId = rft_userId current, rft_sessionId = rft_sessionId current,
      rft_tokenDigest = tokenDigest, rft_tokenType = session_level_lower (ses_level session),
      rft_generation = rft_generation current + 1, rft_issuedAt = clock E 4,
      rft_expiresAt = ses_expiresAt session, rft_usedAt = None, rft_revoked = False,
      rft_revokedAt = None, rft_replacedBy = None, rft_reuseDetectedAt = None\<rparr>"

lemma refresh_row_of_simps [simp]:
  "rft_tokenDigest (refresh_row_of E current session x) = x"
  "rft_usedAt (refresh_row_of E current session x) = None"
  "rft_revokedAt (refresh_row_of E current session x) = None"
  "rft_userId (refresh_row_of E current session x) = rft_userId current"
  "rft_sessionId (refresh_row_of E current session x) = rft_sessionId current"
  "rft_generation (refresh_row_of E current session x) = rft_generation current + 1"
  "rft_expiresAt (refresh_row_of E current session x) = ses_expiresAt session"
  by (simp_all add: refresh_row_of_def)

text \<open>The token row is still unspent: the condition of the consuming \<open>updateMany\<close>.\<close>

definition unspent :: "env \<Rightarrow> string \<Rightarrow> refresh_row \<Rightarrow> bool" where
  "unspent E k t \<longleftrightarrow> rft_id t = k \<and> rft_usedAt t = None \<and> rft_revokedAt t = None
     \<and> clock E 4 < rft_expiresAt t"

text \<open>The transaction of a rotation, given the rows read before it.\<close>

definition rotate :: "env \<Rightarrow> request_context \<Rightarrow> refresh_row \<Rightarrow> session_row \<Rightarrow> string
    \<Rightarrow> db \<Rightarrow> unit result \<times> db" where
  "rotate E ctx current session replacementDigest =
     transact (\<lambda>d.
       let active = (\<lambda>s. ses_id s = rft_sessionId current \<and> ses_status s = Session_ACTIVE
             \<and> clock E 4 < ses_expiresAt s);
           d1 = d\<lparr>sessions := update_rows active
             (\<lambda>s. s\<lparr>ses_lastUsedAt := clock E 4, ses_version := ses_version s + 1\<rparr>) (sessions d)\<rparr>
       in if count_rows active (sessions d) \<noteq> 1 then (Inl invalidRefresh, d1)
          else and_then (create_refresh_token E (refresh_row_of E current session replacementDigest) d1)
          (\<lambda>created d2.
            let d3 = d2\<lparr>refresh_tokens := update_rows (unspent E (rft_id current))
                  (\<lambda>t. t\<lparr>rft_usedAt := Some (clock E 4), rft_replacedBy := Some created\<rparr>)
                  (refresh_tokens d2)\<rparr>
            in if count_rows (unspent E (rft_id current)) (refresh_tokens d2) \<noteq> 1
               then (Inl (Http 409 ''REFRESH_IN_PROGRESS''), d3)
               else (Inr (), create_event E
                 \<lparr>evi_userId = Some (rft_userId current), evi_sessionId = Some (rft_sessionId current),
                  evi_type = SESSION_REFRESHED, evi_severity = Severity_INFO,
                  evi_outcome = Outcome_SUCCESS, evi_reasonCode = None,
                  evi_correlationId = rq_correlationId ctx,
                  evi_ipHash = Some (requestContext E (rq_ipAddress ctx)),
                  evi_userAgentHash = None, evi_metadata = None\<rparr> d3)))"

definition revokeForReuse :: "env \<Rightarrow> refresh_row \<Rightarrow> request_context \<Rightarrow> db \<Rightarrow> unit result \<times> db" where
  "revokeForReuse E current ctx =
     transact (\<lambda>d.
       let now = clock E 1;
           d1 = d\<lparr>refresh_tokens := update_rows (\<lambda>t. rft_sessionId t = rft_sessionId current)
             (\<lambda>t. t\<lparr>rft_revokedAt := Some now\<rparr>) (refresh_tokens d)\<rparr>
       in if count_rows (\<lambda>t. rft_id t = rft_id current) (refresh_tokens d1) = 0
          then (Inl record_not_found, d1)
          else let d2 = d1\<lparr>refresh_tokens := update_rows (\<lambda>t. rft_id t = rft_id current)
                 (\<lambda>t. t\<lparr>rft_reuseDetectedAt := Some now\<rparr>) (refresh_tokens d1)\<rparr>;
               d3 = d2\<lparr>sessions := update_rows (\<lambda>s. ses_id s = rft_sessionId current)
                 (\<lambda>s. s\<lparr>ses_status := Session_COMPROMISED, ses_revokedAt := Some now,
                        ses_revocationReason := Some ''REFRESH_TOKEN_REUSE'',
                        ses_version := ses_version s + 1\<rparr>) (sessions d2)\<rparr>
            in (Inr (), create_event E
                 \<lparr>evi_userId = Some (rft_userId current), evi_sessionId = Some (rft_sessionId current),
                  evi_type = REFRESH_TOKEN_REUSE_DETECTED, evi_severity = Severity_HIGH,
                  evi_outcome = Outcome_DENIED, evi_reasonCode = Some ''REFRESH_TOKEN_REUSE'',
                  evi_correlationId = rq_correlationId ctx,
                  evi_ipHash = Some (requestContext E (rq_ipAddress ctx)),
                  evi_userAgentHash = None, evi_metadata = None\<rparr> d3))"

text \<open>The body of the \<open>try\<close>, under the session's lock, on the rows read before the lock.\<close>

definition refresh_locked :: "env \<Rightarrow> refresh_row \<Rightarrow> session_row \<Rightarrow> token_transport \<Rightarrow> request_context
    \<Rightarrow> db \<Rightarrow> issued_authentication result \<times> db" where
  "refresh_locked E current session transport ctx d = (case rft_usedAt current of
     Some usedAt \<Rightarrow>
       if clock E 0 - usedAt \<le> seconds E ''REFRESH_REPLAY_GRACE_SECONDS''
       then (Inl (Http 409 ''REFRESH_ALREADY_ROTATED''), d)
       else (case revokeForReuse E current ctx d of
           (Inl e, d1) \<Rightarrow> (Inl e, d1)
         | (Inr _, d1) \<Rightarrow> (Inl invalidRefresh, d1))
   | None \<Rightarrow>
       if rft_revokedAt current \<noteq> None \<or> rft_expiresAt current \<le> clock E 2
          \<or> ses_status session \<noteq> Session_ACTIVE \<or> ses_expiresAt session \<le> clock E 3
       then (Inl invalidRefresh, d)
       else (case generate_token E 0 48 of
           Inl e \<Rightarrow> (Inl e, d)
         | Inr replacement \<Rightarrow>
             (case rotate E ctx current session (tok_digest replacement) d of
                (Inl e, d1) \<Rightarrow> (Inl e, d1)
              | (Inr _, d1) \<Rightarrow>
                  (buildIssuedAuthentication E 5 1 (rft_userId current) (rft_sessionId current)
                     (ses_level session) (tok_token replacement) transport, d1))))"

definition refresh_lock_key :: "env \<Rightarrow> string \<Rightarrow> string" where
  "refresh_lock_key E sessionId = cfg_str E ''CACHE_PREFIX'' @ ''lock:refresh:'' @ sessionId"

text \<open>
  \<open>refreshToken.findUnique({ where: { tokenDigest } })\<close> with its session.  A missing reference of the
  nullable columns is an empty identifier.
\<close>

definition find_refresh :: "string \<Rightarrow> db \<Rightarrow> (refresh_row \<times> session_row) option" where
  "find_refresh tokenDigest d =
     (case find_row (\<lambda>t. rft_tokenDigest t = tokenDigest) (refresh_tokens d) of
        None \<Rightarrow> None
      | Some t \<Rightarrow>
          if rft_sessionId t = [] \<or> rft_userId t = [] then None
          else map_option (Pair t) (find_row (\<lambda>s. ses_id s = rft_sessionId t) (sessions d)))"

definition refresh :: "env \<Rightarrow> string \<Rightarrow> token_transport \<Rightarrow> request_context \<Rightarrow> db \<Rightarrow> redis
    \<Rightarrow> issued_authentication result \<times> db \<times> redis" where
  "refresh E refreshToken transport ctx d r =
     (let tokenDigest = token_digest E refreshToken
      in (case applyRefreshRateLimit E tokenDigest r of
        (Inl e, r1) \<Rightarrow> (Inl e, d, r1)
      | (Inr _, r1) \<Rightarrow>
     (case find_refresh tokenDigest d of
        None \<Rightarrow> (Inl invalidRefresh, d, r1)
      | Some (current, session) \<Rightarrow>
     (case ensureRedisConnected r1 of
        (Inl e, r2) \<Rightarrow> (Inl e, d, r2)
      | (Inr _, r2) \<Rightarrow>
     (let lockKey = refresh_lock_key E (rft_sessionId current); lockValue = uuid E 0
      in (case redis_set_nx lockKey lockValue 5 r2 of
            (Inl e, r3) \<Rightarrow> (Inl e, d, r3)
          | (Inr acquired, r3) \<Rightarrow>
              if \<not> acquired then (Inl (Http 409 ''REFRESH_IN_PROGRESS''), d, r3)
              else finally_release lockKey lockValue
                (let (res, d1) = refresh_locked E current session transport ctx d
                 in (res, d1, r3))))))))"

subsection \<open>The controller's transport\<close>

text \<open>\<open>readRefreshToken\<close>: a native client sends the token, a browser the cookie and the CSRF proof.\<close>

definition readRefreshToken :: "env \<Rightarrow> token_transport \<Rightarrow> string option \<Rightarrow> (string \<rightharpoonup> string)
    \<Rightarrow> string option \<Rightarrow> string result" where
  "readRefreshToken E transport bodyToken cookies csrfHeader =
     (let truthy = (\<lambda>v. case v of None \<Rightarrow> False | Some s \<Rightarrow> s \<noteq> []) in
      if transport = NATIVE
      then (if \<not> truthy bodyToken then Inl invalidRefresh else Inr (the bodyToken))
      else if truthy bodyToken then Inl invalidRefresh
      else (let refreshToken = cookies (cfg_str E ''REFRESH_COOKIE_NAME'');
                csrfCookie = cookies (cfg_str E ''CSRF_COOKIE_NAME'')
            in if \<not> truthy refreshToken \<or> \<not> truthy csrfCookie \<or> \<not> truthy csrfHeader
                  \<or> \<not> constantTimeEqual (the csrfCookie) (the csrfHeader)
                  \<or> \<not> constantTimeEqual (the csrfCookie) (requestContext E (the refreshToken))
               then Inl invalidRefresh else Inr (the refreshToken)))"

record cookie =
  ckv_name :: string
  ckv_value :: string
  ckv_httpOnly :: bool
  ckv_secure :: bool
  ckv_sameSite :: string
  ckv_domain :: "string option"
  ckv_path :: string
  ckv_maxAge :: int

definition applyTransport :: "env \<Rightarrow> issued_authentication \<Rightarrow> cookie list" where
  "applyTransport E issued =
     (if iss_transport issued \<noteq> COOKIE then []
      else let base = (\<lambda>name v httpOnly.
             \<lparr>ckv_name = name, ckv_value = v, ckv_httpOnly = httpOnly,
              ckv_secure = cfg_flag E ''COOKIE_SECURE'', ckv_sameSite = cfg_str E ''COOKIE_SAME_SITE'',
              ckv_domain = (if cfg_str E ''COOKIE_DOMAIN'' = [] then None
                else Some (cfg_str E ''COOKIE_DOMAIN'')),
              ckv_path = ''/api/v1/auth'', ckv_maxAge = seconds E ''REFRESH_TOKEN_TTL_SECONDS''\<rparr>)
        in [base (cfg_str E ''REFRESH_COOKIE_NAME'') (iss_refreshToken issued) True,
            base (cfg_str E ''CSRF_COOKIE_NAME'') (iss_csrfToken issued) False])"

subsection \<open>What login shows\<close>

lemma buildIssued_InrD:
  assumes "buildIssuedAuthentication E i j u s l t tr = Inr x"
  shows "iss_refreshToken x = t \<and> iss_transport x = tr \<and> rsp_sessionLevel (iss_response x) = l
    \<and> rsp_identityVerified (iss_response x) = (l = FULL)
    \<and> iss_csrfToken x = requestContext E t
    \<and> (\<exists>a. issue E i j u s l = Inr a \<and> rsp_accessToken (iss_response x) = acc_token a)"
  using assms by (auto simp: buildIssuedAuthentication_def split: sum.splits)

lemma buildIssued_total: "rsa_laws E \<Longrightarrow> \<exists>x. buildIssuedAuthentication E i j u s l t tr = Inr x"
  using issue_total [of E i j u s l] by (auto simp: buildIssuedAuthentication_def)

lemma writeLoginFailure_eq: "writeLoginFailure E c h u d = create_event E (login_failed_event u c h) d"
  by (simp add: writeLoginFailure_def write_event_def sanitizeMetadata_def login_failed_event_def)

lemma recordFailedCredential_frame:
  assumes "recordFailedCredential E u k n c h d = (res, d')"
  shows "sessions d' = sessions d \<and> refresh_tokens d' = refresh_tokens d \<and> users d' = users d"
  using assms by (auto simp: recordFailedCredential_def transact_def Let_def split: if_splits)

lemma recordFailedCredential_found:
  assumes "c \<in> set (credentials d)"
  shows "recordFailedCredential E u (cred_id c) n cor h d =
    (Inr (), create_event E (login_failed_event (Some u) cor h)
      (d\<lparr>credentials := update_rows (\<lambda>r. cred_id r = cred_id c)
        (\<lambda>r. r\<lparr>cred_failedLoginCount := cred_failedLoginCount r + 1,
               cred_lockedUntil := if cfg_num E ''LOGIN_LOCK_THRESHOLD'' \<le> n + 1
                 then Some (clock E 1 + seconds E ''LOGIN_LOCK_SECONDS'')
                 else cred_lockedUntil r\<rparr>) (credentials d)\<rparr>))"
proof -
  have "0 < count_rows (\<lambda>r. cred_id r = cred_id c) (credentials d)"
    using assms by (auto simp: count_rows_pos_iff)
  then show ?thesis
    by (simp add: recordFailedCredential_def transact_def Let_def)
qed

lemma login_commit_InrD:
  assumes "login_commit E input ctx user credential ipHash risk tokenDigest rehashed d = (Inr sid, d')"
  shows "sid = gen_id E (map ses_id (sessions d))"
    and "sessions d' = sessions d @ [(login_session E input user ipHash
      (requestContext E (rq_userAgent ctx)) risk (login_level user risk))\<lparr>ses_id := sid\<rparr>]"
    and "refresh_tokens d' = refresh_tokens d @ [(login_refresh_row E (usr_id user) sid tokenDigest
      (login_level user risk))\<lparr>rft_id := gen_id E (map rft_id (refresh_tokens d))\<rparr>]"
    and "tokenDigest \<notin> rft_tokenDigest ` set (refresh_tokens d)"
    and "users d' = users d"
  using assms unfolding login_commit_def
  by (auto dest!: transact_InrD simp: create_session_def create_refresh_token_def Let_def
      login_refresh_row_def split: if_splits)

lemma login_commit_InlD:
  "login_commit E input ctx user credential ipHash risk tokenDigest rehashed d = (Inl e, d') \<Longrightarrow> d' = d"
  unfolding login_commit_def by (rule transact_rolls_back)

text \<open>The two cases of a login that passes the lookup, the password and the account checks.\<close>

definition may_log_in :: "env \<Rightarrow> login_input \<Rightarrow> string \<Rightarrow> db \<Rightarrow> user_row \<Rightarrow> credential_row \<Rightarrow> bool" where
  "may_log_in E input email d u c \<longleftrightarrow>
     find_row (\<lambda>u. usr_emailNormalized u = email) (users d) = Some u
     \<and> find_row (\<lambda>c. cred_userId c = usr_id u) (credentials d) = Some c
     \<and> password_verify E (cred_passwordHash c) (lgi_password input)
     \<and> (\<forall>t. cred_lockedUntil c = Some t \<longrightarrow> t \<le> clock E 0)
     \<and> usr_accountStatus u \<notin> {Account_DISABLED, Account_SUSPENDED, Account_LOCKED}
     \<and> usr_emailVerifiedAt u \<noteq> None"

lemma login_checked_InrE:
  assumes "login_checked E input ctx email d = (Inr issued, d')"
  obtains u c sid rehashed where "may_log_in E input email d u c"
    and "login_commit E input ctx u c (requestContext E (rq_ipAddress ctx))
      (assess (usr_id u) (lgi_deviceId input) (requestContext E (rq_ipAddress ctx))
        (requestContext E (rq_userAgent ctx)) d)
      (token_digest E (iss_refreshToken issued)) rehashed d = (Inr sid, d')"
    and "buildIssuedAuthentication E 3 1 (usr_id u) sid
      (login_level u (assess (usr_id u) (lgi_deviceId input) (requestContext E (rq_ipAddress ctx))
        (requestContext E (rq_userAgent ctx)) d)) (iss_refreshToken issued) (lgi_transport input) = Inr issued"
proof -
  obtain u where u: "find_row (\<lambda>u. usr_emailNormalized u = email) (users d) = Some u"
    using assms by (auto simp: login_checked_def Let_def split: option.splits)
  obtain c where c: "find_row (\<lambda>c. cred_userId c = usr_id u) (credentials d) = Some c"
    using assms u by (auto simp: login_checked_def Let_def split: option.splits)
  note eq = assms [unfolded login_checked_def Let_def u c option.case prod.case]
  have may: "may_log_in E input email d u c"
    using eq u c by (auto simp: may_log_in_def split: if_splits prod.splits sum.splits option.splits)
  let ?t = "b64_encode (random_bytes E 0 48)"
  let ?r = "assess (usr_id u) (lgi_deviceId input) (requestContext E (rq_ipAddress ctx))
    (requestContext E (rq_userAgent ctx)) d"
  obtain sid rehashed where com: "login_commit E input ctx u c (requestContext E (rq_ipAddress ctx)) ?r
      (token_digest E ?t) rehashed d = (Inr sid, d')"
    and built: "buildIssuedAuthentication E 3 1 (usr_id u) sid (login_level u ?r) ?t (lgi_transport input)
      = Inr issued"
    using eq by (auto split: if_splits prod.splits sum.splits option.splits)
  from buildIssued_InrD [OF built] com built show ?thesis by (intro that [OF may]) simp_all
qed

subsection \<open>Lockout\<close>

text \<open>A sequence of logins for one account, each with its own environment, input and context.\<close>

fun login_attempts :: "string \<Rightarrow> (env \<times> login_input \<times> request_context) list \<Rightarrow> db \<Rightarrow> db" where
  "login_attempts email [] d = d"
| "login_attempts email ((E, input, ctx) # as) d =
     login_attempts email as (snd (login_checked E input ctx email d))"

definition wrong_password :: "credential_row \<Rightarrow> env \<times> login_input \<times> request_context \<Rightarrow> bool" where
  "wrong_password c a = (case a of (E, input, ctx) \<Rightarrow>
     \<not> password_verify E (cred_passwordHash c) (lgi_password input))"

lemma login_refused:
  assumes u: "find_row (\<lambda>u. usr_emailNormalized u = email) (users d) = Some u"
    and c: "find_row (\<lambda>c. cred_userId c = usr_id u) (credentials d) = Some c"
    and bad: "\<not> password_verify E (cred_passwordHash c) (lgi_password input)
      \<or> (\<exists>t. cred_lockedUntil c = Some t \<and> clock E 0 < t)"
  shows "login_checked E input ctx email d = (Inl invalidCredentials, create_event E
      (login_failed_event (Some (usr_id u)) (rq_correlationId ctx) (requestContext E (rq_ipAddress ctx)))
      (d\<lparr>credentials := update_rows (\<lambda>r. cred_id r = cred_id c)
        (\<lambda>r. r\<lparr>cred_failedLoginCount := cred_failedLoginCount r + 1,
               cred_lockedUntil := if cfg_num E ''LOGIN_LOCK_THRESHOLD'' \<le> cred_failedLoginCount c + 1
                 then Some (clock E 1 + seconds E ''LOGIN_LOCK_SECONDS'')
                 else cred_lockedUntil r\<rparr>) (credentials d)\<rparr>))"
proof -
  have "c \<in> set (credentials d)" using find_row_SomeD [OF c] by simp
  note rec = recordFailedCredential_found [OF this]
  show ?thesis
    unfolding login_checked_def Let_def u c option.case prod.case rec
    using bad by auto
qed

lemma login_refused_step:
  assumes u: "find_row (\<lambda>u. usr_emailNormalized u = email) (users d) = Some u"
    and c: "find_row (\<lambda>c. cred_userId c = usr_id u) (credentials d) = Some c"
    and bad: "wrong_password c (E, input, ctx)"
  shows "users (snd (login_checked E input ctx email d)) = users d"
    and "find_row (\<lambda>c. cred_userId c = usr_id u) (credentials (snd (login_checked E input ctx email d)))
      = Some (c\<lparr>cred_failedLoginCount := cred_failedLoginCount c + 1,
          cred_lockedUntil := if cfg_num E ''LOGIN_LOCK_THRESHOLD'' \<le> cred_failedLoginCount c + 1
            then Some (clock E 1 + seconds E ''LOGIN_LOCK_SECONDS'') else cred_lockedUntil c\<rparr>)"
  using bad by (simp_all add: login_refused [OF u c] wrong_password_def find_row_update_key c)

lemma login_attempts_append:
  "login_attempts email (as @ bs) d = login_attempts email bs (login_attempts email as d)"
  by (induction as arbitrary: d) auto

lemma login_attempts_count:
  assumes u: "find_row (\<lambda>u. usr_emailNormalized u = email) (users d) = Some u"
    and c: "find_row (\<lambda>c. cred_userId c = usr_id u) (credentials d) = Some c"
    and bad: "list_all (wrong_password c) as"
  shows "users (login_attempts email as d) = users d
    \<and> (\<exists>c'. find_row (\<lambda>c. cred_userId c = usr_id u) (credentials (login_attempts email as d)) = Some c'
        \<and> cred_passwordHash c' = cred_passwordHash c
        \<and> cred_failedLoginCount c' = cred_failedLoginCount c + length as)"
  using assms
proof (induction as arbitrary: d c)
  case Nil
  then show ?case by simp
next
  case (Cons a as)
  obtain E input ctx where a: "a = (E, input, ctx)" by (cases a)
  let ?d1 = "snd (login_checked E input ctx email d)"
  have w: "wrong_password c (E, input, ctx)" using Cons.prems(3) a by simp
  note st = login_refused_step [OF Cons.prems(1,2) w]
  have u1: "find_row (\<lambda>u. usr_emailNormalized u = email) (users ?d1) = Some u"
    using Cons.prems(1) st(1) by simp
  have rest: "list_all (wrong_password (c\<lparr>cred_failedLoginCount := n, cred_lockedUntil := l\<rparr>)) as" for n l
    using Cons.prems(3) by (auto simp: list_all_iff wrong_password_def)
  from Cons.IH [OF u1 st(2) rest] show ?case by (simp add: a st(1))
qed

lemma login_locked_after:
  assumes u: "find_row (\<lambda>u. usr_emailNormalized u = email) (users d) = Some u"
    and c: "find_row (\<lambda>c. cred_userId c = usr_id u) (credentials d) = Some c"
    and bad: "list_all (wrong_password c) (as @ [(E, input, ctx)])"
    and enough: "cfg_num E ''LOGIN_LOCK_THRESHOLD'' \<le> cred_failedLoginCount c + Suc (length as)"
    and early: "clock F 0 < clock E 1 + seconds E ''LOGIN_LOCK_SECONDS''"
  shows "fst (login_checked F any ctx' email (login_attempts email (as @ [(E, input, ctx)]) d))
    = Inl invalidCredentials"
proof -
  let ?d1 = "login_attempts email as d"
  obtain c1 where us: "users ?d1 = users d"
    and c1: "find_row (\<lambda>c. cred_userId c = usr_id u) (credentials ?d1) = Some c1"
    and h: "cred_passwordHash c1 = cred_passwordHash c"
    and n: "cred_failedLoginCount c1 = cred_failedLoginCount c + length as"
    using login_attempts_count [OF u c, of as] bad by auto
  have u1: "find_row (\<lambda>u. usr_emailNormalized u = email) (users ?d1) = Some u" using u us by simp
  have w: "wrong_password c1 (E, input, ctx)" using bad h by (simp add: wrong_password_def)
  let ?d2 = "snd (login_checked E input ctx email ?d1)"
  note st = login_refused_step [OF u1 c1 w]
  have u2: "find_row (\<lambda>u. usr_emailNormalized u = email) (users ?d2) = Some u"
    using u1 st(1) by simp
  have lk: "cfg_num E ''LOGIN_LOCK_THRESHOLD'' \<le> cred_failedLoginCount c1 + 1"
    using enough n by simp
  have "fst (login_checked F any ctx' email ?d2) = Inl invalidCredentials"
    by (subst login_refused [OF u2 st(2)]) (use lk early in simp_all)
  then show ?thesis by (simp add: login_attempts_append)
qed

subsection \<open>What refresh shows\<close>

text \<open>A token is spent when every row of its identifier is used or revoked.\<close>

definition token_spent :: "string \<Rightarrow> db \<Rightarrow> bool" where
  "token_spent k d \<longleftrightarrow>
     (\<forall>t \<in> set (refresh_tokens d). rft_id t = k \<longrightarrow> rft_usedAt t \<noteq> None \<or> rft_revokedAt t \<noteq> None)"

definition token_known :: "string \<Rightarrow> db \<Rightarrow> bool" where
  "token_known k d \<longleftrightarrow> distinct (map rft_id (refresh_tokens d)) \<and> k \<in> rft_id ` set (refresh_tokens d)"

lemma rotate_InrE:
  assumes "rotate E ctx current session replacement d = (Inr u, d')" and "id_laws E"
    and "token_known (rft_id current) d"
  obtains s where "s \<in> set (sessions d)" "ses_id s = rft_sessionId current" "ses_status s = Session_ACTIVE"
      "clock E 4 < ses_expiresAt s"
    and "count_rows (unspent E (rft_id current)) (refresh_tokens d) = 1"
    and "replacement \<notin> rft_tokenDigest ` set (refresh_tokens d)"
    and "refresh_tokens d' = update_rows (unspent E (rft_id current))
      (\<lambda>t. t\<lparr>rft_usedAt := Some (clock E 4),
             rft_replacedBy := Some (gen_id E (map rft_id (refresh_tokens d)))\<rparr>) (refresh_tokens d)
      @ [(refresh_row_of E current session replacement)\<lparr>rft_id := gen_id E (map rft_id (refresh_tokens d))\<rparr>]"
    and "sessions d' = update_rows (\<lambda>s. ses_id s = rft_sessionId current \<and> ses_status s = Session_ACTIVE
        \<and> clock E 4 < ses_expiresAt s)
      (\<lambda>s. s\<lparr>ses_lastUsedAt := clock E 4, ses_version := ses_version s + 1\<rparr>) (sessions d)"
    and "users d' = users d"
proof -
  let ?new = "gen_id E (map rft_id (refresh_tokens d))"
  have ne: "?new \<noteq> rft_id current"
    using id_lawsD [OF assms(2), of "map rft_id (refresh_tokens d)"] assms(3)
    by (auto simp: token_known_def)
  have un: "\<not> unspent E (rft_id current) (r\<lparr>rft_id := ?new\<rparr>)" for r
    using ne by (simp add: unspent_def)
  from assms(1) have act: "count_rows (\<lambda>s. ses_id s = rft_sessionId current \<and> ses_status s = Session_ACTIVE
      \<and> clock E 4 < ses_expiresAt s) (sessions d) = 1"
    unfolding rotate_def by (auto dest!: transact_InrD simp: Let_def split: if_splits)
  then obtain s where "s \<in> set (sessions d)" "ses_id s = rft_sessionId current" "ses_status s = Session_ACTIVE"
      "clock E 4 < ses_expiresAt s"
    using count_rows_1D by fastforce
  with assms(1) act show ?thesis
    unfolding rotate_def
    by (intro that [of s]) (auto dest!: transact_InrD simp: create_refresh_token_def Let_def un
        split: if_splits)
qed

lemma rotate_InlD: "rotate E ctx current session replacement d = (Inl e, d') \<Longrightarrow> d' = d"
  unfolding rotate_def by (rule transact_rolls_back)

text \<open>The requests that read the same token row compete for it: at most one rotates it.\<close>

type_synonym rotation = "env \<times> request_context \<times> refresh_row \<times> session_row \<times> string"

definition rotation_attempt :: "rotation \<Rightarrow> db \<Rightarrow> unit result \<times> db" where
  "rotation_attempt a d = (case a of (E, ctx, current, session, replacement) \<Rightarrow>
     rotate E ctx current session replacement d)"

definition rotation_of :: "string \<Rightarrow> rotation \<Rightarrow> bool" where
  "rotation_of k a = (case a of (E, ctx, current, session, replacement) \<Rightarrow>
     id_laws E \<and> rft_id current = k)"

lemma rotation_attempt_effect:
  assumes "rotation_of k a" and "token_known k d" and "rotation_attempt a d = (res, d')"
  shows "case res of Inl e \<Rightarrow> d' = d | Inr _ \<Rightarrow> \<not> token_spent k d \<and> token_spent k d' \<and> token_known k d'"
proof (cases res)
  case (Inl e)
  then show ?thesis using assms
    by (auto simp: rotation_attempt_def dest: rotate_InlD split: prod.splits)
next
  case (Inr u)
  obtain E ctx current session replacement where a: "a = (E, ctx, current, session, replacement)"
    by (cases a)
  with assms Inr have r: "rotate E ctx current session replacement d = (Inr u, d')"
    and ids: "id_laws E" and k: "rft_id current = k" and kn: "token_known (rft_id current) d"
    by (auto simp: rotation_attempt_def rotation_of_def)
  let ?new = "gen_id E (map rft_id (refresh_tokens d))"
  have ne: "?new \<noteq> k"
    using id_lawsD [OF ids, of "map rft_id (refresh_tokens d)"] assms(2) by (auto simp: token_known_def)
  obtain cnt: "count_rows (unspent E k) (refresh_tokens d) = 1"
    and toks: "refresh_tokens d' = update_rows (unspent E k)
      (\<lambda>t. t\<lparr>rft_usedAt := Some (clock E 4), rft_replacedBy := Some ?new\<rparr>) (refresh_tokens d)
      @ [(refresh_row_of E current session replacement)\<lparr>rft_id := ?new\<rparr>]"
    by (rule rotate_InrE [OF r ids kn]) (simp add: k)
  obtain t where t: "t \<in> set (refresh_tokens d)" "unspent E k t"
    using count_rows_1D cnt by (metis One_nat_def)
  have dist: "distinct (map rft_id (refresh_tokens d))" using assms(2) by (simp add: token_known_def)
  have only: "x = t" if "x \<in> set (refresh_tokens d)" "rft_id x = k" for x
    using distinct_key_eq [OF dist that(1) t(1)] that(2) t(2) by (simp add: unspent_def)
  have "\<not> token_spent k d" using t by (auto simp: token_spent_def unspent_def)
  moreover have "token_spent k d'"
    using only t ne by (fastforce simp: token_spent_def toks elim: in_update_rowsE)
  moreover have "token_known k d'"
  proof -
    have "map rft_id (refresh_tokens d') = map rft_id (refresh_tokens d) @ [?new]"
      by (simp add: toks map_update_rows)
    moreover have "?new \<notin> set (map rft_id (refresh_tokens d))" by (rule id_lawsD [OF ids])
    ultimately show ?thesis
      using assms(2) unfolding token_known_def by (metis distinct_append list.set_map set_append Un_iff
          distinct_singleton disjoint_insert(1) inf_bot_right list.simps(15) set_empty2 empty_set)
  qed
  ultimately show ?thesis by (simp add: Inr)
qed

interpretation ru: single_use rotation_attempt "token_spent k" "token_known k" "rotation_of k" for k
proof
  fix d a
  assume i: "token_known k d" "rotation_of k a"
  obtain res d' where r: "rotation_attempt a d = (res, d')" by force
  note e = rotation_attempt_effect [OF i(2,1) r]
  show "succeeded (fst (rotation_attempt a d)) \<Longrightarrow> \<not> token_spent k d"
    and "succeeded (fst (rotation_attempt a d)) \<Longrightarrow> token_spent k (snd (rotation_attempt a d))"
    and "token_spent k d \<Longrightarrow> token_spent k (snd (rotation_attempt a d))"
    and "token_known k (snd (rotation_attempt a d))"
    using e i r by (auto split: sum.splits)
qed

lemma find_refreshD:
  assumes "find_refresh digest0 d = Some (t, s)"
  shows "t \<in> set (refresh_tokens d) \<and> rft_tokenDigest t = digest0 \<and> s \<in> set (sessions d)
    \<and> ses_id s = rft_sessionId t"
  using assms by (auto simp: find_refresh_def dest!: find_row_SomeD split: option.splits if_splits)

lemma refresh_InrE:
  assumes "refresh E token transport ctx d r = (Inr issued, d', r')"
  obtains current session where "find_refresh (token_digest E token) d = Some (current, session)"
    and "rft_usedAt current = None" and "rft_revokedAt current = None"
    and "clock E 2 < rft_expiresAt current"
    and "ses_status session = Session_ACTIVE" and "clock E 3 < ses_expiresAt session"
    and "rotate E ctx current session (token_digest E (iss_refreshToken issued)) d = (Inr (), d')"
    and "buildIssuedAuthentication E 5 1 (rft_userId current) (rft_sessionId current)
      (ses_level session) (iss_refreshToken issued) transport = Inr issued"
proof -
  obtain current session where f: "find_refresh (token_digest E token) d = Some (current, session)"
    using assms by (auto simp: refresh_def Let_def split: prod.splits sum.splits option.splits)
  have l: "refresh_locked E current session transport ctx d = (Inr issued, d')"
    using assms f by (auto simp: refresh_def Let_def finally_release_def
        split: prod.splits sum.splits option.splits if_splits)
  have u: "rft_usedAt current = None"
    using l by (auto simp: refresh_locked_def split: option.splits prod.splits sum.splits if_splits)
  note eq = l [unfolded refresh_locked_def u option.case]
  let ?t = "b64_encode (random_bytes E 0 48)"
  have rot: "rotate E ctx current session (token_digest E ?t) d = (Inr (), d')"
    and built: "buildIssuedAuthentication E 5 1 (rft_userId current) (rft_sessionId current)
      (ses_level session) ?t transport = Inr issued"
    using eq by (auto split: if_splits prod.splits sum.splits)
  have t: "iss_refreshToken issued = ?t" using buildIssued_InrD [OF built] by simp
  show ?thesis
    using eq rot built f u t by (intro that [of current session]) (auto split: if_splits)
qed

lemma refresh_reuse_eq:
  assumes f: "find_refresh (token_digest E token) d = Some (current, session)"
    and u: "rft_usedAt current = Some at"
    and late: "seconds E ''REFRESH_REPLAY_GRACE_SECONDS'' < clock E 0 - at"
    and ok: "refresh E token transport ctx d r = (res, d', r')"
    and ran: "res = Inl invalidRefresh"
    and free: "applyRefreshRateLimit E (token_digest E token) r = (Inr (), r1)"
      "ensureRedisConnected r1 = (Inr (), r2)"
      "redis_set_nx (refresh_lock_key E (rft_sessionId current)) (uuid E 0) 5 r2 = (Inr True, r3)"
  shows "d' = snd (revokeForReuse E current ctx d)"
  using ok late ran
  by (auto simp: refresh_def Let_def free f finally_release_def refresh_locked_def u
      split: prod.splits sum.splits)

lemma revokeForReuse_eq:
  assumes "t \<in> set (refresh_tokens d)"
  shows "fst (revokeForReuse E t ctx d) = Inr ()"
    and "\<And>x. x \<in> set (refresh_tokens (snd (revokeForReuse E t ctx d))) \<Longrightarrow>
      rft_sessionId x = rft_sessionId t \<Longrightarrow> rft_revokedAt x = Some (clock E 1)"
    and "\<And>s. s \<in> set (sessions (snd (revokeForReuse E t ctx d))) \<Longrightarrow>
      ses_id s = rft_sessionId t \<Longrightarrow> ses_status s = Session_COMPROMISED"
    and "\<And>s. s \<in> set (sessions (snd (revokeForReuse E t ctx d))) \<Longrightarrow>
      ses_id s \<noteq> rft_sessionId t \<Longrightarrow> s \<in> set (sessions d)"
proof -
  have mem: "0 < count_rows (\<lambda>x. rft_id x = rft_id t)
      (update_rows (\<lambda>t'. rft_sessionId t' = rft_sessionId t) (\<lambda>t. t\<lparr>rft_revokedAt := Some (clock E 1)\<rparr>)
        (refresh_tokens d))"
    unfolding count_rows_pos_iff set_update_rows
    by (rule bexI [of _ "t\<lparr>rft_revokedAt := Some (clock E 1)\<rparr>"])
      (use assms in \<open>auto intro!: image_eqI [of _ _ t]\<close>)
  note e = revokeForReuse_def transact_def Let_def
  show "fst (revokeForReuse E t ctx d) = Inr ()" using mem by (simp add: e)
  show "rft_revokedAt x = Some (clock E 1)"
    if "x \<in> set (refresh_tokens (snd (revokeForReuse E t ctx d)))" "rft_sessionId x = rft_sessionId t" for x
    using that mem by (auto simp: e set_update_rows split: if_splits)
  show "ses_status s = Session_COMPROMISED"
    if "s \<in> set (sessions (snd (revokeForReuse E t ctx d)))" "ses_id s = rft_sessionId t" for s
    using that mem by (auto simp: e set_update_rows split: if_splits)
  show "s \<in> set (sessions d)"
    if "s \<in> set (sessions (snd (revokeForReuse E t ctx d)))" "ses_id s \<noteq> rft_sessionId t" for s
    using that mem by (auto simp: e set_update_rows split: if_splits)
qed

text \<open>The lock is gone after the request that took it, whatever its outcome.\<close>

lemma release_after_own:
  assumes "rds_online r" and "redis_get k r = Some v"
  shows "finally_release k v (res, d, r) = (res, d, del_entry k r)"
  using assms by (simp add: finally_release_def release_script_def)

lemma live_put: "live (put_entry k (v, Some e) r) k = (if rds_now r < e then Some (v, Some e) else None)"
  by (simp add: live_def put_entry_def)

lemma refresh_releases:
  assumes lim: "applyRefreshRateLimit E (token_digest E token) r = (Inr (), r1)"
    and f: "find_refresh (token_digest E token) d = Some (current, session)"
    and "rds_online r1" and "rds_status r1 = Status_ready"
    and "live r1 (refresh_lock_key E (rft_sessionId current)) = None"
  shows "refresh E token transport ctx d r =
    (case refresh_locked E current session transport ctx d of (res, d') \<Rightarrow>
      (res, d', del_entry (refresh_lock_key E (rft_sessionId current)) r1))"
proof -
  let ?k = "refresh_lock_key E (rft_sessionId current)"
  let ?r = "put_entry ?k (Text (uuid E 0), Some (rds_now r1 + 5000)) r1"
  have set: "redis_set_nx ?k (uuid E 0) 5 r1 = (Inr True, ?r)"
    using assms(3,5) by (simp add: redis_set_nx_def)
  have get: "redis_get ?k ?r = Some (uuid E 0)" by (simp add: redis_get_def live_put)
  have on: "rds_online ?r" using assms(3) by (simp add: put_entry_def)
  have del: "del_entry ?k ?r = del_entry ?k r1" by (simp add: del_entry_def put_entry_def)
  show ?thesis
    unfolding refresh_def Let_def lim prod.case sum.case f option.case
      ensureRedisConnected_ready [OF assms(4)] set
    using release_after_own [OF on get] by (simp add: del split_beta)
qed

lemma refresh_busy:
  assumes lim: "applyRefreshRateLimit E (token_digest E token) r = (Inr (), r1)"
    and f: "find_refresh (token_digest E token) d = Some (current, session)"
    and "rds_online r1" and "rds_status r1 = Status_ready"
    and "live r1 (refresh_lock_key E (rft_sessionId current)) \<noteq> None"
  shows "refresh E token transport ctx d r = (Inl (Http 409 ''REFRESH_IN_PROGRESS''), d, r1)"
  unfolding refresh_def Let_def lim prod.case sum.case f option.case
    ensureRedisConnected_ready [OF assms(4)]
  using assms(3,5) by (simp add: redis_set_nx_def)

text \<open>The risk assessment, as a statement about the account's last twenty sessions.\<close>

lemma assess_LOW_iff:
  "rsk_level (assess u dev ip ua d) = Risk_LOW \<longleftrightarrow>
     count_rows (\<lambda>s. ses_userId s = u) (sessions d) = 0
     \<or> (\<exists>s \<in> set (take_rows_desc ses_createdAt 20 (\<lambda>s. ses_userId s = u) (sessions d)).
          ses_deviceId s = dev \<and> ses_ipHash s = ip \<and> ses_userAgentHash s = ua)"
proof -
  have "take_rows_desc ses_createdAt 20 (\<lambda>s. ses_userId s = u) (sessions d) = []
      \<longleftrightarrow> count_rows (\<lambda>s. ses_userId s = u) (sessions d) = 0"
    using length_take_rows(3) [of ses_createdAt 20 "\<lambda>s. ses_userId s = u" "sessions d"]
    by (metis length_0_conv min_0L min_0R min_def zero_neq_numeral)
  then show ?thesis by (auto simp: assess_def Let_def list_ex_iff)
qed

text \<open>A login that may succeed does.\<close>

definition fresh_refresh :: "env \<Rightarrow> db \<Rightarrow> bool" where
  "fresh_refresh E d \<longleftrightarrow>
     token_digest E (b64_encode (random_bytes E 0 48)) \<notin> rft_tokenDigest ` set (refresh_tokens d)"

lemma login_commit_total:
  assumes "fresh_refresh E d" and "c \<in> set (credentials d)"
  shows "\<exists>sid d'. login_commit E input ctx u c ipHash risk (token_digest E (b64_encode (random_bytes E 0 48)))
    rehashed d = (Inr sid, d')"
proof -
  have "0 < count_rows (\<lambda>x. cred_id x = cred_id c) (credentials d)"
    using assms(2) by (auto simp: count_rows_pos_iff)
  then show ?thesis
    using assms(1)
    by (simp add: login_commit_def transact_def create_session_def create_refresh_token_def Let_def
        login_refresh_row_def fresh_refresh_def)
qed

text \<open>An outdated hash is renewed on the way, which the policy of today and the breach service must allow.\<close>

definition rehash_allowed :: "env \<Rightarrow> login_input \<Rightarrow> string \<Rightarrow> credential_row \<Rightarrow> bool" where
  "rehash_allowed E input email c \<longleftrightarrow> (argon2_needsRehash E (cred_passwordHash c)
     \<longrightarrow> succeeded (password_hash E (lgi_password input) email))"

lemma login_checked_total:
  assumes "may_log_in E input email d u c" and "fresh_refresh E d" and "rsa_laws E"
    and "rehash_allowed E input email c"
  shows "\<exists>issued d'. login_checked E input ctx email d = (Inr issued, d')"
proof -
  note m = assms(1) [unfolded may_log_in_def]
  have c: "c \<in> set (credentials d)" using m by (auto dest: find_row_SomeD)
  let ?risk = "assess (usr_id u) (lgi_deviceId input) (requestContext E (rq_ipAddress ctx))
    (requestContext E (rq_userAgent ctx)) d"
  obtain rehashed where re: "(if argon2_needsRehash E (cred_passwordHash c)
      then map_sum id Some (password_hash E (lgi_password input) email) else Inr None) = Inr rehashed"
    using assms(4) by (cases "argon2_needsRehash E (cred_passwordHash c)"; cases "password_hash E (lgi_password input) email")
      (auto simp: rehash_allowed_def)
  obtain sid d' where com: "login_commit E input ctx u c (requestContext E (rq_ipAddress ctx)) ?risk
      (token_digest E (b64_encode (random_bytes E 0 48))) rehashed d = (Inr sid, d')"
    using login_commit_total [OF assms(2) c] by blast
  obtain x where x: "buildIssuedAuthentication E 3 1 (usr_id u) sid (login_level u ?risk)
      (b64_encode (random_bytes E 0 48)) (lgi_transport input) = Inr x"
    using buildIssued_total [OF assms(3)] by blast
  have "login_checked E input ctx email d = (Inr x, d')"
    using m com x by (auto simp: login_checked_def Let_def re split: option.splits)
  then show ?thesis by blast
qed

lemma login_checked_rehash:
  assumes "login_checked E input ctx email d = (Inr issued, d')" and "may_log_in E input email d u c"
  shows "rehash_allowed E input email c"
proof -
  have "find_row (\<lambda>u. usr_emailNormalized u = email) (users d) = Some u"
    "find_row (\<lambda>c. cred_userId c = usr_id u) (credentials d) = Some c"
    using assms(2) by (simp_all add: may_log_in_def)
  note eq = assms(1) [unfolded login_checked_def Let_def this option.case prod.case]
  show ?thesis
    using eq by (cases "password_hash E (lgi_password input) email")
      (auto simp: rehash_allowed_def split: if_splits prod.splits sum.splits option.splits)
qed

lemma login_checked_iff:
  assumes "fresh_refresh E d" and "rsa_laws E"
  shows "succeeded (fst (login_checked E input ctx email d))
    \<longleftrightarrow> (\<exists>u c. may_log_in E input email d u c \<and> rehash_allowed E input email c)"
proof
  assume "succeeded (fst (login_checked E input ctx email d))"
  then obtain issued d' where r: "login_checked E input ctx email d = (Inr issued, d')"
    by (cases "login_checked E input ctx email d"; cases "fst (login_checked E input ctx email d)") auto
  then obtain u c where "may_log_in E input email d u c" by (rule login_checked_InrE) blast
  with login_checked_rehash [OF r this]
  show "\<exists>u c. may_log_in E input email d u c \<and> rehash_allowed E input email c" by blast
next
  assume "\<exists>u c. may_log_in E input email d u c \<and> rehash_allowed E input email c"
  then obtain u c where "may_log_in E input email d u c" "rehash_allowed E input email c" by blast
  from login_checked_total [OF this(1) assms this(2), of ctx]
  show "succeeded (fst (login_checked E input ctx email d))" by force
qed

text \<open>A login that fails creates no session and no token.\<close>

lemma login_checked_InlD:
  assumes "login_checked E input ctx email d = (Inl e, d')" and "rsa_laws E"
  shows "sessions d' = sessions d \<and> refresh_tokens d' = refresh_tokens d \<and> users d' = users d"
proof -
  have nb: "buildIssuedAuthentication E i j u s l t tr \<noteq> Inl x" for i j u s l t tr x
    using buildIssued_total [OF assms(2), of i j u s l t tr] by auto
  show ?thesis
    using assms(1) nb
    by (auto simp: login_checked_def Let_def writeLoginFailure_eq
        split: option.splits if_splits prod.splits sum.splits
        dest!: recordFailedCredential_frame login_commit_InlD)
qed

text \<open>A rotation that may succeed does.\<close>

definition may_refresh :: "env \<Rightarrow> refresh_row \<Rightarrow> session_row \<Rightarrow> bool" where
  "may_refresh E t s \<longleftrightarrow> rft_usedAt t = None \<and> rft_revokedAt t = None
     \<and> clock E 2 < rft_expiresAt t \<and> clock E 4 < rft_expiresAt t
     \<and> ses_status s = Session_ACTIVE \<and> clock E 3 < ses_expiresAt s \<and> clock E 4 < ses_expiresAt s"

lemma rotate_total:
  assumes f: "find_refresh k d = Some (t, s)" and m: "may_refresh E t s"
    and fr: "replacement \<notin> rft_tokenDigest ` set (refresh_tokens d)"
    and ids: "id_laws E" and "distinct (map rft_id (refresh_tokens d))"
    and "distinct (map ses_id (sessions d))"
  shows "\<exists>d'. rotate E ctx t s replacement d = (Inr (), d')"
proof -
  note ts = find_refreshD [OF f]
  let ?new = "gen_id E (map rft_id (refresh_tokens d))"
  have ne: "?new \<noteq> rft_id t" using id_lawsD [OF ids, of "map rft_id (refresh_tokens d)"] ts by auto
  have a: "count_rows (\<lambda>x. ses_id x = rft_sessionId t \<and> (ses_status x = Session_ACTIVE \<and> clock E 4 < ses_expiresAt x))
      (sessions d) = 1"
    using ts m assms(6) by (intro count_rows_key_1 [where r = s]) (auto simp: may_refresh_def)
  have b: "count_rows (unspent E (rft_id t)) (refresh_tokens d) = 1"
    unfolding unspent_def [abs_def]
    using ts m assms(5) by (intro count_rows_key_1 [where r = t]) (auto simp: may_refresh_def)
  have c: "\<not> unspent E (rft_id t) (x\<lparr>rft_id := ?new\<rparr>)" for x using ne by (simp add: unspent_def)
  show ?thesis
    using a b c fr
    by (simp add: rotate_def transact_def Let_def create_refresh_token_def)
qed

lemma refresh_locked_total:
  assumes "find_refresh k d = Some (t, s)" and "may_refresh E t s" and "fresh_refresh E d"
    and "id_laws E" and "rsa_laws E" and "distinct (map rft_id (refresh_tokens d))"
    and "distinct (map ses_id (sessions d))"
  shows "\<exists>x d'. refresh_locked E t s transport ctx d = (Inr x, d')"
proof -
  obtain d' where rot: "rotate E ctx t s (token_digest E (b64_encode (random_bytes E 0 48))) d = (Inr (), d')"
    using rotate_total [OF assms(1,2) _ assms(4,6,7)] assms(3) unfolding fresh_refresh_def by blast
  obtain x where "buildIssuedAuthentication E 5 1 (rft_userId t) (rft_sessionId t) (ses_level s)
      (b64_encode (random_bytes E 0 48)) transport = Inr x"
    using buildIssued_total [OF assms(5)] by blast
  with rot assms(2) show ?thesis by (simp add: refresh_locked_def may_refresh_def)
qed

end
