(* ===== verification/SessionMgmt.thy ===== *)
theory SessionMgmt
  imports Authentication
begin

text \<open>
  \<open>SessionManagementService\<close> (\<open>modules/sessions/session-management.service.ts\<close>): logging out of one
  session, of all of them, revoking a session by its identifier and listing the active ones.
\<close>

text \<open>The claims the handlers read once \<open>AccessAuthGuard\<close> has accepted the token.\<close>

record principal =
  prn_sub :: string
  prn_sid :: string

definition principal_of :: "json \<Rightarrow> principal option" where
  "principal_of claims = (case (json_field ''sub'' claims, json_field ''sid'' claims) of
     (Some (JStr u), Some (JStr s)) \<Rightarrow> Some \<lparr>prn_sub = u, prn_sid = s\<rparr> | _ \<Rightarrow> None)"

definition revokeSessions :: "env \<Rightarrow> principal \<Rightarrow> (session_row \<Rightarrow> bool) \<Rightarrow> string \<Rightarrow> request_context
    \<Rightarrow> db \<Rightarrow> unit result \<times> db" where
  "revokeSessions E prn scope reason ctx =
     transact (\<lambda>d.
       let now = clock E 0;
           ids = map ses_id (take_rows 100 (\<lambda>s. scope s \<and> ses_status s = Session_ACTIVE) (sessions d))
       in if ids = [] then (Inr (), d)
          else let d1 = d\<lparr>sessions := update_rows
                 (\<lambda>s. ses_id s \<in> set ids \<and> ses_status s = Session_ACTIVE)
                 (\<lambda>s. s\<lparr>ses_status := Session_REVOKED, ses_revokedAt := Some now,
                        ses_revocationReason := Some reason, ses_version := ses_version s + 1\<rparr>)
                 (sessions d)\<rparr>;
               d2 = d1\<lparr>refresh_tokens := update_rows
                 (\<lambda>t. rft_sessionId t \<in> set ids \<and> rft_revokedAt t = None)
                 (\<lambda>t. t\<lparr>rft_revokedAt := Some now\<rparr>) (refresh_tokens d1)\<rparr>
            in (Inr (), create_event E
                 \<lparr>evi_userId = Some (prn_sub prn),
                  evi_sessionId = (if prn_sid prn \<in> set ids then Some (prn_sid prn) else None),
                  evi_type = SESSION_REVOKED, evi_severity = Severity_INFO,
                  evi_outcome = Outcome_SUCCESS, evi_reasonCode = Some reason,
                  evi_correlationId = rq_correlationId ctx,
                  evi_ipHash = Some (requestContext E (rq_ipAddress ctx)), evi_userAgentHash = None,
                  evi_metadata = Some [(''revokedCount'', JNum (int (length ids)))]\<rparr> d2))"

definition logout :: "env \<Rightarrow> principal \<Rightarrow> request_context \<Rightarrow> db \<Rightarrow> unit result \<times> db" where
  "logout E prn ctx =
     revokeSessions E prn (\<lambda>s. ses_id s = prn_sid prn) ''USER_LOGOUT'' ctx"

definition logoutAll :: "env \<Rightarrow> principal \<Rightarrow> request_context \<Rightarrow> db \<Rightarrow> unit result \<times> db" where
  "logoutAll E prn ctx =
     revokeSessions E prn (\<lambda>s. ses_userId s = prn_sub prn) ''USER_LOGOUT_ALL'' ctx"

definition revoke :: "env \<Rightarrow> principal \<Rightarrow> string \<Rightarrow> request_context \<Rightarrow> db \<Rightarrow> unit result \<times> db" where
  "revoke E prn sessionId ctx d =
     (if find_row (\<lambda>s. ses_id s = sessionId \<and> ses_userId s = prn_sub prn) (sessions d) = None
      then (Inl (Http 404 ''SESSION_NOT_FOUND''), d)
      else revokeSessions E prn
        (\<lambda>s. ses_id s = sessionId \<and> ses_userId s = prn_sub prn) ''USER_SESSION_REVOKED'' ctx d)"

text \<open>A listed session: the selected columns and whether it is the caller's own.\<close>

record listed_session =
  lss_id :: string
  lss_level :: session_level
  lss_deviceId :: string
  lss_deviceLabel :: "string option"
  lss_createdAt :: int
  lss_lastUsedAt :: int
  lss_expiresAt :: int
  lss_current :: bool

definition list_sessions :: "env \<Rightarrow> principal \<Rightarrow> db \<Rightarrow> listed_session list" where
  "list_sessions E prn d =
     map (\<lambda>s. \<lparr>lss_id = ses_id s, lss_level = ses_level s, lss_deviceId = ses_deviceId s,
               lss_deviceLabel = ses_deviceLabel s, lss_createdAt = ses_createdAt s,
               lss_lastUsedAt = ses_lastUsedAt s, lss_expiresAt = ses_expiresAt s,
               lss_current = (ses_id s = prn_sid prn)\<rparr>)
       (take_rows_desc ses_lastUsedAt 100 (\<lambda>s. ses_userId s = prn_sub prn
          \<and> ses_status s = Session_ACTIVE \<and> clock E 0 < ses_expiresAt s) (sessions d))"

subsection \<open>What revocation shows\<close>

lemma revokeSessions_result [simp]: "fst (revokeSessions E p scope reason ctx d) = Inr ()"
  by (simp add: revokeSessions_def transact_def Let_def)

definition revoked_ids :: "(session_row \<Rightarrow> bool) \<Rightarrow> db \<Rightarrow> string list" where
  "revoked_ids scope d =
     map ses_id (take_rows 100 (\<lambda>s. scope s \<and> ses_status s = Session_ACTIVE) (sessions d))"

lemma revokeSessions_sessions:
  "sessions (snd (revokeSessions E p scope reason ctx d)) =
     update_rows (\<lambda>s. ses_id s \<in> set (revoked_ids scope d) \<and> ses_status s = Session_ACTIVE)
       (\<lambda>s. s\<lparr>ses_status := Session_REVOKED, ses_revokedAt := Some (clock E 0),
              ses_revocationReason := Some reason, ses_version := ses_version s + 1\<rparr>) (sessions d)"
  by (auto simp: revokeSessions_def transact_def Let_def revoked_ids_def update_rows_def)

lemma revokeSessions_tokens:
  "refresh_tokens (snd (revokeSessions E p scope reason ctx d)) =
     update_rows (\<lambda>t. rft_sessionId t \<in> set (revoked_ids scope d) \<and> rft_revokedAt t = None)
       (\<lambda>t. t\<lparr>rft_revokedAt := Some (clock E 0)\<rparr>) (refresh_tokens d)"
  by (auto simp: revokeSessions_def transact_def Let_def revoked_ids_def update_rows_def)

lemma revokeSessions_users [simp]:
  "users (snd (revokeSessions E p scope reason ctx d)) = users d"
  by (simp add: revokeSessions_def transact_def Let_def)

lemma count_rows_update_out:
  "(\<And>x. Q x \<Longrightarrow> \<not> P (f x)) \<Longrightarrow> count_rows P (update_rows Q f t) = count_rows (\<lambda>x. P x \<and> \<not> Q x) t"
  by (induction t) auto

lemma filter_not_taken:
  "distinct (map key xs) \<Longrightarrow> filter (\<lambda>x. key x \<notin> key ` set (take n xs)) xs = drop n xs"
proof (induction xs arbitrary: n)
  case Nil
  then show ?case by simp
next
  case (Cons x xs)
  show ?case
  proof (cases n)
    case (Suc m)
    have "filter (\<lambda>y. key y \<notin> key ` set (take n (x # xs))) xs = filter (\<lambda>y. key y \<notin> key ` set (take m xs)) xs"
      using Cons.prems Suc by (intro filter_cong) (auto, metis image_eqI)
    with Cons Suc show ?thesis by simp
  qed simp
qed

text \<open>Exactly a hundred of the active sessions in scope are revoked, or all of them.\<close>

lemma revokeSessions_remaining:
  assumes "distinct (map ses_id (sessions d))"
  shows "count_rows (\<lambda>s. scope s \<and> ses_status s = Session_ACTIVE)
      (sessions (snd (revokeSessions E p scope reason ctx d)))
    = count_rows (\<lambda>s. scope s \<and> ses_status s = Session_ACTIVE) (sessions d) - 100"
proof -
  let ?P = "\<lambda>s. scope s \<and> ses_status s = Session_ACTIVE"
  let ?xs = "filter ?P (sessions d)"
  have ids: "set (revoked_ids scope d) = ses_id ` set (take 100 ?xs)"
    by (simp add: revoked_ids_def take_rows_def)
  have "count_rows ?P (sessions (snd (revokeSessions E p scope reason ctx d)))
      = count_rows (\<lambda>s. ?P s \<and> \<not> (ses_id s \<in> set (revoked_ids scope d) \<and> ses_status s = Session_ACTIVE))
          (sessions d)"
    unfolding revokeSessions_sessions by (rule count_rows_update_out) simp
  also have "\<dots> = length (filter (\<lambda>s. ses_id s \<notin> ses_id ` set (take 100 ?xs)) ?xs)"
    unfolding count_rows_def ids filter_filter by (rule arg_cong [of _ _ length], rule filter_cong) auto
  also have "\<dots> = length (drop 100 ?xs)"
    using assms by (subst filter_not_taken) (simp_all add: distinct_map_filter)
  finally show ?thesis by (simp add: count_rows_def)
qed

lemma logout_ends_session:
  assumes "distinct (map ses_id (sessions d))"
  shows "s \<in> set (sessions (snd (logout E p ctx d))) \<Longrightarrow> ses_id s = prn_sid p \<Longrightarrow>
      ses_status s \<noteq> Session_ACTIVE"
    and "s0 \<in> set (sessions d) \<Longrightarrow> ses_id s0 = prn_sid p \<Longrightarrow> ses_status s0 = Session_ACTIVE \<Longrightarrow>
      t \<in> set (refresh_tokens (snd (logout E p ctx d))) \<Longrightarrow> rft_sessionId t = prn_sid p \<Longrightarrow>
      rft_revokedAt t \<noteq> None"
proof -
  let ?P = "\<lambda>s. ses_id s = prn_sid p \<and> ses_status s = Session_ACTIVE"
  have "count_rows ?P (sessions d) \<le> 1" using assms by (rule count_rows_key_le_1)
  then have rem: "count_rows ?P (sessions (snd (logout E p ctx d))) = 0"
    unfolding logout_def revokeSessions_remaining [OF assms] by simp
  then show "s \<in> set (sessions (snd (logout E p ctx d))) \<Longrightarrow> ses_id s = prn_sid p \<Longrightarrow>
      ses_status s \<noteq> Session_ACTIVE"
    by (auto simp: count_rows_0_iff)
  assume s0: "s0 \<in> set (sessions d)" "ses_id s0 = prn_sid p" "ses_status s0 = Session_ACTIVE"
    and t: "t \<in> set (refresh_tokens (snd (logout E p ctx d)))" "rft_sessionId t = prn_sid p"
  have le: "count_rows ?P (sessions d) \<le> 100" using \<open>count_rows ?P (sessions d) \<le> 1\<close> by simp
  have "prn_sid p \<in> set (revoked_ids (\<lambda>s. ses_id s = prn_sid p) d)"
    using s0 take_rows_all [OF le] by (auto simp: revoked_ids_def intro!: image_eqI [of _ _ s0])
  then show "rft_revokedAt t \<noteq> None"
    using t unfolding logout_def revokeSessions_tokens by (auto elim: in_update_rowsE)
qed

text \<open>It is closed to the guard of upgrades too: its reason is not that of an upgrade.\<close>

lemma logout_closes_session:
  assumes "distinct (map ses_id (sessions d))" and "s0 \<in> set (sessions d)" and "ses_id s0 = prn_sid p"
    and "ses_status s0 = Session_ACTIVE"
    and "s \<in> set (sessions (snd (logout E p ctx d)))" and "ses_id s = prn_sid p"
  shows "\<not> session_open s"
proof -
  have "ses_status s \<noteq> Session_ACTIVE" using logout_ends_session(1) [OF assms(1)] assms(5,6) by blast
  moreover have "ses_revocationReason s = Some ''USER_LOGOUT''"
    using assms(5) unfolding logout_def revokeSessions_sessions
  proof (cases rule: in_update_rowsE)
    case kept
    then have "s = s0" using distinct_key_eq [OF assms(1)] assms(2,3,6) by metis
    then show ?thesis using assms(4) \<open>ses_status s \<noteq> Session_ACTIVE\<close> by simp
  qed simp
  ultimately show ?thesis by (simp add: session_open_def SESSION_UPGRADE_REVOCATION_REASON_def)
qed

text \<open>The token of a session that has been logged out no longer passes the guard.\<close>

lemma logout_guard:
  assumes "distinct (map ses_id (sessions d))" and "json_field ''sid'' claims = Some (JStr (prn_sid p))"
  shows "access_guard F authorization (snd (logout E p ctx d)) \<noteq> Inr claims"
proof (rule access_guard_dead)
  fix s
  assume "s \<in> set (sessions (snd (logout E p ctx d)))" and "json_field ''sid'' claims = Some (JStr (ses_id s))"
  then show "ses_status s \<noteq> Session_ACTIVE"
    using logout_ends_session(1) [OF assms(1)] assms(2) by auto
qed

text \<open>Sessions outside the scope are not touched: in particular those of other users.\<close>

lemma revokeSessions_other:
  assumes "distinct (map ses_id (sessions d))" and "s \<in> set (sessions d)" and "\<not> scope s"
  shows "s \<in> set (sessions (snd (revokeSessions E p scope reason ctx d)))"
proof -
  have "ses_id s \<notin> set (revoked_ids scope d)"
  proof
    assume "ses_id s \<in> set (revoked_ids scope d)"
    then obtain x where "x \<in> set (sessions d)" "scope x" "ses_id x = ses_id s"
      using set_take_rows [of 100 "\<lambda>s. scope s \<and> ses_status s = Session_ACTIVE" "sessions d"]
      unfolding revoked_ids_def by auto
    with distinct_key_eq [OF assms(1) _ assms(2)] assms(3) show False by auto
  qed
  then show ?thesis
    using assms(2) unfolding revokeSessions_sessions set_update_rows
    by (intro image_eqI [of _ _ s]) auto
qed

end
