(* ===== verification/SessionUpgrade.thy ===== *)
theory SessionUpgrade
  imports SessionMgmt
begin

text \<open>
  \<open>IdempotencyService\<close> (\<open>common/security/idempotency.service.ts\<close>) and \<open>SessionUpgradeService\<close>
  (\<open>modules/auth/session-upgrade.service.ts\<close>): a retryable request claims an idempotency record;
  the upgrade replaces a limited session by a full one in a serializable transaction and replays
  its sealed result to a retry.
\<close>

subsection \<open>Idempotency records\<close>

datatype claim_state = Claimed | Replay

record idempotency_claim =
  clm_id :: string
  clm_state :: claim_state
  clm_status :: idempotency_status
  clm_responseReference :: "string option"

definition idempotency_slot :: "string \<Rightarrow> string \<Rightarrow> idempotency_row \<Rightarrow> bool" where
  "idempotency_slot scope key r \<longleftrightarrow> idm_scope r = scope \<and> idm_key r = key"

text \<open>\<open>idempotencyRecord.create\<close>: scope and key are unique together.\<close>

definition new_idempotency :: "env \<Rightarrow> string \<Rightarrow> string \<Rightarrow> string \<Rightarrow> int \<Rightarrow> db \<Rightarrow> idempotency_row" where
  "new_idempotency E scope key requestDigest expiresAt d =
     \<lparr>idm_id = gen_id E (map idm_id (idempotency d)), idm_scope = scope, idm_key = key,
      idm_requestDigest = requestDigest, idm_status = default_idempotency_status E,
      idm_responseReference = None, idm_expiresAt = expiresAt\<rparr>"

definition create_idempotency :: "env \<Rightarrow> string \<Rightarrow> string \<Rightarrow> string \<Rightarrow> int \<Rightarrow> db
    \<Rightarrow> idempotency_row result \<times> db" where
  "create_idempotency E scope key requestDigest expiresAt d =
     (if list_ex (idempotency_slot scope key) (idempotency d) then (Inl unique_violation, d)
      else let r = new_idempotency E scope key requestDigest expiresAt d
        in (Inr r, d\<lparr>idempotency := idempotency d @ [r]\<rparr>))"

text \<open>\<open>/^[a-z0-9._:-]{1,80}$/\<close> and \<open>/^[A-Za-z0-9_-]{32,128}$/\<close>\<close>

definition validateClaim :: "env \<Rightarrow> string \<Rightarrow> string \<Rightarrow> string \<Rightarrow> int \<Rightarrow> unit result" where
  "validateClaim E scope key requestDigest expiresAt =
     (if \<not> (1 \<le> length scope \<and> length scope \<le> 80
            \<and> list_all (\<lambda>c. is_lower c \<or> is_digit c \<or> c \<in> set ''._:-'') scope)
      then Inl (Raised ''Invalid idempotency scope.'')
      else if length key < 8 \<or> 200 < length key
      then Inl (Raised ''Invalid idempotency key length.'')
      else if \<not> (32 \<le> length requestDigest \<and> length requestDigest \<le> 128
            \<and> list_all is_b64url requestDigest)
      then Inl (Raised ''Invalid idempotency request digest.'')
      else if expiresAt \<le> clock E 0
      then Inl (Raised ''Idempotency expiry must be in the future.'') else Inr ())"

definition resolveExisting :: "idempotency_row \<Rightarrow> string \<Rightarrow> idempotency_claim result" where
  "resolveExisting existing requestDigest =
     (if idm_requestDigest existing \<noteq> requestDigest
      then Inl (Http_Message 409 ''The idempotency key was already used for a different request.'')
      else Inr \<lparr>clm_id = idm_id existing, clm_state = Replay, clm_status = idm_status existing,
                 clm_responseReference = idm_responseReference existing\<rparr>)"

text \<open>
  \<open>claim\<close> in its two database steps: the lookup, and the create, whose state may already hold
  the record of a request that raced this one.
\<close>

definition claim_create :: "env \<Rightarrow> string \<Rightarrow> string \<Rightarrow> string \<Rightarrow> int \<Rightarrow> db
    \<Rightarrow> idempotency_claim result \<times> db" where
  "claim_create E scope key requestDigest expiresAt d =
     (case create_idempotency E scope key requestDigest expiresAt d of
        (Inr created, d1) \<Rightarrow>
          (Inr \<lparr>clm_id = idm_id created, clm_state = Claimed, clm_status = idm_status created,
                clm_responseReference = idm_responseReference created\<rparr>, d1)
      | (Inl e, d1) \<Rightarrow>
          (if e \<noteq> unique_violation then (Inl e, d1)
           else (case find_row (idempotency_slot scope key) (idempotency d1) of
               None \<Rightarrow> (Inl record_not_found, d1)
             | Some raced \<Rightarrow> (resolveExisting raced requestDigest, d1))))"

definition claim :: "env \<Rightarrow> string \<Rightarrow> string \<Rightarrow> string \<Rightarrow> int \<Rightarrow> db
    \<Rightarrow> idempotency_claim result \<times> db" where
  "claim E scope key requestDigest expiresAt d =
     (case validateClaim E scope key requestDigest expiresAt of
        Inl e \<Rightarrow> (Inl e, d)
      | Inr _ \<Rightarrow>
     (case find_row (idempotency_slot scope key) (idempotency d) of
        Some existing \<Rightarrow> (resolveExisting existing requestDigest, d)
      | None \<Rightarrow> claim_create E scope key requestDigest expiresAt d))"

definition complete :: "string \<Rightarrow> string \<Rightarrow> string \<Rightarrow> db \<Rightarrow> bool \<times> db" where
  "complete i requestDigest responseReference d =
     (let mine = (\<lambda>r. idm_id r = i \<and> idm_requestDigest r = requestDigest \<and> idm_status r = Idem_IN_PROGRESS)
      in (count_rows mine (idempotency d) = 1,
          d\<lparr>idempotency := update_rows mine
            (\<lambda>r. r\<lparr>idm_status := Idem_COMPLETED, idm_responseReference := Some responseReference\<rparr>)
            (idempotency d)\<rparr>))"

lemma find_row_None_ex: "find_row P t = None \<longleftrightarrow> \<not> list_ex P t"
  by (induction t) auto

lemma new_idempotency_slot [simp]:
  "idempotency_slot scope key (new_idempotency E scope key requestDigest expiresAt d)"
  "idm_requestDigest (new_idempotency E scope key requestDigest expiresAt d) = requestDigest"
  "idm_status (new_idempotency E scope key requestDigest expiresAt d) = default_idempotency_status E"
  "idm_responseReference (new_idempotency E scope key requestDigest expiresAt d) = None"
  by (simp_all add: new_idempotency_def idempotency_slot_def)

lemma claim_create_free:
  assumes "find_row (idempotency_slot scope key) (idempotency d) = None"
  shows "claim_create E scope key requestDigest expiresAt d =
      (Inr \<lparr>clm_id = idm_id (new_idempotency E scope key requestDigest expiresAt d), clm_state = Claimed,
            clm_status = default_idempotency_status E, clm_responseReference = None\<rparr>,
       d\<lparr>idempotency := idempotency d @ [new_idempotency E scope key requestDigest expiresAt d]\<rparr>)"
  using assms by (simp add: claim_create_def create_idempotency_def find_row_None_ex Let_def)

lemma claim_create_taken:
  assumes "find_row (idempotency_slot scope key) (idempotency d) = Some r"
  shows "claim_create E scope key requestDigest expiresAt d = (resolveExisting r requestDigest, d)"
  using assms by (cases "list_ex (idempotency_slot scope key) (idempotency d)")
    (auto simp: claim_create_def create_idempotency_def find_row_None_ex [symmetric])

text \<open>The requests that race for one key: at most one claims it.\<close>

definition slot_taken :: "string \<Rightarrow> string \<Rightarrow> db \<Rightarrow> bool" where
  "slot_taken scope key d \<longleftrightarrow> find_row (idempotency_slot scope key) (idempotency d) \<noteq> None"

definition claim_attempt :: "string \<Rightarrow> string \<Rightarrow> env \<times> string \<times> int \<Rightarrow> db \<Rightarrow> unit result \<times> db" where
  "claim_attempt scope key a d = (case a of (E, requestDigest, expiresAt) \<Rightarrow>
     (case claim_create E scope key requestDigest expiresAt d of
        (Inr c, d1) \<Rightarrow> (if clm_state c = Claimed then Inr () else Inl (Raised ''replay''), d1)
      | (Inl e, d1) \<Rightarrow> (Inl e, d1)))"

lemma claim_attempt_taken:
  assumes "slot_taken scope key d"
  shows "\<not> succeeded (fst (claim_attempt scope key a d))" and "snd (claim_attempt scope key a d) = d"
  using assms
  by (auto simp: slot_taken_def claim_attempt_def claim_create_taken resolveExisting_def
      split: prod.splits if_splits)

lemma claim_attempt_free:
  assumes "\<not> slot_taken scope key d"
  shows "slot_taken scope key (snd (claim_attempt scope key a d))"
proof -
  have free: "find_row (idempotency_slot scope key) (idempotency d) = None"
    using assms by (simp add: slot_taken_def)
  then show ?thesis
    by (cases a) (simp add: slot_taken_def claim_attempt_def claim_create_free [OF free] find_row_append)
qed

interpretation ic: single_use "claim_attempt scope key" "slot_taken scope key" "\<lambda>d. True" "\<lambda>a. True"
  for scope key
  by unfold_locales (use claim_attempt_taken claim_attempt_free in \<open>fastforce+\<close>)

subsection \<open>The session upgrade\<close>

record upgrade_result =
  upr_userId :: string
  upr_sessionId :: string
  upr_refreshToken :: string
  upr_transport :: token_transport

record upgrade_input =
  upi_verificationAttemptId :: string
  upi_transport :: token_transport

definition upgrade_result_json :: "upgrade_result \<Rightarrow> json" where
  "upgrade_result_json u = JObj
     [(''userId'', JStr (upr_userId u)), (''sessionId'', JStr (upr_sessionId u)),
      (''refreshToken'', JStr (upr_refreshToken u)),
      (''transport'', JStr (transport_text (upr_transport u)))]"

definition upgrade_digest :: "env \<Rightarrow> principal \<Rightarrow> upgrade_input \<Rightarrow> string" where
  "upgrade_digest E claims input = requestContext E (stringify E (JObj
     [(''userId'', JStr (prn_sub claims)), (''sessionId'', JStr (prn_sid claims)),
      (''verificationAttemptId'', JStr (upi_verificationAttemptId input)),
      (''transport'', JStr (transport_text (upi_transport input)))]))"

definition transport_of :: "string \<Rightarrow> token_transport option" where
  "transport_of t =
     (if t = ''COOKIE'' then Some COOKIE else if t = ''NATIVE'' then Some NATIVE else None)"

definition openResult :: "env \<Rightarrow> string \<Rightarrow> upgrade_result result" where
  "openResult E v = (case open_sealed E v Session_Upgrade_Result of
     Inl e \<Rightarrow> Inl e
   | Inr text \<Rightarrow>
  (case parse_json E text of
     None \<Rightarrow> Inl (Raised ''SyntaxError'')
   | Some j \<Rightarrow>
  (case (json_field ''userId'' j, json_field ''sessionId'' j, json_field ''refreshToken'' j,
         json_field ''transport'' j) of
     (Some (JStr u), Some (JStr s), Some (JStr r), Some (JStr t)) \<Rightarrow>
       (case transport_of t of
          None \<Rightarrow> Inl (Raised ''Invalid session-upgrade result.'')
        | Some tr \<Rightarrow>
            if u = [] \<or> s = [] \<or> r = [] then Inl (Raised ''Invalid session-upgrade result.'')
            else Inr \<lparr>upr_userId = u, upr_sessionId = s, upr_refreshToken = r, upr_transport = tr\<rparr>)
   | _ \<Rightarrow> Inl (Raised ''Invalid session-upgrade result.''))))"

lemma openResult_sealed:
  assumes "json_laws E" and "gcm_laws E"
    and "seal E i (stringify E (upgrade_result_json u)) Session_Upgrade_Result = Inr v"
    and "upr_userId u \<noteq> []" and "upr_sessionId u \<noteq> []" and "upr_refreshToken u \<noteq> []"
  shows "openResult E v = Inr u"
  using assms(4-6) open_seal(1) [OF assms(1-3)]
  by (cases u; cases "upr_transport u")
    (simp_all add: openResult_def json_lawsD [OF assms(1)] upgrade_result_json_def transport_of_def)

text \<open>The eligible limited session, and the full session that replaces it.\<close>

definition upgradable :: "env \<Rightarrow> principal \<Rightarrow> session_row \<Rightarrow> bool" where
  "upgradable E claims s \<longleftrightarrow> ses_userId s = prn_sub claims \<and> ses_status s = Session_ACTIVE
     \<and> ses_level s = LIMITED \<and> clock E 0 < ses_expiresAt s"

definition upgrade_target :: "principal \<Rightarrow> session_row \<Rightarrow> bool" where
  "upgrade_target claims s \<longleftrightarrow> ses_id s = prn_sid claims \<and> ses_userId s = prn_sub claims
     \<and> ses_status s = Session_ACTIVE \<and> ses_level s = LIMITED"

definition full_session :: "env \<Rightarrow> principal \<Rightarrow> session_row \<Rightarrow> session_row" where
  "full_session E claims limited =
     \<lparr>ses_id = [], ses_userId = prn_sub claims, ses_familyId = uuid E 0, ses_level = FULL,
      ses_status = default_session_status E, ses_deviceId = ses_deviceId limited,
      ses_deviceLabel = ses_deviceLabel limited, ses_ipHash = ses_ipHash limited,
      ses_userAgentHash = ses_userAgentHash limited, ses_riskLevel = None, ses_riskReason = None,
      ses_createdAt = db_clock E, ses_lastUsedAt = db_clock E,
      ses_expiresAt = clock E 0 + seconds E ''REFRESH_TOKEN_TTL_SECONDS'', ses_revokedAt = None,
      ses_revocationReason = None, ses_version = 0\<rparr>"

definition full_refresh_row :: "env \<Rightarrow> principal \<Rightarrow> string \<Rightarrow> string \<Rightarrow> refresh_row" where
  "full_refresh_row E claims sessionId tokenDigest =
     \<lparr>rft_id = [], rft_userId = prn_sub claims, rft_sessionId = sessionId,
      rft_tokenDigest = tokenDigest, rft_tokenType = ''full'', rft_generation = 0,
      rft_issuedAt = db_clock E,
      rft_expiresAt = clock E 0 + seconds E ''REFRESH_TOKEN_TTL_SECONDS'', rft_usedAt = None,
      rft_revoked = False, rft_revokedAt = None, rft_replacedBy = None, rft_reuseDetectedAt = None\<rparr>"

text \<open>From the conditional revocation of the limited session to the stored result.\<close>

definition upgrade_replace :: "env \<Rightarrow> principal \<Rightarrow> upgrade_input \<Rightarrow> string \<Rightarrow> string \<Rightarrow> request_context
    \<Rightarrow> opaque_token \<Rightarrow> session_row \<Rightarrow> db \<Rightarrow> upgrade_result result \<times> db" where
  "upgrade_replace E claims input scope key ctx generated limited d =
     (let now = clock E 0;
          d1 = d\<lparr>sessions := update_rows (upgrade_target claims)
            (\<lambda>s. s\<lparr>ses_status := Session_REVOKED, ses_revokedAt := Some now,
                   ses_revocationReason := Some SESSION_UPGRADE_REVOCATION_REASON,
                   ses_version := ses_version s + 1\<rparr>) (sessions d)\<rparr>
      in if count_rows (upgrade_target claims) (sessions d) \<noteq> 1
         then (Inl (Http 409 ''SESSION_UPGRADE_CONFLICT''), d1)
         else
      let d2 = d1\<lparr>refresh_tokens := update_rows
            (\<lambda>t. rft_sessionId t = prn_sid claims \<and> rft_revokedAt t = None)
            (\<lambda>t. t\<lparr>rft_revoked := True, rft_revokedAt := Some now\<rparr>) (refresh_tokens d1)\<rparr>;
          (sid, d3) = create_session E (full_session E claims limited) d2
      in and_then (create_refresh_token E (full_refresh_row E claims sid (tok_digest generated)) d3)
      (\<lambda>_ d4.
      let d5 = create_event E
            \<lparr>evi_userId = Some (prn_sub claims), evi_sessionId = Some sid, evi_type = SESSION_REFRESHED,
             evi_severity = Severity_INFO, evi_outcome = Outcome_SUCCESS,
             evi_reasonCode = Some ''LIMITED_TO_FULL_SESSION_UPGRADE'',
             evi_correlationId = rq_correlationId ctx,
             evi_ipHash = Some (requestContext E (rq_ipAddress ctx)), evi_userAgentHash = None,
             evi_metadata = None\<rparr> d4;
          u = \<lparr>upr_userId = prn_sub claims, upr_sessionId = sid,
               upr_refreshToken = tok_token generated, upr_transport = upi_transport input\<rparr>
      in (case seal E 1 (stringify E (upgrade_result_json u)) Session_Upgrade_Result of
            Inl e \<Rightarrow> (Inl e, d5)
          | Inr sealed \<Rightarrow>
              (Inr u, d5\<lparr>idempotency := update_rows (idempotency_slot scope key)
                 (\<lambda>r. r\<lparr>idm_status := Idem_COMPLETED, idm_responseReference := Some sealed\<rparr>)
                 (idempotency d5)\<rparr>))))"

text \<open>The serializable transaction.\<close>

definition upgrade_transaction :: "env \<Rightarrow> principal \<Rightarrow> upgrade_input \<Rightarrow> string \<Rightarrow> request_context
    \<Rightarrow> opaque_token \<Rightarrow> db \<Rightarrow> upgrade_result result \<times> db" where
  "upgrade_transaction E claims input key ctx generated =
     transact (\<lambda>d.
       let now = clock E 0;
           scope = ''auth:session-upgrade:'' @ prn_sid claims;
           requestDigest = upgrade_digest E claims input
       in (case find_row (idempotency_slot scope key) (idempotency d) of
         Some existing \<Rightarrow>
           if idm_requestDigest existing \<noteq> requestDigest
           then (Inl (Http 409 ''IDEMPOTENCY_KEY_REUSED''), d)
           else (case (idm_status existing, idm_responseReference existing) of
               (Idem_COMPLETED, Some reference) \<Rightarrow>
                 if reference \<noteq> [] \<and> now < idm_expiresAt existing then (openResult E reference, d)
                 else (Inl (Http 409 ''SESSION_UPGRADE_IN_PROGRESS''), d)
             | _ \<Rightarrow> (Inl (Http 409 ''SESSION_UPGRADE_IN_PROGRESS''), d))
       | None \<Rightarrow>
           and_then (create_idempotency E scope key requestDigest
             (now + seconds E ''SESSION_UPGRADE_IDEMPOTENCY_TTL_SECONDS'') d)
           (\<lambda>_ d1. (case find_row (\<lambda>s. ses_id s = prn_sid claims) (sessions d1) of
             None \<Rightarrow> (Inl (Http 409 ''SESSION_ALREADY_UPGRADED''), d1)
           | Some limited \<Rightarrow>
               if \<not> upgradable E claims limited
               then (Inl (Http 409 ''SESSION_ALREADY_UPGRADED''), d1)
               else (case find_row (\<lambda>u. usr_id u = ses_userId limited) (users d1) of
                 None \<Rightarrow> (Inl (Raised ''user relation''), d1)
               | Some user \<Rightarrow>
                   if usr_accountStatus user \<noteq> Account_ACTIVE
                      \<or> usr_identityStatus user \<noteq> Identity_VERIFIED
                   then (Inl (Http 403 ''IDENTITY_NOT_VERIFIED''), d1)
                   else if find_row (\<lambda>a. att_id a = upi_verificationAttemptId input
                          \<and> att_userId a = prn_sub claims \<and> att_purpose a = ACCOUNT_ENROLLMENT
                          \<and> att_status a = Attempt_PASSED) (attempts d1) = None
                   then (Inl (Http 403 ''VERIFICATION_ATTEMPT_INVALID''), d1)
                   else upgrade_replace E claims input scope key ctx generated limited d1)))))"

definition upgrade :: "env \<Rightarrow> principal \<Rightarrow> upgrade_input \<Rightarrow> string \<Rightarrow> request_context \<Rightarrow> db
    \<Rightarrow> issued_authentication result \<times> db" where
  "upgrade E claims input key ctx d = (case generate_token E 0 48 of
     Inl e \<Rightarrow> (Inl e, d)
   | Inr generated \<Rightarrow>
  (case upgrade_transaction E claims input key ctx generated d of
     (Inl e, d1) \<Rightarrow> (Inl e, d1)
   | (Inr u, d1) \<Rightarrow>
       if find_row (\<lambda>s. ses_id s = upr_sessionId u \<and> ses_userId s = upr_userId u
            \<and> ses_status s = Session_ACTIVE \<and> ses_level s = FULL \<and> clock E 0 < ses_expiresAt s)
            (sessions d1) = None
       then (Inl (Http 409 ''UPGRADED_SESSION_UNAVAILABLE''), d1)
       else (buildIssuedAuthentication E 1 1 (upr_userId u) (upr_sessionId u) FULL
               (upr_refreshToken u) (upr_transport u), d1)))"

text \<open>The controller: \<open>/^[A-Za-z0-9._:-]{16,128}$/\<close>.\<close>

definition upgrade_request :: "env \<Rightarrow> principal \<Rightarrow> upgrade_input \<Rightarrow> string option \<Rightarrow> request_context \<Rightarrow> db
    \<Rightarrow> (auth_response \<times> cookie list) result \<times> db" where
  "upgrade_request E claims input key ctx d = (case key of
     None \<Rightarrow> (Inl (Http 400 ''IDEMPOTENCY_KEY_INVALID''), d)
   | Some k \<Rightarrow>
       if \<not> (16 \<le> length k \<and> length k \<le> 128 \<and> list_all (\<lambda>c. is_alnum c \<or> c \<in> set ''._:-'') k)
       then (Inl (Http 400 ''IDEMPOTENCY_KEY_INVALID''), d)
       else (case upgrade E claims input k ctx d of
           (Inl e, d1) \<Rightarrow> (Inl e, d1)
         | (Inr issued, d1) \<Rightarrow> (Inr (iss_response issued, applyTransport E issued), d1)))"

subsection \<open>What the upgrade shows\<close>

definition upgrade_scope :: "principal \<Rightarrow> string" where
  "upgrade_scope claims = ''auth:session-upgrade:'' @ prn_sid claims"

lemma upgrade_replace_InrE:
  assumes "upgrade_replace E claims input scope key ctx generated limited d = (Inr u, d')"
  obtains sealed where "count_rows (upgrade_target claims) (sessions d) = 1"
    and "u = \<lparr>upr_userId = prn_sub claims, upr_sessionId = gen_id E (map ses_id (sessions d)),
      upr_refreshToken = tok_token generated, upr_transport = upi_transport input\<rparr>"
    and "sessions d' = update_rows (upgrade_target claims)
        (\<lambda>s. s\<lparr>ses_status := Session_REVOKED, ses_revokedAt := Some (clock E 0),
               ses_revocationReason := Some SESSION_UPGRADE_REVOCATION_REASON,
               ses_version := ses_version s + 1\<rparr>) (sessions d)
      @ [(full_session E claims limited)\<lparr>ses_id := upr_sessionId u\<rparr>]"
    and "seal E 1 (stringify E (upgrade_result_json u)) Session_Upgrade_Result = Inr sealed"
    and "idempotency d' = update_rows (idempotency_slot scope key)
      (\<lambda>r. r\<lparr>idm_status := Idem_COMPLETED, idm_responseReference := Some sealed\<rparr>) (idempotency d)"
    and "users d' = users d"
proof -
  have ids: "map ses_id (update_rows (upgrade_target claims)
        (\<lambda>s. s\<lparr>ses_status := Session_REVOKED, ses_revokedAt := Some (clock E 0),
               ses_revocationReason := Some SESSION_UPGRADE_REVOCATION_REASON,
               ses_version := Suc (ses_version s)\<rparr>) (sessions d)) = map ses_id (sessions d)"
    by (rule map_update_rows) simp
  show ?thesis
    using assms unfolding upgrade_replace_def
    by (auto simp: Let_def create_session_def create_refresh_token_def ids
        split: if_splits sum.splits intro!: that)
qed

lemma upgrade_transaction_freshE:
  assumes "upgrade_transaction E claims input key ctx generated d = (Inr u, d')"
    and "\<not> slot_taken (upgrade_scope claims) key d"
  obtains limited user where "find_row (\<lambda>s. ses_id s = prn_sid claims) (sessions d) = Some limited"
    and "upgradable E claims limited"
    and "find_row (\<lambda>u. usr_id u = ses_userId limited) (users d) = Some user"
    and "usr_accountStatus user = Account_ACTIVE" and "usr_identityStatus user = Identity_VERIFIED"
    and "\<exists>a \<in> set (attempts d). att_id a = upi_verificationAttemptId input \<and> att_userId a = prn_sub claims
      \<and> att_purpose a = ACCOUNT_ENROLLMENT \<and> att_status a = Attempt_PASSED"
    and "upgrade_replace E claims input (upgrade_scope claims) key ctx generated limited
      (d\<lparr>idempotency := idempotency d @ [new_idempotency E (upgrade_scope claims) key
         (upgrade_digest E claims input) (clock E 0 + seconds E ''SESSION_UPGRADE_IDEMPOTENCY_TTL_SECONDS'') d]\<rparr>)
      = (Inr u, d')"
proof -
  have free: "find_row (idempotency_slot (upgrade_scope claims) key) (idempotency d) = None"
    using assms(2) by (simp add: slot_taken_def)
  let ?d1 = "d\<lparr>idempotency := idempotency d @ [new_idempotency E (upgrade_scope claims) key
    (upgrade_digest E claims input) (clock E 0 + seconds E ''SESSION_UPGRADE_IDEMPOTENCY_TTL_SECONDS'') d]\<rparr>"
  have cr: "create_idempotency E (upgrade_scope claims) key (upgrade_digest E claims input)
      (clock E 0 + seconds E ''SESSION_UPGRADE_IDEMPOTENCY_TTL_SECONDS'') d
      = (Inr (new_idempotency E (upgrade_scope claims) key (upgrade_digest E claims input)
          (clock E 0 + seconds E ''SESSION_UPGRADE_IDEMPOTENCY_TTL_SECONDS'') d), ?d1)"
    using free by (simp add: create_idempotency_def find_row_None_ex Let_def)
  note eq = assms(1) [unfolded upgrade_transaction_def Let_def upgrade_scope_def [symmetric],
      THEN transact_InrD, unfolded free option.case cr and_then_simps]
  obtain limited where l: "find_row (\<lambda>s. ses_id s = prn_sid claims) (sessions d) = Some limited"
    using eq by (auto split: option.splits)
  have up: "upgradable E claims limited" using eq l by (auto split: if_splits)
  obtain user where us: "find_row (\<lambda>u. usr_id u = ses_userId limited) (users d) = Some user"
    using eq l up by (auto split: option.splits)
  have "usr_accountStatus user = Account_ACTIVE" "usr_identityStatus user = Identity_VERIFIED"
    using eq l up us by (auto split: if_splits)
  moreover have "find_row (\<lambda>a. att_id a = upi_verificationAttemptId input \<and> att_userId a = prn_sub claims
      \<and> att_purpose a = ACCOUNT_ENROLLMENT \<and> att_status a = Attempt_PASSED) (attempts d) \<noteq> None"
    using eq l up us by (auto split: if_splits)
  ultimately show ?thesis
    using eq l up us by (intro that [of limited user]) (auto dest: find_row_SomeD split: if_splits)
qed

text \<open>A retry with the same key, from a request with its own clock and random draws.\<close>

definition retry_env :: "env \<Rightarrow> (nat \<Rightarrow> int) \<Rightarrow> (nat \<Rightarrow> string) \<Rightarrow> (nat \<Rightarrow> nat \<Rightarrow> string) \<Rightarrow> env" where
  "retry_env E c g b = E\<lparr>clock := c, uuid := g, random_bytes := b\<rparr>"

lemma retry_env_json: "parse_json (retry_env E c g b) = parse_json E"
  by (simp add: retry_env_def)

lemma retry_env_open:
  "decrypt (retry_env E c g b) v p = decrypt E v p" "parseEnvelope (retry_env E c g b) t = parseEnvelope E t"
  by (simp add: decrypt_def additionalData_def retry_env_def)
    (simp only: parseEnvelope_def retry_env_json)

lemma retry_env_frame [simp]:
  "upgrade_digest (retry_env E c g b) claims input = upgrade_digest E claims input"
  "openResult (retry_env E c g b) v = openResult E v"
  "clock (retry_env E c g b) = c"
proof -
  have "open_sealed (retry_env E c g b) v p = open_sealed E v p" for v p
    by (simp only: open_sealed_def retry_env_open)
  then show "openResult (retry_env E c g b) v = openResult E v"
    by (simp only: openResult_def retry_env_json)
qed (simp_all add: retry_env_def upgrade_digest_def requestContext_def digest_def)

lemma upgrade_replay:
  assumes "upgrade_transaction E claims input key ctx generated d = (Inr u, d')"
    and "\<not> slot_taken (upgrade_scope claims) key d"
    and "json_laws E" and "gcm_laws E" and "prn_sub claims \<noteq> []" and "tok_token generated \<noteq> []"
    and "gen_id E (map ses_id (sessions d)) \<noteq> []"
    and "c 0 < clock E 0 + seconds E ''SESSION_UPGRADE_IDEMPOTENCY_TTL_SECONDS''"
  shows "upgrade_transaction (retry_env E c g b) claims input key ctx' generated' d' = (Inr u, d')"
proof -
  let ?r = "new_idempotency E (upgrade_scope claims) key (upgrade_digest E claims input)
    (clock E 0 + seconds E ''SESSION_UPGRADE_IDEMPOTENCY_TTL_SECONDS'') d"
  obtain limited where rep: "upgrade_replace E claims input (upgrade_scope claims) key ctx generated limited
      (d\<lparr>idempotency := idempotency d @ [?r]\<rparr>) = (Inr u, d')"
    using upgrade_transaction_freshE [OF assms(1,2)] by metis
  obtain sealed where s: "seal E 1 (stringify E (upgrade_result_json u)) Session_Upgrade_Result = Inr sealed"
    and idem: "idempotency d' = update_rows (idempotency_slot (upgrade_scope claims) key)
      (\<lambda>r. r\<lparr>idm_status := Idem_COMPLETED, idm_responseReference := Some sealed\<rparr>) (idempotency d @ [?r])"
    and u: "u = \<lparr>upr_userId = prn_sub claims, upr_sessionId = gen_id E (map ses_id (sessions d)),
      upr_refreshToken = tok_token generated, upr_transport = upi_transport input\<rparr>"
    by (rule upgrade_replace_InrE [OF rep]) simp
  have opens: "openResult E sealed = Inr u"
    by (rule openResult_sealed [OF assms(3,4) s]) (use assms(5-7) u in simp_all)
  have ne: "sealed \<noteq> []"
    using s json_laws_nonempty [OF assms(3)] by (auto simp: seal_def split: sum.splits)
  have free: "find_row (idempotency_slot (upgrade_scope claims) key) (idempotency d) = None"
    using assms(2) by (simp add: slot_taken_def)
  then have "update_rows (idempotency_slot (upgrade_scope claims) key) f (idempotency d) = idempotency d" for f
    by (intro update_rows_none) (auto simp: count_rows_0_iff dest: find_row_NoneD)
  then have found: "find_row (idempotency_slot (upgrade_scope claims) key) (idempotency d')
      = Some (?r\<lparr>idm_status := Idem_COMPLETED, idm_responseReference := Some sealed\<rparr>)"
    by (simp add: idem find_row_append free) (simp add: idempotency_slot_def new_idempotency_def)
  have exp: "c 0 < idm_expiresAt ?r" using assms(8) by (simp add: new_idempotency_def)
  show ?thesis
    unfolding upgrade_transaction_def upgrade_scope_def [symmetric] Let_def
    by (rule transact_Inr) (simp add: found ne exp opens)
qed

text \<open>After an upgrade the limited session is gone: no other key upgrades it again.\<close>

lemma upgrade_once:
  assumes "upgrade_transaction E claims input key ctx generated d = (Inr u, d')"
    and "\<not> slot_taken (upgrade_scope claims) key d" and "distinct (map ses_id (sessions d))"
    and "id_laws E" and "\<not> slot_taken (upgrade_scope claims) key' d'"
  shows "upgrade_transaction F claims input' key' ctx' generated' d'
    = (Inl (Http 409 ''SESSION_ALREADY_UPGRADED''), d')"
proof -
  let ?d1 = "d\<lparr>idempotency := idempotency d @ [new_idempotency E (upgrade_scope claims) key
    (upgrade_digest E claims input) (clock E 0 + seconds E ''SESSION_UPGRADE_IDEMPOTENCY_TTL_SECONDS'') d]\<rparr>"
  obtain limited where l: "find_row (\<lambda>s. ses_id s = prn_sid claims) (sessions d) = Some limited"
    and up: "upgradable E claims limited"
    and rep: "upgrade_replace E claims input (upgrade_scope claims) key ctx generated limited ?d1 = (Inr u, d')"
    using upgrade_transaction_freshE [OF assms(1,2)] by metis
  let ?f = "\<lambda>s. s\<lparr>ses_status := Session_REVOKED, ses_revokedAt := Some (clock E 0),
    ses_revocationReason := Some SESSION_UPGRADE_REVOCATION_REASON, ses_version := ses_version s + 1\<rparr>"
  have ses: "sessions d' = update_rows (upgrade_target claims) ?f (sessions d)
      @ [(full_session E claims limited)\<lparr>ses_id := upr_sessionId u\<rparr>]"
    by (rule upgrade_replace_InrE [OF rep]) simp
  have lim: "upgrade_target claims limited"
    using find_row_SomeD [OF l] up by (simp add: upgrade_target_def upgradable_def)
  have gone: "find_row (\<lambda>s. ses_id s = prn_sid claims) (sessions d') = Some (?f limited)"
    unfolding ses find_row_append by (subst find_row_update_key) (simp_all add: l lim)
  have free: "find_row (idempotency_slot (upgrade_scope claims) key') (idempotency d') = None"
    using assms(5) by (simp add: slot_taken_def)
  show ?thesis
    unfolding upgrade_transaction_def Let_def upgrade_scope_def [symmetric]
    by (rule transact_Inl)
      (simp add: free create_idempotency_def find_row_None_ex [symmetric] Let_def gone upgradable_def)
qed

end
