(* ===== verification/Password.thy ===== *)
theory Password
  imports SessionUpgrade
begin

text \<open>
  \<open>PasswordService\<close> (\<open>modules/password/password.service.ts\<close>) and \<open>EmailVerificationService\<close>
  (\<open>modules/email-verification/email-verification.service.ts\<close>): the mailed one-time tokens.  A
  request for a token retires the unspent ones of its user and queues a mail; the token is consumed
  in the transaction that has its effect.
\<close>

subsection \<open>Rate limits\<close>

text \<open>\<open>limit\<close>: the limiter's own error is 429, any other failure 503.\<close>

definition limit :: "api_error \<Rightarrow> unit result \<times> redis \<Rightarrow> unit result \<times> redis" where
  "limit limitError outcome = (case outcome of
     (Inr _, r) \<Rightarrow> (Inr (), r)
   | (Inl e, r) \<Rightarrow> (Inl (if e = limitError then too_many_requests else limiter_unavailable), r))"

lemma limit_error: "limit l outcome = (Inl e, r) \<Longrightarrow> e = too_many_requests \<or> e = limiter_unavailable"
  by (auto simp: limit_def split: prod.splits sum.splits if_splits)

subsection \<open>Password: asking for a reset\<close>

datatype accepted = Accepted

record reset_input =
  rsi_token :: string
  rsi_newPassword :: string

record change_input =
  chi_currentPassword :: string
  chi_newPassword :: string

definition open_request :: "string \<Rightarrow> int \<Rightarrow> reset_request_row \<Rightarrow> bool" where
  "open_request userId now r \<longleftrightarrow> rst_userId r = userId \<and> rst_usedAt r = None
     \<and> rst_revokedAt r = None \<and> now < rst_expiresAt r"

definition forgot_transaction :: "env \<Rightarrow> user_row \<Rightarrow> opaque_token \<Rightarrow> string \<Rightarrow> string \<Rightarrow> request_context
    \<Rightarrow> db \<Rightarrow> unit result \<times> db" where
  "forgot_transaction E user generated encryptedToken ipHash ctx =
     transact (\<lambda>d.
       let now = clock E 0;
           d1 = d\<lparr>reset_requests := update_rows (open_request (usr_id user) now)
             (\<lambda>r. r\<lparr>rst_revokedAt := Some now\<rparr>) (reset_requests d)\<rparr>
       in and_then (create_reset_request E
            \<lparr>rst_id = [], rst_userId = usr_id user, rst_tokenDigest = tok_digest generated,
             rst_expiresAt = now + seconds E ''PASSWORD_RESET_TOKEN_TTL_SECONDS'', rst_usedAt = None,
             rst_revokedAt = None, rst_requestedIpHash = Some ipHash\<rparr> d1)
          (\<lambda>_ d2. (Inr (), create_event E
            \<lparr>evi_userId = Some (usr_id user), evi_sessionId = None, evi_type = PASSWORD_RESET_REQUESTED,
             evi_severity = Severity_INFO, evi_outcome = Outcome_SUCCESS, evi_reasonCode = None,
             evi_correlationId = rq_correlationId ctx, evi_ipHash = Some ipHash,
             evi_userAgentHash = Some (requestContext E (rq_userAgent ctx)), evi_metadata = None\<rparr>
            (create_outbox E (usr_id user) ''PASSWORD_RESET_REQUESTED''
              (JObj [(''recipient'', JStr (usr_emailNormalized user)),
                     (''tokenEncrypted'', JStr encryptedToken)]) d2))))"

definition forgot :: "env \<Rightarrow> string \<Rightarrow> request_context \<Rightarrow> db \<Rightarrow> redis \<Rightarrow> accepted result \<times> db \<times> redis" where
  "forgot E email ctx d r =
     (case normalizeEmail E email of
        Inl e \<Rightarrow> (Inl e, d, r)
      | Inr emailNormalized \<Rightarrow>
     (let ipHash = requestContext E (rq_ipAddress ctx); emailHash = requestContext E emailNormalized
      in (case limit password_limit (assertResetRequestAllowed E ipHash emailHash r) of
        (Inl e, r1) \<Rightarrow> (Inl e, d, r1)
      | (Inr _, r1) \<Rightarrow>
     (case generate_token E 0 32 of
        Inl e \<Rightarrow> (Inl e, d, r1)
      | Inr generated \<Rightarrow>
     (case seal E 1 (tok_token generated) Password_Reset_Token of
        Inl e \<Rightarrow> (Inl e, d, r1)
      | Inr encryptedToken \<Rightarrow>
     (case find_row (\<lambda>u. usr_emailNormalized u = emailNormalized) (users d) of
        None \<Rightarrow> (Inr Accepted, d, r1)
      | Some user \<Rightarrow>
          if usr_emailVerifiedAt user \<noteq> None \<and> usr_accountStatus user = Account_ACTIVE
          then (case forgot_transaction E user generated encryptedToken ipHash ctx d of
              (Inl e, d1) \<Rightarrow> (Inl e, d1, r1)
            | (Inr _, d1) \<Rightarrow> (Inr Accepted, d1, r1))
          else (Inr Accepted, d, r1)))))))"

subsection \<open>Password: sessions and side effects of a change\<close>

definition revoke_user_sessions :: "string \<Rightarrow> int \<Rightarrow> db \<Rightarrow> db" where
  "revoke_user_sessions userId now d = d
     \<lparr>sessions := update_rows (\<lambda>s. ses_userId s = userId \<and> ses_status s = Session_ACTIVE)
        (\<lambda>s. s\<lparr>ses_status := Session_REVOKED, ses_revokedAt := Some now,
               ses_revocationReason := Some ''PASSWORD_CHANGED'', ses_version := ses_version s + 1\<rparr>)
        (sessions d),
      refresh_tokens := update_rows (\<lambda>t. rft_userId t = userId \<and> rft_revokedAt t = None)
        (\<lambda>t. t\<lparr>rft_revoked := True, rft_revokedAt := Some now\<rparr>) (refresh_tokens d)\<rparr>"

definition writePasswordChangedSideEffects :: "env \<Rightarrow> string \<Rightarrow> string \<Rightarrow> request_context \<Rightarrow> string
    \<Rightarrow> string \<Rightarrow> db \<Rightarrow> db" where
  "writePasswordChangedSideEffects E userId recipient ctx ipHash reasonCode d =
     create_event E
       \<lparr>evi_userId = Some userId, evi_sessionId = None, evi_type = PASSWORD_CHANGED,
        evi_severity = Severity_WARNING, evi_outcome = Outcome_SUCCESS,
        evi_reasonCode = Some reasonCode, evi_correlationId = rq_correlationId ctx,
        evi_ipHash = Some ipHash,
        evi_userAgentHash = Some (requestContext E (rq_userAgent ctx)), evi_metadata = None\<rparr>
       (create_outbox E userId ''PASSWORD_CHANGED_NOTIFICATION''
          (JObj [(''recipient'', JStr recipient)]) d)"

subsection \<open>Password: reset\<close>

abbreviation invalidReset :: api_error where
  "invalidReset \<equiv> Http 400 ''PASSWORD_RESET_INVALID''"

definition unspent_request :: "string \<Rightarrow> int \<Rightarrow> reset_request_row \<Rightarrow> bool" where
  "unspent_request k now r \<longleftrightarrow> rst_id r = k \<and> rst_usedAt r = None \<and> rst_revokedAt r = None
     \<and> now < rst_expiresAt r"

definition set_password :: "string \<Rightarrow> int \<Rightarrow> credential_row \<Rightarrow> credential_row" where
  "set_password passwordHash now c = c\<lparr>cred_passwordHash := passwordHash,
     cred_passwordAlgorithm := ''argon2id'', cred_passwordChangedAt := Some now,
     cred_failedLoginCount := 0, cred_lockedUntil := None\<rparr>"

definition reset_transaction :: "env \<Rightarrow> reset_request_row \<Rightarrow> string \<Rightarrow> string \<Rightarrow> string
    \<Rightarrow> request_context \<Rightarrow> db \<Rightarrow> unit result \<times> db" where
  "reset_transaction E request recipient passwordHash ipHash ctx =
     transact (\<lambda>d.
       let now = clock E 0;
           d1 = d\<lparr>reset_requests := update_rows (unspent_request (rst_id request) now)
             (\<lambda>r. r\<lparr>rst_usedAt := Some now\<rparr>) (reset_requests d)\<rparr>
       in if count_rows (unspent_request (rst_id request) now) (reset_requests d) \<noteq> 1
          then (Inl invalidReset, d1)
          else if count_rows (\<lambda>c. cred_userId c = rst_userId request) (credentials d1) = 0
          then (Inl record_not_found, d1)
          else
       let d2 = d1\<lparr>credentials := update_rows (\<lambda>c. cred_userId c = rst_userId request)
             (set_password passwordHash now) (credentials d1)\<rparr>;
           d3 = d2\<lparr>reset_requests := update_rows
             (\<lambda>r. rst_userId r = rst_userId request \<and> rst_id r \<noteq> rst_id request
                \<and> rst_usedAt r = None \<and> rst_revokedAt r = None)
             (\<lambda>r. r\<lparr>rst_revokedAt := Some now\<rparr>) (reset_requests d2)\<rparr>;
           d4 = revoke_user_sessions (rst_userId request) now d3
       in (Inr (), writePasswordChangedSideEffects E (rst_userId request) recipient ctx ipHash
             ''PASSWORD_RESET'' d4))"

definition reset :: "env \<Rightarrow> reset_input \<Rightarrow> request_context \<Rightarrow> db \<Rightarrow> redis \<Rightarrow> unit result \<times> db \<times> redis" where
  "reset E input ctx d r =
     (let tokenDigest = token_digest E (rsi_token input);
          ipHash = requestContext E (rq_ipAddress ctx)
      in (case limit password_limit (assertResetAllowed E ipHash tokenDigest r) of
        (Inl e, r1) \<Rightarrow> (Inl e, d, r1)
      | (Inr _, r1) \<Rightarrow>
     (case find_row (\<lambda>q. rst_tokenDigest q = tokenDigest) (reset_requests d) of
        None \<Rightarrow> (Inl invalidReset, d, r1)
      | Some request \<Rightarrow>
     (case find_row (\<lambda>u. usr_id u = rst_userId request) (users d) of
        None \<Rightarrow> (Inl (Raised ''user relation''), d, r1)
      | Some user \<Rightarrow>
          if rst_usedAt request \<noteq> None \<or> rst_revokedAt request \<noteq> None
             \<or> rst_expiresAt request \<le> clock E 0 \<or> usr_accountStatus user \<noteq> Account_ACTIVE
          then (Inl invalidReset, d, r1)
          else (case password_hash E (rsi_newPassword input) (usr_emailNormalized user) of
              Inl e \<Rightarrow> (Inl e, d, r1)
            | Inr passwordHash \<Rightarrow>
                (let (res, d1) = reset_transaction E request (usr_emailNormalized user) passwordHash
                       ipHash ctx d
                 in (res, d1, r1)))))))"

subsection \<open>Password: change\<close>

abbreviation invalidCurrentPassword :: api_error where
  "invalidCurrentPassword \<equiv> Http 401 ''CURRENT_PASSWORD_INVALID''"

definition change_transaction :: "env \<Rightarrow> string \<Rightarrow> string \<Rightarrow> string \<Rightarrow> string \<Rightarrow> string
    \<Rightarrow> request_context \<Rightarrow> db \<Rightarrow> unit result \<times> db" where
  "change_transaction E userId oldHash recipient passwordHash ipHash ctx =
     transact (\<lambda>d.
       let now = clock E 0;
           mine = (\<lambda>c. cred_userId c = userId \<and> cred_passwordHash c = oldHash);
           d1 = d\<lparr>credentials := update_rows mine (set_password passwordHash now) (credentials d)\<rparr>
       in if count_rows mine (credentials d) \<noteq> 1
          then (Inl (Http 409 ''PASSWORD_CHANGE_CONFLICT''), d1)
          else
       let d2 = d1\<lparr>reset_requests := update_rows
             (\<lambda>r. rst_userId r = userId \<and> rst_usedAt r = None \<and> rst_revokedAt r = None)
             (\<lambda>r. r\<lparr>rst_revokedAt := Some now\<rparr>) (reset_requests d1)\<rparr>;
           d3 = revoke_user_sessions userId now d2
       in (Inr (), writePasswordChangedSideEffects E userId recipient ctx ipHash
             ''AUTHENTICATED_CHANGE'' d3))"

definition change :: "env \<Rightarrow> principal \<Rightarrow> change_input \<Rightarrow> request_context \<Rightarrow> db \<Rightarrow> redis
    \<Rightarrow> unit result \<times> db \<times> redis" where
  "change E claims input ctx d r =
     (let ipHash = requestContext E (rq_ipAddress ctx)
      in (case limit password_limit (assertChangeAllowed E ipHash (prn_sub claims) r) of
        (Inl e, r1) \<Rightarrow> (Inl e, d, r1)
      | (Inr _, r1) \<Rightarrow>
     (case find_row (\<lambda>c. cred_userId c = prn_sub claims) (credentials d) of
        None \<Rightarrow> (Inl invalidCurrentPassword, d, r1)
      | Some credential \<Rightarrow>
     (case find_row (\<lambda>u. usr_id u = cred_userId credential) (users d) of
        None \<Rightarrow> (Inl (Raised ''user relation''), d, r1)
      | Some user \<Rightarrow>
          if usr_accountStatus user \<noteq> Account_ACTIVE
             \<or> \<not> password_verify E (cred_passwordHash credential) (chi_currentPassword input)
          then (Inl invalidCurrentPassword, d, r1)
          else if password_verify E (cred_passwordHash credential) (chi_newPassword input)
          then (Inl (Http 400 ''PASSWORD_REUSE_NOT_ALLOWED''), d, r1)
          else (case password_hash E (chi_newPassword input) (usr_emailNormalized user) of
              Inl e \<Rightarrow> (Inl e, d, r1)
            | Inr passwordHash \<Rightarrow>
                (let (res, d1) = change_transaction E (prn_sub claims) (cred_passwordHash credential)
                       (usr_emailNormalized user) passwordHash ipHash ctx d
                 in (res, d1, r1)))))))"

subsection \<open>Email verification\<close>

abbreviation invalidToken :: api_error where
  "invalidToken \<equiv> Http 400 ''EMAIL_VERIFICATION_INVALID''"

definition unspent_email_token :: "string \<Rightarrow> int \<Rightarrow> email_token_row \<Rightarrow> bool" where
  "unspent_email_token k now t \<longleftrightarrow> emt_id t = k \<and> emt_usedAt t = None \<and> emt_supersededAt t = None
     \<and> now < emt_expiresAt t"

definition pending_user :: "string \<Rightarrow> user_row \<Rightarrow> bool" where
  "pending_user k u \<longleftrightarrow> usr_id u = k \<and> usr_accountStatus u = Account_PENDING_EMAIL_VERIFICATION
     \<and> usr_emailVerifiedAt u = None"

definition verify_email :: "env \<Rightarrow> string \<Rightarrow> request_context \<Rightarrow> db \<Rightarrow> unit result \<times> db" where
  "verify_email E token ctx =
     transact (\<lambda>d.
       let now = clock E 0 in
       (case find_row (\<lambda>t. emt_tokenDigest t = token_digest E token) (email_tokens d) of
          None \<Rightarrow> (Inl invalidToken, d)
        | Some t \<Rightarrow>
            if emt_usedAt t \<noteq> None \<or> emt_supersededAt t \<noteq> None \<or> emt_expiresAt t \<le> now
            then (Inl invalidToken, d)
            else (case find_row (\<lambda>u. usr_id u = emt_userId t) (users d) of
                None \<Rightarrow> (Inl (Raised ''user relation''), d)
              | Some owner \<Rightarrow>
            let d1 = d\<lparr>email_tokens := update_rows (unspent_email_token (emt_id t) now)
                  (\<lambda>t. t\<lparr>emt_used := True, emt_usedAt := Some now\<rparr>) (email_tokens d)\<rparr>
            in if count_rows (unspent_email_token (emt_id t) now) (email_tokens d) \<noteq> 1
               then (Inl invalidToken, d1)
               else
            let d2 = d1\<lparr>users := update_rows (pending_user (emt_userId t))
                  (\<lambda>u. u\<lparr>usr_emailVerifiedAt := Some now, usr_accountStatus := Account_ACTIVE,
                         usr_isVerified := True, usr_isActive := True,
                         usr_version := usr_version u + 1\<rparr>) (users d1)\<rparr>
            in if count_rows (pending_user (emt_userId t)) (users d1) \<noteq> 1
               then (Inl invalidToken, d2)
               else (Inr (), create_outbox E (emt_userId t) ''WELCOME_NEXT_STEP''
                 (JObj [(''recipient'', JStr (usr_emailNormalized owner))])
                 (create_event E
                   \<lparr>evi_userId = Some (emt_userId t), evi_sessionId = None, evi_type = EMAIL_VERIFIED,
                    evi_severity = Severity_INFO, evi_outcome = Outcome_SUCCESS, evi_reasonCode = None,
                    evi_correlationId = rq_correlationId ctx,
                    evi_ipHash = Some (requestContext E (rq_ipAddress ctx)),
                    evi_userAgentHash = None, evi_metadata = None\<rparr> d2)))))"

definition open_email_token :: "string \<Rightarrow> int \<Rightarrow> email_token_row \<Rightarrow> bool" where
  "open_email_token userId now t \<longleftrightarrow> emt_userId t = userId \<and> emt_usedAt t = None
     \<and> emt_supersededAt t = None \<and> now < emt_expiresAt t"

definition resend_transaction :: "env \<Rightarrow> user_row \<Rightarrow> opaque_token \<Rightarrow> string \<Rightarrow> string \<Rightarrow> request_context
    \<Rightarrow> db \<Rightarrow> unit result \<times> db" where
  "resend_transaction E user generated encryptedToken ipHash ctx =
     transact (\<lambda>d.
       let now = clock E 0;
           d1 = d\<lparr>email_tokens := update_rows (open_email_token (usr_id user) now)
             (\<lambda>t. t\<lparr>emt_supersededAt := Some now\<rparr>) (email_tokens d)\<rparr>
       in and_then (create_email_token E
            \<lparr>emt_id = [], emt_userId = usr_id user, emt_tokenDigest = tok_digest generated,
             emt_expiresAt = now + seconds E ''EMAIL_TOKEN_TTL_SECONDS'', emt_used = False,
             emt_usedAt = None, emt_supersededAt = None\<rparr> d1)
          (\<lambda>_ d2. (Inr (), create_event E
            \<lparr>evi_userId = Some (usr_id user), evi_sessionId = None,
             evi_type = EMAIL_VERIFICATION_REQUESTED, evi_severity = Severity_INFO,
             evi_outcome = Outcome_SUCCESS, evi_reasonCode = None,
             evi_correlationId = rq_correlationId ctx, evi_ipHash = Some ipHash,
             evi_userAgentHash = None, evi_metadata = None\<rparr>
            (create_outbox E (usr_id user) ''EMAIL_VERIFICATION_REQUESTED''
              (JObj [(''recipient'', JStr (usr_emailNormalized user)),
                     (''tokenEncrypted'', JStr encryptedToken)]) d2))))"

definition resend :: "env \<Rightarrow> string \<Rightarrow> request_context \<Rightarrow> db \<Rightarrow> redis \<Rightarrow> accepted result \<times> db \<times> redis" where
  "resend E email ctx d r =
     (case normalizeEmail E email of
        Inl e \<Rightarrow> (Inl e, d, r)
      | Inr emailNormalized \<Rightarrow>
     (let ipHash = requestContext E (rq_ipAddress ctx); emailHash = requestContext E emailNormalized
      in (case limit account_limit (assertResendAllowed E ipHash emailHash r) of
        (Inl e, r1) \<Rightarrow> (Inl e, d, r1)
      | (Inr _, r1) \<Rightarrow>
     (case generate_token E 0 32 of
        Inl e \<Rightarrow> (Inl e, d, r1)
      | Inr generated \<Rightarrow>
     (case seal E 1 (tok_token generated) Email_Verification_Token of
        Inl e \<Rightarrow> (Inl e, d, r1)
      | Inr encryptedToken \<Rightarrow>
     (case find_row (\<lambda>u. usr_emailNormalized u = emailNormalized) (users d) of
        None \<Rightarrow> (Inr Accepted, d, r1)
      | Some user \<Rightarrow>
          if usr_emailVerifiedAt user = None
             \<and> usr_accountStatus user = Account_PENDING_EMAIL_VERIFICATION
          then (case resend_transaction E user generated encryptedToken ipHash ctx d of
              (Inl e, d1) \<Rightarrow> (Inl e, d1, r1)
            | (Inr _, d1) \<Rightarrow> (Inr Accepted, d1, r1))
          else (Inr Accepted, d, r1)))))))"

subsection \<open>What asking for a token shows\<close>

text \<open>The answer depends on the address and the limiter only, not on whether an account exists.\<close>

lemma create_reset_request_fresh:
  assumes "rst_tokenDigest q \<notin> rst_tokenDigest ` set (reset_requests d)"
  shows "create_reset_request E q d = (Inr (), d\<lparr>reset_requests := reset_requests d @
    [q\<lparr>rst_id := gen_id E (map rst_id (reset_requests d))\<rparr>]\<rparr>)"
  using assms by (simp add: create_reset_request_def)

lemma forgot_transaction_eq:
  assumes "tok_digest generated \<notin> rst_tokenDigest ` set (reset_requests d)"
  shows "fst (forgot_transaction E user generated enc ipHash ctx d) = Inr ()"
    and "reset_requests (snd (forgot_transaction E user generated enc ipHash ctx d)) =
      update_rows (open_request (usr_id user) (clock E 0)) (\<lambda>r. r\<lparr>rst_revokedAt := Some (clock E 0)\<rparr>)
        (reset_requests d)
      @ [\<lparr>rst_id = gen_id E (map rst_id (reset_requests d)), rst_userId = usr_id user,
          rst_tokenDigest = tok_digest generated,
          rst_expiresAt = clock E 0 + seconds E ''PASSWORD_RESET_TOKEN_TTL_SECONDS'', rst_usedAt = None,
          rst_revokedAt = None, rst_requestedIpHash = Some ipHash\<rparr>]"
    and "users (snd (forgot_transaction E user generated enc ipHash ctx d)) = users d"
    and "sessions (snd (forgot_transaction E user generated enc ipHash ctx d)) = sessions d"
    and "credentials (snd (forgot_transaction E user generated enc ipHash ctx d)) = credentials d"
proof -
  have digs: "map rst_tokenDigest (update_rows P (\<lambda>r. r\<lparr>rst_revokedAt := x\<rparr>) t) = map rst_tokenDigest t"
    "map rst_id (update_rows P (\<lambda>r. r\<lparr>rst_revokedAt := x\<rparr>) t) = map rst_id t" for P x t
    by (simp_all add: map_update_rows)
  have fresh: "tok_digest generated \<notin> rst_tokenDigest ` set (update_rows P (\<lambda>r. r\<lparr>rst_revokedAt := x\<rparr>) (reset_requests d))"
    for P x
    using assms digs(1) by (metis list.set_map)
  note eq = forgot_transaction_def transact_def Let_def create_reset_request_def fresh digs
  show "fst (forgot_transaction E user generated enc ipHash ctx d) = Inr ()" by (simp add: eq)
  show "reset_requests (snd (forgot_transaction E user generated enc ipHash ctx d)) =
      update_rows (open_request (usr_id user) (clock E 0)) (\<lambda>r. r\<lparr>rst_revokedAt := Some (clock E 0)\<rparr>)
        (reset_requests d)
      @ [\<lparr>rst_id = gen_id E (map rst_id (reset_requests d)), rst_userId = usr_id user,
          rst_tokenDigest = tok_digest generated,
          rst_expiresAt = clock E 0 + seconds E ''PASSWORD_RESET_TOKEN_TTL_SECONDS'', rst_usedAt = None,
          rst_revokedAt = None, rst_requestedIpHash = Some ipHash\<rparr>]"
    by (simp add: eq)
  show "users (snd (forgot_transaction E user generated enc ipHash ctx d)) = users d"
    "sessions (snd (forgot_transaction E user generated enc ipHash ctx d)) = sessions d"
    "credentials (snd (forgot_transaction E user generated enc ipHash ctx d)) = credentials d"
    by (simp_all add: eq)
qed

lemma forgot_uniform:
  assumes "\<And>t. generate_token E 0 32 = Inr t \<Longrightarrow>
      tok_digest t \<notin> rst_tokenDigest ` set (reset_requests d)
      \<and> tok_digest t \<notin> rst_tokenDigest ` set (reset_requests d2)"
  shows "fst (forgot E email ctx d r) = fst (forgot E email ctx d2 r)"
    and "snd (snd (forgot E email ctx d r)) = snd (snd (forgot E email ctx d2 r))"
proof -
  obtain t where t: "generate_token E 0 32 = Inr t" by simp
  have f: "fst (forgot_transaction E u t enc ipHash ctx d) = Inr ()"
    "fst (forgot_transaction E u t enc ipHash ctx d2) = Inr ()" for u enc ipHash
    using assms [OF t] by (auto intro: forgot_transaction_eq(1))
  have f': "(case forgot_transaction E u t enc ipHash ctx d of (Inl e, d1) \<Rightarrow> (Inl e, d1, r1)
        | (Inr _, d1) \<Rightarrow> (Inr Accepted, d1, r1)) = (Inr Accepted, snd (forgot_transaction E u t enc ipHash ctx d), r1)"
    "(case forgot_transaction E u t enc ipHash ctx d2 of (Inl e, d1) \<Rightarrow> (Inl e, d1, r1)
        | (Inr _, d1) \<Rightarrow> (Inr Accepted, d1, r1)) = (Inr Accepted, snd (forgot_transaction E u t enc ipHash ctx d2), r1)"
    for u enc ipHash and r1 :: redis
    using f [of u enc ipHash] by (auto simp: split_beta split: sum.splits)
  show "fst (forgot E email ctx d r) = fst (forgot E email ctx d2 r)"
    and "snd (snd (forgot E email ctx d r)) = snd (snd (forgot E email ctx d2 r))"
    unfolding forgot_def Let_def t sum.case f'
    by (auto split: sum.splits prod.splits option.splits)
qed

lemma forgot_one_open:
  assumes "tok_digest generated \<notin> rst_tokenDigest ` set (reset_requests d)"
    and "0 < cfg_num E ''PASSWORD_RESET_TOKEN_TTL_SECONDS''"
  shows "count_rows (open_request (usr_id user) (clock E 0))
    (reset_requests (snd (forgot_transaction E user generated enc ipHash ctx d))) = 1"
proof -
  have "count_rows (open_request (usr_id user) (clock E 0))
      (update_rows (open_request (usr_id user) (clock E 0)) (\<lambda>r. r\<lparr>rst_revokedAt := Some (clock E 0)\<rparr>)
        (reset_requests d)) = 0"
    by (auto simp: count_rows_0_iff open_request_def elim!: in_update_rowsE)
  then show ?thesis
    unfolding forgot_transaction_eq(2) [OF assms(1)] using assms(2) by (simp add: open_request_def)
qed

subsection \<open>What a reset and a change show\<close>

text \<open>Nothing of the user's sessions survives.\<close>

definition signed_out :: "string \<Rightarrow> db \<Rightarrow> bool" where
  "signed_out userId d \<longleftrightarrow>
     (\<forall>s \<in> set (sessions d). ses_userId s = userId \<longrightarrow> ses_status s \<noteq> Session_ACTIVE)
     \<and> (\<forall>t \<in> set (refresh_tokens d). rft_userId t = userId \<longrightarrow> rft_revokedAt t \<noteq> None)"

lemma revoke_user_sessions_signed_out [simp]: "signed_out userId (revoke_user_sessions userId now d)"
  by (simp add: signed_out_def revoke_user_sessions_def ball_update_rows)

lemma revoke_user_sessions_frame [simp]:
  "users (revoke_user_sessions u now d) = users d"
  "credentials (revoke_user_sessions u now d) = credentials d"
  "reset_requests (revoke_user_sessions u now d) = reset_requests d"
  by (simp_all add: revoke_user_sessions_def)

lemma side_effects_frame [simp]:
  "users (writePasswordChangedSideEffects E u rc ctx h c d) = users d"
  "credentials (writePasswordChangedSideEffects E u rc ctx h c d) = credentials d"
  "sessions (writePasswordChangedSideEffects E u rc ctx h c d) = sessions d"
  "refresh_tokens (writePasswordChangedSideEffects E u rc ctx h c d) = refresh_tokens d"
  "reset_requests (writePasswordChangedSideEffects E u rc ctx h c d) = reset_requests d"
  "signed_out k (writePasswordChangedSideEffects E u rc ctx h c d) = signed_out k d"
  by (simp_all add: writePasswordChangedSideEffects_def signed_out_def)

lemma signed_out_requests [simp]:
  "signed_out k (d\<lparr>reset_requests := x\<rparr>) = signed_out k d"
  "signed_out k (d\<lparr>credentials := y\<rparr>) = signed_out k d"
  by (simp_all add: signed_out_def)

lemma reset_transaction_InrD:
  assumes "reset_transaction E q recipient h ipHash ctx d = (Inr u, d')"
  shows "count_rows (unspent_request (rst_id q) (clock E 0)) (reset_requests d) = 1"
    and "signed_out (rst_userId q) d'"
    and "credentials d' = update_rows (\<lambda>c. cred_userId c = rst_userId q) (set_password h (clock E 0)) (credentials d)"
    and "reset_requests d' = update_rows
      (\<lambda>r. rst_userId r = rst_userId q \<and> rst_id r \<noteq> rst_id q \<and> rst_usedAt r = None \<and> rst_revokedAt r = None)
      (\<lambda>r. r\<lparr>rst_revokedAt := Some (clock E 0)\<rparr>)
      (update_rows (unspent_request (rst_id q) (clock E 0)) (\<lambda>r. r\<lparr>rst_usedAt := Some (clock E 0)\<rparr>)
        (reset_requests d))"
    and "users d' = users d"
  using assms unfolding reset_transaction_def
  by (auto dest!: transact_InrD simp: Let_def split: if_splits)

definition request_spent :: "string \<Rightarrow> db \<Rightarrow> bool" where
  "request_spent k d \<longleftrightarrow>
     (\<forall>q \<in> set (reset_requests d). rst_id q = k \<longrightarrow> rst_usedAt q \<noteq> None \<or> rst_revokedAt q \<noteq> None)"

definition request_known :: "db \<Rightarrow> bool" where
  "request_known d \<longleftrightarrow> distinct (map rst_id (reset_requests d))"

type_synonym reset_try = "env \<times> reset_request_row \<times> string \<times> string \<times> string \<times> request_context"

definition reset_attempt :: "reset_try \<Rightarrow> db \<Rightarrow> unit result \<times> db" where
  "reset_attempt a d = (case a of (E, q, recipient, h, ipHash, ctx) \<Rightarrow>
     reset_transaction E q recipient h ipHash ctx d)"

definition reset_of :: "string \<Rightarrow> reset_try \<Rightarrow> bool" where
  "reset_of k a = (rst_id (fst (snd a)) = k)"

lemma reset_attempt_effect:
  assumes "reset_of k a" and "request_known d" and "reset_attempt a d = (res, d')"
  shows "case res of Inl e \<Rightarrow> d' = d | Inr _ \<Rightarrow> \<not> request_spent k d \<and> request_spent k d' \<and> request_known d'"
proof -
  obtain E q recipient h ipHash ctx where a: "a = (E, q, recipient, h, ipHash, ctx)" by (cases a)
  have k: "rst_id q = k" using assms(1) a by (simp add: reset_of_def)
  show ?thesis
  proof (cases res)
    case (Inl e)
    then show ?thesis using assms(3) a
      by (auto simp: reset_attempt_def reset_transaction_def dest: transact_rolls_back)
  next
    case (Inr u)
    then have r: "reset_transaction E q recipient h ipHash ctx d = (Inr u, d')"
      using assms(3) a by (simp add: reset_attempt_def)
    note D = reset_transaction_InrD [OF r, unfolded k]
    obtain x where x: "x \<in> set (reset_requests d)" "unspent_request k (clock E 0) x"
      using D(1) count_rows_1D by (metis One_nat_def)
    have dist: "distinct (map rst_id (reset_requests d))" using assms(2) by (simp add: request_known_def)
    have only: "y = x" if "y \<in> set (reset_requests d)" "rst_id y = k" for y
      using distinct_key_eq [OF dist that(1) x(1)] that(2) x(2) by (simp add: unspent_request_def)
    have "\<not> request_spent k d" using x by (auto simp: request_spent_def unspent_request_def)
    moreover have "request_spent k d'"
      using only x(2) by (fastforce simp: request_spent_def D(4) elim!: in_update_rowsE)
    moreover have "request_known d'" using assms(2) by (simp add: request_known_def D(4) map_update_rows)
    ultimately show ?thesis by (simp add: Inr)
  qed
qed

interpretation rr: single_use reset_attempt "request_spent k" request_known "reset_of k" for k
proof
  fix d a
  assume i: "request_known d" "reset_of k a"
  obtain res d' where r: "reset_attempt a d = (res, d')" by force
  note e = reset_attempt_effect [OF i(2,1) r]
  show "succeeded (fst (reset_attempt a d)) \<Longrightarrow> \<not> request_spent k d"
    and "succeeded (fst (reset_attempt a d)) \<Longrightarrow> request_spent k (snd (reset_attempt a d))"
    and "request_spent k d \<Longrightarrow> request_spent k (snd (reset_attempt a d))"
    and "request_known (snd (reset_attempt a d))"
    using e i r by (auto split: sum.splits)
qed

lemma change_transaction_InrD:
  assumes "change_transaction E u old recipient h ipHash ctx d = (Inr x, d')"
  shows "count_rows (\<lambda>c. cred_userId c = u \<and> cred_passwordHash c = old) (credentials d) = 1"
    and "signed_out u d'"
    and "credentials d' = update_rows (\<lambda>c. cred_userId c = u \<and> cred_passwordHash c = old)
      (set_password h (clock E 0)) (credentials d)"
    and "reset_requests d' = update_rows
      (\<lambda>r. rst_userId r = u \<and> rst_usedAt r = None \<and> rst_revokedAt r = None)
      (\<lambda>r. r\<lparr>rst_revokedAt := Some (clock E 0)\<rparr>) (reset_requests d)"
    and "users d' = users d"
  using assms unfolding change_transaction_def
  by (auto dest!: transact_InrD simp: Let_def split: if_splits)

text \<open>Changes that verified the same old hash: one of them takes effect.\<close>

type_synonym change_try = "env \<times> string \<times> string \<times> string \<times> request_context"

definition change_attempt :: "string \<Rightarrow> string \<Rightarrow> change_try \<Rightarrow> db \<Rightarrow> unit result \<times> db" where
  "change_attempt userId old a d = (case a of (E, recipient, h, ipHash, ctx) \<Rightarrow>
     change_transaction E userId old recipient h ipHash ctx d)"

definition hash_gone :: "string \<Rightarrow> string \<Rightarrow> db \<Rightarrow> bool" where
  "hash_gone userId old d \<longleftrightarrow>
     (\<forall>c \<in> set (credentials d). \<not> (cred_userId c = userId \<and> cred_passwordHash c = old))"

lemma change_attempt_effect:
  assumes "change_attempt userId old (E, recipient, h, ipHash, ctx) d = (res, d')" and "h \<noteq> old"
  shows "case res of Inl e \<Rightarrow> d' = d | Inr _ \<Rightarrow> \<not> hash_gone userId old d \<and> hash_gone userId old d'"
proof (cases res)
  case (Inl e)
  then show ?thesis using assms(1)
    by (auto simp: change_attempt_def change_transaction_def dest: transact_rolls_back)
next
  case (Inr x)
  then have r: "change_transaction E userId old recipient h ipHash ctx d = (Inr x, d')"
    using assms(1) by (simp add: change_attempt_def)
  have "\<not> hash_gone userId old d"
    using change_transaction_InrD(1) [OF r] unfolding hash_gone_def
    by (auto dest: count_rows_1D)
  moreover have "hash_gone userId old d'"
    using assms(2) unfolding hash_gone_def change_transaction_InrD(3) [OF r]
    by (simp add: ball_update_rows set_password_def)
  ultimately show ?thesis by (simp add: Inr)
qed

interpretation cp: single_use "change_attempt userId old" "hash_gone userId old" "\<lambda>d. True"
  "\<lambda>(E, recipient, h, ipHash, ctx). h \<noteq> old" for userId old
proof
  fix d and a :: change_try
  obtain E recipient h ipHash ctx where a: "a = (E, recipient, h, ipHash, ctx)" by (cases a)
  assume "case a of (E, recipient, h, ipHash, ctx) \<Rightarrow> h \<noteq> old"
  then have h: "h \<noteq> old" by (simp add: a)
  obtain res d' where r: "change_attempt userId old a d = (res, d')" by force
  note e = change_attempt_effect [OF r [unfolded a] h]
  show "succeeded (fst (change_attempt userId old a d)) \<Longrightarrow> \<not> hash_gone userId old d"
    and "succeeded (fst (change_attempt userId old a d)) \<Longrightarrow> hash_gone userId old (snd (change_attempt userId old a d))"
    and "hash_gone userId old d \<Longrightarrow> hash_gone userId old (snd (change_attempt userId old a d))"
    using e r by (auto split: sum.splits)
qed simp

subsection \<open>What email verification shows\<close>

lemma verify_email_InrE:
  assumes "verify_email E token ctx d = (Inr x, d')"
  obtains t u where "find_row (\<lambda>t. emt_tokenDigest t = token_digest E token) (email_tokens d) = Some t"
    and "emt_usedAt t = None" and "emt_supersededAt t = None" and "clock E 0 < emt_expiresAt t"
    and "u \<in> set (users d)" and "pending_user (emt_userId t) u"
    and "count_rows (pending_user (emt_userId t)) (users d) = 1"
    and "users d' = update_rows (pending_user (emt_userId t))
      (\<lambda>u. u\<lparr>usr_emailVerifiedAt := Some (clock E 0), usr_accountStatus := Account_ACTIVE,
             usr_isVerified := True, usr_isActive := True, usr_version := usr_version u + 1\<rparr>) (users d)"
    and "email_tokens d' = update_rows (unspent_email_token (emt_id t) (clock E 0))
      (\<lambda>t. t\<lparr>emt_used := True, emt_usedAt := Some (clock E 0)\<rparr>) (email_tokens d)"
    and "sessions d' = sessions d"
proof -
  obtain t where t: "find_row (\<lambda>t. emt_tokenDigest t = token_digest E token) (email_tokens d) = Some t"
    using assms by (auto simp: verify_email_def Let_def dest!: transact_InrD split: option.splits)
  note eq = assms [unfolded verify_email_def Let_def, THEN transact_InrD, unfolded t option.case]
  have c: "count_rows (pending_user (emt_userId t)) (users d) = 1"
    using eq by (auto split: if_splits option.splits)
  then obtain u where "u \<in> set (users d)" "pending_user (emt_userId t) u"
    using count_rows_1D by (metis One_nat_def)
  with eq t c show ?thesis
    by (intro that [of t u]) (auto split: if_splits option.splits)
qed

definition email_token_spent :: "string \<Rightarrow> db \<Rightarrow> bool" where
  "email_token_spent tokenDigest d \<longleftrightarrow>
     (\<forall>t \<in> set (email_tokens d). emt_tokenDigest t = tokenDigest \<longrightarrow>
        emt_usedAt t \<noteq> None \<or> emt_supersededAt t \<noteq> None)"

definition email_tokens_ok :: "db \<Rightarrow> bool" where
  "email_tokens_ok d \<longleftrightarrow> distinct (map emt_tokenDigest (email_tokens d)) \<and> distinct (map emt_id (email_tokens d))"

definition verify_attempt :: "env \<times> string \<times> request_context \<Rightarrow> db \<Rightarrow> unit result \<times> db" where
  "verify_attempt a d = (case a of (E, token, ctx) \<Rightarrow> verify_email E token ctx d)"

lemma verify_attempt_effect:
  assumes "verify_email E token ctx d = (res, d')" and "email_tokens_ok d"
  shows "case res of Inl e \<Rightarrow> d' = d
    | Inr _ \<Rightarrow> \<not> email_token_spent (token_digest E token) d \<and> email_token_spent (token_digest E token) d'
        \<and> email_tokens_ok d'"
proof (cases res)
  case (Inl e)
  then show ?thesis using assms(1) by (auto simp: verify_email_def dest: transact_rolls_back)
next
  case (Inr x)
  with assms(1) have r: "verify_email E token ctx d = (Inr x, d')" by simp
  obtain t where f: "find_row (\<lambda>t. emt_tokenDigest t = token_digest E token) (email_tokens d) = Some t"
    and un: "emt_usedAt t = None" "emt_supersededAt t = None" "clock E 0 < emt_expiresAt t"
    and toks: "email_tokens d' = update_rows (unspent_email_token (emt_id t) (clock E 0))
      (\<lambda>t. t\<lparr>emt_used := True, emt_usedAt := Some (clock E 0)\<rparr>) (email_tokens d)"
    by (rule verify_email_InrE [OF r]) simp
  note t = find_row_SomeD [OF f]
  have dist: "distinct (map emt_tokenDigest (email_tokens d))" using assms(2) by (simp add: email_tokens_ok_def)
  have only: "y = t" if "y \<in> set (email_tokens d)" "emt_tokenDigest y = token_digest E token" for y
    using distinct_key_eq [OF dist that(1)] t that(2) by metis
  have "\<not> email_token_spent (token_digest E token) d"
    using t un by (auto simp: email_token_spent_def)
  moreover have "email_token_spent (token_digest E token) d'"
    using only un unfolding email_token_spent_def toks
    by (auto simp: unspent_email_token_def elim!: in_update_rowsE)
  moreover have "email_tokens_ok d'"
    using assms(2) by (simp add: email_tokens_ok_def toks map_update_rows)
  ultimately show ?thesis by (simp add: Inr)
qed

interpretation ev: single_use verify_attempt "email_token_spent k" email_tokens_ok
  "\<lambda>(E, token, ctx). token_digest E token = k" for k
proof
  fix d and a :: "env \<times> string \<times> request_context"
  obtain E token ctx where a: "a = (E, token, ctx)" by (cases a)
  assume i: "email_tokens_ok d" "case a of (E, token, ctx) \<Rightarrow> token_digest E token = k"
  obtain res d' where r: "verify_email E token ctx d = (res, d')" by force
  note e = verify_attempt_effect [OF r i(1)]
  show "succeeded (fst (verify_attempt a d)) \<Longrightarrow> \<not> email_token_spent k d"
    and "succeeded (fst (verify_attempt a d)) \<Longrightarrow> email_token_spent k (snd (verify_attempt a d))"
    and "email_token_spent k d \<Longrightarrow> email_token_spent k (snd (verify_attempt a d))"
    and "email_tokens_ok (snd (verify_attempt a d))"
    using e i r by (auto simp: verify_attempt_def a split: sum.splits)
qed

end
