(* ===== verification/CitizenProvider.thy ===== *)
theory CitizenProvider
  imports Password
begin

text \<open>
  The citizen-identity provider (\<open>integrations/citizen-api\<close>): the circuit breaker, the mapper of
  provider and cache payloads and the NIDA adapter with its retries, cache and in-flight requests.
  The HTTP responses of the provider and the Joi library's date check are parameters.
\<close>

datatype citizen_error = Citizen_not_found | Citizen_unavailable | Citizen_response_invalid

record citizen =
  ctz_providerReference :: "string option"
  ctz_nationality :: string
  ctz_surname :: string
  ctz_givenNames :: string
  ctz_dateOfBirth :: string
  ctz_sex :: string
  ctz_documentStatus :: string
  ctz_portraitReference :: "string option"
  ctz_sourceUpdatedAt :: "string option"

subsection \<open>The circuit breaker\<close>

datatype circuit_state = Circuit_closed | Circuit_open | Circuit_half_open

record breaker =
  brk_failures :: nat
  brk_openedAt :: int
  brk_probing :: bool
  brk_state :: circuit_state

definition breaker_new :: breaker where
  "breaker_new = \<lparr>brk_failures = 0, brk_openedAt = 0, brk_probing = False, brk_state = Circuit_closed\<rparr>"

definition assertRequestAllowed :: "env \<Rightarrow> int \<Rightarrow> breaker \<Rightarrow> (citizen_error + unit) \<times> breaker" where
  "assertRequestAllowed E now b =
     (if brk_state b = Circuit_closed then (Inr (), b)
      else if brk_state b = Circuit_open
           \<and> now - brk_openedAt b < int (cfg_num E ''CITIZEN_CIRCUIT_RESET_TIMEOUT_MS'')
      then (Inl Citizen_unavailable, b)
      else let b1 = b\<lparr>brk_state := Circuit_half_open\<rparr>
        in if brk_probing b1 then (Inl Citizen_unavailable, b1)
           else (Inr (), b1\<lparr>brk_probing := True\<rparr>))"

definition recordSuccess :: "breaker \<Rightarrow> breaker" where
  "recordSuccess b = b\<lparr>brk_state := Circuit_closed, brk_failures := 0, brk_openedAt := 0,
     brk_probing := False\<rparr>"

definition recordFailure :: "env \<Rightarrow> int \<Rightarrow> breaker \<Rightarrow> breaker" where
  "recordFailure E now b =
     (let b1 = b\<lparr>brk_probing := False, brk_failures := brk_failures b + 1\<rparr>
      in if brk_state b1 = Circuit_half_open
            \<or> cfg_num E ''CITIZEN_CIRCUIT_FAILURE_THRESHOLD'' \<le> brk_failures b1
         then b1\<lparr>brk_state := Circuit_open, brk_openedAt := now\<rparr> else b1)"

definition snapshot :: "breaker \<Rightarrow> circuit_state \<times> nat" where
  "snapshot b = (brk_state b, brk_failures b)"

text \<open>The requests that arrive at the given times, without an outcome in between.\<close>

fun admissions :: "env \<Rightarrow> int list \<Rightarrow> breaker \<Rightarrow> nat" where
  "admissions E [] b = 0"
| "admissions E (now # ts) b =
     (case assertRequestAllowed E now b of
        (Inl e, b1) \<Rightarrow> admissions E ts b1
      | (Inr _, b1) \<Rightarrow> Suc (admissions E ts b1))"

lemma admissions_probing:
  "brk_state b = Circuit_half_open \<Longrightarrow> brk_probing b \<Longrightarrow> admissions E ts b = 0"
  by (induction ts arbitrary: b) (auto simp: assertRequestAllowed_def Let_def)

lemma admissions_not_closed:
  "brk_state b \<noteq> Circuit_closed \<Longrightarrow> admissions E ts b \<le> 1"
proof (induction ts arbitrary: b)
  case Nil
  then show ?case by simp
next
  case (Cons t ts)
  obtain res b1 where r: "assertRequestAllowed E t b = (res, b1)" by force
  have b1: "brk_state b1 \<noteq> Circuit_closed"
    using r Cons.prems by (auto simp: assertRequestAllowed_def Let_def split: if_splits)
  show ?case
  proof (cases res)
    case (Inl e)
    with r Cons.IH [OF b1] show ?thesis by simp
  next
    case (Inr u)
    then have "brk_state b1 = Circuit_half_open" "brk_probing b1"
      using r Cons.prems by (auto simp: assertRequestAllowed_def Let_def split: if_splits)
    then have "admissions E ts b1 = 0" by (rule admissions_probing)
    with r Inr show ?thesis by simp
  qed
qed

lemma admissions_open_early:
  assumes "brk_state b = Circuit_open"
    and "\<forall>t \<in> set ts. t < brk_openedAt b + int (cfg_num E ''CITIZEN_CIRCUIT_RESET_TIMEOUT_MS'')"
  shows "admissions E ts b = 0"
  using assms by (induction ts) (auto simp: assertRequestAllowed_def)

text \<open>As many failures in a row as the threshold says open the circuit, and one probe failure does.\<close>

fun failures :: "env \<Rightarrow> int list \<Rightarrow> breaker \<Rightarrow> breaker" where
  "failures E [] b = b"
| "failures E (t # ts) b = failures E ts (recordFailure E t b)"

lemma failures_append: "failures E (ts @ us) b = failures E us (failures E ts b)"
  by (induction ts arbitrary: b) auto

lemma failures_count: "brk_failures (failures E ts b) = brk_failures b + length ts"
  by (induction ts arbitrary: b) (auto simp: recordFailure_def Let_def)

lemma failures_open:
  assumes "cfg_num E ''CITIZEN_CIRCUIT_FAILURE_THRESHOLD'' \<le> brk_failures b + Suc (length ts)"
  shows "brk_state (failures E (ts @ [t]) b) = Circuit_open
    \<and> brk_openedAt (failures E (ts @ [t]) b) = t \<and> \<not> brk_probing (failures E (ts @ [t]) b)"
  using assms failures_count [of E ts b] by (simp add: failures_append recordFailure_def Let_def)

subsection \<open>Payloads\<close>

text \<open>
  Payloads are JSON objects as the HTTP client has parsed them; Joi's coercion of a text that holds
  an object is not used by the provider and not modelled.
\<close>

text \<open>\<open>Joi.string().max(n)\<close> on a present value, with \<open>trim()\<close> under \<open>convert: true\<close> and as it is under
  \<open>convert: false\<close>; the empty string does not validate.\<close>

definition joi_trimmed :: "nat \<Rightarrow> json \<Rightarrow> string option" where
  "joi_trimmed n j = (case j of
     JStr s \<Rightarrow> if trim s \<noteq> [] \<and> length (trim s) \<le> n then Some (trim s) else None | _ \<Rightarrow> None)"

definition joi_strict :: "nat \<Rightarrow> json \<Rightarrow> string option" where
  "joi_strict n j = (case j of
     JStr s \<Rightarrow> if s \<noteq> [] \<and> length s \<le> n then Some s else None | _ \<Rightarrow> None)"

definition joi_iso :: "env \<Rightarrow> json \<Rightarrow> string option" where
  "joi_iso E j = (case j of JStr s \<Rightarrow> if s = [] then None else joi_iso_date E s | _ \<Rightarrow> None)"

text \<open>An optional and a required field: \<open>Inl ()\<close> is a validation error.\<close>

definition optional_field :: "(json \<Rightarrow> string option) \<Rightarrow> string \<Rightarrow> json \<Rightarrow> unit + string option" where
  "optional_field check k j = (case json_field k j of
     None \<Rightarrow> Inr None
   | Some v \<Rightarrow> (case check v of None \<Rightarrow> Inl () | Some s \<Rightarrow> Inr (Some s)))"

definition all_digits :: "string \<Rightarrow> bool" where
  "all_digits s = list_all is_digit s"

definition number_of_digits :: "string \<Rightarrow> nat" where
  "number_of_digits = foldl (\<lambda>n c. 10 * n + (code_of c - 48)) 0"

definition leap_year :: "nat \<Rightarrow> bool" where
  "leap_year y \<longleftrightarrow> 4 dvd y \<and> (\<not> 100 dvd y \<or> 400 dvd y)"

definition days_in_month :: "nat \<Rightarrow> nat \<Rightarrow> nat" where
  "days_in_month y m = (if m = 2 then (if leap_year y then 29 else 28)
     else if m \<in> {4, 6, 9, 11} then 30 else 31)"

text \<open>\<open>new Date(`${y}-${m}-${d}T00:00:00.000Z`)\<close> is valid and prints the same date.\<close>

definition calendar_date :: "string \<Rightarrow> string \<Rightarrow> string \<Rightarrow> bool" where
  "calendar_date y m d \<longleftrightarrow>
     (let m' = number_of_digits m; d' = number_of_digits d
      in 1 \<le> m' \<and> m' \<le> 12 \<and> 1 \<le> d' \<and> d' \<le> days_in_month (number_of_digits y) m')"

definition normalizeDate :: "string \<Rightarrow> citizen_error + string" where
  "normalizeDate v =
     (let parts = (case split_on (CHR ''-'') v of
            [y, m, d] \<Rightarrow> if length y = 4 \<and> length m = 2 \<and> length d = 2 \<and> all_digits (y @ m @ d)
              then Some (y, m, d) else None
          | _ \<Rightarrow> (case split_on (CHR ''/'') v of
              [d, m, y] \<Rightarrow> if length y = 4 \<and> length m = 2 \<and> length d = 2 \<and> all_digits (y @ m @ d)
                then Some (y, m, d) else None
            | _ \<Rightarrow> None))
      in (case parts of
            None \<Rightarrow> Inl Citizen_response_invalid
          | Some (y, m, d) \<Rightarrow>
              if \<not> calendar_date y m d then Inl Citizen_response_invalid
              else Inr (y @ ''-'' @ m @ ''-'' @ d)))"

text \<open>\<open>providerDataSchema\<close>: the validated, trimmed fields.\<close>

record provider_data =
  pvd_providerReference :: "string option"
  pvd_referenceNumber :: "string option"
  pvd_nationality :: "string option"
  pvd_countryOfBirth :: "string option"
  pvd_surName :: "string option"
  pvd_surname :: "string option"
  pvd_postNames :: "string option"
  pvd_givenNames :: "string option"
  pvd_dateOfBirth :: "string option"
  pvd_sex :: "string option"
  pvd_documentStatus :: "string option"
  pvd_portraitReference :: "string option"
  pvd_sourceUpdatedAt :: "string option"

definition provider_fields :: "(unit + string option) list \<Rightarrow> provider_data option" where
  "provider_fields rs =
     (if list_ex isl rs then None
      else (case map projr rs of
        [a, b, c, e, g, h, i, k, l, m, n, p, q] \<Rightarrow>
           if l = None \<or> m = None \<or> (g = None \<and> h = None) \<or> (i = None \<and> k = None) then None
           else Some \<lparr>pvd_providerReference = a, pvd_referenceNumber = b, pvd_nationality = c,
             pvd_countryOfBirth = e, pvd_surName = g, pvd_surname = h, pvd_postNames = i,
             pvd_givenNames = k, pvd_dateOfBirth = l, pvd_sex = m, pvd_documentStatus = n,
             pvd_portraitReference = p, pvd_sourceUpdatedAt = q\<rparr>
      | _ \<Rightarrow> None))"

definition providerDataSchema :: "env \<Rightarrow> json \<Rightarrow> provider_data option" where
  "providerDataSchema E j =
     (let f = (\<lambda>k n. optional_field (joi_trimmed n) k j)
      in if \<not> (case j of JObj _ \<Rightarrow> True | _ \<Rightarrow> False) then None
         else provider_fields [f ''providerReference'' 200, f ''referenceNumber'' 200,
           f ''nationality'' 100, f ''countryOfBirth'' 100, f ''surName'' 200, f ''surname'' 200,
           f ''postNames'' 300, f ''givenNames'' 300, f ''dateOfBirth'' 32, f ''sex'' 32,
           f ''documentStatus'' 64, f ''portraitReference'' 500,
           optional_field (joi_iso E) ''sourceUpdatedAt'' j])"

definition orElse :: "'a option \<Rightarrow> 'a option \<Rightarrow> 'a option" where
  "orElse a b = (case a of None \<Rightarrow> b | Some x \<Rightarrow> Some x)"

definition mapped_citizen :: "env \<Rightarrow> provider_data \<Rightarrow> citizen_error + citizen" where
  "mapped_citizen E p = (case normalizeDate (the (pvd_dateOfBirth p)) of
     Inl e \<Rightarrow> Inl e
   | Inr dob \<Rightarrow> Inr
       \<lparr>ctz_providerReference = orElse (pvd_providerReference p) (pvd_referenceNumber p),
        ctz_nationality = the (orElse (orElse (pvd_nationality p) (pvd_countryOfBirth p)) (Some ''UNKNOWN'')),
        ctz_surname = the (orElse (pvd_surName p) (pvd_surname p)),
        ctz_givenNames = the (orElse (pvd_postNames p) (pvd_givenNames p)),
        ctz_dateOfBirth = dob,
        ctz_sex = to_upper E (the (pvd_sex p)),
        ctz_documentStatus = (case pvd_documentStatus p of None \<Rightarrow> ''UNKNOWN'' | Some s \<Rightarrow> to_upper E s),
        ctz_portraitReference = pvd_portraitReference p,
        ctz_sourceUpdatedAt = pvd_sourceUpdatedAt p\<rparr>)"

definition fromProvider :: "env \<Rightarrow> json \<Rightarrow> citizen_error + citizen" where
  "fromProvider E payload = (case payload of
     JObj _ \<Rightarrow> (case json_field ''status'' payload of
         Some (JStr raw) \<Rightarrow>
           (let status = to_lower E (trim raw)
            in if status = [] then Inl Citizen_response_invalid
               else if status = ''ok''
               then (case json_field ''data'' payload of
                   None \<Rightarrow> Inl Citizen_response_invalid
                 | Some j \<Rightarrow> (case providerDataSchema E j of
                     None \<Rightarrow> Inl Citizen_response_invalid
                   | Some p \<Rightarrow> mapped_citizen E p))
               else if status = ''not_found'' \<or> status = ''not-found'' then Inl Citizen_not_found
               else Inl Citizen_response_invalid)
       | _ \<Rightarrow> Inl Citizen_response_invalid)
   | _ \<Rightarrow> Inl Citizen_response_invalid)"

text \<open>\<open>JSON.stringify(result)\<close>, and \<open>cachedResultSchema\<close> read back without conversion.\<close>

definition nullable :: "string option \<Rightarrow> json" where
  "nullable s = (case s of None \<Rightarrow> JNull | Some t \<Rightarrow> JStr t)"

definition citizen_members :: "citizen \<Rightarrow> (string \<times> json) list" where
  "citizen_members c =
     [(''providerReference'', nullable (ctz_providerReference c)),
      (''nationality'', JStr (ctz_nationality c)), (''surname'', JStr (ctz_surname c)),
      (''givenNames'', JStr (ctz_givenNames c)), (''dateOfBirth'', JStr (ctz_dateOfBirth c)),
      (''sex'', JStr (ctz_sex c)), (''documentStatus'', JStr (ctz_documentStatus c)),
      (''portraitReference'', nullable (ctz_portraitReference c)),
      (''sourceUpdatedAt'', nullable (ctz_sourceUpdatedAt c))]"

definition citizen_json :: "citizen \<Rightarrow> json" where
  "citizen_json c = JObj (citizen_members c)"

definition required_field :: "(json \<Rightarrow> string option) \<Rightarrow> string \<Rightarrow> json \<Rightarrow> string option" where
  "required_field check k j = (case json_field k j of None \<Rightarrow> None | Some v \<Rightarrow> check v)"

definition null_or :: "(json \<Rightarrow> string option) \<Rightarrow> string \<Rightarrow> json \<Rightarrow> string option option" where
  "null_or check k j = (case json_field k j of
     None \<Rightarrow> None | Some JNull \<Rightarrow> Some None | Some v \<Rightarrow> map_option Some (check v))"

text \<open>\<open>Joi.string().isoDate()\<close> without conversion keeps the text.\<close>

definition joi_iso_kept :: "env \<Rightarrow> json \<Rightarrow> string option" where
  "joi_iso_kept E j = (case j of
     JStr s \<Rightarrow> if joi_iso E j = None then None else Some s | _ \<Rightarrow> None)"

definition citizen_fields :: "string list" where
  "citizen_fields = [''providerReference'', ''nationality'', ''surname'', ''givenNames'', ''dateOfBirth'',
     ''sex'', ''documentStatus'', ''portraitReference'', ''sourceUpdatedAt'']"

definition citizen_of_fields :: "string option list \<Rightarrow> string option option list \<Rightarrow> citizen option" where
  "citizen_of_fields texts nulls =
     (if list_ex (\<lambda>r. r = None) texts \<or> list_ex (\<lambda>r. r = None) nulls then None
      else (case (map the texts, map the nulls) of
        ([b, c, g, l, m, n], [a, p, q]) \<Rightarrow>
           Some \<lparr>ctz_providerReference = a, ctz_nationality = b, ctz_surname = c,
             ctz_givenNames = g, ctz_dateOfBirth = l, ctz_sex = m, ctz_documentStatus = n,
             ctz_portraitReference = p, ctz_sourceUpdatedAt = q\<rparr>
      | _ \<Rightarrow> None))"

definition read_citizen :: "env \<Rightarrow> string list \<Rightarrow> json \<Rightarrow> citizen option" where
  "read_citizen E allowed j = (case j of
     JObj fs \<Rightarrow>
       if \<not> list_all (\<lambda>(k, v). k \<in> set allowed) fs then None
       else citizen_of_fields
         [required_field (joi_strict 100) ''nationality'' j,
          required_field (joi_strict 200) ''surname'' j,
          required_field (joi_strict 300) ''givenNames'' j,
          required_field (joi_iso_kept E) ''dateOfBirth'' j,
          required_field (joi_strict 32) ''sex'' j,
          required_field (joi_strict 64) ''documentStatus'' j]
         [null_or (joi_strict 200) ''providerReference'' j,
          null_or (joi_strict 500) ''portraitReference'' j,
          null_or (joi_iso_kept E) ''sourceUpdatedAt'' j]
   | _ \<Rightarrow> None)"

definition fromCache :: "env \<Rightarrow> string \<Rightarrow> citizen_error + citizen" where
  "fromCache E payload = (case parse_json E payload of
     None \<Rightarrow> Inl Citizen_response_invalid
   | Some j \<Rightarrow> (case read_citizen E citizen_fields j of
       None \<Rightarrow> Inl Citizen_response_invalid
     | Some c \<Rightarrow> Inr c))"


subsection \<open>What the mapper shows\<close>

text \<open>
  What the schemas rely on: a converted date validates again, so does a calendar date, and the upper
  case of a non-empty text is non-empty. It may be longer than the text (a sharp s becomes two
  letters), so that the bounds of the cached fields are not a consequence of the provider's.
\<close>

definition joi_laws :: "env \<Rightarrow> bool" where
  "joi_laws E \<longleftrightarrow>
     (\<forall>s t. joi_iso_date E s = Some t \<longrightarrow> t \<noteq> [] \<and> joi_iso_date E t \<noteq> None)
     \<and> (\<forall>v d. normalizeDate v = Inr d \<longrightarrow> joi_iso_date E d \<noteq> None)
     \<and> (\<forall>s. s \<noteq> [] \<longrightarrow> to_upper E s \<noteq> [])"

definition citizen_ok :: "env \<Rightarrow> citizen \<Rightarrow> bool" where
  "citizen_ok E c \<longleftrightarrow>
     (\<forall>s. ctz_providerReference c = Some s \<longrightarrow> joi_strict 200 (JStr s) = Some s)
     \<and> joi_strict 100 (JStr (ctz_nationality c)) = Some (ctz_nationality c)
     \<and> joi_strict 200 (JStr (ctz_surname c)) = Some (ctz_surname c)
     \<and> joi_strict 300 (JStr (ctz_givenNames c)) = Some (ctz_givenNames c)
     \<and> joi_iso_kept E (JStr (ctz_dateOfBirth c)) = Some (ctz_dateOfBirth c)
     \<and> joi_strict 32 (JStr (ctz_sex c)) = Some (ctz_sex c)
     \<and> joi_strict 64 (JStr (ctz_documentStatus c)) = Some (ctz_documentStatus c)
     \<and> (\<forall>s. ctz_portraitReference c = Some s \<longrightarrow> joi_strict 500 (JStr s) = Some s)
     \<and> (\<forall>s. ctz_sourceUpdatedAt c = Some s \<longrightarrow> joi_iso_kept E (JStr s) = Some s)"

lemma optional_trimmed:
  "optional_field (joi_trimmed n) k j = Inr (Some s) \<Longrightarrow> joi_strict n (JStr s) = Some s"
  by (auto simp: optional_field_def joi_trimmed_def joi_strict_def split: option.splits json.splits if_splits)

lemma optional_iso:
  "joi_laws E \<Longrightarrow> optional_field (joi_iso E) k j = Inr (Some s) \<Longrightarrow> joi_iso_kept E (JStr s) = Some s"
  by (auto simp: optional_field_def joi_iso_def joi_iso_kept_def joi_laws_def
      split: option.splits json.splits if_splits)

lemma projr_optional:
  "\<not> isl r \<Longrightarrow> projr r = Some s \<Longrightarrow> r = Inr (Some s)"
  by (cases r) auto

definition provider_ok :: "env \<Rightarrow> provider_data \<Rightarrow> bool" where
  "provider_ok E p \<longleftrightarrow>
     (\<forall>s. pvd_providerReference p = Some s \<longrightarrow> joi_strict 200 (JStr s) = Some s)
     \<and> (\<forall>s. pvd_referenceNumber p = Some s \<longrightarrow> joi_strict 200 (JStr s) = Some s)
     \<and> (\<forall>s. pvd_nationality p = Some s \<longrightarrow> joi_strict 100 (JStr s) = Some s)
     \<and> (\<forall>s. pvd_countryOfBirth p = Some s \<longrightarrow> joi_strict 100 (JStr s) = Some s)
     \<and> (\<forall>s. pvd_surName p = Some s \<longrightarrow> joi_strict 200 (JStr s) = Some s)
     \<and> (\<forall>s. pvd_surname p = Some s \<longrightarrow> joi_strict 200 (JStr s) = Some s)
     \<and> (\<forall>s. pvd_postNames p = Some s \<longrightarrow> joi_strict 300 (JStr s) = Some s)
     \<and> (\<forall>s. pvd_givenNames p = Some s \<longrightarrow> joi_strict 300 (JStr s) = Some s)
     \<and> (\<exists>s. pvd_sex p = Some s \<and> joi_strict 32 (JStr s) = Some s)
     \<and> (\<forall>s. pvd_documentStatus p = Some s \<longrightarrow> joi_strict 64 (JStr s) = Some s)
     \<and> (\<forall>s. pvd_portraitReference p = Some s \<longrightarrow> joi_strict 500 (JStr s) = Some s)
     \<and> (\<forall>s. pvd_sourceUpdatedAt p = Some s \<longrightarrow> joi_iso_kept E (JStr s) = Some s)
     \<and> (pvd_surName p \<noteq> None \<or> pvd_surname p \<noteq> None) \<and> (pvd_postNames p \<noteq> None \<or> pvd_givenNames p \<noteq> None)"

definition good_field :: "nat \<Rightarrow> unit + string option \<Rightarrow> bool" where
  "good_field n r \<longleftrightarrow> (\<forall>s. r = Inr (Some s) \<longrightarrow> joi_strict n (JStr s) = Some s)"

lemma good_optional: "good_field n (optional_field (joi_trimmed n) k j)"
  unfolding good_field_def by (blast intro: optional_trimmed)

lemma provider_fields_ok:
  assumes "provider_fields [a, b, c, e, g, h, i, k, l, m, n, p, q] = Some d"
    and "good_field 200 a" "good_field 200 b" "good_field 100 c" "good_field 100 e" "good_field 200 g"
    "good_field 200 h" "good_field 300 i" "good_field 300 k" "good_field 32 m" "good_field 64 n" "good_field 500 p"
    and "\<forall>s. q = Inr (Some s) \<longrightarrow> joi_iso_kept E (JStr s) = Some s"
  shows "provider_ok E d"
proof -
  have col: "r = Inr (projr r)" if "\<not> isl r" for r :: "unit + string option" using that by (cases r) auto
  from assms(1) obtain a' b' c' e' g' h' i' k' l' m' n' p' q' where
    eqs: "a = Inr a'" "b = Inr b'" "c = Inr c'" "e = Inr e'" "g = Inr g'" "h = Inr h'" "i = Inr i'"
      "k = Inr k'" "l = Inr l'" "m = Inr m'" "n = Inr n'" "p = Inr p'" "q = Inr q'"
    using that [OF col col col col col col col col col col col col col]
    by (simp add: provider_fields_def split: if_split_asm)
  show ?thesis
  proof -
    have d: "d = \<lparr>pvd_providerReference = a', pvd_referenceNumber = b', pvd_nationality = c',
             pvd_countryOfBirth = e', pvd_surName = g', pvd_surname = h', pvd_postNames = i',
             pvd_givenNames = k', pvd_dateOfBirth = l', pvd_sex = m', pvd_documentStatus = n',
             pvd_portraitReference = p', pvd_sourceUpdatedAt = q'\<rparr>"
      and present: "m' \<noteq> None" "g' \<noteq> None \<or> h' \<noteq> None" "i' \<noteq> None \<or> k' \<noteq> None"
      using assms(1) unfolding eqs by (simp_all add: provider_fields_def split: if_split_asm)
    from present(1) obtain m'' where m: "m' = Some m''" by blast
    show ?thesis
      using assms(2-13) present unfolding provider_ok_def d eqs m good_field_def by simp
  qed
qed

lemma providerDataSchema_ok:
  assumes "providerDataSchema E j = Some p" and "joi_laws E"
  shows "provider_ok E p"
proof -
  have "\<forall>s. optional_field (joi_iso E) k j = Inr (Some s) \<longrightarrow> joi_iso_kept E (JStr s) = Some s" for k
    by (blast intro: optional_iso [OF assms(2)])
  then show ?thesis
    using assms(1) unfolding providerDataSchema_def Let_def
    by (auto split: if_split_asm elim!: provider_fields_ok intro: good_optional)
qed

lemma mapped_citizen_ok:
  assumes "mapped_citizen E p = Inr c" and "provider_ok E p" and "joi_laws E"
    and "length (ctz_sex c) \<le> 32" and "length (ctz_documentStatus c) \<le> 64"
  shows "citizen_ok E c"
proof -
  have up: "joi_strict n (JStr (to_upper E s)) = Some (to_upper E s)"
    if "joi_strict k (JStr s) = Some s" "length (to_upper E s) \<le> n" for n k s
    using that assms(3) by (auto simp: joi_strict_def joi_laws_def split: if_splits)
  have unknown: "joi_strict n (JStr ''UNKNOWN'') = Some ''UNKNOWN''" if "7 \<le> n" for n
    using that by (simp add: joi_strict_def)
  obtain dob where dob: "normalizeDate (the (pvd_dateOfBirth p)) = Inr dob"
    using assms(1) by (auto simp: mapped_citizen_def split: sum.splits)
  have "dob \<noteq> []"
    using dob by (auto simp: normalizeDate_def Let_def split: if_splits option.splits)
  then have iso: "joi_iso_kept E (JStr dob) = Some dob"
    using dob assms(3) by (auto simp: joi_iso_kept_def joi_iso_def joi_laws_def)
  have c: "c = \<lparr>ctz_providerReference = orElse (pvd_providerReference p) (pvd_referenceNumber p),
        ctz_nationality = the (orElse (orElse (pvd_nationality p) (pvd_countryOfBirth p)) (Some ''UNKNOWN'')),
        ctz_surname = the (orElse (pvd_surName p) (pvd_surname p)),
        ctz_givenNames = the (orElse (pvd_postNames p) (pvd_givenNames p)),
        ctz_dateOfBirth = dob,
        ctz_sex = to_upper E (the (pvd_sex p)),
        ctz_documentStatus = (case pvd_documentStatus p of None \<Rightarrow> ''UNKNOWN'' | Some s \<Rightarrow> to_upper E s),
        ctz_portraitReference = pvd_portraitReference p,
        ctz_sourceUpdatedAt = pvd_sourceUpdatedAt p\<rparr>"
    using assms(1) dob by (simp add: mapped_citizen_def)
  have p: "joi_strict n (JStr s) = Some s" if "orElse a b = Some s"
    "\<forall>s. a = Some s \<longrightarrow> joi_strict n (JStr s) = Some s" "\<forall>s. b = Some s \<longrightarrow> joi_strict n (JStr s) = Some s"
    for a b n s
    using that by (auto simp: orElse_def split: option.splits)
  have t: "joi_strict n (JStr (the (orElse a b))) = Some (the (orElse a b))"
    if "a \<noteq> None \<or> b \<noteq> None"
    "\<forall>s. a = Some s \<longrightarrow> joi_strict n (JStr s) = Some s" "\<forall>s. b = Some s \<longrightarrow> joi_strict n (JStr s) = Some s"
    for a b n
    using that by (auto simp: orElse_def split: option.splits)
  obtain sex where sex: "pvd_sex p = Some sex" "joi_strict 32 (JStr sex) = Some sex"
    using assms(2) by (auto simp: provider_ok_def)
  note ok = assms(2) [unfolded provider_ok_def]
  show ?thesis
    unfolding citizen_ok_def
  proof (intro conjI)
    show "\<forall>s. ctz_providerReference c = Some s \<longrightarrow> joi_strict 200 (JStr s) = Some s"
      using ok by (auto simp: c dest!: p)
    show "joi_strict 100 (JStr (ctz_nationality c)) = Some (ctz_nationality c)"
      using ok unknown by (simp add: c) (intro t allI impI; auto dest!: p)
    show "joi_strict 200 (JStr (ctz_surname c)) = Some (ctz_surname c)"
      using ok by (simp add: c t)
    show "joi_strict 300 (JStr (ctz_givenNames c)) = Some (ctz_givenNames c)"
      using ok by (simp add: c t)
    show "joi_iso_kept E (JStr (ctz_dateOfBirth c)) = Some (ctz_dateOfBirth c)"
      using iso by (simp add: c)
    show "joi_strict 32 (JStr (ctz_sex c)) = Some (ctz_sex c)"
      using assms(4) by (simp add: c sex up [OF sex(2)])
    show "joi_strict 64 (JStr (ctz_documentStatus c)) = Some (ctz_documentStatus c)"
      using assms(5) ok unknown by (auto simp: c intro: up split: option.splits)
    show "\<forall>s. ctz_portraitReference c = Some s \<longrightarrow> joi_strict 500 (JStr s) = Some s"
      using ok by (simp add: c)
    show "\<forall>s. ctz_sourceUpdatedAt c = Some s \<longrightarrow> joi_iso_kept E (JStr s) = Some s"
      using ok by (simp add: c)
  qed
qed

lemma fromProvider_ok:
  assumes "fromProvider E payload = Inr c" and "joi_laws E"
    and "length (ctz_sex c) \<le> 32" and "length (ctz_documentStatus c) \<le> 64"
  shows "citizen_ok E c"
  using assms by (auto simp: fromProvider_def Let_def
      split: json.splits option.splits if_splits
      intro: mapped_citizen_ok providerDataSchema_ok)

lemma joi_strict_fits: "joi_strict n (JStr s) = Some s \<longleftrightarrow> s \<noteq> [] \<and> length s \<le> n"
  by (simp add: joi_strict_def)

lemma citizen_of_fields_json:
  "citizen_of_fields [Some b, Some c, Some g, Some l, Some m, Some n] [Some a, Some p, Some q]
   = Some \<lparr>ctz_providerReference = a, ctz_nationality = b, ctz_surname = c,
             ctz_givenNames = g, ctz_dateOfBirth = l, ctz_sex = m, ctz_documentStatus = n,
             ctz_portraitReference = p, ctz_sourceUpdatedAt = q\<rparr>"
  by (simp add: citizen_of_fields_def)

lemma null_or_nullable:
  "json_field k j = Some (nullable v) \<Longrightarrow> (\<forall>s. v = Some s \<longrightarrow> check (JStr s) = Some s)
   \<Longrightarrow> null_or check k j = Some v"
  by (auto simp: null_or_def nullable_def split: option.splits)

lemma required_text:
  "json_field k j = Some (JStr s) \<Longrightarrow> check (JStr s) = Some s \<Longrightarrow> required_field check k j = Some s"
  by (simp add: required_field_def)

lemma citizen_json_fields:
  "json_field ''providerReference'' (JObj (citizen_members c @ fs)) = Some (nullable (ctz_providerReference c))"
  "json_field ''nationality'' (JObj (citizen_members c @ fs)) = Some (JStr (ctz_nationality c))"
  "json_field ''surname'' (JObj (citizen_members c @ fs)) = Some (JStr (ctz_surname c))"
  "json_field ''givenNames'' (JObj (citizen_members c @ fs)) = Some (JStr (ctz_givenNames c))"
  "json_field ''dateOfBirth'' (JObj (citizen_members c @ fs)) = Some (JStr (ctz_dateOfBirth c))"
  "json_field ''sex'' (JObj (citizen_members c @ fs)) = Some (JStr (ctz_sex c))"
  "json_field ''documentStatus'' (JObj (citizen_members c @ fs)) = Some (JStr (ctz_documentStatus c))"
  "json_field ''portraitReference'' (JObj (citizen_members c @ fs)) = Some (nullable (ctz_portraitReference c))"
  "json_field ''sourceUpdatedAt'' (JObj (citizen_members c @ fs)) = Some (nullable (ctz_sourceUpdatedAt c))"
  by (simp_all add: citizen_members_def)

lemma citizen_of_fields_read:
  assumes "citizen_ok E c"
    and "json_field ''providerReference'' j = Some (nullable (ctz_providerReference c))"
    and "json_field ''nationality'' j = Some (JStr (ctz_nationality c))"
    and "json_field ''surname'' j = Some (JStr (ctz_surname c))"
    and "json_field ''givenNames'' j = Some (JStr (ctz_givenNames c))"
    and "json_field ''dateOfBirth'' j = Some (JStr (ctz_dateOfBirth c))"
    and "json_field ''sex'' j = Some (JStr (ctz_sex c))"
    and "json_field ''documentStatus'' j = Some (JStr (ctz_documentStatus c))"
    and "json_field ''portraitReference'' j = Some (nullable (ctz_portraitReference c))"
    and "json_field ''sourceUpdatedAt'' j = Some (nullable (ctz_sourceUpdatedAt c))"
  shows "citizen_of_fields
         [required_field (joi_strict 100) ''nationality'' j, required_field (joi_strict 200) ''surname'' j,
          required_field (joi_strict 300) ''givenNames'' j, required_field (joi_iso_kept E) ''dateOfBirth'' j,
          required_field (joi_strict 32) ''sex'' j, required_field (joi_strict 64) ''documentStatus'' j]
         [null_or (joi_strict 200) ''providerReference'' j, null_or (joi_strict 500) ''portraitReference'' j,
          null_or (joi_iso_kept E) ''sourceUpdatedAt'' j] = Some c"
  using assms unfolding citizen_ok_def
  by (simp add: required_text null_or_nullable citizen_of_fields_json)

lemma read_citizen_members:
  assumes "citizen_ok E c" and "set citizen_fields \<subseteq> set allowed" and "fst ` set fs \<subseteq> set allowed"
  shows "read_citizen E allowed (JObj (citizen_members c @ fs)) = Some c"
proof -
  let ?j = "JObj (citizen_members c @ fs)"
  have keys: "map fst (citizen_members c) = citizen_fields"
    by (simp add: citizen_members_def citizen_fields_def)
  have "fst ` set (citizen_members c @ fs) \<subseteq> set allowed"
    using assms(2,3) unfolding keys [symmetric] by auto
  then have "list_all (\<lambda>(k, v). k \<in> set allowed) (citizen_members c @ fs)"
    unfolding list_all_iff by force
  then have "read_citizen E allowed ?j = citizen_of_fields
         [required_field (joi_strict 100) ''nationality'' ?j,
          required_field (joi_strict 200) ''surname'' ?j,
          required_field (joi_strict 300) ''givenNames'' ?j,
          required_field (joi_iso_kept E) ''dateOfBirth'' ?j,
          required_field (joi_strict 32) ''sex'' ?j,
          required_field (joi_strict 64) ''documentStatus'' ?j]
         [null_or (joi_strict 200) ''providerReference'' ?j,
          null_or (joi_strict 500) ''portraitReference'' ?j,
          null_or (joi_iso_kept E) ''sourceUpdatedAt'' ?j]"
    unfolding read_citizen_def by simp
  also have "\<dots> = Some c"
    by (intro citizen_of_fields_read assms(1) citizen_json_fields)
  finally show ?thesis .
qed

lemma read_citizen_json:
  "citizen_ok E c \<Longrightarrow> set citizen_fields \<subseteq> set allowed \<Longrightarrow> read_citizen E allowed (citizen_json c) = Some c"
  using read_citizen_members [of E c allowed "[]"] by (simp add: citizen_json_def)

lemma cached_citizen_read:
  assumes "json_laws E" and "citizen_ok E c"
  shows "fromCache E (stringify E (citizen_json c)) = Inr c"
  using assms by (simp add: fromCache_def json_lawsD read_citizen_json)

subsection \<open>The NIDA adapter\<close>

text \<open>
  What an HTTP request ends in: a response body, an \<open>AxiosError\<close> with the status of its response
  (if there is one) and its code, or any other exception.  \<open>http a\<close> is the outcome of the attempt
  \<open>a\<close> of one lookup.
\<close>

datatype http_outcome =
    Body json
  | Axios_error "nat option" "string option"
  | Other_error

definition classify_axios :: "nat option \<Rightarrow> string option \<Rightarrow> citizen_error \<times> bool" where
  "classify_axios status code =
     (if status = Some 400 \<or> status = Some 404 then (Citizen_not_found, False)
      else let retryable = status = Some 429
             \<or> (case status of None \<Rightarrow> False | Some n \<Rightarrow> 500 \<le> n)
             \<or> (case code of None \<Rightarrow> [] | Some s \<Rightarrow> s)
                 \<in> set [''ECONNABORTED'', ''ECONNRESET'', ''ETIMEDOUT'', ''EAI_AGAIN'']
        in (Citizen_unavailable, retryable))"

definition backoffMilliseconds :: "nat \<Rightarrow> nat" where
  "backoffMilliseconds a = min (100 * 2 ^ a) 1000"

text \<open>One attempt; \<open>Inl (e, retryable)\<close> is the classified error.\<close>

definition attempt_request :: "env \<Rightarrow> http_outcome \<Rightarrow> (citizen_error \<times> bool) + citizen" where
  "attempt_request E out = (case out of
     Body payload \<Rightarrow> (case fromProvider E payload of Inl e \<Rightarrow> Inl (e, False) | Inr c \<Rightarrow> Inr c)
   | Axios_error status code \<Rightarrow> Inl (classify_axios status code)
   | Other_error \<Rightarrow> Inl (Citizen_unavailable, False))"

text \<open>
  The loop of \<open>requestWithRetries\<close> from an attempt with so many retries left: its result, and the
  delays it waited.
\<close>

fun retry_loop :: "env \<Rightarrow> (nat \<Rightarrow> http_outcome) \<Rightarrow> nat \<Rightarrow> nat \<Rightarrow> (citizen_error + citizen) \<times> nat list" where
  "retry_loop E http a 0 =
     (case attempt_request E (http a) of
        Inr c \<Rightarrow> (Inr c, [])
      | Inl (e, retryable) \<Rightarrow> (Inl e, []))"
| "retry_loop E http a (Suc left) =
     (case attempt_request E (http a) of
        Inr c \<Rightarrow> (Inr c, [])
      | Inl (e, retryable) \<Rightarrow>
          if \<not> retryable then (Inl e, [])
          else (case retry_loop E http (a + 1) left of
             (res, waits) \<Rightarrow> (res, backoffMilliseconds a # waits)))"

definition requestWithRetries ::
  "env \<Rightarrow> (nat \<Rightarrow> http_outcome) \<Rightarrow> (citizen_error + citizen) \<times> nat list" where
  "requestWithRetries E http = retry_loop E http 0 (cfg_num E ''CITIZEN_API_MAX_RETRIES'')"

text \<open>The cache of the adapter; its failures never reach the caller.\<close>

definition deleteCache :: "string \<Rightarrow> redis \<Rightarrow> redis" where
  "deleteCache key r = snd (cache_delete key r)"

definition readCache :: "env \<Rightarrow> string \<Rightarrow> redis \<Rightarrow> citizen option \<times> redis" where
  "readCache E key r = (case cache_get key r of
     (Inl e, r1) \<Rightarrow> (None, deleteCache key r1)
   | (Inr None, r1) \<Rightarrow> (None, r1)
   | (Inr (Some encrypted), r1) \<Rightarrow>
       if encrypted = [] then (None, r1)
       else (case open_sealed E encrypted Citizen_Snapshot_Text of
          Inl e \<Rightarrow> (None, deleteCache key r1)
        | Inr plaintext \<Rightarrow> (case fromCache E plaintext of
            Inl e \<Rightarrow> (None, deleteCache key r1)
          | Inr c \<Rightarrow> (Some c, r1))))"

definition writeCache :: "env \<Rightarrow> nat \<Rightarrow> string \<Rightarrow> citizen \<Rightarrow> redis \<Rightarrow> redis" where
  "writeCache E i key c r = (case seal E i (stringify E (citizen_json c)) Citizen_Snapshot_Text of
     Inl e \<Rightarrow> r
   | Inr encrypted \<Rightarrow> snd (cache_set key encrypted (cfg_num E ''CITIZEN_CACHE_TTL_SECONDS'') r))"

definition citizen_cache_key :: "env \<Rightarrow> string \<Rightarrow> string" where
  "citizen_cache_key E lookupDigest = cfg_str E ''CACHE_PREFIX'' @ ''citizen:nida:'' @ lookupDigest"

text \<open>
  The adapter of one process: its circuit breaker and the digests with a request in flight.  A
  lookup begins with the cache; what follows until the first request is sent does not suspend.  It
  ends when its request loop has an outcome, when the promise leaves the map.
\<close>

record adapter =
  ada_breaker :: breaker
  ada_inFlight :: "string list"

datatype lookup_begun =
    Lookup_invalid api_error
  | Lookup_cached citizen
  | Lookup_joined string
  | Lookup_refused citizen_error
  | Lookup_started string string

definition lookup_begin ::
  "env \<Rightarrow> int \<Rightarrow> string \<Rightarrow> adapter \<Rightarrow> redis \<Rightarrow> lookup_begun \<times> adapter \<times> redis" where
  "lookup_begin E now nationalId a r =
     (case normalizeRwandaNid E nationalId of
        Inl e \<Rightarrow> (Lookup_invalid e, a, r)
      | Inr normalizedNationalId \<Rightarrow>
     (let lookupDigest = identityLookup E normalizedNationalId;
          cacheKey = citizen_cache_key E lookupDigest
      in (case readCache E cacheKey r of
            (Some c, r1) \<Rightarrow> (Lookup_cached c, a, r1)
          | (None, r1) \<Rightarrow>
              if lookupDigest \<in> set (ada_inFlight a) then (Lookup_joined lookupDigest, a, r1)
              else (case assertRequestAllowed E now (ada_breaker a) of
                 (Inl e, b1) \<Rightarrow> (Lookup_refused e, a\<lparr>ada_breaker := b1\<rparr>, r1)
               | (Inr _, b1) \<Rightarrow> (Lookup_started lookupDigest cacheKey,
                    a\<lparr>ada_breaker := b1, ada_inFlight := lookupDigest # ada_inFlight a\<rparr>, r1)))))"

definition fetch_end ::
  "env \<Rightarrow> nat \<Rightarrow> int \<Rightarrow> (nat \<Rightarrow> http_outcome) \<Rightarrow> string \<Rightarrow> breaker \<Rightarrow> redis
     \<Rightarrow> (citizen_error + citizen) \<times> breaker \<times> redis" where
  "fetch_end E i now http cacheKey b r =
     (case fst (requestWithRetries E http) of
        Inr c \<Rightarrow> (Inr c, recordSuccess b, writeCache E i cacheKey c r)
      | Inl Citizen_not_found \<Rightarrow> (Inl Citizen_not_found, recordSuccess b, r)
      | Inl Citizen_response_invalid \<Rightarrow> (Inl Citizen_response_invalid, recordFailure E now b, r)
      | Inl Citizen_unavailable \<Rightarrow> (Inl Citizen_unavailable, recordFailure E now b, r))"

definition lookup_end ::
  "env \<Rightarrow> nat \<Rightarrow> int \<Rightarrow> (nat \<Rightarrow> http_outcome) \<Rightarrow> string \<Rightarrow> string \<Rightarrow> adapter \<Rightarrow> redis
     \<Rightarrow> (citizen_error + citizen) \<times> adapter \<times> redis" where
  "lookup_end E i now http lookupDigest cacheKey a r =
     (case fetch_end E i now http cacheKey (ada_breaker a) r of
        (res, b1, r1) \<Rightarrow>
          (res, a\<lparr>ada_breaker := b1, ada_inFlight := remove1 lookupDigest (ada_inFlight a)\<rparr>, r1))"

text \<open>\<open>findByNationalId\<close>; \<open>existing\<close> is the outcome of the promise that a lookup joins.\<close>

definition findByNationalId ::
  "env \<Rightarrow> nat \<Rightarrow> int \<Rightarrow> int \<Rightarrow> (nat \<Rightarrow> http_outcome) \<Rightarrow> citizen_error + citizen \<Rightarrow> string \<Rightarrow> adapter \<Rightarrow> redis
     \<Rightarrow> (api_error + (citizen_error + citizen)) \<times> adapter \<times> redis" where
  "findByNationalId E i t0 t1 http existing nationalId a r =
     (case lookup_begin E t0 nationalId a r of
        (Lookup_invalid e, a1, r1) \<Rightarrow> (Inl e, a1, r1)
      | (Lookup_cached c, a1, r1) \<Rightarrow> (Inr (Inr c), a1, r1)
      | (Lookup_joined d, a1, r1) \<Rightarrow> (Inr existing, a1, r1)
      | (Lookup_refused e, a1, r1) \<Rightarrow> (Inr (Inl e), a1, r1)
      | (Lookup_started d key, a1, r1) \<Rightarrow>
          (case lookup_end E i t1 http d key a1 r1 of (res, a2, r2) \<Rightarrow> (Inr res, a2, r2)))"

subsection \<open>What the adapter shows\<close>

lemma retry_loop_waits:
  "snd (retry_loop E http a n) = map backoffMilliseconds [a ..< a + length (snd (retry_loop E http a n))]
   \<and> length (snd (retry_loop E http a n)) \<le> n"
proof (induction n arbitrary: a)
  case 0
  then show ?case by (auto split: sum.splits prod.splits)
next
  case (Suc n)
  obtain res waits where l: "retry_loop E http (Suc a) n = (res, waits)" by force
  have w: "waits = map backoffMilliseconds [Suc a ..< Suc a + length waits]" "length waits \<le> n"
    using Suc.IH [of "Suc a"] by (auto simp: l)
  have "backoffMilliseconds a # waits = map backoffMilliseconds [a ..< a + Suc (length waits)]"
    using w(1) by (subst upt_conv_Cons) (simp_all del: upt_Suc)
  then show ?case using w(2) by (auto simp: l split: sum.splits prod.splits)
qed

lemma retry_loop_first:
  assumes "attempt_request E (http (a + k)) = Inr c" and "k \<le> n"
    and "\<forall>j < k. \<exists>e. attempt_request E (http (a + j)) = Inl (e, True)"
  shows "retry_loop E http a n = (Inr c, map backoffMilliseconds [a ..< a + k])"
  using assms
proof (induction n arbitrary: a k)
  case 0
  then show ?case by simp
next
  case (Suc n)
  show ?case
  proof (cases k)
    case 0
    with Suc.prems show ?thesis by simp
  next
    case (Suc k')
    obtain e where e: "attempt_request E (http a) = Inl (e, True)" using Suc.prems(3) Suc by force
    have "retry_loop E http (Suc a) n = (Inr c, map backoffMilliseconds [Suc a ..< Suc a + k'])"
    proof (rule Suc.IH)
      show "attempt_request E (http (Suc a + k')) = Inr c" "k' \<le> n" using Suc.prems Suc by auto
      show "\<forall>j<k'. \<exists>e. attempt_request E (http (Suc a + j)) = Inl (e, True)"
        using Suc.prems(3) Suc by (metis Suc_less_eq add_Suc add_Suc_right)
    qed
    moreover have "[a ..< a + k] = a # [Suc a ..< Suc a + k']"
      using Suc by (subst upt_conv_Cons) simp_all
    ultimately show ?thesis using e by simp
  qed
qed

lemma readCache_writeCache:
  assumes "json_laws E" "gcm_laws E" "citizen_ok E c" "length (random_bytes E i 12) = 12"
    and "rds_status r = Status_ready" "rds_online r" "0 < cfg_num E ''CITIZEN_CACHE_TTL_SECONDS''"
  shows "fst (readCache E key (writeCache E i key c r)) = Some c"
proof -
  obtain s where s: "seal E i (stringify E (citizen_json c)) Citizen_Snapshot_Text = Inr s"
    using seal_total [OF assms(4)] by blast
  have ne: "s \<noteq> []"
    using s assms(1) by (auto simp: seal_def json_laws_def split: sum.splits)
  have o: "open_sealed E s Citizen_Snapshot_Text = Inr (stringify E (citizen_json c))"
    by (rule open_seal(1) [OF assms(1,2) s])
  define r1 where "r1 = writeCache E i key c r"
  have "cache_get key r1 = (Inr (Some s), r1)"
    using assms(5-7) by (simp add: r1_def writeCache_def s cache_set_def cache_get_def
        ensureRedisConnected_def put_entry_def redis_get_def live_def)
  then show ?thesis
    unfolding r1_def [symmetric]
    by (simp add: readCache_def ne o cached_citizen_read [OF assms(1,3)])
qed

end
