(* ===== verification/Registration.thy ===== *)
theory Registration
  imports CitizenProvider
begin

text \<open>
  Registration (\<open>modules/registration\<close>): the sealed challenge token, the life of a challenge, the
  citizen lookup that creates one and the registration that consumes it.  A new row's columns that
  the source leaves to the database's defaults come from a template row (\<open>row_defaults\<close>).
\<close>

subsection \<open>Challenge tokens\<close>

text \<open>\<open>/^[0-9a-f]{8}-[0-9a-f]{4}-[1-8][0-9a-f]{3}-[89ab][0-9a-f]{3}-[0-9a-f]{12}$/i\<close>\<close>

definition uuid_syntax :: "string \<Rightarrow> bool" where
  "uuid_syntax s \<longleftrightarrow> (case split_on (CHR ''-'') s of
     [a, b, c, d, e] \<Rightarrow> length a = 8 \<and> length b = 4 \<and> length c = 4 \<and> length d = 4 \<and> length e = 12
       \<and> list_all is_hex (a @ b @ c @ d @ e) \<and> hd c \<in> set ''12345678'' \<and> hd d \<in> set ''89abAB''
   | _ \<Rightarrow> False)"

abbreviation invalidChallenge :: api_error where
  "invalidChallenge \<equiv> Http 400 ''REGISTRATION_CHALLENGE_INVALID''"

definition TOKEN_PREFIX :: string where
  "TOKEN_PREFIX = ''mrc1.''"

definition challenge_issue :: "env \<Rightarrow> nat \<Rightarrow> string \<Rightarrow> string result" where
  "challenge_issue E i challengeId =
     (if \<not> uuid_syntax challengeId then Inl (Raised ''Registration challenge identifier is invalid.'')
      else (case seal E i challengeId Registration_Challenge_Token of
         Inl e \<Rightarrow> Inl e
       | Inr envelope \<Rightarrow> Inr (TOKEN_PREFIX @ b64_encode envelope)))"

definition challenge_resolve :: "env \<Rightarrow> string \<Rightarrow> string result" where
  "challenge_resolve E token =
     (if length token < 64 \<or> length token > 2048 \<or> take (length TOKEN_PREFIX) token \<noteq> TOKEN_PREFIX
      then Inl invalidChallenge
      else let envelope = b64_decode (drop (length TOKEN_PREFIX) token)
        in (case open_sealed E envelope Registration_Challenge_Token of
              Inl e \<Rightarrow> Inl invalidChallenge
            | Inr challengeId \<Rightarrow>
                if \<not> uuid_syntax challengeId then Inl invalidChallenge else Inr challengeId))"

lemma challenge_resolve_issue:
  assumes "json_laws E" and "gcm_laws E" and "challenge_issue E i k = Inr token"
    and "64 \<le> length token" and "length token \<le> 2048"
  shows "challenge_resolve E token = Inr k"
proof -
  obtain envelope where seal: "seal E i k Registration_Challenge_Token = Inr envelope"
    and t: "token = TOKEN_PREFIX @ b64_encode envelope" and u: "uuid_syntax k"
    using assms(3) by (auto simp: challenge_issue_def split: if_splits sum.splits)
  have "open_sealed E envelope Registration_Challenge_Token = Inr k"
    by (rule open_seal(1) [OF assms(1,2) seal])
  then show ?thesis using assms(4,5) u by (simp add: challenge_resolve_def t Let_def)
qed

subsection \<open>The life of a challenge\<close>

definition attemptable :: "env \<Rightarrow> string \<Rightarrow> int \<Rightarrow> challenge_row \<Rightarrow> bool" where
  "attemptable E challengeId now c \<longleftrightarrow> chl_id c = challengeId \<and> chl_status c = Challenge_PENDING
     \<and> chl_consumedAt c = None \<and> now < chl_expiresAt c
     \<and> chl_attemptCount c < cfg_num E ''REGISTRATION_CHALLENGE_MAX_ATTEMPTS''"

definition recordAttempt :: "env \<Rightarrow> string \<Rightarrow> int \<Rightarrow> db \<Rightarrow> bool \<times> db" where
  "recordAttempt E challengeId now d =
     (count_rows (attemptable E challengeId now) (challenges d) = 1,
      d\<lparr>challenges := update_rows (attemptable E challengeId now)
          (\<lambda>c. c\<lparr>chl_attemptCount := chl_attemptCount c + 1\<rparr>) (challenges d)\<rparr>)"

definition consumable :: "env \<Rightarrow> string \<Rightarrow> int \<Rightarrow> challenge_row \<Rightarrow> bool" where
  "consumable E challengeId now c \<longleftrightarrow> chl_id c = challengeId \<and> chl_status c = Challenge_PENDING
     \<and> chl_consumedAt c = None \<and> now < chl_expiresAt c
     \<and> chl_attemptCount c \<le> cfg_num E ''REGISTRATION_CHALLENGE_MAX_ATTEMPTS''"

definition consume :: "env \<Rightarrow> string \<Rightarrow> int \<Rightarrow> db \<Rightarrow> bool \<times> db" where
  "consume E challengeId now d =
     (count_rows (consumable E challengeId now) (challenges d) = 1,
      d\<lparr>challenges := update_rows (consumable E challengeId now)
          (\<lambda>c. c\<lparr>chl_status := Challenge_CONSUMED, chl_consumedAt := Some now\<rparr>) (challenges d)\<rparr>)"

subsection \<open>The citizen lookup\<close>

definition INELIGIBLE_DOCUMENT_STATUSES :: "string list" where
  "INELIGIBLE_DOCUMENT_STATUSES = [''CANCELLED'', ''DECEASED'', ''EXPIRED'', ''INVALID'', ''REVOKED'']"

text \<open>
  The provider behind the interface \<open>CitizenIdentityProvider\<close>, with a state of its own: an
  exception of the service, one of the three provider errors, or the citizen.
\<close>

type_synonym 'p citizen_provider =
  "string \<Rightarrow> 'p \<Rightarrow> redis \<Rightarrow> (api_error + (citizen_error + citizen)) \<times> 'p \<times> redis"

record lookup_input =
  lki_nid :: string
  lki_email :: string

record lookup_context =
  lkc_correlationId :: string
  lkc_ipAddress :: string
  lkc_clientInstanceId :: string

record lookup_response =
  lkr_token :: string
  lkr_expiresAt :: int
  lkr_surname :: string
  lkr_givenNames :: string
  lkr_dateOfBirth :: string
  lkr_nationality :: string
  lkr_sex :: string

definition writeDeniedEvent :: "env \<Rightarrow> string \<Rightarrow> string \<Rightarrow> string \<Rightarrow> event_type \<Rightarrow> db \<Rightarrow> db" where
  "writeDeniedEvent E correlationId ipHash reasonCode eventType d = snd (write_event E
     \<lparr>evi_userId = None, evi_sessionId = None, evi_type = eventType, evi_severity = Severity_WARNING,
      evi_outcome = Outcome_DENIED, evi_reasonCode = Some reasonCode,
      evi_correlationId = correlationId, evi_ipHash = Some ipHash, evi_userAgentHash = None,
      evi_metadata = None\<rparr> d)"

abbreviation unavailableIdentity :: api_error where
  "unavailableIdentity \<equiv> Http 422 ''REGISTRATION_INITIATION_UNAVAILABLE''"

definition snapshot_text :: "env \<Rightarrow> citizen \<Rightarrow> string \<Rightarrow> string" where
  "snapshot_text E citizen nationalId = stringify E
     (JObj (citizen_members citizen @ [(''normalizedNationalId'', JStr nationalId)]))"

definition new_challenge :: "env \<Rightarrow> string \<Rightarrow> string \<Rightarrow> string \<Rightarrow> string \<Rightarrow> string \<Rightarrow> int \<Rightarrow> db \<Rightarrow> challenge_row" where
  "new_challenge E lookupDigest emailNormalized encrypted snapshotDigest ipHash expiresAt d =
     \<lparr>chl_id = gen_id E (map chl_id (challenges d)), chl_lookupDigest = lookupDigest,
      chl_emailNormalized = emailNormalized, chl_status = Challenge_PENDING,
      chl_snapshotEncrypted = encrypted, chl_snapshotDigest = snapshotDigest,
      chl_expiresAt = expiresAt, chl_consumedAt = None, chl_attemptCount = 0,
      chl_createdIpHash = ipHash\<rparr>"

text \<open>The transaction; \<open>Inr None\<close> is its \<open>null\<close>.\<close>

definition challenge_transaction ::
  "env \<Rightarrow> string \<Rightarrow> string \<Rightarrow> string \<Rightarrow> string \<Rightarrow> string \<Rightarrow> int \<Rightarrow> string \<Rightarrow> db \<Rightarrow> challenge_row option result \<times> db" where
  "challenge_transaction E lookupDigest emailNormalized encrypted snapshotDigest ipHash expiresAt
       correlationId =
     transact (\<lambda>d.
       let event = \<lparr>evi_userId = None, evi_sessionId = None, evi_type = REGISTRATION_CHALLENGE_CREATED,
             evi_severity = Severity_WARNING, evi_outcome = Outcome_DENIED,
             evi_reasonCode = Some ''IDENTITY_UNAVAILABLE'', evi_correlationId = correlationId,
             evi_ipHash = Some ipHash, evi_userAgentHash = None, evi_metadata = None\<rparr>
       in if find_row (\<lambda>i. cit_lookupDigest i = lookupDigest) (identities d) \<noteq> None
          then (Inr None, create_event E event d)
          else let c = new_challenge E lookupDigest emailNormalized encrypted snapshotDigest ipHash
                 expiresAt d
            in (Inr (Some c), create_event E (event\<lparr>evi_severity := Severity_INFO,
                  evi_outcome := Outcome_SUCCESS, evi_reasonCode := None,
                  evi_metadata := Some [(''challengeStatus'', JStr ''PENDING'')]\<rparr>)
                (d\<lparr>challenges := challenges d @ [c]\<rparr>)))"

text \<open>From the citizen the provider returned to the response.\<close>

definition initiate_found ::
  "env \<Rightarrow> nat \<Rightarrow> string \<Rightarrow> string \<Rightarrow> string \<Rightarrow> string \<Rightarrow> citizen \<Rightarrow> db \<Rightarrow> lookup_response result \<times> db" where
  "initiate_found E i correlationId nationalId emailNormalized ipHash citizen d =
     (if ctz_documentStatus citizen \<in> set INELIGIBLE_DOCUMENT_STATUSES
      then (Inl unavailableIdentity,
            writeDeniedEvent E correlationId ipHash ''DOCUMENT_INELIGIBLE'' REGISTRATION_CHALLENGE_CREATED d)
      else
     (let snapshot = snapshot_text E citizen nationalId in
      case seal E i snapshot Citizen_Snapshot_Text of
        Inl e \<Rightarrow> (Inl e, d)
      | Inr encrypted \<Rightarrow>
     (case challenge_transaction E (identityLookup E nationalId) emailNormalized encrypted
           (citizenSnapshot E snapshot) ipHash
           (clock E 0 + seconds E ''REGISTRATION_CHALLENGE_TTL_SECONDS'') correlationId d of
        (Inl e, d1) \<Rightarrow> (Inl e, d1)
      | (Inr None, d1) \<Rightarrow> (Inl unavailableIdentity, d1)
      | (Inr (Some c), d1) \<Rightarrow>
          (case challenge_issue E (i + 1) (chl_id c) of
             Inl e \<Rightarrow> (Inl e, d1)
           | Inr token \<Rightarrow> (Inr \<lparr>lkr_token = token, lkr_expiresAt = chl_expiresAt c,
               lkr_surname = ctz_surname citizen, lkr_givenNames = ctz_givenNames citizen,
               lkr_dateOfBirth = ctz_dateOfBirth citizen, lkr_nationality = ctz_nationality citizen,
               lkr_sex = ctz_sex citizen\<rparr>, d1)))))"

definition initiate ::
  "env \<Rightarrow> nat \<Rightarrow> 'p citizen_provider \<Rightarrow> lookup_input \<Rightarrow> lookup_context \<Rightarrow> db \<Rightarrow> 'p \<Rightarrow> redis
     \<Rightarrow> lookup_response result \<times> db \<times> 'p \<times> redis" where
  "initiate E i provider input ctx d p r =
     (case normalizeRwandaNid E (lki_nid input) of
        Inl e \<Rightarrow> (Inl e, d, p, r)
      | Inr nationalId \<Rightarrow>
     (case normalizeEmail E (lki_email input) of
        Inl e \<Rightarrow> (Inl e, d, p, r)
      | Inr emailNormalized \<Rightarrow>
     (let ipHash = requestContext E (lkc_ipAddress ctx);
          clientHash = requestContext E (lkc_clientInstanceId ctx);
          deny = writeDeniedEvent E (lkc_correlationId ctx) ipHash
      in (case citizen_assertAllowed E ipHash clientHash (identityLookup E nationalId) r of
        (Inl e, r1) \<Rightarrow>
          if e = citizen_limit
          then (Inl (Http 429 ''RATE_LIMIT_EXCEEDED''), deny ''RATE_LIMITED'' RATE_LIMIT_EXCEEDED d, p, r1)
          else (Inl (Http 503 ''RATE_LIMIT_SERVICE_UNAVAILABLE''), d, p, r1)
      | (Inr _, r1) \<Rightarrow>
     (case provider nationalId p r1 of
        (Inl e, p1, r2) \<Rightarrow> (Inl e, d, p1, r2)
      | (Inr (Inl Citizen_unavailable), p1, r2) \<Rightarrow>
          (Inl (Http 503 ''CITIZEN_PROVIDER_UNAVAILABLE''),
           deny ''PROVIDER_UNAVAILABLE'' REGISTRATION_CHALLENGE_CREATED d, p1, r2)
      | (Inr (Inl e), p1, r2) \<Rightarrow>
          (Inl unavailableIdentity, deny ''CITIZEN_UNAVAILABLE'' REGISTRATION_CHALLENGE_CREATED d, p1, r2)
      | (Inr (Inr citizen), p1, r2) \<Rightarrow>
          (case initiate_found E i (lkc_correlationId ctx) nationalId emailNormalized ipHash citizen d of
             (res, d1) \<Rightarrow> (res, d1, p1, r2)))))))"

subsection \<open>Registration: the request\<close>

definition REQUIRED_CONSENTS :: "consent_type list" where
  "REQUIRED_CONSENTS =
     [BIOMETRIC_PROCESSING, IDENTITY_DATA_PROCESSING, PRIVACY_POLICY, TERMS_OF_SERVICE]"

fun consent_text :: "consent_type \<Rightarrow> string" where
  "consent_text BIOMETRIC_PROCESSING = ''BIOMETRIC_PROCESSING''"
| "consent_text IDENTITY_DATA_PROCESSING = ''IDENTITY_DATA_PROCESSING''"
| "consent_text PRIVACY_POLICY = ''PRIVACY_POLICY''"
| "consent_text TERMS_OF_SERVICE = ''TERMS_OF_SERVICE''"

record registration_input =
  rgi_token :: string
  rgi_email :: string
  rgi_password :: string
  rgi_consents :: "(consent_type \<times> string) list"

record registration_context =
  rgc_correlationId :: string
  rgc_ipAddress :: string
  rgc_idempotencyKey :: string

record registration_response =
  rgr_userReference :: string
  rgr_maskedEmail :: string

definition maskEmail :: "string \<Rightarrow> string" where
  "maskEmail email = (case split_on (CHR ''@'') email of
     localPart # rest \<Rightarrow>
       (let domain = (case rest of [] \<Rightarrow> ''undefined'' | d # _ \<Rightarrow> d);
            visible = take (min 2 (length localPart)) localPart
        in visible @ replicate (max 1 (length localPart - length visible)) (CHR ''*'') @ ''@'' @ domain)
   | [] \<Rightarrow> [])"

definition buildRegistrationResponse :: "user_row \<Rightarrow> registration_response" where
  "buildRegistrationResponse u =
     \<lparr>rgr_userReference = usr_id u, rgr_maskedEmail = maskEmail (usr_emailNormalized u)\<rparr>"

definition assertRequiredConsents :: "registration_input \<Rightarrow> unit result" where
  "assertRequiredConsents input =
     (let supplied = remdups (map fst (rgi_consents input))
      in if length supplied \<noteq> length REQUIRED_CONSENTS
            \<or> list_ex (\<lambda>c. c \<notin> set supplied) REQUIRED_CONSENTS
         then Inl (Http 400 ''CONSENT_SET_INVALID'') else Inr ())"

definition registration_digest :: "env \<Rightarrow> registration_input \<Rightarrow> string \<Rightarrow> string" where
  "registration_digest E input emailNormalized = requestContext E (stringify E (JObj
     [(''challenge'', JStr (rgi_token input)), (''email'', JStr emailNormalized),
      (''password'', JStr (rgi_password input)),
      (''consents'', JArr (map (\<lambda>(t, v). JObj [(''type'', JStr (consent_text t)),
          (''policyVersion'', JStr v)]) (rgi_consents input)))]))"

text \<open>\<open>citizenSnapshotSchema\<close>: the national ID and the citizen.\<close>

definition parseSnapshot :: "env \<Rightarrow> string \<Rightarrow> (string \<times> citizen) result" where
  "parseSnapshot E v = (case parse_json E v of
     None \<Rightarrow> Inl invalidChallenge
   | Some j \<Rightarrow>
       (case (json_field ''normalizedNationalId'' j,
              read_citizen E (''normalizedNationalId'' # citizen_fields) j) of
          (Some (JStr nid), Some c) \<Rightarrow>
            if length nid = 16 \<and> list_all is_digit nid then Inr (nid, c) else Inl invalidChallenge
        | _ \<Rightarrow> Inl invalidChallenge))"

definition resolveIdempotentReplay :: "idempotency_row \<Rightarrow> string \<Rightarrow> db \<Rightarrow> registration_response result" where
  "resolveIdempotentReplay record requestDigest d =
     (case (idm_status record, idm_responseReference record) of
        (Idem_COMPLETED, Some reference) \<Rightarrow>
          if \<not> constantTimeEqual (idm_requestDigest record) requestDigest \<or> reference = []
          then Inl (Http 409 ''IDEMPOTENCY_CONFLICT'')
          else (case find_row (\<lambda>u. usr_id u = reference) (users d) of
             None \<Rightarrow> Inl (Http 409 ''IDEMPOTENCY_CONFLICT'')
           | Some user \<Rightarrow> Inr (buildRegistrationResponse user))
      | _ \<Rightarrow> Inl (Http 409 ''IDEMPOTENCY_CONFLICT''))"

text \<open>The stored challenge, opened and checked against the request: the national ID and the citizen.\<close>

definition open_challenge :: "env \<Rightarrow> challenge_row option \<Rightarrow> string \<Rightarrow> (challenge_row \<times> string \<times> citizen) result" where
  "open_challenge E found emailNormalized = (case found of
     None \<Rightarrow> Inl invalidChallenge
   | Some c \<Rightarrow>
       if chl_status c \<noteq> Challenge_PENDING \<or> chl_consumedAt c \<noteq> None \<or> chl_expiresAt c \<le> clock E 0
          \<or> chl_emailNormalized c \<noteq> emailNormalized
       then Inl invalidChallenge
       else (case open_sealed E (chl_snapshotEncrypted c) Citizen_Snapshot_Text of
          Inl e \<Rightarrow> Inl e
        | Inr plaintext \<Rightarrow>
            if \<not> constantTimeEqual (citizenSnapshot E plaintext) (chl_snapshotDigest c)
            then Inl invalidChallenge
            else (case parseSnapshot E plaintext of
               Inl e \<Rightarrow> Inl e
             | Inr (nid, citizen) \<Rightarrow>
                 if \<not> constantTimeEqual (identityLookup E nid) (chl_lookupDigest c)
                 then Inl invalidChallenge else Inr (c, nid, citizen))))"

subsection \<open>Registration: the transaction\<close>

record row_defaults =
  dft_user :: user_row
  dft_credential :: credential_row

text \<open>\<open>user.create\<close>: the address is unique; nullable columns the source does not set are null.\<close>

definition create_user :: "env \<Rightarrow> row_defaults \<Rightarrow> string \<Rightarrow> db \<Rightarrow> user_row result \<times> db" where
  "create_user E dft emailNormalized d =
     (if emailNormalized \<in> usr_emailNormalized ` set (users d) then (Inl unique_violation, d)
      else let u = (dft_user dft)\<lparr>usr_id := gen_id E (map usr_id (users d)),
             usr_emailNormalized := emailNormalized, usr_emailVerifiedAt := None,
             usr_accountStatus := Account_PENDING_EMAIL_VERIFICATION, usr_idVerifiedAt := None\<rparr>
        in (Inr u, d\<lparr>users := users d @ [u]\<rparr>))"

definition create_credential :: "env \<Rightarrow> row_defaults \<Rightarrow> string \<Rightarrow> string \<Rightarrow> int \<Rightarrow> db \<Rightarrow> unit result \<times> db" where
  "create_credential E dft userId passwordHash now d =
     (if userId \<in> cred_userId ` set (credentials d) then (Inl unique_violation, d)
      else (Inr (), d\<lparr>credentials := credentials d @
        [(dft_credential dft)\<lparr>cred_id := gen_id E (map cred_id (credentials d)), cred_userId := userId,
           cred_passwordHash := passwordHash, cred_passwordAlgorithm := ''argon2id-v19'',
           cred_passwordChangedAt := Some now, cred_lockedUntil := None\<rparr>]\<rparr>))"

definition create_identity :: "env \<Rightarrow> identity_row \<Rightarrow> db \<Rightarrow> unit result \<times> db" where
  "create_identity E i d =
     (if cit_lookupDigest i \<in> cit_lookupDigest ` set (identities d) then (Inl unique_violation, d)
      else (Inr (), d\<lparr>identities := identities d @
             [i\<lparr>cit_id := gen_id E (map cit_id (identities d))\<rparr>]\<rparr>))"

fun create_consents :: "env \<Rightarrow> string \<Rightarrow> int \<Rightarrow> (consent_type \<times> string) list \<Rightarrow> db \<Rightarrow> db" where
  "create_consents E userId now [] d = d"
| "create_consents E userId now ((t, v) # cs) d = create_consents E userId now cs
     (d\<lparr>consents := consents d @ [\<lparr>con_id = gen_id E (map con_id (consents d)), con_userId = userId,
         con_type = t, con_policyVersion = v, con_grantedAt = now, con_revokedAt = None\<rparr>]\<rparr>)"

text \<open>What the transaction is given: the request's values and those prepared before it.\<close>

record prepared_registration =
  prg_key :: string
  prg_requestDigest :: string
  prg_challenge :: challenge_row
  prg_nationalId :: string
  prg_citizen :: citizen
  prg_emailNormalized :: string
  prg_passwordHash :: string
  prg_consents :: "(consent_type \<times> string) list"
  prg_emailToken :: opaque_token
  prg_encryptedEmailToken :: string
  prg_encryptedIdentifier :: string
  prg_ipHash :: string
  prg_correlationId :: string

definition REGISTRATION_SCOPE :: string where
  "REGISTRATION_SCOPE = ''registration:create''"

definition registration_identity :: "env \<Rightarrow> prepared_registration \<Rightarrow> string \<Rightarrow> string \<Rightarrow> int \<Rightarrow> int \<Rightarrow> identity_row" where
  "registration_identity E g userId masked born now =
     \<lparr>cit_id = [], cit_userId = userId, cit_encryptedIdentifier = prg_encryptedIdentifier g,
      cit_lookupDigest = chl_lookupDigest (prg_challenge g), cit_maskedIdentifier = masked,
      cit_sourceReference = ctz_providerReference (prg_citizen g), cit_verifiedAt = Some now,
      cit_surName = ctz_surname (prg_citizen g), cit_postNames = ctz_givenNames (prg_citizen g),
      cit_sex = ctz_sex (prg_citizen g), cit_dateOfBirth = born,
      cit_countryOfBirth = ctz_nationality (prg_citizen g)\<rparr>"

text \<open>The rows of the new account, in the order of the creates.  The database client refuses an invalid date.\<close>

definition create_account :: "env \<Rightarrow> row_defaults \<Rightarrow> prepared_registration \<Rightarrow> int \<Rightarrow> db \<Rightarrow> user_row result \<times> db" where
  "create_account E dft g now d =
     and_then (create_user E dft (prg_emailNormalized g) d) (\<lambda>user d1.
     and_then (create_credential E dft (usr_id user) (prg_passwordHash g) now d1) (\<lambda>_ d2.
     (case maskIdentifier (prg_nationalId g) 4 of
        Inl e \<Rightarrow> (Inl e, d2)
      | Inr masked \<Rightarrow>
     (case date_value E (ctz_dateOfBirth (prg_citizen g) @ ''T00:00:00.000Z'') of
        None \<Rightarrow> (Inl (Raised ''Invalid value for argument dateOfBirth''), d2)
      | Some born \<Rightarrow>
     and_then (create_identity E (registration_identity E g (usr_id user) masked born now) d2) (\<lambda>_ d3.
     and_then (create_email_token E
         \<lparr>emt_id = [], emt_userId = usr_id user, emt_tokenDigest = tok_digest (prg_emailToken g),
          emt_expiresAt = now + seconds E ''EMAIL_TOKEN_TTL_SECONDS'', emt_used = False,
          emt_usedAt = None, emt_supersededAt = None\<rparr>
         (create_consents E (usr_id user) now (prg_consents g) d3))
       (\<lambda>_ d4. (Inr user, d4)))))))"

definition register_body :: "env \<Rightarrow> row_defaults \<Rightarrow> prepared_registration \<Rightarrow> db \<Rightarrow> user_row result \<times> db" where
  "register_body E dft g d =
     (let now = clock E 1; k = chl_id (prg_challenge g) in
      and_then (create_idempotency (E\<lparr>default_idempotency_status := Idem_IN_PROGRESS\<rparr>)
         REGISTRATION_SCOPE (prg_key g) (prg_requestDigest g) (now + 86400000) d) (\<lambda>record d0.
      case recordAttempt E k now d0 of (attemptRecorded, d1) \<Rightarrow>
      if \<not> attemptRecorded then (Inl invalidChallenge, d1)
      else if find_row (\<lambda>u. usr_emailNormalized u = prg_emailNormalized g) (users d1) \<noteq> None
              \<or> find_row (\<lambda>i. cit_lookupDigest i = chl_lookupDigest (prg_challenge g)) (identities d1) \<noteq> None
      then (Inl (Http 409 ''REGISTRATION_UNAVAILABLE''), d1)
      else and_then (create_account E dft g now d1) (\<lambda>user d2.
      case consume E k now d2 of (consumed, d3) \<Rightarrow>
      if \<not> consumed then (Inl invalidChallenge, d3)
      else
      let d4 = create_outbox E (usr_id user) ''EMAIL_VERIFICATION_REQUESTED''
            (JObj [(''recipient'', JStr (usr_emailNormalized user)),
                   (''tokenEncrypted'', JStr (prg_encryptedEmailToken g))]) d3;
          d5 = create_event E
            \<lparr>evi_userId = Some (usr_id user), evi_sessionId = None, evi_type = REGISTRATION_COMPLETED,
             evi_severity = Severity_INFO, evi_outcome = Outcome_SUCCESS, evi_reasonCode = None,
             evi_correlationId = prg_correlationId g, evi_ipHash = Some (prg_ipHash g),
             evi_userAgentHash = None, evi_metadata = None\<rparr> d4
      in (Inr user, d5\<lparr>idempotency := update_rows (\<lambda>r. idm_id r = idm_id record)
           (\<lambda>r. r\<lparr>idm_status := Idem_COMPLETED, idm_responseReference := Some (usr_id user)\<rparr>)
           (idempotency d5)\<rparr>))))"

text \<open>The transaction with its \<open>catch\<close>: a unique violation is a conflict.\<close>

definition register_transaction ::
  "env \<Rightarrow> row_defaults \<Rightarrow> prepared_registration \<Rightarrow> db \<Rightarrow> registration_response result \<times> db" where
  "register_transaction E dft g d = (case transact (register_body E dft g) d of
     (Inr user, d1) \<Rightarrow> (Inr (buildRegistrationResponse user), d1)
   | (Inl e, d1) \<Rightarrow>
       (Inl (if e = unique_violation then Http 409 ''REGISTRATION_UNAVAILABLE'' else e), d1))"

text \<open>From the opened challenge to the response.\<close>

definition register_checked ::
  "env \<Rightarrow> row_defaults \<Rightarrow> registration_input \<Rightarrow> registration_context \<Rightarrow> string \<Rightarrow> string
     \<Rightarrow> challenge_row \<times> string \<times> citizen \<Rightarrow> db \<Rightarrow> registration_response result \<times> db" where
  "register_checked E dft input ctx emailNormalized requestDigest opened d =
     (case opened of (challenge, nationalId, citizen) \<Rightarrow>
     (case password_hash E (rgi_password input) emailNormalized of
        Inl e \<Rightarrow> (Inl e, d)
      | Inr passwordHash \<Rightarrow>
     (case generate_token E 0 32 of
        Inl e \<Rightarrow> (Inl e, d)
      | Inr emailToken \<Rightarrow>
     (case seal E 1 (tok_token emailToken) Email_Verification_Token of
        Inl e \<Rightarrow> (Inl e, d)
      | Inr encryptedEmailToken \<Rightarrow>
     (case seal E 2 nationalId Rwanda_Nid of
        Inl e \<Rightarrow> (Inl e, d)
      | Inr encryptedIdentifier \<Rightarrow>
          register_transaction E dft
            \<lparr>prg_key = rgc_idempotencyKey ctx, prg_requestDigest = requestDigest,
             prg_challenge = challenge, prg_nationalId = nationalId, prg_citizen = citizen,
             prg_emailNormalized = emailNormalized, prg_passwordHash = passwordHash,
             prg_consents = rgi_consents input, prg_emailToken = emailToken,
             prg_encryptedEmailToken = encryptedEmailToken,
             prg_encryptedIdentifier = encryptedIdentifier,
             prg_ipHash = requestContext E (rgc_ipAddress ctx),
             prg_correlationId = rgc_correlationId ctx\<rparr> d)))))"

definition register ::
  "env \<Rightarrow> row_defaults \<Rightarrow> registration_input \<Rightarrow> registration_context \<Rightarrow> db \<Rightarrow> redis
     \<Rightarrow> registration_response result \<times> db \<times> redis" where
  "register E dft input ctx d r =
     (case challenge_resolve E (rgi_token input) of
        Inl e \<Rightarrow> (Inl e, d, r)
      | Inr challengeId \<Rightarrow>
     (case normalizeEmail E (rgi_email input) of
        Inl e \<Rightarrow> (Inl e, d, r)
      | Inr emailNormalized \<Rightarrow>
     (case assertRequiredConsents input of
        Inl e \<Rightarrow> (Inl e, d, r)
      | Inr _ \<Rightarrow>
     (let requestDigest = registration_digest E input emailNormalized in
      case find_row (idempotency_slot REGISTRATION_SCOPE (rgc_idempotencyKey ctx)) (idempotency d) of
        Some record \<Rightarrow> (resolveIdempotentReplay record requestDigest d, d, r)
      | None \<Rightarrow>
     (case open_challenge E (find_row (\<lambda>c. chl_id c = challengeId) (challenges d)) emailNormalized of
        Inl e \<Rightarrow> (Inl e, d, r)
      | Inr opened \<Rightarrow>
     (case assertRegistrationAllowed E (requestContext E (rgc_ipAddress ctx))
             (chl_lookupDigest (fst opened)) r of
        (Inl e, r1) \<Rightarrow>
          (Inl (if e = account_limit then Http 429 ''RATE_LIMIT_EXCEEDED''
                else Http 503 ''RATE_LIMIT_SERVICE_UNAVAILABLE''), d, r1)
      | (Inr _, r1) \<Rightarrow>
          (case register_checked E dft input ctx emailNormalized requestDigest opened d of
             (res, d1) \<Rightarrow> (res, d1, r1))))))))"

subsection \<open>What registration shows\<close>

lemma create_consents_frame [simp]:
  "users (create_consents E u now cs d) = users d"
  "credentials (create_consents E u now cs d) = credentials d"
  "identities (create_consents E u now cs d) = identities d"
  "challenges (create_consents E u now cs d) = challenges d"
  "idempotency (create_consents E u now cs d) = idempotency d"
  "email_tokens (create_consents E u now cs d) = email_tokens d"
  "sessions (create_consents E u now cs d) = sessions d"
  "refresh_tokens (create_consents E u now cs d) = refresh_tokens d"
  "outbox (create_consents E u now cs d) = outbox d"
  by (induction cs arbitrary: d) auto

lemma create_consents_rows:
  "map (\<lambda>c. (con_userId c, con_type c, con_policyVersion c)) (consents (create_consents E u now cs d))
   = map (\<lambda>c. (con_userId c, con_type c, con_policyVersion c)) (consents d) @ map (\<lambda>(t, v). (u, t, v)) cs"
  by (induction cs arbitrary: d) auto

lemma create_account_InrD:
  assumes "create_account E dft g now d = (Inr user, d')"
  shows "users d' = users d @ [user]"
    and "usr_id user = gen_id E (map usr_id (users d))"
    and "usr_emailNormalized user = prg_emailNormalized g"
    and "usr_accountStatus user = Account_PENDING_EMAIL_VERIFICATION" and "usr_emailVerifiedAt user = None"
    and "prg_emailNormalized g \<notin> usr_emailNormalized ` set (users d)"
    and "\<exists>c. credentials d' = credentials d @ [c] \<and> cred_userId c = usr_id user
      \<and> cred_passwordHash c = prg_passwordHash g"
    and "\<exists>i. identities d' = identities d @ [i] \<and> cit_userId i = usr_id user
      \<and> cit_lookupDigest i = chl_lookupDigest (prg_challenge g)"
    and "chl_lookupDigest (prg_challenge g) \<notin> cit_lookupDigest ` set (identities d)"
    and "map (\<lambda>c. (con_userId c, con_type c, con_policyVersion c)) (consents d')
      = map (\<lambda>c. (con_userId c, con_type c, con_policyVersion c)) (consents d)
        @ map (\<lambda>(t, v). (usr_id user, t, v)) (prg_consents g)"
    and "challenges d' = challenges d" and "idempotency d' = idempotency d"
    and "sessions d' = sessions d" and "refresh_tokens d' = refresh_tokens d" and "outbox d' = outbox d"
  using assms
  by (auto simp: create_account_def create_user_def create_credential_def create_identity_def
      create_email_token_def registration_identity_def create_consents_rows Let_def
      split: if_splits sum.splits option.splits)

definition registered :: "prepared_registration \<Rightarrow> user_row \<Rightarrow> db \<Rightarrow> db \<Rightarrow> bool" where
  "registered g user d d' \<longleftrightarrow>
     users d' = users d @ [user] \<and> usr_emailNormalized user = prg_emailNormalized g
     \<and> usr_accountStatus user = Account_PENDING_EMAIL_VERIFICATION \<and> usr_emailVerifiedAt user = None
     \<and> prg_emailNormalized g \<notin> usr_emailNormalized ` set (users d)
     \<and> (\<exists>c. credentials d' = credentials d @ [c] \<and> cred_userId c = usr_id user
          \<and> cred_passwordHash c = prg_passwordHash g)
     \<and> (\<exists>i. identities d' = identities d @ [i] \<and> cit_userId i = usr_id user
          \<and> cit_lookupDigest i = chl_lookupDigest (prg_challenge g))
     \<and> chl_lookupDigest (prg_challenge g) \<notin> cit_lookupDigest ` set (identities d)
     \<and> map (\<lambda>c. (con_userId c, con_type c, con_policyVersion c)) (consents d')
       = map (\<lambda>c. (con_userId c, con_type c, con_policyVersion c)) (consents d)
         @ map (\<lambda>(t, v). (usr_id user, t, v)) (prg_consents g)
     \<and> (\<exists>e. outbox d' = outbox d @ [e] \<and> obx_aggregateId e = usr_id user
          \<and> obx_eventType e = ''EMAIL_VERIFICATION_REQUESTED'')
     \<and> sessions d' = sessions d \<and> refresh_tokens d' = refresh_tokens d"

lemma recordAttempt_frame [simp]:
  "users (snd (recordAttempt E k now d)) = users d" "credentials (snd (recordAttempt E k now d)) = credentials d"
  "identities (snd (recordAttempt E k now d)) = identities d" "consents (snd (recordAttempt E k now d)) = consents d"
  "idempotency (snd (recordAttempt E k now d)) = idempotency d" "outbox (snd (recordAttempt E k now d)) = outbox d"
  "sessions (snd (recordAttempt E k now d)) = sessions d"
  "refresh_tokens (snd (recordAttempt E k now d)) = refresh_tokens d"
  "users (snd (consume E k now d)) = users d" "credentials (snd (consume E k now d)) = credentials d"
  "identities (snd (consume E k now d)) = identities d" "consents (snd (consume E k now d)) = consents d"
  "idempotency (snd (consume E k now d)) = idempotency d" "outbox (snd (consume E k now d)) = outbox d"
  "sessions (snd (consume E k now d)) = sessions d"
  "refresh_tokens (snd (consume E k now d)) = refresh_tokens d"
  by (simp_all add: recordAttempt_def consume_def)

lemma create_idempotency_InrE:
  assumes "create_idempotency E scope key requestDigest expiresAt d = (Inr r, d')"
  shows "r = new_idempotency E scope key requestDigest expiresAt d"
    and "d' = d\<lparr>idempotency := idempotency d @ [r]\<rparr>"
    and "find_row (idempotency_slot scope key) (idempotency d) = None"
  using assms by (auto simp: create_idempotency_def find_row_None_ex Let_def split: if_splits)

text \<open>The stages of a committed registration.\<close>

lemma register_body_InrE:
  assumes "register_body E dft g d = (Inr user, d')"
  obtains idem d0 d1 d2 d3 where
    "create_idempotency (E\<lparr>default_idempotency_status := Idem_IN_PROGRESS\<rparr>) REGISTRATION_SCOPE (prg_key g)
       (prg_requestDigest g) (clock E 1 + 86400000) d = (Inr idem, d0)"
    and "recordAttempt E (chl_id (prg_challenge g)) (clock E 1) d0 = (True, d1)"
    and "create_account E dft g (clock E 1) d1 = (Inr user, d2)"
    and "consume E (chl_id (prg_challenge g)) (clock E 1) d2 = (True, d3)"
    and "challenges d' = challenges d3"
    and "idempotency d' = update_rows (\<lambda>r. idm_id r = idm_id idem)
           (\<lambda>r. r\<lparr>idm_status := Idem_COMPLETED, idm_responseReference := Some (usr_id user)\<rparr>) (idempotency d3)"
    and "users d' = users d3" "credentials d' = credentials d3" "identities d' = identities d3"
      "consents d' = consents d3" "sessions d' = sessions d3" "refresh_tokens d' = refresh_tokens d3"
    and "\<exists>e. outbox d' = outbox d3 @ [e] \<and> obx_aggregateId e = usr_id user
          \<and> obx_eventType e = ''EMAIL_VERIFICATION_REQUESTED''"
proof -
  from assms obtain idem d0 where c: "create_idempotency (E\<lparr>default_idempotency_status := Idem_IN_PROGRESS\<rparr>)
       REGISTRATION_SCOPE (prg_key g) (prg_requestDigest g) (clock E 1 + 86400000) d = (Inr idem, d0)"
    unfolding register_body_def Let_def by (rule and_then_InrE)
  obtain a d1 where a: "recordAttempt E (chl_id (prg_challenge g)) (clock E 1) d0 = (a, d1)" by force
  note eq1 = assms [unfolded register_body_def Let_def c and_then_simps a prod.case]
  then have "a" by (auto split: if_splits)
  with eq1 obtain u d2 where b: "create_account E dft g (clock E 1) d1 = (Inr u, d2)"
    by (auto split: if_splits elim: and_then_InrE)
  obtain k d3 where k: "consume E (chl_id (prg_challenge g)) (clock E 1) d2 = (k, d3)" by force
  note eq2 = eq1 [unfolded b and_then_simps k prod.case]
  have a': "recordAttempt E (chl_id (prg_challenge g)) (clock E 1) d0 = (True, d1)"
    using a \<open>a\<close> by simp
  from eq2 \<open>a\<close> have fin: "k" "u = user" by (auto split: if_splits)
  show ?thesis
    by (rule that [of idem d0 d1 d2 d3])
      (use c a' b k fin eq2 \<open>a\<close> in \<open>auto simp: create_outbox_def create_event_def split: if_splits\<close>)
qed

lemma register_body_registered:
  assumes "register_body E dft g d = (Inr user, d')"
  shows "registered g user d d'"
proof (rule register_body_InrE [OF assms])
  fix idem d0 d1 d2 d3
  assume c: "create_idempotency (E\<lparr>default_idempotency_status := Idem_IN_PROGRESS\<rparr>) REGISTRATION_SCOPE
      (prg_key g) (prg_requestDigest g) (clock E 1 + 86400000) d = (Inr idem, d0)"
    and a: "recordAttempt E (chl_id (prg_challenge g)) (clock E 1) d0 = (True, d1)"
    and b: "create_account E dft g (clock E 1) d1 = (Inr user, d2)"
    and k: "consume E (chl_id (prg_challenge g)) (clock E 1) d2 = (True, d3)"
    and out: "\<exists>e. outbox d' = outbox d3 @ [e] \<and> obx_aggregateId e = usr_id user
          \<and> obx_eventType e = ''EMAIL_VERIFICATION_REQUESTED''"
    and same: "users d' = users d3" "credentials d' = credentials d3" "identities d' = identities d3"
      "consents d' = consents d3" "sessions d' = sessions d3" "refresh_tokens d' = refresh_tokens d3"
  have d1: "d1 = snd (recordAttempt E (chl_id (prg_challenge g)) (clock E 1) d0)" using a by simp
  have d3: "d3 = snd (consume E (chl_id (prg_challenge g)) (clock E 1) d2)" using k by simp
  have d0: "users d1 = users d" "credentials d1 = credentials d" "identities d1 = identities d"
    "consents d1 = consents d" "sessions d1 = sessions d" "refresh_tokens d1 = refresh_tokens d"
    "outbox d1 = outbox d"
    by (simp_all add: d1 create_idempotency_InrE(2) [OF c])
  show ?thesis
    using create_account_InrD [OF b, unfolded d0] out unfolding registered_def same d3
    by simp
qed

text \<open>A challenge is consumed by at most one registration.\<close>

definition challenge_spent :: "string \<Rightarrow> db \<Rightarrow> bool" where
  "challenge_spent k d \<longleftrightarrow> (\<forall>c \<in> set (challenges d). chl_id c = k \<longrightarrow> chl_status c \<noteq> Challenge_PENDING)"

definition challenge_ids :: "db \<Rightarrow> bool" where
  "challenge_ids d \<longleftrightarrow> distinct (map chl_id (challenges d))"

type_synonym register_try = "env \<times> row_defaults \<times> prepared_registration"

definition register_attempt :: "register_try \<Rightarrow> db \<Rightarrow> registration_response result \<times> db" where
  "register_attempt a d = (case a of (E, dft, g) \<Rightarrow> register_transaction E dft g d)"

definition register_of :: "string \<Rightarrow> register_try \<Rightarrow> bool" where
  "register_of k a = (chl_id (prg_challenge (snd (snd a))) = k)"

lemma register_transaction_InrD:
  assumes "register_transaction E dft g d = (Inr res, d')"
  shows "\<exists>user. register_body E dft g d = (Inr user, d') \<and> res = buildRegistrationResponse user"
  using assms by (auto simp: register_transaction_def split: prod.splits sum.splits dest: transact_InrD)

lemma register_transaction_fails:
  assumes "register_transaction E dft g d = (Inl e, d')"
  shows "d' = d"
  using assms by (auto simp: register_transaction_def split: prod.splits sum.splits dest: transact_rolls_back)

lemma register_attempt_effect:
  assumes "register_of k a" and "challenge_ids d" and "register_attempt a d = (res, d')"
  shows "case res of Inl e \<Rightarrow> d' = d
    | Inr _ \<Rightarrow> \<not> challenge_spent k d \<and> challenge_spent k d' \<and> challenge_ids d'"
proof -
  obtain E dft g where a: "a = (E, dft, g)" by (cases a)
  have k: "chl_id (prg_challenge g) = k" using assms(1) a by (simp add: register_of_def)
  show ?thesis
  proof (cases res)
    case (Inl e)
    then show ?thesis using assms(3) a by (auto simp: register_attempt_def dest: register_transaction_fails)
  next
    case (Inr x)
    with assms(3) obtain user where b: "register_body E dft g d = (Inr user, d')"
      by (auto simp: register_attempt_def a dest: register_transaction_InrD)
    show ?thesis
    proof (rule register_body_InrE [OF b, unfolded k])
      fix idem d0 d1 d2 d3
      assume c: "create_idempotency (E\<lparr>default_idempotency_status := Idem_IN_PROGRESS\<rparr>) REGISTRATION_SCOPE
            (prg_key g) (prg_requestDigest g) (clock E 1 + 86400000) d = (Inr idem, d0)"
        and a1: "recordAttempt E k (clock E 1) d0 = (True, d1)"
        and b1: "create_account E dft g (clock E 1) d1 = (Inr user, d2)"
        and k1: "consume E k (clock E 1) d2 = (True, d3)" and d': "challenges d' = challenges d3"
      have d0: "challenges d0 = challenges d" by (simp add: create_idempotency_InrE(2) [OF c])
      have cnt: "count_rows (attemptable E k (clock E 1)) (challenges d) = 1"
        using a1 d0 by (auto simp: recordAttempt_def)
      then obtain y where y: "y \<in> set (challenges d)" "attemptable E k (clock E 1) y"
        using count_rows_1D by (metis One_nat_def)
      have dist: "distinct (map chl_id (challenges d))" using assms(2) by (simp add: challenge_ids_def)
      have only: "z = y" if "z \<in> set (challenges d)" "chl_id z = k" for z
        using distinct_key_eq [OF dist that(1) y(1)] that(2) y(2) by (simp add: attemptable_def)
      have ch: "challenges d' = update_rows (consumable E k (clock E 1))
          (\<lambda>c. c\<lparr>chl_status := Challenge_CONSUMED, chl_consumedAt := Some (clock E 1)\<rparr>)
          (update_rows (attemptable E k (clock E 1)) (\<lambda>c. c\<lparr>chl_attemptCount := chl_attemptCount c + 1\<rparr>)
            (challenges d))"
        using a1 k1 d0 d' create_account_InrD(11) [OF b1] by (auto simp: recordAttempt_def consume_def)
      have "\<not> challenge_spent k d" using y by (auto simp: challenge_spent_def attemptable_def)
      moreover have "challenge_spent k d'"
        unfolding challenge_spent_def ch ball_update_rows
      proof (intro ballI conjI impI)
        fix z assume z: "z \<in> set (challenges d)"
        have n: "attemptable E k (clock E 1) z" if "chl_id z = k" using only [OF z that] y(2) by simp
        show "chl_status z \<noteq> Challenge_PENDING"
          if "\<not> attemptable E k (clock E 1) z" "chl_id z = k" using that n by blast
      qed (auto simp: attemptable_def consumable_def)
      moreover have "challenge_ids d'"
        using dist by (simp add: challenge_ids_def ch map_update_rows)
      ultimately show ?thesis by (simp add: Inr)
    qed
  qed
qed

interpretation rg: single_use register_attempt "challenge_spent k" challenge_ids "register_of k" for k
proof
  fix d a
  assume i: "challenge_ids d" "register_of k a"
  obtain res d' where r: "register_attempt a d = (res, d')" by force
  note e = register_attempt_effect [OF i(2,1) r]
  show "succeeded (fst (register_attempt a d)) \<Longrightarrow> \<not> challenge_spent k d"
    and "succeeded (fst (register_attempt a d)) \<Longrightarrow> challenge_spent k (snd (register_attempt a d))"
    and "challenge_spent k d \<Longrightarrow> challenge_spent k (snd (register_attempt a d))"
    and "challenge_ids (snd (register_attempt a d))"
    using e i r by (auto split: sum.splits)
qed

text \<open>A refused registration leaves the database as it was, the attempt count included.\<close>

lemma register_fails:
  assumes "register E dft input ctx d r = (Inl e, d', r')"
  shows "d' = d"
  using assms
  by (auto simp: register_def register_checked_def Let_def dest: register_transaction_fails
      split: sum.splits option.splits prod.splits)

text \<open>One account per address and per citizen.\<close>

definition accounts_unique :: "db \<Rightarrow> bool" where
  "accounts_unique d \<longleftrightarrow> distinct (map usr_id (users d)) \<and> distinct (map usr_emailNormalized (users d))
     \<and> distinct (map cit_lookupDigest (identities d))"

lemma register_transaction_unique:
  assumes "accounts_unique d" and "id_laws E" and "register_transaction E dft g d = (res, d')"
  shows "accounts_unique d'"
proof (cases res)
  case (Inl e)
  with assms show ?thesis by (auto dest: register_transaction_fails)
next
  case (Inr x)
  with assms(3) obtain user where b: "register_body E dft g d = (Inr user, d')"
    by (auto dest: register_transaction_InrD)
  have "usr_id user \<notin> usr_id ` set (users d)"
  proof (rule register_body_InrE [OF b])
    fix idem d0 d1 d2 d3
    assume c: "create_idempotency (E\<lparr>default_idempotency_status := Idem_IN_PROGRESS\<rparr>) REGISTRATION_SCOPE
        (prg_key g) (prg_requestDigest g) (clock E 1 + 86400000) d = (Inr idem, d0)"
      and a: "recordAttempt E (chl_id (prg_challenge g)) (clock E 1) d0 = (True, d1)"
      and a2: "create_account E dft g (clock E 1) d1 = (Inr user, d2)"
    have "users d1 = users d"
      using a create_idempotency_InrE(2) [OF c] by (auto simp: recordAttempt_def)
    then have "usr_id user = gen_id E (map usr_id (users d))"
      using create_account_InrD(2) [OF a2] by simp
    then show ?thesis using id_lawsD [OF assms(2), of "map usr_id (users d)"] by simp
  qed
  then show ?thesis
    using assms(1) register_body_registered [OF b] by (auto simp: accounts_unique_def registered_def)
qed

text \<open>A retry under the same key gets the first answer, and another request under it a conflict.\<close>

lemma register_replays:
  assumes "register_transaction E dft g d = (Inr res, d')" and "id_laws E" and "rgr_userReference res \<noteq> []"
  shows "\<exists>r. find_row (idempotency_slot REGISTRATION_SCOPE (prg_key g)) (idempotency d') = Some r
    \<and> resolveIdempotentReplay r (prg_requestDigest g) d' = Inr res
    \<and> (\<forall>x. x \<noteq> prg_requestDigest g \<longrightarrow> resolveIdempotentReplay r x d' = Inl (Http 409 ''IDEMPOTENCY_CONFLICT''))"
proof -
  obtain user where b: "register_body E dft g d = (Inr user, d')" and res: "res = buildRegistrationResponse user"
    using register_transaction_InrD [OF assms(1)] by blast
  have reg: "users d' = users d @ [user]"
    using register_body_registered [OF b] by (simp add: registered_def)
  show ?thesis
  proof (rule register_body_InrE [OF b])
    fix idem d0 d1 d2 d3
    assume c: "create_idempotency (E\<lparr>default_idempotency_status := Idem_IN_PROGRESS\<rparr>) REGISTRATION_SCOPE
        (prg_key g) (prg_requestDigest g) (clock E 1 + 86400000) d = (Inr idem, d0)"
      and a: "recordAttempt E (chl_id (prg_challenge g)) (clock E 1) d0 = (True, d1)"
      and a2: "create_account E dft g (clock E 1) d1 = (Inr user, d2)"
      and k: "consume E (chl_id (prg_challenge g)) (clock E 1) d2 = (True, d3)"
      and i: "idempotency d' = update_rows (\<lambda>r. idm_id r = idm_id idem)
           (\<lambda>r. r\<lparr>idm_status := Idem_COMPLETED, idm_responseReference := Some (usr_id user)\<rparr>) (idempotency d3)"
    note idem = create_idempotency_InrE [OF c]
    have "users d1 = users d" using a idem(2) by (auto simp: recordAttempt_def)
    then have "usr_id user = gen_id E (map usr_id (users d))"
      using create_account_InrD(2) [OF a2] by simp
    then have fresh: "usr_id user \<notin> usr_id ` set (users d)"
      using id_lawsD [OF assms(2), of "map usr_id (users d)"] by simp
    then have found: "find_row (\<lambda>u. usr_id u = usr_id user) (users d') = Some user"
      unfolding reg by (rule find_row_fresh) simp
    have "idempotency d3 = idempotency d @ [idem]"
      using a k create_account_InrD(12) [OF a2] idem(2) by (auto simp: recordAttempt_def consume_def)
    then have "find_row (idempotency_slot REGISTRATION_SCOPE (prg_key g)) (idempotency d')
        = Some (idem\<lparr>idm_status := Idem_COMPLETED, idm_responseReference := Some (usr_id user)\<rparr>)"
      unfolding i using idem(1,3)
      by (subst find_row_update_rows) (auto simp: idempotency_slot_def find_row_append new_idempotency_def)
    moreover have "idm_requestDigest idem = prg_requestDigest g" by (simp add: idem(1))
    ultimately show ?thesis
      using found assms(3) by (auto simp: resolveIdempotentReplay_def res buildRegistrationResponse_def)
  qed
qed

text \<open>A challenge the citizen lookup created opens for the registration that follows in time.\<close>

lemma decrypt_clock: "decrypt (E\<lparr>clock := t\<rparr>) v p = decrypt E v p"
  by (simp add: decrypt_def additionalData_def)

lemma open_sealed_clock [simp]: "open_sealed (E\<lparr>clock := t\<rparr>) s p = open_sealed E s p"
  unfolding open_sealed_def parseEnvelope_def decrypt_clock by simp

lemma digest_clock [simp]:
  "citizenSnapshot (E\<lparr>clock := t\<rparr>) v = citizenSnapshot E v"
  "identityLookup (E\<lparr>clock := t\<rparr>) v = identityLookup E v"
  by (simp_all add: citizenSnapshot_def identityLookup_def digest_def)

lemma joi_iso_kept_clock: "joi_iso_kept (E\<lparr>clock := t\<rparr>) = joi_iso_kept E"
  by (rule ext) (simp add: joi_iso_kept_def joi_iso_def split: json.splits)

lemma parseSnapshot_clock [simp]: "parseSnapshot (E\<lparr>clock := t\<rparr>) v = parseSnapshot E v"
  unfolding parseSnapshot_def read_citizen_def joi_iso_kept_clock by simp

lemma parseSnapshot_text:
  assumes "json_laws E" and "citizen_ok E c" and "length nid = 16" and "list_all is_digit nid"
  shows "parseSnapshot E (snapshot_text E c nid) = Inr (nid, c)"
proof -
  let ?j = "JObj (citizen_members c @ [(''normalizedNationalId'', JStr nid)])"
  have p: "parse_json E (snapshot_text E c nid) = Some ?j"
    by (simp add: snapshot_text_def json_lawsD [OF assms(1)])
  have r: "read_citizen E (''normalizedNationalId'' # citizen_fields) ?j = Some c"
    by (rule read_citizen_members [OF assms(2)]) auto
  have n: "json_field ''normalizedNationalId'' ?j = Some (JStr nid)"
    by (simp add: citizen_members_def)
  show ?thesis
    unfolding parseSnapshot_def p option.case r n using assms(3,4) by simp
qed

lemma challenge_transaction_InrD:
  assumes "challenge_transaction E lookup email encrypted snap ip expires corr d = (Inr (Some c), d')"
  shows "c = new_challenge E lookup email encrypted snap ip expires d"
    and "challenges d' = challenges d @ [c]" and "users d' = users d"
    and "\<forall>i \<in> set (identities d). cit_lookupDigest i \<noteq> lookup"
  using assms unfolding challenge_transaction_def
  by (auto dest!: transact_InrD simp: Let_def find_None_iff split: if_splits)

lemma initiate_found_opens:
  assumes "initiate_found E i corr nid email ip citizen d = (Inr resp, d')"
    and "json_laws E" and "gcm_laws E" and "id_laws E" and "citizen_ok E citizen"
    and "length nid = 16" and "list_all is_digit nid"
  shows "\<exists>c. challenges d' = challenges d @ [c] \<and> chl_attemptCount c = 0
    \<and> (\<forall>t. t 0 < lkr_expiresAt resp \<longrightarrow>
         open_challenge (E\<lparr>clock := t\<rparr>) (find_row (\<lambda>x. chl_id x = chl_id c) (challenges d')) email
           = Inr (c, nid, citizen))"
proof -
  define snap where "snap = snapshot_text E citizen nid"
  obtain encrypted c token where s: "seal E i snap Citizen_Snapshot_Text = Inr encrypted"
    and t: "challenge_transaction E (identityLookup E nid) email encrypted (citizenSnapshot E snap) ip
        (clock E 0 + seconds E ''REGISTRATION_CHALLENGE_TTL_SECONDS'') corr d = (Inr (Some c), d')"
    and resp: "lkr_expiresAt resp = chl_expiresAt c"
    using assms(1) unfolding initiate_found_def snap_def
    by (auto simp: Let_def split: if_splits sum.splits prod.splits option.splits)
  note D = challenge_transaction_InrD [OF t]
  have "chl_id c \<notin> chl_id ` set (challenges d)"
    using id_lawsD [OF assms(4), of "map chl_id (challenges d)"] by (simp add: D(1) new_challenge_def)
  then have found: "find_row (\<lambda>x. chl_id x = chl_id c) (challenges d') = Some c"
    unfolding D(2) by (rule find_row_fresh) simp
  have "open_challenge (E\<lparr>clock := t\<rparr>) (Some c) email = Inr (c, nid, citizen)"
    if "t 0 < lkr_expiresAt resp" for t
    using that resp open_seal(1) [OF assms(2,3) s] parseSnapshot_text [OF assms(2,5-7)]
    by (simp add: open_challenge_def D(1) new_challenge_def snap_def)
  with found D(2) show ?thesis by (auto simp: D(1) new_challenge_def)
qed

end
