(* ===== verification/StepUp.thy ===== *)
theory StepUp
  imports Registration
begin

text \<open>
  Step-up verification (\<open>modules/step-up-verification\<close>): a challenge bound to a purpose and a
  target, the assertion issued once its verification attempt has passed, and its single consumption
  by the service the purpose names, which is three calls of the database: the expiry of what is due, the
  reading of the challenge, and the conditional update.
\<close>

subsection \<open>Purposes\<close>

definition STEP_UP_PURPOSES :: "verification_purpose list" where
  "STEP_UP_PURPOSES = [DEVICE_TRANSFER, AGREEMENT_SIGNING, ACCOUNT_RECOVERY]"

definition isStepUpPurpose :: "verification_purpose \<Rightarrow> bool" where
  "isStepUpPurpose p = (p \<in> set STEP_UP_PURPOSES)"

fun PURPOSE_CONSUMERS :: "verification_purpose \<Rightarrow> string option" where
  "PURPOSE_CONSUMERS DEVICE_TRANSFER = Some ''mucyora-user''"
| "PURPOSE_CONSUMERS AGREEMENT_SIGNING = Some ''mucyora-signature''"
| "PURPOSE_CONSUMERS ACCOUNT_RECOVERY = Some ''mucyora-auth-recovery''"
| "PURPOSE_CONSUMERS ACCOUNT_ENROLLMENT = None"

definition assertPurpose :: "verification_purpose \<Rightarrow> unit result" where
  "assertPurpose p = (if isStepUpPurpose p then Inr () else Inl (Http 403 ''STEP_UP_PURPOSE_INVALID''))"

definition targetDigest :: "env \<Rightarrow> verification_purpose \<Rightarrow> string \<Rightarrow> string" where
  "targetDigest E p target = requestContext E (purpose_text p @ '':'' @ target)"

abbreviation stepUpNotFound :: api_error where
  "stepUpNotFound \<equiv> Http 404 ''STEP_UP_CHALLENGE_NOT_FOUND''"

abbreviation invalidAssertion :: api_error where
  "invalidAssertion \<equiv> Http 401 ''STEP_UP_ASSERTION_INVALID''"

subsection \<open>Expiry\<close>

definition step_up_due :: "int \<Rightarrow> step_up_row \<Rightarrow> bool" where
  "step_up_due now c \<longleftrightarrow> sup_status c \<in> {StepUp_PENDING, StepUp_VERIFIED}
     \<and> (sup_expiresAt c \<le> now \<or> (case sup_assertionExpiresAt c of None \<Rightarrow> False | Some t \<Rightarrow> t \<le> now))"

definition expireDue :: "int \<Rightarrow> db \<Rightarrow> db" where
  "expireDue now d = d\<lparr>step_ups := update_rows (step_up_due now)
     (\<lambda>c. c\<lparr>sup_status := StepUp_EXPIRED, sup_assertionEncrypted := None\<rparr>) (step_ups d)\<rparr>"

subsection \<open>Challenges\<close>

record step_up_input =
  sui_purpose :: verification_purpose
  sui_target :: string

definition step_up_eligible :: "string \<Rightarrow> db \<Rightarrow> bool" where
  "step_up_eligible userId d = (case find_row (\<lambda>u. usr_id u = userId) (users d) of
     None \<Rightarrow> False
   | Some u \<Rightarrow> usr_accountStatus u = Account_ACTIVE \<and> usr_identityStatus u = Identity_VERIFIED
       \<and> take_rows 1 (\<lambda>c. con_userId c = userId \<and> con_type c = BIOMETRIC_PROCESSING
            \<and> con_revokedAt c = None) (consents d) \<noteq> [])"

text \<open>\<open>findFirst\<close> with \<open>orderBy: attemptNumber desc\<close>: the latest number, or zero.\<close>

definition latest_attempt :: "string \<Rightarrow> verification_purpose \<Rightarrow> db \<Rightarrow> nat" where
  "latest_attempt userId p d = (case take_rows_desc (int \<circ> att_attemptNumber) 1
       (\<lambda>a. att_userId a = userId \<and> att_purpose a = p) (attempts d) of
     [] \<Rightarrow> 0 | a # _ \<Rightarrow> att_attemptNumber a)"

definition open_challenge_of :: "env \<Rightarrow> principal \<Rightarrow> step_up_input \<Rightarrow> step_up_row \<Rightarrow> bool" where
  "open_challenge_of E claims input c \<longleftrightarrow> sup_userId c = prn_sub claims \<and> sup_purpose c = sui_purpose input
     \<and> sup_targetDigest c = targetDigest E (sui_purpose input) (sui_target input)
     \<and> sup_status c \<in> {StepUp_PENDING, StepUp_VERIFIED} \<and> clock E 0 < sup_expiresAt c"

definition new_attempt :: "env \<Rightarrow> principal \<Rightarrow> step_up_input \<Rightarrow> request_context \<Rightarrow> db \<Rightarrow> attempt_row" where
  "new_attempt E claims input ctx d =
     \<lparr>att_id = gen_id E (map att_id (attempts d)), att_userId = prn_sub claims,
      att_purpose = sui_purpose input, att_status = Attempt_MEDIA_PENDING,
      att_policyVersion = cfg_str E ''STEP_UP_POLICY_VERSION'', att_documentBindingVerified = True,
      att_attemptNumber = latest_attempt (prn_sub claims) (sui_purpose input) d + 1,
      att_ipHash = requestContext E (rq_ipAddress ctx),
      att_userAgentHash = requestContext E (rq_userAgent ctx), att_startedAt = db_clock E,
      att_completedAt = None, att_retryAfter = None, att_reasonCode = None,
      att_livenessSessionId = None, att_engineRequestId = None, att_faceSimilarity = None,
      att_livenessConfidence = None, att_compositeScore = None\<rparr>"

definition new_step_up :: "env \<Rightarrow> principal \<Rightarrow> step_up_input \<Rightarrow> string \<Rightarrow> db \<Rightarrow> step_up_row" where
  "new_step_up E claims input attemptId d =
     \<lparr>sup_id = gen_id E (map sup_id (step_ups d)), sup_userId = prn_sub claims,
      sup_sessionId = prn_sid claims, sup_attemptId = attemptId, sup_purpose = sui_purpose input,
      sup_targetDigest = targetDigest E (sui_purpose input) (sui_target input),
      sup_status = default_step_up_status E, sup_policyVersion = cfg_str E ''STEP_UP_POLICY_VERSION'',
      sup_expiresAt = clock E 0 + seconds E ''STEP_UP_CHALLENGE_TTL_SECONDS'', sup_verifiedAt = None,
      sup_assertionDigest = None, sup_assertionEncrypted = None, sup_assertionExpiresAt = None,
      sup_consumedAt = None, sup_consumedByService = None\<rparr>"

definition createChallenge ::
  "env \<Rightarrow> principal \<Rightarrow> step_up_input \<Rightarrow> request_context \<Rightarrow> db \<Rightarrow> step_up_row result \<times> db" where
  "createChallenge E claims input ctx d =
     (case assertPurpose (sui_purpose input) of
        Inl e \<Rightarrow> (Inl e, d)
      | Inr _ \<Rightarrow> transact (\<lambda>d.
          if \<not> step_up_eligible (prn_sub claims) d then (Inl (Http 403 ''STEP_UP_NOT_ELIGIBLE''), d)
          else (case find_row (open_challenge_of E claims input) (step_ups d) of
             Some existing \<Rightarrow> (Inr existing, d)
           | None \<Rightarrow>
               (let a = new_attempt E claims input ctx d; c = new_step_up E claims input (att_id a) d
                in (Inr c, create_event E
                  \<lparr>evi_userId = Some (prn_sub claims), evi_sessionId = Some (prn_sid claims),
                   evi_type = IDENTITY_VERIFICATION_STARTED, evi_severity = Severity_INFO,
                   evi_outcome = Outcome_SUCCESS,
                   evi_reasonCode = Some (''STEP_UP_'' @ purpose_text (sui_purpose input)),
                   evi_correlationId = rq_correlationId ctx,
                   evi_ipHash = Some (requestContext E (rq_ipAddress ctx)), evi_userAgentHash = None,
                   evi_metadata = None\<rparr>
                  (d\<lparr>attempts := attempts d @ [a], step_ups := step_ups d @ [c]\<rparr>)))))
          (expireDue (clock E 0) d))"

definition owned_challenge :: "principal \<Rightarrow> string \<Rightarrow> step_up_row \<Rightarrow> bool" where
  "owned_challenge claims challengeId c \<longleftrightarrow> sup_id c = challengeId \<and> sup_userId c = prn_sub claims"

definition read_challenge :: "env \<Rightarrow> principal \<Rightarrow> string \<Rightarrow> db \<Rightarrow> step_up_row result \<times> db" where
  "read_challenge E claims challengeId d =
     (let d1 = expireDue (clock E 0) d
      in (case find_row (owned_challenge claims challengeId) (step_ups d1) of
            None \<Rightarrow> (Inl stepUpNotFound, d1)
          | Some c \<Rightarrow> (Inr c, d1)))"

subsection \<open>Assertions\<close>

definition claimable :: "principal \<Rightarrow> string \<Rightarrow> int \<Rightarrow> step_up_row \<Rightarrow> bool" where
  "claimable claims challengeId now c \<longleftrightarrow> sup_id c = challengeId \<and> sup_userId c = prn_sub claims
     \<and> sup_status c = StepUp_PENDING \<and> now < sup_expiresAt c"

text \<open>The transaction of \<open>issueAssertion\<close>; \<open>Inr False\<close> when the challenge was not pending.\<close>

definition claim_assertion :: "env \<Rightarrow> principal \<Rightarrow> string \<Rightarrow> request_context \<Rightarrow> verification_purpose
    \<Rightarrow> opaque_token \<Rightarrow> int \<Rightarrow> db \<Rightarrow> bool result \<times> db" where
  "claim_assertion E claims challengeId ctx p assertion assertionExpiresAt =
     transact (\<lambda>d. let now = clock E 0 in
       case seal E 1 (tok_token assertion) Step_Up_Assertion of
         Inl e \<Rightarrow> (Inl e, d)
       | Inr encrypted \<Rightarrow>
           (let d1 = d\<lparr>step_ups := update_rows (claimable claims challengeId now)
              (\<lambda>c. c\<lparr>sup_status := StepUp_VERIFIED, sup_assertionDigest := Some (tok_digest assertion),
                     sup_assertionEncrypted := Some encrypted, sup_verifiedAt := Some now,
                     sup_assertionExpiresAt := Some assertionExpiresAt\<rparr>) (step_ups d)\<rparr>
            in if count_rows (claimable claims challengeId now) (step_ups d) \<noteq> 1 then (Inr False, d1)
               else (Inr True, create_event E
                 \<lparr>evi_userId = Some (prn_sub claims), evi_sessionId = Some (prn_sid claims),
                  evi_type = IDENTITY_VERIFICATION_COMPLETED, evi_severity = Severity_INFO,
                  evi_outcome = Outcome_SUCCESS, evi_reasonCode = Some (''STEP_UP_'' @ purpose_text p),
                  evi_correlationId = rq_correlationId ctx,
                  evi_ipHash = Some (requestContext E (rq_ipAddress ctx)), evi_userAgentHash = None,
                  evi_metadata = None\<rparr> d1)))"

text \<open>A new assertion for a passed attempt; it does not outlive the challenge.\<close>

definition issue_new :: "env \<Rightarrow> principal \<Rightarrow> string \<Rightarrow> request_context \<Rightarrow> step_up_row \<Rightarrow> attempt_row
    \<Rightarrow> db \<Rightarrow> (string \<times> int) option result \<times> db" where
  "issue_new E claims challengeId ctx c attempt d =
     (if att_status attempt \<noteq> Attempt_PASSED then (Inl (Http 409 ''STEP_UP_VERIFICATION_INCOMPLETE''), d)
      else (case generate_token E 0 48 of
         Inl e \<Rightarrow> (Inl e, d)
       | Inr assertion \<Rightarrow>
           (let expires = min (sup_expiresAt c) (clock E 0 + seconds E ''STEP_UP_ASSERTION_TTL_SECONDS'')
            in (case claim_assertion E claims challengeId ctx (sup_purpose c) assertion expires d of
                  (Inl e, d1) \<Rightarrow> (Inl e, d1)
                | (Inr updated, d1) \<Rightarrow>
                    (Inr (if updated then Some (tok_token assertion, expires) else None), d1)))))"

text \<open>One call of \<open>issueAssertion\<close> up to its recursive call, which is \<open>Inr None\<close>.\<close>

definition issue_round ::
  "env \<Rightarrow> principal \<Rightarrow> string \<Rightarrow> request_context \<Rightarrow> db \<Rightarrow> (string \<times> int) option result \<times> db" where
  "issue_round E claims challengeId ctx d =
     (let now = clock E 0; d1 = expireDue now d
      in (case find_row (owned_challenge claims challengeId) (step_ups d1) of
        None \<Rightarrow> (Inl stepUpNotFound, d1)
      | Some c \<Rightarrow>
     (case find_row (\<lambda>a. att_id a = sup_attemptId c) (attempts d1) of
        None \<Rightarrow> (Inl (Raised ''verificationAttempt relation''), d1)
      | Some attempt \<Rightarrow>
          if sup_status c \<in> {StepUp_CONSUMED, StepUp_REVOKED, StepUp_EXPIRED} then (Inl stepUpNotFound, d1)
          else (case (sup_status c, sup_assertionEncrypted c, sup_assertionExpiresAt c) of
            (StepUp_VERIFIED, Some encrypted, Some expires) \<Rightarrow>
              if encrypted \<noteq> [] \<and> now < expires
              then (case open_sealed E encrypted Step_Up_Assertion of
                 Inl e \<Rightarrow> (Inl e, d1) | Inr assertion \<Rightarrow> (Inr (Some (assertion, expires)), d1))
              else issue_new E claims challengeId ctx c attempt d1
          | _ \<Rightarrow> issue_new E claims challengeId ctx c attempt d1))))"

text \<open>
  \<open>issueAssertion\<close>: the call \<open>n\<close> reads its clock and randomness from \<open>Es n\<close>; \<open>None\<close> is a recursion
  that does not end.
\<close>

partial_function (option) issueAssertion ::
  "(nat \<Rightarrow> env) \<Rightarrow> nat \<Rightarrow> principal \<Rightarrow> string \<Rightarrow> request_context \<Rightarrow> db \<Rightarrow> ((string \<times> int) result \<times> db) option" where
  "issueAssertion Es n claims challengeId ctx d =
     (let (res, d1) = issue_round (Es n) claims challengeId ctx d
      in (case res of
            Inl e \<Rightarrow> Some (Inl e, d1)
          | Inr answer \<Rightarrow> (case answer of
              Some x \<Rightarrow> Some (Inr x, d1)
            | None \<Rightarrow> issueAssertion Es (n + 1) claims challengeId ctx d1)))"

record consume_input = step_up_input +
  csi_userId :: string
  csi_assertion :: string

record consumed_assertion =
  csa_userId :: string
  csa_purpose :: verification_purpose
  csa_attemptId :: string
  csa_verifiedAt :: "int option"
  csa_consumedAt :: int

definition consumable_assertion :: "string \<Rightarrow> int \<Rightarrow> step_up_row \<Rightarrow> bool" where
  "consumable_assertion k now c \<longleftrightarrow> sup_id c = k \<and> sup_status c = StepUp_VERIFIED
     \<and> (case sup_assertionExpiresAt c of None \<Rightarrow> False | Some t \<Rightarrow> now < t)"

text \<open>
  \<open>consumeAssertion\<close> in its three calls of the database, between which other requests may run: the
  expiry of what is due, the reading of the challenge with the checks on it, and the conditional update.
\<close>

definition consume_find :: "env \<Rightarrow> consume_input \<Rightarrow> db \<Rightarrow> step_up_row result" where
  "consume_find E input d =
     (case find_row (\<lambda>c. sup_assertionDigest c = Some (token_digest E (csi_assertion input))) (step_ups d) of
        None \<Rightarrow> Inl invalidAssertion
      | Some c \<Rightarrow>
          if sup_userId c \<noteq> csi_userId input \<or> sup_purpose c \<noteq> sui_purpose input
             \<or> sup_targetDigest c \<noteq> targetDigest E (sui_purpose input) (sui_target input)
             \<or> sup_status c \<noteq> StepUp_VERIFIED
             \<or> (case sup_assertionExpiresAt c of None \<Rightarrow> True | Some t \<Rightarrow> t \<le> clock E 0)
          then Inl invalidAssertion else Inr c)"

definition consume_claim :: "string \<Rightarrow> int \<Rightarrow> step_up_row \<Rightarrow> db \<Rightarrow> consumed_assertion result \<times> db" where
  "consume_claim service now c d =
     (let d1 = d\<lparr>step_ups := update_rows (consumable_assertion (sup_id c) now)
            (\<lambda>c. c\<lparr>sup_status := StepUp_CONSUMED, sup_consumedAt := Some now,
                   sup_consumedByService := Some service, sup_assertionEncrypted := None\<rparr>)
            (step_ups d)\<rparr>
      in if count_rows (consumable_assertion (sup_id c) now) (step_ups d) \<noteq> 1
         then (Inl invalidAssertion, d1)
         else (Inr \<lparr>csa_userId = sup_userId c, csa_purpose = sup_purpose c,
                     csa_attemptId = sup_attemptId c, csa_verifiedAt = sup_verifiedAt c,
                     csa_consumedAt = now\<rparr>, d1))"

definition consumeAssertion :: "env \<Rightarrow> string \<Rightarrow> consume_input \<Rightarrow> db \<Rightarrow> consumed_assertion result \<times> db" where
  "consumeAssertion E service input d =
     (case assertPurpose (sui_purpose input) of
        Inl e \<Rightarrow> (Inl e, d)
      | Inr _ \<Rightarrow>
     (if PURPOSE_CONSUMERS (sui_purpose input) \<noteq> Some service
      then (Inl (Http 403 ''STEP_UP_PURPOSE_FORBIDDEN''), d)
      else
     (let d1 = expireDue (clock E 0) d
      in (case consume_find E input d1 of
        Inl e \<Rightarrow> (Inl e, d1)
      | Inr c \<Rightarrow> consume_claim service (clock E 0) c d1))))"

text \<open>The three calls in one, where nothing runs in between.\<close>

lemma consumeAssertion_unfold:
  "consumeAssertion E service input d =
     (case assertPurpose (sui_purpose input) of
        Inl e \<Rightarrow> (Inl e, d)
      | Inr _ \<Rightarrow>
     (if PURPOSE_CONSUMERS (sui_purpose input) \<noteq> Some service
      then (Inl (Http 403 ''STEP_UP_PURPOSE_FORBIDDEN''), d)
      else
     (let now = clock E 0; d1 = expireDue now d
      in (case find_row (\<lambda>c. sup_assertionDigest c = Some (token_digest E (csi_assertion input))) (step_ups d1) of
        None \<Rightarrow> (Inl invalidAssertion, d1)
      | Some c \<Rightarrow>
          if sup_userId c \<noteq> csi_userId input \<or> sup_purpose c \<noteq> sui_purpose input
             \<or> sup_targetDigest c \<noteq> targetDigest E (sui_purpose input) (sui_target input)
             \<or> sup_status c \<noteq> StepUp_VERIFIED
             \<or> (case sup_assertionExpiresAt c of None \<Rightarrow> True | Some t \<Rightarrow> t \<le> now)
          then (Inl invalidAssertion, d1)
          else
          let d2 = d1\<lparr>step_ups := update_rows (consumable_assertion (sup_id c) now)
                (\<lambda>c. c\<lparr>sup_status := StepUp_CONSUMED, sup_consumedAt := Some now,
                       sup_consumedByService := Some service, sup_assertionEncrypted := None\<rparr>)
                (step_ups d1)\<rparr>
          in if count_rows (consumable_assertion (sup_id c) now) (step_ups d1) \<noteq> 1
             then (Inl invalidAssertion, d2)
             else (Inr \<lparr>csa_userId = sup_userId c, csa_purpose = sup_purpose c,
                         csa_attemptId = sup_attemptId c, csa_verifiedAt = sup_verifiedAt c,
                         csa_consumedAt = now\<rparr>, d2)))))"
  by (auto simp: consumeAssertion_def consume_find_def consume_claim_def Let_def split: sum.splits option.splits if_splits)

subsection \<open>The invariant of the challenges\<close>

text \<open>
  Identifiers are unique, a verified challenge carries its sealed assertion, a digest names one
  challenge, and a challenge without a digest was never verified.
\<close>

definition step_up_wf :: "db \<Rightarrow> bool" where
  "step_up_wf d \<longleftrightarrow> distinct (map sup_id (step_ups d))
     \<and> (\<forall>c \<in> set (step_ups d). sup_status c = StepUp_VERIFIED \<longrightarrow>
          (\<exists>s t. sup_assertionEncrypted c = Some s \<and> s \<noteq> [] \<and> sup_assertionExpiresAt c = Some t))
     \<and> (\<forall>c \<in> set (step_ups d). \<forall>c' \<in> set (step_ups d).
          sup_assertionDigest c \<noteq> None \<and> sup_assertionDigest c = sup_assertionDigest c' \<longrightarrow> c = c')"

lemma expireDue_rows:
  "c \<in> set (step_ups (expireDue now d)) \<Longrightarrow>
     (sup_status c = StepUp_PENDING \<longrightarrow> now < sup_expiresAt c)
     \<and> (sup_status c = StepUp_VERIFIED \<longrightarrow> (\<forall>t. sup_assertionExpiresAt c = Some t \<longrightarrow> now < t))"
  by (auto simp: expireDue_def step_up_due_def elim!: in_update_rowsE split: option.splits)

lemma expireDue_frame [simp]:
  "users (expireDue now d) = users d" "attempts (expireDue now d) = attempts d"
  "consents (expireDue now d) = consents d" "sessions (expireDue now d) = sessions d"
  by (simp_all add: expireDue_def)

text \<open>
  An update of the rows selected by \<open>P\<close> keeps the invariant when it keeps identifiers, and digests
  unless the row has none yet and the new one is fresh.
\<close>

lemma step_up_wf_update:
  assumes wf: "step_up_wf d" and rows: "step_ups d' = update_rows P f (step_ups d)"
    and ids: "\<And>c. sup_id (f c) = sup_id c"
    and ver: "\<And>c. P c \<Longrightarrow> sup_status (f c) = StepUp_VERIFIED \<Longrightarrow>
      \<exists>s t. sup_assertionEncrypted (f c) = Some s \<and> s \<noteq> [] \<and> sup_assertionExpiresAt (f c) = Some t"
    and dig: "(\<forall>c. sup_assertionDigest (f c) = sup_assertionDigest c)
      \<or> (\<exists>k i. (\<forall>c. sup_assertionDigest (f c) = Some k) \<and> (\<forall>c. P c \<longrightarrow> sup_id c = i)
           \<and> (\<forall>c \<in> set (step_ups d). sup_assertionDigest c \<noteq> Some k))"
  shows "step_up_wf d'"
proof -
  have dist: "distinct (map sup_id (step_ups d))" using wf by (simp add: step_up_wf_def)
  have d': "distinct (map sup_id (step_ups d'))"
    using dist by (simp add: rows map_update_rows ids)
  have v: "\<forall>c \<in> set (step_ups d'). sup_status c = StepUp_VERIFIED \<longrightarrow>
      (\<exists>s t. sup_assertionEncrypted c = Some s \<and> s \<noteq> [] \<and> sup_assertionExpiresAt c = Some t)"
    using wf ver by (simp add: rows ball_update_rows step_up_wf_def)
  have u: "c = c'" if mem: "c \<in> set (step_ups d')" "c' \<in> set (step_ups d')" and
    dc: "sup_assertionDigest c \<noteq> None" "sup_assertionDigest c = sup_assertionDigest c'" for c c'
  proof -
    obtain a where a: "a \<in> set (step_ups d)" "c = (if P a then f a else a)"
      using mem(1) unfolding rows set_update_rows by blast
    obtain b where b: "b \<in> set (step_ups d)" "c' = (if P b then f b else b)"
      using mem(2) unfolding rows set_update_rows by blast
    have "a = b"
      using dig
    proof
      assume "\<forall>c. sup_assertionDigest (f c) = sup_assertionDigest c"
      then have "sup_assertionDigest a \<noteq> None" "sup_assertionDigest a = sup_assertionDigest b"
        using dc a(2) b(2) by (auto split: if_splits)
      then show ?thesis using wf a(1) b(1) unfolding step_up_wf_def by blast
    next
      assume "\<exists>k i. (\<forall>c. sup_assertionDigest (f c) = Some k) \<and> (\<forall>c. P c \<longrightarrow> sup_id c = i)
           \<and> (\<forall>c \<in> set (step_ups d). sup_assertionDigest c \<noteq> Some k)"
      then obtain k i where k: "\<And>c. sup_assertionDigest (f c) = Some k" "\<And>c. P c \<Longrightarrow> sup_id c = i"
        "\<And>c. c \<in> set (step_ups d) \<Longrightarrow> sup_assertionDigest c \<noteq> Some k" by blast
      show ?thesis
      proof (cases "P a \<or> P b")
        case True
        then have "P a \<and> P b"
          using dc a b k(1) k(3) [OF a(1)] k(3) [OF b(1)] by (auto split: if_splits)
        then have "sup_id a = sup_id b" using k(2) by metis
        then show ?thesis using distinct_key_eq [OF dist a(1) b(1)] by simp
      next
        case False
        then have "sup_assertionDigest a \<noteq> None" "sup_assertionDigest a = sup_assertionDigest b"
          using dc a(2) b(2) by auto
        then show ?thesis using wf a(1) b(1) unfolding step_up_wf_def by blast
      qed
    qed
    then show ?thesis using a(2) b(2) by simp
  qed
  show ?thesis unfolding step_up_wf_def using d' v u by blast
qed

lemma expireDue_wf: "step_up_wf d \<Longrightarrow> step_up_wf (expireDue now d)"
  by (rule step_up_wf_update [where P = "step_up_due now"
        and f = "\<lambda>c. c\<lparr>sup_status := StepUp_EXPIRED, sup_assertionEncrypted := None\<rparr>"])
    (simp_all add: expireDue_def)

lemma createChallenge_wf:
  assumes "step_up_wf d" and "id_laws E" and "default_laws E"
  shows "step_up_wf (snd (createChallenge E claims input ctx d))"
proof (cases "assertPurpose (sui_purpose input)")
  case (Inl e)
  then show ?thesis using assms by (simp add: createChallenge_def)
next
  case (Inr u)
  let ?d = "expireDue (clock E 0) d"
  have wf: "step_up_wf ?d" using assms(1) by (rule expireDue_wf)
  have fresh: "gen_id E (map sup_id (step_ups ?d)) \<notin> sup_id ` set (step_ups ?d)"
    using id_lawsD [OF assms(2), of "map sup_id (step_ups ?d)"] by simp
  have new: "step_up_wf (x\<lparr>step_ups := step_ups ?d @ [new_step_up E claims input k ?d]\<rparr>)" for k and x :: db
    using wf fresh assms(3) unfolding step_up_wf_def
    by (auto simp: new_step_up_def default_laws_def) metis
  have ev: "step_up_wf (create_event E i x) = step_up_wf x" for i x by (simp add: step_up_wf_def)
  show ?thesis
    using wf new [where x = "?d\<lparr>attempts := attempts ?d @ [new_attempt E claims input ctx ?d]\<rparr>"]
    by (auto simp: createChallenge_def Inr transact_def Let_def ev split: option.splits)
qed

lemma claim_assertion_wf:
  assumes "step_up_wf d" and "json_laws E"
    and "\<forall>c \<in> set (step_ups d). sup_assertionDigest c \<noteq> Some (tok_digest assertion)"
  shows "step_up_wf (snd (claim_assertion E claims k ctx p assertion t d))"
proof (cases "seal E 1 (tok_token assertion) Step_Up_Assertion")
  case (Inl e)
  then show ?thesis using assms(1) by (simp add: claim_assertion_def transact_def)
next
  case (Inr s)
  have s: "s \<noteq> []" using Inr assms(2) by (auto simp: seal_def json_laws_def split: sum.splits)
  let ?P = "claimable claims k (clock E 0)"
  let ?f = "\<lambda>c. c\<lparr>sup_status := StepUp_VERIFIED, sup_assertionDigest := Some (tok_digest assertion),
     sup_assertionEncrypted := Some s, sup_verifiedAt := Some (clock E 0), sup_assertionExpiresAt := Some t\<rparr>"
  have "step_ups (snd (claim_assertion E claims k ctx p assertion t d)) = update_rows ?P ?f (step_ups d)"
    by (simp add: claim_assertion_def transact_def Inr Let_def del: One_nat_def)
  then show ?thesis
    by (rule step_up_wf_update [OF assms(1)]) (use s assms(3) in \<open>auto simp: claimable_def\<close>)
qed

lemma issue_round_wf:
  assumes "step_up_wf d" and "json_laws E"
    and "\<forall>c \<in> set (step_ups d). sup_assertionDigest c \<noteq> Some (token_digest E (b64_encode (random_bytes E 0 48)))"
  shows "step_up_wf (snd (issue_round E claims k ctx d))"
proof -
  let ?d = "expireDue (clock E 0) d"
  have wf: "step_up_wf ?d" using assms(1) by (rule expireDue_wf)
  have fresh: "\<forall>c \<in> set (step_ups ?d). sup_assertionDigest c \<noteq> Some (token_digest E (b64_encode (random_bytes E 0 48)))"
    using assms(3) by (simp add: expireDue_def ball_update_rows)
  have new: "step_up_wf (snd (issue_new E claims k ctx c a ?d))" for c a
    using wf claim_assertion_wf [OF wf assms(2), of
        "\<lparr>tok_token = b64_encode (random_bytes E 0 48), tok_digest = token_digest E (b64_encode (random_bytes E 0 48))\<rparr>"]
      fresh by (auto simp: issue_new_def Let_def split_beta split: sum.splits)
  show ?thesis
    using wf new
    by (auto simp: issue_round_def Let_def split: option.splits sum.splits step_up_status.splits)
qed

lemma consumeAssertion_wf:
  assumes "step_up_wf d"
  shows "step_up_wf (snd (consumeAssertion E service input d))"
proof -
  let ?d = "expireDue (clock E 0) d"
  have wf: "step_up_wf ?d" using assms by (rule expireDue_wf)
  have "step_up_wf (?d\<lparr>step_ups := update_rows (consumable_assertion k now)
                (\<lambda>c. c\<lparr>sup_status := StepUp_CONSUMED, sup_consumedAt := Some now,
                       sup_consumedByService := Some service, sup_assertionEncrypted := None\<rparr>)
                (step_ups ?d)\<rparr>)" for k now
    by (rule step_up_wf_update [OF wf, where P = "consumable_assertion k now" and
          f = "\<lambda>c. c\<lparr>sup_status := StepUp_CONSUMED, sup_consumedAt := Some now,
                       sup_consumedByService := Some service, sup_assertionEncrypted := None\<rparr>"]) simp_all
  then show ?thesis using assms wf
    by (auto simp: consumeAssertion_unfold Let_def split: sum.splits option.splits)
qed

subsection \<open>The state machine\<close>

text \<open>
  The steps of the service on the database: its requests, each with its own clock and randomness
  (\<open>E\<close>), and any change of the other tables.  A generated assertion has a digest not used before.
\<close>

inductive step_up_step :: "db \<Rightarrow> db \<Rightarrow> bool" where
  create: "id_laws E \<Longrightarrow> default_laws E \<Longrightarrow>
     step_up_step d (snd (createChallenge E claims input ctx d))"
| read: "step_up_step d (snd (read_challenge E claims k d))"
| issue: "json_laws E \<Longrightarrow>
     \<forall>c \<in> set (step_ups d). sup_assertionDigest c \<noteq> Some (token_digest E (b64_encode (random_bytes E 0 48))) \<Longrightarrow>
     step_up_step d (snd (issue_round E claims k ctx d))"
| consume: "step_up_step d (snd (consumeAssertion E service input d))"
| other: "step_ups d' = step_ups d \<Longrightarrow> step_up_step d d'"

inductive step_up_steps :: "db \<Rightarrow> db \<Rightarrow> bool" where
  refl: "step_up_steps d d"
| step: "step_up_steps d d1 \<Longrightarrow> step_up_step d1 d2 \<Longrightarrow> step_up_steps d d2"

inductive_cases step_up_stepE: "step_up_step d d'"

lemma step_up_step_wf: "step_up_step d d' \<Longrightarrow> step_up_wf d \<Longrightarrow> step_up_wf d'"
proof (induction rule: step_up_step.induct)
  case (read d E claims k)
  then show ?case by (auto simp: read_challenge_def Let_def expireDue_wf split: option.splits)
next
  case (other d' d)
  show ?case using other(2) unfolding step_up_wf_def other(1) .
qed (simp_all add: createChallenge_wf issue_round_wf consumeAssertion_wf)

lemma step_up_steps_wf: "step_up_steps d d' \<Longrightarrow> step_up_wf d \<Longrightarrow> step_up_wf d'"
  by (induction rule: step_up_steps.induct) (auto dest: step_up_step_wf)

text \<open>A challenge that is consumed, expired or revoked stays as it is.\<close>

definition settled :: "step_up_row \<Rightarrow> bool" where
  "settled c \<longleftrightarrow> sup_status c \<in> {StepUp_CONSUMED, StepUp_EXPIRED, StepUp_REVOKED}"

lemma kept_in_update:
  assumes "settled c" and "c \<in> set t" and "\<And>x. settled x \<Longrightarrow> \<not> P x"
  shows "c \<in> set (update_rows P f t)"
  using assms unfolding set_update_rows by (intro image_eqI [of _ _ c]) auto

lemma expireDue_keeps:
  assumes "settled c" and "c \<in> set (step_ups d)"
  shows "c \<in> set (step_ups (expireDue now d))"
  unfolding expireDue_def using assms by (auto simp: step_up_due_def settled_def intro!: kept_in_update)

lemma claim_assertion_keeps:
  assumes "settled c" and "c \<in> set (step_ups d)"
  shows "c \<in> set (step_ups (snd (claim_assertion E claims k ctx p assertion t d)))"
  using assms
  by (auto simp: claim_assertion_def transact_def Let_def claimable_def settled_def
      intro!: kept_in_update split: sum.splits)

lemma issue_new_keeps:
  assumes "settled c" and "c \<in> set (step_ups d)"
  shows "c \<in> set (step_ups (snd (issue_new E claims k ctx x a d)))"
  using assms claim_assertion_keeps [OF assms]
  by (auto simp: issue_new_def Let_def split: sum.splits prod.splits) (metis snd_conv)+

lemma step_up_step_settled:
  "step_up_step d d' \<Longrightarrow> settled c \<Longrightarrow> c \<in> set (step_ups d) \<Longrightarrow> c \<in> set (step_ups d')"
proof (induction rule: step_up_step.induct)
  case (create E d claims input ctx)
  then have "c \<in> set (step_ups (expireDue (clock E 0) d))" by (blast intro: expireDue_keeps)
  with create show ?case
    by (auto simp: createChallenge_def transact_def Let_def split: sum.splits option.splits)
next
  case (read d E claims k)
  then show ?case by (auto simp: read_challenge_def Let_def intro: expireDue_keeps split: option.splits)
next
  case (issue E d claims k ctx)
  then have "c \<in> set (step_ups (expireDue (clock E 0) d))" by (blast intro: expireDue_keeps)
  with issue issue_new_keeps show ?case
    by (auto simp: issue_round_def Let_def split: option.splits sum.splits step_up_status.splits)
next
  case (consume d E service input)
  then have "c \<in> set (step_ups (expireDue (clock E 0) d))" by (blast intro: expireDue_keeps)
  with consume show ?case
    by (auto simp: consumeAssertion_unfold Let_def consumable_assertion_def settled_def
        intro!: kept_in_update split: sum.splits option.splits)
qed simp

lemma step_up_steps_settled:
  "step_up_steps d d' \<Longrightarrow> settled c \<Longrightarrow> c \<in> set (step_ups d) \<Longrightarrow> c \<in> set (step_ups d')"
  by (induction rule: step_up_steps.induct) (auto dest: step_up_step_settled)

subsection \<open>What step-up verification shows\<close>

text \<open>The recursion of \<open>issueAssertion\<close> ends with its first call.\<close>

lemma claim_assertion_claims:
  assumes "count_rows (claimable claims k (clock E 0)) (step_ups d) = 1"
  shows "fst (claim_assertion E claims k ctx p assertion t d) \<noteq> Inr False"
  using assms by (auto simp: claim_assertion_def transact_def Let_def split: sum.splits)

lemma issue_round_answers:
  assumes "step_up_wf d"
  shows "fst (issue_round E claims k ctx d) \<noteq> Inr None"
proof -
  let ?d = "expireDue (clock E 0) d"
  have wf: "step_up_wf ?d" using assms by (rule expireDue_wf)
  have claim: "fst (issue_new E claims k ctx c a ?d) \<noteq> Inr None"
    if f: "find_row (owned_challenge claims k) (step_ups ?d) = Some c" and p: "sup_status c = StepUp_PENDING" for c a
  proof -
    have c: "c \<in> set (step_ups ?d)" "sup_id c = k" "sup_userId c = prn_sub claims"
      using find_row_SomeD [OF f] by (auto simp: owned_challenge_def)
    have "count_rows (\<lambda>x. sup_id x = k \<and> (sup_userId x = prn_sub claims
        \<and> sup_status x = StepUp_PENDING \<and> clock E 0 < sup_expiresAt x)) (step_ups ?d) = 1"
      using wf c p expireDue_rows [OF c(1)] by (intro count_rows_key_1) (auto simp: step_up_wf_def)
    then have "count_rows (claimable claims k (clock E 0)) (step_ups ?d) = 1"
      by (simp add: claimable_def [abs_def])
    from claim_assertion_claims [OF this] show ?thesis
      by (auto simp: issue_new_def Let_def split: sum.splits prod.splits) (metis fst_conv)
  qed
  have ver: "\<exists>s t. sup_assertionEncrypted c = Some s \<and> s \<noteq> [] \<and> sup_assertionExpiresAt c = Some t \<and> clock E 0 < t"
    if f: "find_row (owned_challenge claims k) (step_ups ?d) = Some c" and v: "sup_status c = StepUp_VERIFIED" for c
    using wf find_row_SomeD [OF f] expireDue_rows [of c "clock E 0" d] v unfolding step_up_wf_def by fastforce
  show ?thesis
  proof (cases "find_row (owned_challenge claims k) (step_ups ?d)")
    case None
    then show ?thesis by (simp add: issue_round_def Let_def)
  next
    case (Some c)
    show ?thesis
      using claim [OF Some] ver [OF Some]
      by (cases "sup_status c") (auto simp: issue_round_def Some Let_def split: option.splits sum.splits)
  qed
qed

lemma issueAssertion_answers:
  assumes "step_up_wf d"
  shows "\<exists>res. issueAssertion Es n claims k ctx d = Some (res, snd (issue_round (Es n) claims k ctx d))"
proof -
  obtain res d1 where r: "issue_round (Es n) claims k ctx d = (res, d1)" by force
  have "res \<noteq> Inr None" using issue_round_answers [OF assms, of "Es n" claims k ctx] r by simp
  then show ?thesis
    by (subst issueAssertion.simps) (auto simp: r split: sum.splits option.splits)
qed

text \<open>Consumption: what it needs, and that it happens once.\<close>

lemma consumeAssertion_InrE:
  assumes "consumeAssertion E service input d = (Inr r, d')"
  obtains c where "c \<in> set (step_ups (expireDue (clock E 0) d))"
    and "sup_assertionDigest c = Some (token_digest E (csi_assertion input))"
    and "sup_status c = StepUp_VERIFIED" and "PURPOSE_CONSUMERS (sup_purpose c) = Some service"
    and "sup_userId c = csi_userId input" and "sup_purpose c = sui_purpose input"
    and "sup_targetDigest c = targetDigest E (sui_purpose input) (sui_target input)"
    and "\<exists>t. sup_assertionExpiresAt c = Some t \<and> clock E 0 < t"
    and "csa_attemptId r = sup_attemptId c" and "csa_userId r = sup_userId c"
    and "step_ups d' = update_rows (consumable_assertion (sup_id c) (clock E 0))
      (\<lambda>c. c\<lparr>sup_status := StepUp_CONSUMED, sup_consumedAt := Some (clock E 0),
             sup_consumedByService := Some service, sup_assertionEncrypted := None\<rparr>)
      (step_ups (expireDue (clock E 0) d))"
proof -
  obtain c where f: "find_row (\<lambda>c. sup_assertionDigest c = Some (token_digest E (csi_assertion input)))
      (step_ups (expireDue (clock E 0) d)) = Some c"
    using assms by (auto simp: consumeAssertion_unfold Let_def split: sum.splits if_splits option.splits)
  note eq = assms [unfolded consumeAssertion_unfold Let_def f option.case]
  show ?thesis
    using eq find_row_SomeD [OF f] that [of c]
    by (auto split: sum.splits if_splits option.splits)
qed

lemma expireDue_origin:
  assumes "c \<in> set (step_ups (expireDue now d))" and "sup_status c = StepUp_VERIFIED"
  shows "c \<in> set (step_ups d)"
  using assms by (auto simp: expireDue_def elim!: in_update_rowsE)

definition assertion_spent :: "string \<Rightarrow> db \<Rightarrow> bool" where
  "assertion_spent k d \<longleftrightarrow>
     (\<forall>c \<in> set (step_ups d). sup_assertionDigest c = Some k \<longrightarrow> sup_status c \<noteq> StepUp_VERIFIED)"

definition consume_attempt :: "env \<times> string \<times> consume_input \<Rightarrow> db \<Rightarrow> consumed_assertion result \<times> db" where
  "consume_attempt a d = (case a of (E, service, input) \<Rightarrow> consumeAssertion E service input d)"

definition presents :: "string \<Rightarrow> env \<times> string \<times> consume_input \<Rightarrow> bool" where
  "presents k a = (case a of (E, service, input) \<Rightarrow> token_digest E (csi_assertion input) = k)"

lemma assertion_spent_expireDue: "assertion_spent k d \<Longrightarrow> assertion_spent k (expireDue now d)"
  by (auto simp: assertion_spent_def expireDue_def elim!: in_update_rowsE)

lemma consume_keeps_spent:
  assumes "assertion_spent k d"
  shows "assertion_spent k (snd (consumeAssertion E service input d))"
proof -
  have s: "assertion_spent k (expireDue (clock E 0) d)" by (rule assertion_spent_expireDue [OF assms])
  then have "assertion_spent k ((expireDue (clock E 0) d)\<lparr>step_ups := update_rows (consumable_assertion i t)
     (\<lambda>c. c\<lparr>sup_status := StepUp_CONSUMED, sup_consumedAt := Some t,
            sup_consumedByService := Some service, sup_assertionEncrypted := None\<rparr>)
     (step_ups (expireDue (clock E 0) d))\<rparr>)" for i t
    by (auto simp: assertion_spent_def elim!: in_update_rowsE)
  with s assms show ?thesis
    by (auto simp: consumeAssertion_unfold Let_def split: sum.splits option.splits)
qed

interpretation sa: single_use consume_attempt "assertion_spent k" step_up_wf "presents k" for k
proof
  fix d and a :: "env \<times> string \<times> consume_input"
  obtain E service input where a: "a = (E, service, input)" by (cases a)
  assume wf: "step_up_wf d" and p: "presents k a"
  show "step_up_wf (snd (consume_attempt a d))"
    using consumeAssertion_wf [OF wf] by (simp add: a consume_attempt_def)
  show "assertion_spent k (snd (consume_attempt a d))" if "assertion_spent k d"
    using consume_keeps_spent [OF that] by (simp add: a consume_attempt_def)
  assume "succeeded (fst (consume_attempt a d))"
  then obtain r d' where r: "consumeAssertion E service input d = (Inr r, d')"
    by (auto simp: a consume_attempt_def succeeded_def split: sum.splits) (metis prod.collapse)
  have k: "token_digest E (csi_assertion input) = k" using p by (simp add: presents_def a)
  show "\<not> assertion_spent k d" and "assertion_spent k (snd (consume_attempt a d))"
  proof -
    obtain c where c: "c \<in> set (step_ups (expireDue (clock E 0) d))"
      "sup_assertionDigest c = Some k" "sup_status c = StepUp_VERIFIED"
      and t: "\<exists>t. sup_assertionExpiresAt c = Some t \<and> clock E 0 < t"
      and d': "step_ups d' = update_rows (consumable_assertion (sup_id c) (clock E 0))
        (\<lambda>c. c\<lparr>sup_status := StepUp_CONSUMED, sup_consumedAt := Some (clock E 0),
             sup_consumedByService := Some service, sup_assertionEncrypted := None\<rparr>)
        (step_ups (expireDue (clock E 0) d))"
      by (rule consumeAssertion_InrE [OF r, unfolded k])
    show "\<not> assertion_spent k d"
      using expireDue_origin [OF c(1,3)] c unfolding assertion_spent_def by blast
    have wf1: "step_up_wf (expireDue (clock E 0) d)" using wf by (rule expireDue_wf)
    have only: "x = c" if "x \<in> set (step_ups (expireDue (clock E 0) d))" "sup_assertionDigest x = Some k" for x
      using wf1 that c unfolding step_up_wf_def by (metis option.discI)
    have "consumable_assertion (sup_id c) (clock E 0) c" using c t by (auto simp: consumable_assertion_def)
    then have "assertion_spent k d'"
      using only unfolding assertion_spent_def d' ball_update_rows by auto
    then show "assertion_spent k (snd (consume_attempt a d))" by (simp add: a consume_attempt_def r)
  qed
qed

text \<open>The same where the readings of the consumptions are long past: their updates, in any order, win once.\<close>

definition claim_attempt :: "string \<times> int \<times> step_up_row \<Rightarrow> db \<Rightarrow> consumed_assertion result \<times> db" where
  "claim_attempt a d = (case a of (service, now, c) \<Rightarrow> consume_claim service now c d)"

definition claims_challenge :: "string \<Rightarrow> string \<times> int \<times> step_up_row \<Rightarrow> bool" where
  "claims_challenge k a \<longleftrightarrow> (case a of (service, now, c) \<Rightarrow> sup_id c = k)"

definition challenge_spent :: "string \<Rightarrow> db \<Rightarrow> bool" where
  "challenge_spent k d \<longleftrightarrow> (\<forall>c \<in> set (step_ups d). sup_id c = k \<longrightarrow> sup_status c \<noteq> StepUp_VERIFIED)"

interpretation ca: single_use claim_attempt "challenge_spent k" "\<lambda>d :: db. distinct (map sup_id (step_ups d))"
  "claims_challenge k" for k
proof
  fix d :: db and a :: "string \<times> int \<times> step_up_row"
  obtain service now c where a: "a = (service, now, c)" by (cases a)
  assume ids: "distinct (map sup_id (step_ups d))" and k: "claims_challenge k a"
  let ?P = "consumable_assertion (sup_id c) now"
  let ?f = "\<lambda>c. c\<lparr>sup_status := StepUp_CONSUMED, sup_consumedAt := Some now,
    sup_consumedByService := Some service, sup_assertionEncrypted := None\<rparr>"
  have d': "step_ups (snd (claim_attempt a d)) = update_rows ?P ?f (step_ups d)"
    by (simp add: a claim_attempt_def consume_claim_def Let_def)
  have id: "sup_id c = k" using k by (simp add: a claims_challenge_def)
  show "distinct (map sup_id (step_ups (snd (claim_attempt a d))))"
    using ids by (simp add: d' map_update_rows)
  show "challenge_spent k (snd (claim_attempt a d))" if "challenge_spent k d"
    using that by (auto simp: challenge_spent_def d' elim!: in_update_rowsE)
  assume "succeeded (fst (claim_attempt a d))"
  then have "count_rows ?P (step_ups d) = 1"
    by (simp add: a claim_attempt_def consume_claim_def Let_def split: if_split_asm)
  then have "0 < count_rows ?P (step_ups d)" by simp
  then obtain x where x: "x \<in> set (step_ups d)" "?P x" by (auto simp: count_rows_pos_iff)
  then have xk: "sup_id x = k" "sup_status x = StepUp_VERIFIED" by (simp_all add: consumable_assertion_def id)
  show "\<not> challenge_spent k d" using x xk by (auto simp: challenge_spent_def)
  have "y = x" if "y \<in> set (step_ups d)" "sup_id y = k" for y
    using ids that x(1) xk(1) by (metis distinct_map inj_onD)
  then show "challenge_spent k (snd (claim_attempt a d))"
    using x(2) by (auto simp: challenge_spent_def d' ball_update_rows)
qed

text \<open>An assertion that was issued can be consumed, by the service its purpose names, while it lasts.\<close>

lemma targetDigest_clock [simp]: "targetDigest (E\<lparr>clock := T\<rparr>) p x = targetDigest E p x"
  by (simp add: targetDigest_def requestContext_def digest_def)

lemma token_digest_clock [simp]: "token_digest (E\<lparr>clock := T\<rparr>) x = token_digest E x"
  by (simp add: token_digest_def digest_def)

lemma consumeAssertion_accepts:
  assumes wf: "step_up_wf d" and c: "c \<in> set (step_ups d)" "sup_status c = StepUp_VERIFIED"
    "sup_assertionDigest c = Some (token_digest E (csi_assertion input))"
    and t: "sup_assertionExpiresAt c = Some t" "clock E 0 < t" "clock E 0 < sup_expiresAt c"
    and p: "PURPOSE_CONSUMERS (sup_purpose c) = Some service" "sui_purpose input = sup_purpose c"
    and u: "csi_userId input = sup_userId c"
    and g: "targetDigest E (sup_purpose c) (sui_target input) = sup_targetDigest c"
  shows "fst (consumeAssertion E service input d) =
    Inr \<lparr>csa_userId = sup_userId c, csa_purpose = sup_purpose c, csa_attemptId = sup_attemptId c,
         csa_verifiedAt = sup_verifiedAt c, csa_consumedAt = clock E 0\<rparr>"
proof -
  let ?d = "expireDue (clock E 0) d"
  have wf1: "step_up_wf ?d" using wf by (rule expireDue_wf)
  have "\<not> step_up_due (clock E 0) c" using t by (simp add: step_up_due_def)
  then have c1: "c \<in> set (step_ups ?d)" using c(1) unfolding expireDue_def by (auto simp: set_update_rows image_iff)
  have f: "find_row (\<lambda>x. sup_assertionDigest x = Some (token_digest E (csi_assertion input))) (step_ups ?d) = Some c"
    using c1 c(3) wf1 by (intro find_row_unique) (auto simp: step_up_wf_def)
  have "count_rows (\<lambda>x. sup_id x = sup_id c \<and> (sup_status x = StepUp_VERIFIED
      \<and> (case sup_assertionExpiresAt x of None \<Rightarrow> False | Some t \<Rightarrow> clock E 0 < t))) (step_ups ?d) = 1"
    using wf1 c1 c t by (intro count_rows_key_1) (auto simp: step_up_wf_def)
  then have n: "count_rows (consumable_assertion (sup_id c) (clock E 0)) (step_ups ?d) = 1"
    by (simp add: consumable_assertion_def [abs_def])
  have a: "assertPurpose (sup_purpose c) = Inr ()"
    using p(1) by (cases "sup_purpose c") (simp_all add: assertPurpose_def isStepUpPurpose_def STEP_UP_PURPOSES_def)
  show ?thesis
    using p u g t c(2) by (simp add: consumeAssertion_unfold a f n Let_def)
qed

lemma issued_consumable:
  assumes wf: "step_up_wf d" and laws: "json_laws E"
    and c: "c \<in> set (step_ups d)" "sup_status c = StepUp_PENDING" "clock E 0 < sup_expiresAt c"
      "sup_assertionExpiresAt c = None" "sup_userId c = prn_sub claims"
    and a: "find_row (\<lambda>a. att_id a = sup_attemptId c) (attempts d) = Some a" "att_status a = Attempt_PASSED"
    and bytes: "length (random_bytes E 1 12) = 12"
    and fresh: "\<forall>c \<in> set (step_ups d). sup_assertionDigest c \<noteq> Some (token_digest E (b64_encode (random_bytes E 0 48)))"
  shows "\<exists>x t d1. issue_round E claims (sup_id c) ctx d = (Inr (Some (x, t)), d1)
    \<and> t = min (sup_expiresAt c) (clock E 0 + seconds E ''STEP_UP_ASSERTION_TTL_SECONDS'')
    \<and> (\<forall>T service input. T 0 < t \<longrightarrow> PURPOSE_CONSUMERS (sup_purpose c) = Some service \<longrightarrow>
         csi_assertion input = x \<longrightarrow> csi_userId input = sup_userId c \<longrightarrow> sui_purpose input = sup_purpose c \<longrightarrow>
         targetDigest E (sup_purpose c) (sui_target input) = sup_targetDigest c \<longrightarrow>
         fst (consumeAssertion (E\<lparr>clock := T\<rparr>) service input d1) =
           Inr \<lparr>csa_userId = sup_userId c, csa_purpose = sup_purpose c, csa_attemptId = sup_attemptId c,
                csa_verifiedAt = Some (clock E 0), csa_consumedAt = T 0\<rparr>)"
proof -
  let ?d = "expireDue (clock E 0) d" and ?x = "b64_encode (random_bytes E 0 48)"
  let ?t = "min (sup_expiresAt c) (clock E 0 + seconds E ''STEP_UP_ASSERTION_TTL_SECONDS'')"
  let ?P = "claimable claims (sup_id c) (clock E 0)"
  have wf1: "step_up_wf ?d" using wf by (rule expireDue_wf)
  have "\<not> step_up_due (clock E 0) c" using c by (simp add: step_up_due_def)
  then have c1: "c \<in> set (step_ups ?d)" using c(1) unfolding expireDue_def by (auto simp: set_update_rows image_iff)
  have f: "find_row (owned_challenge claims (sup_id c)) (step_ups ?d) = Some c"
    using c1 c(5) wf1 distinct_key_eq [of sup_id "step_ups ?d" _ c]
    by (intro find_row_unique) (auto simp: step_up_wf_def owned_challenge_def)
  have "count_rows (\<lambda>x. sup_id x = sup_id c \<and> (sup_userId x = prn_sub claims
      \<and> sup_status x = StepUp_PENDING \<and> clock E 0 < sup_expiresAt x)) (step_ups ?d) = 1"
    using wf1 c1 c by (intro count_rows_key_1) (auto simp: step_up_wf_def)
  then have n: "count_rows ?P (step_ups ?d) = 1" by (simp add: claimable_def [abs_def])
  obtain s where s: "seal E 1 ?x Step_Up_Assertion = Inr s" using seal_total [OF bytes] by blast
  define F :: "step_up_row \<Rightarrow> step_up_row" where "F = (\<lambda>c. c\<lparr>sup_status := StepUp_VERIFIED, sup_assertionDigest := Some (token_digest E ?x),
    sup_assertionEncrypted := Some s, sup_verifiedAt := Some (clock E 0), sup_assertionExpiresAt := Some ?t\<rparr>)"
  obtain d1 where r: "issue_round E claims (sup_id c) ctx d = (Inr (Some (?x, ?t)), d1)"
    and d1: "step_ups d1 = update_rows ?P F (step_ups ?d)"
    using a c(2) by (auto simp: issue_round_def f issue_new_def claim_assertion_def transact_def n s F_def Let_def
        simp del: One_nat_def split: step_up_status.splits)
  have "step_up_wf d1" using issue_round_wf [OF wf laws fresh, of claims "sup_id c" ctx] by (simp add: r)
  moreover have "F c \<in> set (step_ups d1)"
    using c1 c by (auto simp: d1 set_update_rows claimable_def intro!: image_eqI [of _ _ c])
  ultimately show ?thesis
    using consumeAssertion_accepts [of d1 "F c" "E\<lparr>clock := T\<rparr>" for T] r by (auto simp: F_def)
qed

end
