(* ===== verification/MediaCleanup.thy ===== *)
theory MediaCleanup
  imports StepUp
begin

text \<open>
  The verification media in object storage: \<open>VerificationStorageService\<close>
  (\<open>integrations/verification-storage\<close>) and \<open>VerificationCleanupService\<close>
  (\<open>modules/identity-verification/verification-cleanup.service.ts\<close>).  The storage provider is a
  parameter: what it answers to a request, and the deletions it has accepted so far.
\<close>

subsection \<open>Object storage\<close>

record head_response =
  hdr_size :: "nat option"
  hdr_contentType :: "string option"
  hdr_checksum :: "string option"
  hdr_metadata :: "string \<Rightarrow> string option"
  hdr_version :: "string option"

record storage_object =
  sob_key :: string
  sob_lastModified :: int

text \<open>\<open>None\<close> of \<open>sto_head\<close> and \<open>sto_list\<close>, and \<open>sto_fails\<close>: the request raises.\<close>

record storage =
  sto_head :: "string \<Rightarrow> head_response option"
  sto_list :: "nat \<Rightarrow> string option \<Rightarrow> (storage_object list \<times> string option) option"
  sto_fails :: "string \<Rightarrow> bool"
  sto_deleted :: "(string \<times> string option) list"

record confirmed_object =
  cob_version :: "string option"
  cob_checksum :: string
  cob_contentType :: string
  cob_size :: nat

record upload_input =
  upl_mediaType :: media_type
  upl_contentType :: string
  upl_checksum :: string
  upl_width :: nat
  upl_height :: nat

record confirm_input = upload_input +
  upl_objectKey :: string

abbreviation storage_error :: api_error where
  "storage_error \<equiv> Raised ''storage''"

text \<open>\<open>String(n)\<close>, and the text of a media type.\<close>

fun decimal_digits :: "nat \<Rightarrow> string" where
  "decimal_digits n = (if n < 10 then [char_of (48 + n)]
     else decimal_digits (n div 10) @ [char_of (48 + n mod 10)])"

declare decimal_digits.simps [simp del]

fun media_text :: "media_type \<Rightarrow> string" where
  "media_text ID_DOCUMENT = ''ID_DOCUMENT''"
| "media_text (Media_Other s) = s"

definition confirmObject :: "env \<Rightarrow> confirm_input \<Rightarrow> string \<Rightarrow> storage \<Rightarrow> confirmed_object result" where
  "confirmObject E input attemptId st = (case sto_head st (upl_objectKey input) of
     None \<Rightarrow> Inl storage_error
   | Some response \<Rightarrow>
       (let size = (case hdr_size response of None \<Rightarrow> 0 | Some n \<Rightarrow> n); metadata = hdr_metadata response
        in if size < 1 \<or> size > cfg_num E ''VERIFICATION_MEDIA_MAX_SIZE_BYTES''
              \<or> hdr_contentType response \<noteq> Some (upl_contentType input)
              \<or> hdr_checksum response \<noteq> Some (upl_checksum input)
              \<or> metadata ''attempt-id'' \<noteq> Some attemptId
              \<or> metadata ''media-type'' \<noteq> Some (media_text (upl_mediaType input))
              \<or> metadata ''width'' \<noteq> Some (decimal_digits (upl_width input))
              \<or> metadata ''height'' \<noteq> Some (decimal_digits (upl_height input))
           then Inl (Raised ''Verification object metadata does not match policy'')
           else Inr \<lparr>cob_version = hdr_version response, cob_checksum = upl_checksum input,
                  cob_contentType = upl_contentType input, cob_size = size\<rparr>))"

definition deleteObject :: "string \<Rightarrow> string option \<Rightarrow> storage \<Rightarrow> unit result \<times> storage" where
  "deleteObject key version st =
     (if sto_fails st key then (Inl storage_error, st)
      else (Inr (), st\<lparr>sto_deleted := sto_deleted st @ [(key, version)]\<rparr>))"

definition objectReferenceDigest :: "env \<Rightarrow> string \<Rightarrow> string" where
  "objectReferenceDigest E key = sha256_base64url E key"

text \<open>The upload policy: the conditions a presigned post is bound to.\<close>

record upload_policy =
  upo_objectKey :: string
  upo_conditions :: "(string \<times> string) list"
  upo_maximumSizeBytes :: nat
  upo_expiresAt :: int

definition storage_upload_policy :: "env \<Rightarrow> string \<Rightarrow> upload_input \<Rightarrow> upload_policy" where
  "storage_upload_policy E attemptId input =
     (let key = cfg_str E ''AWS_S3_VERIFICATION_PREFIX'' @ attemptId @ ''/'' @ uuid E 0
      in \<lparr>upo_objectKey = key,
          upo_conditions =
            [(''key'', key), (''Content-Type'', upl_contentType input),
             (''x-amz-checksum-sha256'', upl_checksum input), (''x-amz-meta-attempt-id'', attemptId),
             (''x-amz-meta-media-type'', media_text (upl_mediaType input)),
             (''x-amz-meta-width'', decimal_digits (upl_width input)),
             (''x-amz-meta-height'', decimal_digits (upl_height input))],
          upo_maximumSizeBytes = cfg_num E ''VERIFICATION_MEDIA_MAX_SIZE_BYTES'',
          upo_expiresAt = clock E 0 + seconds E ''VERIFICATION_UPLOAD_TTL_SECONDS''\<rparr>)"

subsection \<open>Deleting the media of an attempt\<close>

definition not_held :: "int \<Rightarrow> media_row \<Rightarrow> bool" where
  "not_held now m \<longleftrightarrow> (case med_legalHoldUntil m of None \<Rightarrow> True | Some t \<Rightarrow> t \<le> now)"

text \<open>\<open>encryption.open\<close>, then \<open>storage.deleteObject\<close>.\<close>

definition delete_media_object :: "env \<Rightarrow> media_row \<Rightarrow> storage \<Rightarrow> unit result \<times> storage" where
  "delete_media_object E m st = (case open_sealed E (med_reference m) Verification_Media_Reference of
     Inl e \<Rightarrow> (Inl e, st)
   | Inr key \<Rightarrow> deleteObject key (med_objectVersion m) st)"

definition mark_deleted :: "string \<Rightarrow> (media_row \<Rightarrow> media_row) \<Rightarrow> db \<Rightarrow> db" where
  "mark_deleted k f d = d\<lparr>media := update_rows (\<lambda>m. med_id m = k \<and> med_deletedAt m = None) f (media d)\<rparr>"

fun delete_each :: "env \<Rightarrow> media_row list \<Rightarrow> db \<Rightarrow> storage \<Rightarrow> db \<times> storage" where
  "delete_each E [] d st = (d, st)"
| "delete_each E (m # ms) d st =
     (case delete_media_object E m st of
        (Inl e, st1) \<Rightarrow> delete_each E ms d st1
      | (Inr _, st1) \<Rightarrow>
          delete_each E ms (mark_deleted (med_id m) (\<lambda>m. m\<lparr>med_deletedAt := Some (clock E 1)\<rparr>) d) st1)"

definition deleteAttemptMedia :: "env \<Rightarrow> string \<Rightarrow> db \<Rightarrow> storage \<Rightarrow> db \<times> storage" where
  "deleteAttemptMedia E attemptId d st =
     delete_each E (take_rows 3 (\<lambda>m. med_attemptId m = attemptId \<and> med_deletedAt m = None
        \<and> not_held (clock E 0) m) (media d)) d st"

subsection \<open>Expired media\<close>

definition deletable_media :: "int \<Rightarrow> db \<Rightarrow> media_row \<Rightarrow> bool" where
  "deletable_media now d m \<longleftrightarrow> med_deletedAt m = None \<and> med_expiresAt m \<le> now
     \<and> med_nextDeletionAttemptAt m \<le> now \<and> not_held now m
     \<and> (case find_row (\<lambda>a. att_id a = med_attemptId m) (attempts d) of
          None \<Rightarrow> False | Some a \<Rightarrow> att_status a \<noteq> Attempt_REVIEW_REQUIRED)"

definition retry_delay_seconds :: "env \<Rightarrow> nat \<Rightarrow> nat" where
  "retry_delay_seconds E count = min (cfg_num E ''MEDIA_DELETE_RETRY_MAX_SECONDS'')
     (cfg_num E ''MEDIA_DELETE_RETRY_BASE_SECONDS'' * 2 ^ min count 10)"

text \<open>The loop over a batch, with the count of rows it marked.\<close>

fun delete_batch :: "env \<Rightarrow> media_row list \<Rightarrow> db \<Rightarrow> storage \<Rightarrow> nat \<times> db \<times> storage" where
  "delete_batch E [] d st = (0, d, st)"
| "delete_batch E (m # ms) d st =
     (case delete_media_object E m st of
        (Inr _, st1) \<Rightarrow>
          (let updated = count_rows (\<lambda>x. med_id x = med_id m \<and> med_deletedAt x = None) (media d);
               d1 = mark_deleted (med_id m)
                 (\<lambda>x. x\<lparr>med_deletedAt := Some (clock E 1), med_lastDeletionError := None\<rparr>) d
           in (case delete_batch E ms d1 st1 of (n, d2, st2) \<Rightarrow> (updated + n, d2, st2)))
      | (Inl e, st1) \<Rightarrow>
          delete_batch E ms (mark_deleted (med_id m)
            (\<lambda>x. x\<lparr>med_deletionAttemptCount := med_deletionAttemptCount x + 1,
                   med_nextDeletionAttemptAt := clock E 1
                     + int (retry_delay_seconds E (med_deletionAttemptCount m)) * 1000,
                   med_lastDeletionError := Some ''OBJECT_DELETE_FAILED''\<rparr>) d) st1)"

definition expired_batch :: "env \<Rightarrow> db \<Rightarrow> media_row list" where
  "expired_batch E d = take_rows_asc med_expiresAt (cfg_num E ''OPERATIONAL_JOB_BATCH_SIZE'')
     (deletable_media (clock E 0) d) (media d)"

definition deleteExpiredMediaBatch :: "env \<Rightarrow> db \<Rightarrow> storage \<Rightarrow> nat \<times> db \<times> storage" where
  "deleteExpiredMediaBatch E d st = delete_batch E (expired_batch E d) d st"

text \<open>The service in one process: its running flag and the continuation token of the orphan scan.\<close>

record cleaner =
  cln_running :: bool
  cln_token :: "string option"

type_synonym cleanup_state = "db \<times> storage \<times> cleaner"

definition expired_work :: "env \<Rightarrow> cleanup_state \<Rightarrow> redis \<Rightarrow> nat result \<times> cleanup_state \<times> redis" where
  "expired_work E s r = (case s of (d, st, c) \<Rightarrow>
     (case deleteExpiredMediaBatch E d st of (n, d1, st1) \<Rightarrow> (Inr n, (d1, st1, c), r)))"

definition set_running :: "bool \<Rightarrow> cleanup_state \<Rightarrow> cleanup_state" where
  "set_running b s = (case s of (d, st, c) \<Rightarrow> (d, st, c\<lparr>cln_running := b\<rparr>))"

definition reconcileExpiredMedia :: "env \<Rightarrow> nat \<Rightarrow> cleanup_state \<Rightarrow> redis \<Rightarrow> nat result \<times> cleanup_state \<times> redis" where
  "reconcileExpiredMedia E i s r =
     (if cln_running (snd (snd s)) then (Inr 0, s, r)
      else (case runExclusive E i ''verification-media-cleanup''
             (cfg_num E ''OPERATIONAL_JOB_LOCK_TTL_SECONDS'') (expired_work E) (set_running True s) r of
           (Inl e, s1, r1) \<Rightarrow> (Inl e, set_running False s1, r1)
         | (Inr n, s1, r1) \<Rightarrow> (Inr (case n of None \<Rightarrow> 0 | Some k \<Rightarrow> k), set_running False s1, r1)))"

subsection \<open>Orphaned objects\<close>

text \<open>
  The scan of rows written before the digest column: their digests by row, and whether one could
  not be read.
\<close>

fun scan_legacy :: "env \<Rightarrow> media_row list \<Rightarrow> db \<Rightarrow> (string \<times> string) list \<times> bool \<times> db" where
  "scan_legacy E [] d = ([], False, d)"
| "scan_legacy E (m # ms) d =
     (case open_sealed E (med_reference m) Verification_Media_Reference of
        Inl e \<Rightarrow> (case scan_legacy E ms d of (known, unreadable, d1) \<Rightarrow> (known, True, d1))
      | Inr key \<Rightarrow>
          (let digest = objectReferenceDigest E key;
               d1 = d\<lparr>media := update_rows (\<lambda>x. med_id x = med_id m \<and> med_referenceDigest x = None)
                 (\<lambda>x. x\<lparr>med_referenceDigest := Some digest\<rparr>) (media d)\<rparr>
           in (case scan_legacy E ms d1 of
                 (known, unreadable, d2) \<Rightarrow> ((digest, med_id m) # known, unreadable, d2))))"

fun delete_orphans :: "env \<Rightarrow> int \<Rightarrow> (string \<Rightarrow> bool) \<Rightarrow> bool \<Rightarrow> storage_object list \<Rightarrow> storage \<Rightarrow> nat \<times> storage" where
  "delete_orphans E cutoff tracked scanComplete [] st = (0, st)"
| "delete_orphans E cutoff tracked scanComplete (ob # obs) st =
     (if sob_lastModified ob > cutoff then delete_orphans E cutoff tracked scanComplete obs st
      else if \<not> tracked (objectReferenceDigest E (sob_key ob)) \<and> scanComplete
      then (case deleteObject (sob_key ob) None st of
          (Inl e, st1) \<Rightarrow> delete_orphans E cutoff tracked scanComplete obs st1
        | (Inr _, st1) \<Rightarrow>
            (case delete_orphans E cutoff tracked scanComplete obs st1 of (n, st2) \<Rightarrow> (n + 1, st2)))
      else delete_orphans E cutoff tracked scanComplete obs st)"

definition legacy_media :: "nat \<Rightarrow> db \<Rightarrow> media_row list" where
  "legacy_media batchSize d =
     take_rows batchSize (\<lambda>m. med_referenceDigest m = None \<and> med_deletedAt m = None) (media d)"

definition orphan_work :: "env \<Rightarrow> cleanup_state \<Rightarrow> redis \<Rightarrow> nat result \<times> cleanup_state \<times> redis" where
  "orphan_work E s r = (case s of (d, st, c) \<Rightarrow>
     (let cutoff = clock E 0 - seconds E ''VERIFICATION_ORPHAN_GRACE_SECONDS'';
          batchSize = cfg_num E ''OPERATIONAL_JOB_BATCH_SIZE''
      in (case sto_list st batchSize (cln_token c) of
            None \<Rightarrow> (Inl storage_error, (d, st, c), r)
          | Some (objects, next_token) \<Rightarrow>
              (case scan_legacy E (legacy_media batchSize d) d of (legacyByDigest, unreadable, d1) \<Rightarrow>
                 (let scanComplete = length (legacy_media batchSize d) < batchSize \<and> \<not> unreadable;
                      pageDigests = map (\<lambda>ob. objectReferenceDigest E (sob_key ob)) objects;
                      trackedMedia = filter (\<lambda>m. case med_referenceDigest m of
                          None \<Rightarrow> False | Some x \<Rightarrow> x \<in> set pageDigests) (media d1);
                      tracked = (\<lambda>x. (case map_of (rev legacyByDigest) x of None \<Rightarrow> False | Some i \<Rightarrow> i \<noteq> [])
                         \<or> list_ex (\<lambda>m. med_referenceDigest m = Some x \<and> x \<noteq> []) trackedMedia)
                  in (case delete_orphans E cutoff tracked scanComplete objects st of
                        (n, st1) \<Rightarrow> (Inr n, (d1, st1, c\<lparr>cln_token := next_token\<rparr>), r)))))))"

definition reconcileOrphanedObjects :: "env \<Rightarrow> nat \<Rightarrow> cleanup_state \<Rightarrow> redis \<Rightarrow> nat result \<times> cleanup_state \<times> redis" where
  "reconcileOrphanedObjects E i s r =
     (case runExclusive E i ''verification-object-reconciliation''
         (cfg_num E ''OPERATIONAL_JOB_LOCK_TTL_SECONDS'') (orphan_work E) s r of
        (Inl e, s1, r1) \<Rightarrow> (Inl e, s1, r1)
      | (Inr n, s1, r1) \<Rightarrow> (Inr (case n of None \<Rightarrow> 0 | Some k \<Rightarrow> k), s1, r1))"

definition runMaintenance :: "env \<Rightarrow> nat \<Rightarrow> cleanup_state \<Rightarrow> redis \<Rightarrow> (nat \<times> nat) result \<times> cleanup_state \<times> redis" where
  "runMaintenance E i s r = (case reconcileExpiredMedia E i s r of
     (Inl e, s1, r1) \<Rightarrow> (Inl e, s1, r1)
   | (Inr n, s1, r1) \<Rightarrow>
       (case reconcileOrphanedObjects E (i + 1) s1 r1 of
          (Inl e, s2, r2) \<Rightarrow> (Inl e, s2, r2)
        | (Inr k, s2, r2) \<Rightarrow> (Inr (n, k), s2, r2)))"

subsection \<open>What the cleanup shows\<close>

text \<open>Every object the batch deletes belongs to a row of the batch.\<close>

lemma delete_media_object_log:
  "delete_media_object E m st = (res, st1) \<Longrightarrow>
     sto_deleted st1 = sto_deleted st \<or>
     (\<exists>key. open_sealed E (med_reference m) Verification_Media_Reference = Inr key
        \<and> sto_deleted st1 = sto_deleted st @ [(key, med_objectVersion m)])"
  by (auto simp: delete_media_object_def deleteObject_def split: sum.splits if_splits)

lemma delete_batch_log:
  assumes "x \<in> set (sto_deleted (snd (snd (delete_batch E ms d st))))"
  shows "x \<in> set (sto_deleted st) \<or>
    (\<exists>m \<in> set ms. open_sealed E (med_reference m) Verification_Media_Reference = Inr (fst x)
       \<and> snd x = med_objectVersion m)"
  using assms
proof (induction ms arbitrary: d st)
  case Nil
  then show ?case by simp
next
  case (Cons m ms)
  obtain res st1 where r: "delete_media_object E m st = (res, st1)" by force
  from Cons.prems have "\<exists>d1. x \<in> set (sto_deleted (snd (snd (delete_batch E ms d1 st1))))"
    by (cases res) (auto simp: r Let_def split: prod.splits, (metis snd_conv)+)
  with Cons.IH have "x \<in> set (sto_deleted st1) \<or>
    (\<exists>m \<in> set ms. open_sealed E (med_reference m) Verification_Media_Reference = Inr (fst x)
       \<and> snd x = med_objectVersion m)" by blast
  with delete_media_object_log [OF r] show ?case by fastforce
qed

lemma deleteExpiredMediaBatch_log:
  assumes "x \<in> set (sto_deleted (snd (snd (deleteExpiredMediaBatch E d st))))" and "x \<notin> set (sto_deleted st)"
  shows "\<exists>m \<in> set (media d). deletable_media (clock E 0) d m \<and> snd x = med_objectVersion m
    \<and> open_sealed E (med_reference m) Verification_Media_Reference = Inr (fst x)"
  using delete_batch_log [OF assms(1) [unfolded deleteExpiredMediaBatch_def]] assms(2)
    set_take_rows_asc [of med_expiresAt _ "deletable_media (clock E 0) d" "media d"]
  unfolding expired_batch_def by blast

text \<open>Rows the batch did not select keep their columns.\<close>

lemma delete_batch_keeps:
  assumes "x \<in> set (media d)" and "\<forall>m \<in> set ms. med_id m \<noteq> med_id x"
  shows "x \<in> set (media (fst (snd (delete_batch E ms d st))))"
  using assms
proof (induction ms arbitrary: d st)
  case Nil
  then show ?case by simp
next
  case (Cons m ms)
  have k: "x \<in> set (media (mark_deleted (med_id m) f d))" for f
    using Cons.prems by (auto simp: mark_deleted_def set_update_rows intro!: image_eqI [of _ _ x])
  obtain res st1 where r: "delete_media_object E m st = (res, st1)" by force
  show ?case
    using Cons.IH [OF k] Cons.prems(2) by (cases res) (auto simp: r Let_def split: prod.splits, (metis fst_conv snd_conv)+)
qed

text \<open>The back-off of a failed deletion grows and stays bounded.\<close>

lemma retry_delay_bounded: "retry_delay_seconds E n \<le> cfg_num E ''MEDIA_DELETE_RETRY_MAX_SECONDS''"
  by (simp add: retry_delay_seconds_def)

lemma retry_delay_mono: "m \<le> n \<Longrightarrow> retry_delay_seconds E m \<le> retry_delay_seconds E n"
  unfolding retry_delay_seconds_def
  by (intro min.mono order_refl mult_le_mono2 power_increasing) auto

text \<open>What the orphan scan knows: the digest of every legacy row it opened.\<close>

lemma scan_legacy_known:
  assumes "scan_legacy E ms d = (known, False, d1)" and "m \<in> set ms"
  shows "\<exists>key. open_sealed E (med_reference m) Verification_Media_Reference = Inr key
    \<and> (objectReferenceDigest E key, med_id m) \<in> set known"
  using assms by (induction ms arbitrary: d known) (auto simp: Let_def split: sum.splits prod.splits, blast+)

lemma scan_legacy_ids:
  "scan_legacy E ms d = (known, u, d1) \<Longrightarrow> snd ` set known \<subseteq> med_id ` set ms"
proof (induction ms arbitrary: d known u)
  case Nil
  then show ?case by simp
next
  case (Cons m ms)
  obtain known2 u2 d2 where s: "scan_legacy E ms d2 = (known2, u2, d1)"
    and k: "known = known2 \<or> (\<exists>x. known = (x, med_id m) # known2)"
    using Cons.prems by (auto simp: Let_def split: sum.splits prod.splits)
  have "snd ` set known \<subseteq> insert (med_id m) (snd ` set known2)" using k by auto
  then show ?case using Cons.IH [OF s] by (simp add: subset_iff) blast
qed

lemma scan_legacy_keeps:
  "scan_legacy E ms d = (known, u, d1) \<Longrightarrow> x \<in> set (media d) \<Longrightarrow> med_referenceDigest x \<noteq> None \<Longrightarrow>
     x \<in> set (media d1)"
proof (induction ms arbitrary: d known u)
  case Nil
  then show ?case by auto
next
  case (Cons m ms)
  have keep: "x \<in> set (update_rows (\<lambda>y. med_id y = k \<and> med_referenceDigest y = None) f (media d))" for k f
    using Cons.prems(2,3) by (auto simp: set_update_rows intro!: image_eqI [of _ _ x])
  show ?case
  proof (cases "open_sealed E (med_reference m) Verification_Media_Reference")
    case (Inl e)
    with Cons show ?thesis by (auto split: prod.splits)
  next
    case (Inr key)
    show ?thesis
      using Cons.prems(1) Inr Cons.IH [OF _ _ Cons.prems(3)] keep by (auto simp: Let_def split: prod.splits)
  qed
qed

lemma delete_orphans_log:
  assumes "x \<in> set (sto_deleted (snd (delete_orphans E cutoff tracked ok obs st)))"
  shows "x \<in> set (sto_deleted st) \<or>
    (ok \<and> (\<exists>ob \<in> set obs. fst x = sob_key ob \<and> sob_lastModified ob \<le> cutoff
       \<and> \<not> tracked (objectReferenceDigest E (sob_key ob))))"
  using assms
proof (induction obs arbitrary: st)
  case Nil
  then show ?case by simp
next
  case (Cons ob obs)
  obtain res st1 where r: "deleteObject (sob_key ob) None st = (res, st1)" by force
  have log: "sto_deleted st1 = sto_deleted st \<or> sto_deleted st1 = sto_deleted st @ [(sob_key ob, None)]"
    using r by (auto simp: deleteObject_def split: if_splits)
  show ?case
  proof (cases "sob_lastModified ob \<le> cutoff \<and> \<not> tracked (objectReferenceDigest E (sob_key ob)) \<and> ok")
    case True
    then have "x \<in> set (sto_deleted (snd (delete_orphans E cutoff tracked ok obs st1)))"
      using Cons.prems by (cases res) (auto simp: r split: prod.splits)
    from Cons.IH [OF this] log True show ?thesis by auto
  next
    case False
    then have "x \<in> set (sto_deleted (snd (delete_orphans E cutoff tracked ok obs st)))"
      using Cons.prems by (auto split: if_splits)
    from Cons.IH [OF this] show ?thesis by auto
  qed
qed

text \<open>
  No object that a media row refers to is taken for an orphan: neither by its digest, nor, for a
  row without one that is not deleted, by its sealed reference.
\<close>

lemma orphan_work_safe:
  assumes "orphan_work E (d, st, c) r = (Inr n, (d', st', c'), r')"
    and "x \<in> set (sto_deleted st')" "x \<notin> set (sto_deleted st)" and m: "m \<in> set (media d)"
    and nonempty: "objectReferenceDigest E (fst x) \<noteq> []" "[] \<notin> med_id ` set (media d)"
  shows "med_referenceDigest m \<noteq> Some (objectReferenceDigest E (fst x))"
    and "med_referenceDigest m = None \<Longrightarrow> med_deletedAt m = None \<Longrightarrow>
      open_sealed E (med_reference m) Verification_Media_Reference \<noteq> Inr (fst x)"
proof -
  let ?n = "cfg_num E ''OPERATIONAL_JOB_BATCH_SIZE''" and ?x = "objectReferenceDigest E (fst x)"
  obtain objects nt where l: "sto_list st ?n (cln_token c) = Some (objects, nt)"
    using assms(1) by (auto simp: orphan_work_def Let_def split: option.splits)
  obtain known u d1 where s: "scan_legacy E (legacy_media ?n d) d = (known, u, d1)" using prod_cases3 by blast
  define pageDigests where "pageDigests = map (\<lambda>ob. objectReferenceDigest E (sob_key ob)) objects"
  define tracked where "tracked = (\<lambda>x. (case map_of (rev known) x of None \<Rightarrow> False | Some i \<Rightarrow> i \<noteq> [])
     \<or> list_ex (\<lambda>m. med_referenceDigest m = Some x \<and> x \<noteq> [])
        (filter (\<lambda>m. case med_referenceDigest m of None \<Rightarrow> False | Some x \<Rightarrow> x \<in> set pageDigests) (media d1)))"
  define scanned where "scanned = (length (legacy_media ?n d) < ?n \<and> \<not> u)"
  have st': "st' = snd (delete_orphans E (clock E 0 - seconds E ''VERIFICATION_ORPHAN_GRACE_SECONDS'')
      tracked scanned objects st)"
    using assms(1) unfolding tracked_def pageDigests_def scanned_def
    by (simp add: orphan_work_def l s Let_def split: prod.splits)
  obtain ob where ob: "scanned" "ob \<in> set objects" "fst x = sob_key ob" "\<not> tracked ?x"
    using delete_orphans_log [OF assms(2) [unfolded st']] assms(3) by auto
  have page: "?x \<in> set pageDigests" using ob by (auto simp: pageDigests_def)
  show "med_referenceDigest m \<noteq> Some ?x"
  proof
    assume t: "med_referenceDigest m = Some ?x"
    then have "m \<in> set (media d1)" using scan_legacy_keeps [OF s m] by simp
    then have "tracked ?x"
      unfolding tracked_def list_ex_iff using t page nonempty(1) by (intro disjI2 bexI [of _ m]) simp_all
    with ob(4) show False by simp
  qed
  assume legacy: "med_referenceDigest m = None" "med_deletedAt m = None"
  show "open_sealed E (med_reference m) Verification_Media_Reference \<noteq> Inr (fst x)"
  proof
    assume o: "open_sealed E (med_reference m) Verification_Media_Reference = Inr (fst x)"
    have "length (legacy_media ?n d) < ?n" using ob(1) by (simp add: scanned_def)
    then have "m \<in> set (legacy_media ?n d)"
      using legacy m unfolding legacy_media_def by (auto simp: take_rows_def min_def split: if_splits)
    then have "(?x, med_id m) \<in> set known"
      using scan_legacy_known [of E _ d known d1 m] s o ob(1) by (auto simp: scanned_def)
    then have "?x \<in> fst ` set (rev known)" by (metis fst_conv image_eqI set_rev)
    then obtain i where i: "map_of (rev known) ?x = Some i"
      using map_of_eq_None_iff [of "rev known" ?x] by blast
    have "i \<in> med_id ` set (media d)"
    proof -
      have "i \<in> snd ` set known" using map_of_SomeD [OF i] by force
      then have "i \<in> med_id ` set (legacy_media ?n d)" using scan_legacy_ids [OF s] by blast
      then show ?thesis
        using set_take_rows [of ?n "\<lambda>m. med_referenceDigest m = None \<and> med_deletedAt m = None" "media d"]
        unfolding legacy_media_def by blast
    qed
    then have "i \<noteq> []" using nonempty(2) by metis
    with i ob(4) show False by (simp add: tracked_def)
  qed
qed

end
