(* ===== verification/Engine.thy ===== *)
theory Engine
  imports CitizenProvider
begin

text \<open>
  The client of the verification engine (\<open>integrations/engine\<close>): its concurrency gate, the signed
  request, and the validation of the two kinds of response.  What the engine answers is a parameter.
  The password policy guards its hashing with the same gate.
\<close>

subsection \<open>The concurrency gate\<close>

text \<open>
  \<open>active\<close> and \<open>waiters\<close>, and the requests whose promise \<open>release\<close> has resolved and that have not run
  on yet: between the two, the event loop may run other requests.
\<close>

record 'i gate =
  gat_active :: nat
  gat_waiters :: "'i list"
  gat_woken :: "'i list"

definition empty_gate :: "'i gate" where
  "empty_gate = \<lparr>gat_active = 0, gat_waiters = [], gat_woken = []\<rparr>"

definition gate_acquire :: "nat \<Rightarrow> 'i \<Rightarrow> 'i gate \<Rightarrow> 'i gate" where
  "gate_acquire maximum i g =
     (if gat_active g \<ge> maximum then g\<lparr>gat_waiters := gat_waiters g @ [i]\<rparr>
      else g\<lparr>gat_active := gat_active g + 1\<rparr>)"

text \<open>\<open>acquire\<close> after its \<open>await\<close>.\<close>

definition gate_resume :: "'i gate \<Rightarrow> 'i gate" where
  "gate_resume g = g\<lparr>gat_active := gat_active g + 1, gat_woken := tl (gat_woken g)\<rparr>"

definition gate_release :: "'i gate \<Rightarrow> 'i gate" where
  "gate_release g = (case gat_waiters g of
     [] \<Rightarrow> g\<lparr>gat_active := gat_active g - 1\<rparr>
   | i # is \<Rightarrow> g\<lparr>gat_active := gat_active g - 1, gat_waiters := is, gat_woken := gat_woken g @ [i]\<rparr>)"

text \<open>A request releases what it holds, once: some request is active whenever one releases.\<close>

inductive gate_step :: "nat \<Rightarrow> 'i gate \<Rightarrow> 'i gate \<Rightarrow> bool" for maximum where
  arrive: "gate_step maximum g (gate_acquire maximum i g)"
| resume: "gat_woken g \<noteq> [] \<Longrightarrow> gate_step maximum g (gate_resume g)"
| release: "0 < gat_active g \<Longrightarrow> gate_step maximum g (gate_release g)"

inductive gate_reachable :: "nat \<Rightarrow> 'i gate \<Rightarrow> bool" for maximum where
  initially: "gate_reachable maximum empty_gate"
| further: "gate_reachable maximum g \<Longrightarrow> gate_step maximum g g' \<Longrightarrow> gate_reachable maximum g'"

lemmas gate_defs = gate_acquire_def gate_resume_def gate_release_def empty_gate_def

text \<open>Nobody waits while a slot is free that no woken request is about to take.\<close>

lemma gate_no_idle_waiter:
  assumes "gate_reachable maximum g"
  shows "gat_waiters g \<noteq> [] \<longrightarrow> maximum \<le> gat_active g + length (gat_woken g)"
  using assms
proof induction
  case initially
  then show ?case by (simp add: gate_defs)
next
  case (further g g')
  from further(2) show ?case
  proof (cases rule: gate_step.cases)
    case arrive
    with further(3) show ?thesis by (auto simp: gate_defs)
  next
    case resume
    with further(3) show ?thesis by (cases "gat_woken g") (auto simp: gate_defs)
  next
    case release
    with further(3) show ?thesis by (auto simp: gate_defs split: list.splits)
  qed
qed

text \<open>The bound holds as long as no request arrives between a release and the resumption it causes.\<close>

inductive calm_step :: "nat \<Rightarrow> 'i gate \<Rightarrow> 'i gate \<Rightarrow> bool" for maximum where
  calm_arrive: "gat_woken g = [] \<Longrightarrow> calm_step maximum g (gate_acquire maximum i g)"
| calm_resume: "gat_woken g \<noteq> [] \<Longrightarrow> calm_step maximum g (gate_resume g)"
| calm_release: "0 < gat_active g \<Longrightarrow> calm_step maximum g (gate_release g)"

lemma calm_step_bounded:
  assumes "calm_step maximum g g'" and "gat_active g + length (gat_woken g) \<le> maximum"
  shows "gat_active g' + length (gat_woken g') \<le> maximum"
  using assms(1)
proof (cases rule: calm_step.cases)
  case calm_arrive
  with assms(2) show ?thesis by (auto simp: gate_defs)
next
  case calm_resume
  with assms(2) show ?thesis by (cases "gat_woken g") (auto simp: gate_defs)
next
  case calm_release
  with assms(2) show ?thesis by (auto simp: gate_defs split: list.splits)
qed

text \<open>A full gate, without waiters.\<close>

lemma gate_fills:
  "n \<le> maximum \<Longrightarrow> gate_reachable maximum \<lparr>gat_active = n, gat_waiters = [], gat_woken = []\<rparr>"
proof (induction n)
  case 0
  show ?case using gate_reachable.initially [of maximum] by (simp add: empty_gate_def)
next
  case (Suc n)
  then show ?case
    using gate_reachable.further [OF _ gate_step.arrive [of maximum _ undefined]]
    by (fastforce simp: gate_acquire_def)
qed

text \<open>A request that arrives between the release and the resumption takes the slot as well.\<close>

lemma gate_overshoot_path:
  assumes "0 < maximum"
  shows "gate_reachable maximum (\<lparr>gat_active = maximum + 1, gat_waiters = [], gat_woken = []\<rparr> :: 'i gate)"
proof -
  let ?i = "undefined :: 'i"
  let ?full = "\<lparr>gat_active = maximum, gat_waiters = [], gat_woken = []\<rparr> :: 'i gate"
  let ?queued = "\<lparr>gat_active = maximum, gat_waiters = [?i], gat_woken = []\<rparr> :: 'i gate"
  let ?between = "\<lparr>gat_active = maximum - 1, gat_waiters = [], gat_woken = [?i]\<rparr> :: 'i gate"
  let ?taken = "\<lparr>gat_active = maximum, gat_waiters = [], gat_woken = [?i]\<rparr> :: 'i gate"
  have "gate_reachable maximum ?full" by (rule gate_fills) simp
  moreover have "gate_acquire maximum ?i ?full = ?queued" by (simp add: gate_acquire_def)
  ultimately have "gate_reachable maximum ?queued"
    by (metis gate_reachable.further gate_step.arrive)
  moreover have "gate_release ?queued = ?between" by (simp add: gate_release_def)
  moreover have "0 < gat_active ?queued" using assms by simp
  ultimately have "gate_reachable maximum ?between"
    by (metis gate_reachable.further gate_step.release)
  moreover have "gate_acquire maximum ?i ?between = ?taken" using assms by (simp add: gate_acquire_def)
  ultimately have "gate_reachable maximum ?taken"
    by (metis gate_reachable.further gate_step.arrive)
  moreover have "gate_resume ?taken = \<lparr>gat_active = maximum + 1, gat_waiters = [], gat_woken = []\<rparr>"
    by (simp add: gate_resume_def)
  moreover have "gat_woken ?taken \<noteq> []" by simp
  ultimately show ?thesis by (metis gate_reachable.further gate_step.resume)
qed

text \<open>The two gates of the service.\<close>

definition engine_acquire :: "env \<Rightarrow> 'i \<Rightarrow> 'i gate \<Rightarrow> 'i gate" where
  "engine_acquire E = gate_acquire (cfg_num E ''MUCYORA_ENGINE_MAX_CONCURRENCY'')"

definition password_acquire :: "env \<Rightarrow> 'i \<Rightarrow> 'i gate \<Rightarrow> 'i gate" where
  "password_acquire E = gate_acquire (cfg_num E ''PASSWORD_HASH_MAX_CONCURRENCY'')"

definition password_release :: "'i gate \<Rightarrow> 'i gate" where
  "password_release = gate_release"

subsection \<open>Dates\<close>

text \<open>\<open>new Date(t).toISOString()\<close>, in the proleptic Gregorian calendar.\<close>

definition civil_date :: "int \<Rightarrow> int \<times> int \<times> int" where
  "civil_date day =
     (let z = day + 719468; era = z div 146097; doe = z - era * 146097;
          yoe = (doe - doe div 1460 + doe div 36524 - doe div 146096) div 365;
          doy = doe - (365 * yoe + yoe div 4 - yoe div 100);
          mp = (5 * doy + 2) div 153; m = (if mp < 10 then mp + 3 else mp - 9)
      in (yoe + era * 400 + (if m \<le> 2 then 1 else 0), m, doy - (153 * mp + 2) div 5 + 1))"

fun digits_of :: "nat \<Rightarrow> nat \<Rightarrow> string" where
  "digits_of 0 n = []"
| "digits_of (Suc k) n = digits_of k (n div 10) @ [char_of (48 + n mod 10)]"

definition year_text :: "int \<Rightarrow> string" where
  "year_text y = (if 0 \<le> y \<and> y \<le> 9999 then digits_of 4 (nat y)
     else (if y < 0 then ''-'' else ''+'') @ digits_of 6 (nat \<bar>y\<bar>))"

definition toISOString :: "int \<Rightarrow> string" where
  "toISOString t = (case civil_date (t div 86400000) of (y, m, d) \<Rightarrow>
     (let ms = nat (t mod 86400000)
      in year_text y @ ''-'' @ digits_of 2 (nat m) @ ''-'' @ digits_of 2 (nat d) @ ''T''
         @ digits_of 2 (ms div 3600000) @ '':'' @ digits_of 2 (ms div 60000 mod 60) @ '':''
         @ digits_of 2 (ms div 1000 mod 60) @ ''.'' @ digits_of 3 (ms mod 1000) @ ''Z''))"

subsection \<open>Signed requests\<close>

definition newline :: char where
  "newline = char_of (10 :: nat)"

text \<open>\<open>lines.join('\n')\<close>.\<close>

fun join_lines :: "string list \<Rightarrow> string" where
  "join_lines [] = []"
| "join_lines [s] = s"
| "join_lines (s # ss) = s @ newline # join_lines ss"

record signed_request =
  sgr_path :: string
  sgr_body :: string
  sgr_timestamp :: string
  sgr_nonce :: string
  sgr_contentDigest :: string
  sgr_signature :: string

definition signed_lines :: "string \<Rightarrow> string \<Rightarrow> string \<Rightarrow> string \<Rightarrow> string list" where
  "signed_lines path timestamp nonce bodyDigest =
     [''POST'', path, ''mucyora-auth'', ''mucyora-engine'', timestamp, nonce, bodyDigest]"

definition sign_request :: "env \<Rightarrow> nat \<Rightarrow> string \<Rightarrow> json \<Rightarrow> signed_request" where
  "sign_request E i path body =
     (let serialized = stringify E body; timestamp = toISOString (clock E i); nonce = uuid E i;
          bodyDigest = sha256_base64url E serialized
      in \<lparr>sgr_path = path, sgr_body = serialized, sgr_timestamp = timestamp, sgr_nonce = nonce,
          sgr_contentDigest = bodyDigest,
          sgr_signature = hmac_sha256 E (cfg_str E ''MUCYORA_ENGINE_SERVICE_KEY'')
            (join_lines (signed_lines path timestamp nonce bodyDigest))\<rparr>)"

datatype engine_reply = Engine_Body json | Engine_Status nat | Engine_No_Response

datatype engine_error = EngineUnavailableError | EngineInvalidResponseError

definition engine_request ::
  "env \<Rightarrow> (signed_request \<Rightarrow> engine_reply) \<Rightarrow> nat \<Rightarrow> string \<Rightarrow> json \<Rightarrow> (json \<Rightarrow> 'a option) \<Rightarrow> engine_error + 'a" where
  "engine_request E post i path body schema =
     (case post (sign_request E i path body) of
        Engine_Body j \<Rightarrow> (case schema j of None \<Rightarrow> Inl EngineInvalidResponseError | Some x \<Rightarrow> Inr x)
      | Engine_Status n \<Rightarrow> Inl (if n = 422 then EngineInvalidResponseError else EngineUnavailableError)
      | Engine_No_Response \<Rightarrow> Inl EngineUnavailableError)"

text \<open>\<open>Joi.object(...).unknown(false)\<close>: no other members.\<close>

definition only_members :: "string list \<Rightarrow> json \<Rightarrow> bool" where
  "only_members allowed j = (case j of JObj fs \<Rightarrow> list_all (\<lambda>(k, v). k \<in> set allowed) fs | _ \<Rightarrow> False)"

record liveness_session =
  lvs_sessionId :: string
  lvs_expiresAt :: string

definition livenessSchema :: "env \<Rightarrow> json \<Rightarrow> liveness_session option" where
  "livenessSchema E j =
     (if \<not> only_members [''sessionId'', ''expiresAt''] j then None
      else (case (required_field (joi_strict 200) ''sessionId'' j,
                  required_field (joi_iso_kept E) ''expiresAt'' j) of
          (Some s, Some e) \<Rightarrow> Some \<lparr>lvs_sessionId = s, lvs_expiresAt = e\<rparr>
        | _ \<Rightarrow> None))"

datatype engine_decision =
    Decision_PASS | Decision_FAIL | Decision_RETRY | Decision_MANUAL_REVIEW
  | Decision_PROVIDER_UNAVAILABLE | Decision_INVALID_REQUEST

definition decision_texts :: "(string \<times> engine_decision) list" where
  "decision_texts = [(''PASS'', Decision_PASS), (''FAIL'', Decision_FAIL), (''RETRY'', Decision_RETRY),
     (''MANUAL_REVIEW'', Decision_MANUAL_REVIEW),
     (''PROVIDER_UNAVAILABLE'', Decision_PROVIDER_UNAVAILABLE),
     (''INVALID_REQUEST'', Decision_INVALID_REQUEST)]"

record engine_evaluation =
  evl_decision :: engine_decision
  evl_policyVersion :: string
  evl_faceSimilarity :: "int option"
  evl_livenessConfidence :: "int option"
  evl_compositeScore :: "int option"
  evl_documentBindingVerified :: bool
  evl_reasonCode :: string
  evl_evaluatedAt :: string

definition joi_decision :: "json \<Rightarrow> engine_decision option" where
  "joi_decision j = (case j of JStr s \<Rightarrow> map_of decision_texts s | _ \<Rightarrow> None)"

text \<open>\<open>Joi.number().min(0).max(100)\<close>, optional.\<close>

definition joi_score :: "string \<Rightarrow> json \<Rightarrow> int option option" where
  "joi_score k j = (case json_field k j of
     None \<Rightarrow> Some None
   | Some v \<Rightarrow> (case v of JNum n \<Rightarrow> if 0 \<le> n \<and> n \<le> 100 then Some (Some n) else None | _ \<Rightarrow> None))"

definition joi_boolean :: "json \<Rightarrow> bool option" where
  "joi_boolean j = (case j of JBool b \<Rightarrow> Some b | _ \<Rightarrow> None)"

definition evaluation_of_fields ::
  "engine_decision option \<Rightarrow> string option \<Rightarrow> int option option \<Rightarrow> int option option \<Rightarrow> int option option
    \<Rightarrow> bool option \<Rightarrow> string option \<Rightarrow> string option \<Rightarrow> engine_evaluation option" where
  "evaluation_of_fields decision policy face liveness composite binding reason evaluatedAt =
     (if decision = None \<or> policy = None \<or> face = None \<or> liveness = None \<or> composite = None
         \<or> binding = None \<or> reason = None \<or> evaluatedAt = None then None
      else Some \<lparr>evl_decision = the decision, evl_policyVersion = the policy,
        evl_faceSimilarity = the face, evl_livenessConfidence = the liveness,
        evl_compositeScore = the composite, evl_documentBindingVerified = the binding,
        evl_reasonCode = the reason, evl_evaluatedAt = the evaluatedAt\<rparr>)"

definition evaluation_members :: "string list" where
  "evaluation_members = [''decision'', ''policyVersion'', ''faceSimilarity'', ''livenessConfidence'',
     ''compositeScore'', ''documentBindingVerified'', ''reasonCode'', ''evaluatedAt'']"

definition evaluationSchema :: "env \<Rightarrow> json \<Rightarrow> engine_evaluation option" where
  "evaluationSchema E j =
     (if \<not> only_members evaluation_members j then None
      else evaluation_of_fields
        (Option.bind (json_field ''decision'' j) joi_decision)
        (required_field (joi_strict 64) ''policyVersion'' j)
        (joi_score ''faceSimilarity'' j) (joi_score ''livenessConfidence'' j) (joi_score ''compositeScore'' j)
        (Option.bind (json_field ''documentBindingVerified'' j) joi_boolean)
        (required_field (joi_strict 64) ''reasonCode'' j)
        (required_field (joi_iso_kept E) ''evaluatedAt'' j))"

definition evaluate :: "env \<Rightarrow> (signed_request \<Rightarrow> engine_reply) \<Rightarrow> nat \<Rightarrow> (string \<times> json) list
    \<Rightarrow> engine_error + engine_evaluation" where
  "evaluate E post i input =
     engine_request E post i ''/api/v1/verifications/evaluate'' (JObj input) (evaluationSchema E)"

definition engine_liveness :: "env \<Rightarrow> (signed_request \<Rightarrow> engine_reply) \<Rightarrow> nat \<Rightarrow> (string \<times> json) list
    \<Rightarrow> engine_error + liveness_session" where
  "engine_liveness E post i input =
     engine_request E post i ''/api/v1/liveness/sessions'' (JObj input) (livenessSchema E)"

subsection \<open>What the client shows\<close>

lemma join_lines_Cons: "ss \<noteq> [] \<Longrightarrow> join_lines (s # ss) = s @ newline # join_lines ss"
  by (cases ss) simp_all

lemma split_join_lines:
  "ss \<noteq> [] \<Longrightarrow> \<forall>s \<in> set ss. newline \<notin> set s \<Longrightarrow> split_on newline (join_lines ss) = ss"
proof (induction ss)
  case Nil
  then show ?case by simp
next
  case (Cons s ss)
  then show ?case
    by (cases "ss = []") (simp_all add: join_lines_Cons split_on_append split_on_none)
qed

lemma join_lines_inj:
  assumes "join_lines ss = join_lines ts" and "ss \<noteq> []" and "ts \<noteq> []"
    and "\<forall>s \<in> set (ss @ ts). newline \<notin> set s"
  shows "ss = ts"
proof -
  have "split_on newline (join_lines ss) = ss" "split_on newline (join_lines ts) = ts"
    by (rule split_join_lines; use assms in simp)+
  with assms(1) show ?thesis by metis
qed

lemma evaluation_of_fieldsE:
  assumes "evaluation_of_fields decision policy fs ls cs binding reason evaluatedAt = Some e"
  obtains "policy = Some (evl_policyVersion e)" "fs = Some (evl_faceSimilarity e)"
    "ls = Some (evl_livenessConfidence e)" "cs = Some (evl_compositeScore e)"
    "reason = Some (evl_reasonCode e)" "evaluatedAt = Some (evl_evaluatedAt e)"
    "decision = Some (evl_decision e)" "binding = Some (evl_documentBindingVerified e)"
  using assms by (auto simp: evaluation_of_fields_def split: if_split_asm)

text \<open>A validated evaluation is within the bounds of the schema.\<close>

lemma evaluationSchema_bounds:
  assumes "evaluationSchema E j = Some e"
  shows "s \<in> {evl_faceSimilarity e, evl_livenessConfidence e, evl_compositeScore e} \<Longrightarrow> s = Some n \<Longrightarrow>
      0 \<le> n \<and> n \<le> 100"
    and "evl_policyVersion e \<noteq> [] \<and> length (evl_policyVersion e) \<le> 64"
    and "evl_reasonCode e \<noteq> [] \<and> length (evl_reasonCode e) \<le> 64"
    and "joi_iso_date E (evl_evaluatedAt e) \<noteq> None"
proof -
  have fields: "joi_score ''faceSimilarity'' j = Some (evl_faceSimilarity e)"
    "joi_score ''livenessConfidence'' j = Some (evl_livenessConfidence e)"
    "joi_score ''compositeScore'' j = Some (evl_compositeScore e)"
    "required_field (joi_strict 64) ''policyVersion'' j = Some (evl_policyVersion e)"
    "required_field (joi_strict 64) ''reasonCode'' j = Some (evl_reasonCode e)"
    "required_field (joi_iso_kept E) ''evaluatedAt'' j = Some (evl_evaluatedAt e)"
    using assms unfolding evaluationSchema_def
    by (auto split: if_split_asm elim: evaluation_of_fieldsE)
  have score: "0 \<le> n \<and> n \<le> 100" if "joi_score k j = Some (Some n)" for k n
    using that by (auto simp: joi_score_def split: option.split_asm json.split_asm if_split_asm)
  have strict: "s \<noteq> [] \<and> length s \<le> 64" if "required_field (joi_strict 64) k j = Some s" for k s
    using that by (auto simp: required_field_def joi_strict_def split: option.split_asm json.split_asm if_split_asm)
  show "s \<in> {evl_faceSimilarity e, evl_livenessConfidence e, evl_compositeScore e} \<Longrightarrow> s = Some n \<Longrightarrow>
      0 \<le> n \<and> n \<le> 100"
    using fields(1-3) score by auto
  show "evl_policyVersion e \<noteq> [] \<and> length (evl_policyVersion e) \<le> 64"
    and "evl_reasonCode e \<noteq> [] \<and> length (evl_reasonCode e) \<le> 64"
    using strict [OF fields(4)] strict [OF fields(5)] by simp_all
  show "joi_iso_date E (evl_evaluatedAt e) \<noteq> None"
    using fields(6) by (auto simp: required_field_def joi_iso_kept_def joi_iso_def
        split: option.split_asm json.split_asm if_split_asm)
qed

end
