(* ===== verification/Identity.thy ===== *)
theory Identity
  imports MediaCleanup Engine
begin

text \<open>
  \<open>IdentityVerificationService\<close> (\<open>modules/identity-verification\<close>): enrolment attempts, the upload of
  the document, the liveness session, and the submission that asks the engine and records what it
  decides.  The start of an attempt reads and then writes, with nothing that keeps others from writing in
  between: the two are definitions of their own.  A submission suspends between its read, its claim of the attempt and the recording of the
  decision; each of the three is a definition of its own.
\<close>

subsection \<open>Answers and inputs\<close>

text \<open>\<open>attemptSelect\<close>.\<close>

record attempt_response =
  atr_id :: string
  atr_purpose :: verification_purpose
  atr_status :: attempt_status
  atr_attemptNumber :: nat
  atr_policyVersion :: string
  atr_retryAfter :: "int option"
  atr_reasonCode :: "string option"

definition attemptSelect :: "attempt_row \<Rightarrow> attempt_response" where
  "attemptSelect a = \<lparr>atr_id = att_id a, atr_purpose = att_purpose a, atr_status = att_status a,
     atr_attemptNumber = att_attemptNumber a, atr_policyVersion = att_policyVersion a,
     atr_retryAfter = att_retryAfter a, atr_reasonCode = att_reasonCode a\<rparr>"

text \<open>
  The schema of the media table beyond the columns the source writes: the defaults of the others, and
  when a new row violates a unique key.
\<close>

record media_schema =
  mds_default :: media_row
  mds_clash :: "media_row \<Rightarrow> media_row list \<Rightarrow> bool"

abbreviation invalidMedia :: api_error where
  "invalidMedia \<equiv> Http 400 ''VERIFICATION_MEDIA_INVALID''"

abbreviation attemptNotFound :: api_error where
  "attemptNotFound \<equiv> Http 404 ''VERIFICATION_ATTEMPT_NOT_FOUND''"

definition assertDocumentMedia :: "media_type \<Rightarrow> unit result" where
  "assertDocumentMedia t = (if t \<noteq> ID_DOCUMENT then Inl invalidMedia else Inr ())"

definition assertDimensions :: "env \<Rightarrow> nat \<Rightarrow> nat \<Rightarrow> unit result" where
  "assertDimensions E width height =
     (if width * height > cfg_num E ''VERIFICATION_MEDIA_MAX_PIXELS'' then Inl invalidMedia else Inr ())"

definition ownedActiveAttempt :: "string \<Rightarrow> string \<Rightarrow> db \<Rightarrow> attempt_row result" where
  "ownedActiveAttempt userId attemptId d =
     (case find_row (\<lambda>a. att_id a = attemptId \<and> att_userId a = userId
        \<and> att_status a = Attempt_MEDIA_PENDING) (attempts d) of
        None \<Rightarrow> Inl attemptNotFound | Some a \<Rightarrow> Inr a)"

subsection \<open>Starting an attempt\<close>

definition enrolment_of :: "string \<Rightarrow> attempt_row \<Rightarrow> bool" where
  "enrolment_of userId a \<longleftrightarrow> att_userId a = userId \<and> att_purpose a = ACCOUNT_ENROLLMENT"

definition active_attempt :: "attempt_row \<Rightarrow> bool" where
  "active_attempt a \<longleftrightarrow> att_status a \<in> {Attempt_PENDING, Attempt_MEDIA_PENDING, Attempt_PROCESSING}"

definition latest_enrolment :: "string \<Rightarrow> db \<Rightarrow> attempt_row option" where
  "latest_enrolment userId d =
     (case take_rows_desc (int \<circ> att_attemptNumber) 1 (enrolment_of userId) (attempts d) of
        [] \<Rightarrow> None | a # _ \<Rightarrow> Some a)"

definition retry_later :: "int \<Rightarrow> attempt_row option \<Rightarrow> bool" where
  "retry_later now latest \<longleftrightarrow> (case latest of
     None \<Rightarrow> False | Some a \<Rightarrow> (case att_retryAfter a of None \<Rightarrow> False | Some t \<Rightarrow> t > now))"

definition attempt_eligible :: "user_row \<Rightarrow> db \<Rightarrow> bool" where
  "attempt_eligible u d \<longleftrightarrow> usr_emailVerifiedAt u \<noteq> None \<and> usr_accountStatus u = Account_ACTIVE
     \<and> (case find_row (\<lambda>c. cit_userId c = usr_id u) (identities d) of
          None \<Rightarrow> False | Some c \<Rightarrow> cit_verifiedAt c \<noteq> None)"

text \<open>The checks of the transaction, in the order of the code.\<close>

definition attempt_refusal :: "env \<Rightarrow> string \<Rightarrow> db \<Rightarrow> api_error option" where
  "attempt_refusal E userId d =
     (let now = clock E 0; windowStart = now - hours E ''VERIFICATION_ATTEMPT_WINDOW_HOURS'';
          latest = latest_enrolment userId d
      in (case find_row (\<lambda>u. usr_id u = userId) (users d) of
            None \<Rightarrow> Some (Http 403 ''IDENTITY_VERIFICATION_NOT_ELIGIBLE'')
          | Some u \<Rightarrow>
              if \<not> attempt_eligible u d then Some (Http 403 ''IDENTITY_VERIFICATION_NOT_ELIGIBLE'')
              else if usr_identityStatus u = Identity_VERIFIED
              then Some (Http 409 ''IDENTITY_ALREADY_VERIFIED'')
              else if take_rows 1 (\<lambda>c. con_userId c = userId \<and> con_type c = BIOMETRIC_PROCESSING
                \<and> con_revokedAt c = None) (consents d) = []
              then Some (Http 403 ''BIOMETRIC_CONSENT_REQUIRED'')
              else if find_row (\<lambda>a. enrolment_of userId a \<and> active_attempt a) (attempts d) \<noteq> None
              then Some (Http 409 ''IDENTITY_VERIFICATION_IN_PROGRESS'')
              else if retry_later now latest then Some (Http 429 ''IDENTITY_VERIFICATION_RETRY_LATER'')
              else if count_rows (\<lambda>a. enrolment_of userId a \<and> windowStart \<le> att_startedAt a) (attempts d)
                \<ge> cfg_num E ''VERIFICATION_MAX_ATTEMPTS''
              then Some (Http 429 ''IDENTITY_VERIFICATION_LIMIT_REACHED'')
              else None))"

text \<open>What the queries of the transaction give a start that is not refused: the number of the latest attempt.\<close>

definition latest_number :: "string \<Rightarrow> db \<Rightarrow> nat" where
  "latest_number userId d = (case latest_enrolment userId d of None \<Rightarrow> 0 | Some a \<Rightarrow> att_attemptNumber a)"

definition attempt_read :: "env \<Rightarrow> string \<Rightarrow> db \<Rightarrow> nat result" where
  "attempt_read E userId d = (case attempt_refusal E userId d of
     Some e \<Rightarrow> Inl e | None \<Rightarrow> Inr (latest_number userId d))"

definition new_enrolment :: "env \<Rightarrow> principal \<Rightarrow> request_context \<Rightarrow> nat \<Rightarrow> db \<Rightarrow> attempt_row" where
  "new_enrolment E claims ctx latest d =
     \<lparr>att_id = gen_id E (map att_id (attempts d)), att_userId = prn_sub claims,
      att_purpose = ACCOUNT_ENROLLMENT, att_status = Attempt_MEDIA_PENDING,
      att_policyVersion = cfg_str E ''VERIFICATION_POLICY_VERSION'', att_documentBindingVerified = True,
      att_attemptNumber = latest + 1,
      att_ipHash = requestContext E (rq_ipAddress ctx),
      att_userAgentHash = requestContext E (rq_userAgent ctx), att_startedAt = db_clock E,
      att_completedAt = None, att_retryAfter = None, att_reasonCode = None,
      att_livenessSessionId = None, att_engineRequestId = None, att_faceSimilarity = None,
      att_livenessConfidence = None, att_compositeScore = None\<rparr>"

definition start_enrolment :: "string \<Rightarrow> user_row list \<Rightarrow> user_row list" where
  "start_enrolment userId = update_rows (\<lambda>u. usr_id u = userId)
     (\<lambda>u. u\<lparr>usr_identityStatus := Identity_PENDING,
            usr_verificationAttempts := usr_verificationAttempts u + 1, usr_version := usr_version u + 1\<rparr>)"

text \<open>
  The writes of the transaction, after the queries: under the default isolation of the database other
  requests may commit in between.  The update of a user that is not there throws, and rolls back.
\<close>

definition attempt_create :: "env \<Rightarrow> principal \<Rightarrow> request_context \<Rightarrow> nat \<Rightarrow> db \<Rightarrow> attempt_response result \<times> db" where
  "attempt_create E claims ctx latest d =
     (if find_row (\<lambda>u. usr_id u = prn_sub claims) (users d) = None then (Inl record_not_found, d)
      else
        (let a = new_enrolment E claims ctx latest d
         in (Inr (attemptSelect a), create_event E
             \<lparr>evi_userId = Some (prn_sub claims), evi_sessionId = Some (prn_sid claims),
              evi_type = IDENTITY_VERIFICATION_STARTED, evi_severity = Severity_INFO,
              evi_outcome = Outcome_SUCCESS, evi_reasonCode = None,
              evi_correlationId = rq_correlationId ctx,
              evi_ipHash = Some (requestContext E (rq_ipAddress ctx)), evi_userAgentHash = None,
              evi_metadata = None\<rparr>
             (d\<lparr>attempts := attempts d @ [a], users := start_enrolment (prn_sub claims) (users d)\<rparr>))))"

text \<open>A start that nothing interrupts.\<close>

definition createAttempt :: "env \<Rightarrow> principal \<Rightarrow> request_context \<Rightarrow> db \<Rightarrow> attempt_response result \<times> db" where
  "createAttempt E claims ctx = transact (\<lambda>d.
     (case attempt_read E (prn_sub claims) d of
        Inl e \<Rightarrow> (Inl e, d)
      | Inr latest \<Rightarrow> attempt_create E claims ctx latest d))"

lemma attempt_read_user:
  "attempt_read E u d = Inr latest \<Longrightarrow> find_row (\<lambda>x. usr_id x = u) (users d) \<noteq> None"
  by (auto simp: attempt_read_def attempt_refusal_def Let_def split: option.split_asm)

lemma attempt_create_InrD:
  assumes "attempt_create E claims ctx latest d = (Inr x, d')"
  shows "attempts d' = attempts d @ [new_enrolment E claims ctx latest d]"
    and "users d' = start_enrolment (prn_sub claims) (users d)"
  using assms by (auto simp: attempt_create_def Let_def split: if_split_asm)

lemma attempt_create_InlD: "attempt_create E claims ctx latest d = (Inl e, d') \<Longrightarrow> d' = d"
  by (auto simp: attempt_create_def Let_def split: if_split_asm)

subsection \<open>Uploads\<close>

definition createUploadPolicy :: "env \<Rightarrow> principal \<Rightarrow> string \<Rightarrow> upload_input \<Rightarrow> db \<Rightarrow> upload_policy result" where
  "createUploadPolicy E claims attemptId input d =
     (case assertDocumentMedia (upl_mediaType input) of Inl e \<Rightarrow> Inl e | Inr _ \<Rightarrow>
     (case assertDimensions E (upl_width input) (upl_height input) of Inl e \<Rightarrow> Inl e | Inr _ \<Rightarrow>
     (case ownedActiveAttempt (prn_sub claims) attemptId d of Inl e \<Rightarrow> Inl e | Inr a \<Rightarrow>
        Inr (storage_upload_policy E attemptId input))))"

definition new_media :: "env \<Rightarrow> media_row \<Rightarrow> string \<Rightarrow> confirm_input \<Rightarrow> confirmed_object \<Rightarrow> string \<Rightarrow> db \<Rightarrow> media_row" where
  "new_media E columns attemptId input confirmed reference d =
     columns\<lparr>med_id := gen_id E (map med_id (media d)), med_attemptId := attemptId,
       med_mediaType := upl_mediaType input, med_reference := reference,
       med_referenceDigest := Some (objectReferenceDigest E (upl_objectKey input)),
       med_objectVersion := cob_version confirmed, med_checksum := cob_checksum confirmed,
       med_contentType := cob_contentType confirmed, med_sizeBytes := cob_size confirmed,
       med_expiresAt := clock E 0 + seconds E ''VERIFICATION_MEDIA_RETENTION_SECONDS''\<rparr>"

definition store_media ::
  "env \<Rightarrow> media_schema \<Rightarrow> string \<Rightarrow> confirm_input \<Rightarrow> confirmed_object \<Rightarrow> db \<Rightarrow> unit result \<times> db" where
  "store_media E schema attemptId input confirmed d =
     (case seal E 0 (upl_objectKey input) Verification_Media_Reference of
        Inl e \<Rightarrow> (Inl e, d)
      | Inr reference \<Rightarrow>
          (let m = new_media E (mds_default schema) attemptId input confirmed reference d
           in if mds_clash schema m (media d)
              then (Inl (Http 409 ''VERIFICATION_MEDIA_ALREADY_CONFIRMED''), d)
              else (Inr (), d\<lparr>media := media d @ [m]\<rparr>)))"

definition confirmUpload :: "env \<Rightarrow> media_schema \<Rightarrow> principal \<Rightarrow> string \<Rightarrow> confirm_input \<Rightarrow> storage
    \<Rightarrow> db \<Rightarrow> unit result \<times> db" where
  "confirmUpload E schema claims attemptId input st d =
     (case assertDocumentMedia (upl_mediaType input) of Inl e \<Rightarrow> (Inl e, d) | Inr _ \<Rightarrow>
     (case assertDimensions E (upl_width input) (upl_height input) of Inl e \<Rightarrow> (Inl e, d) | Inr _ \<Rightarrow>
     (case ownedActiveAttempt (prn_sub claims) attemptId d of Inl e \<Rightarrow> (Inl e, d) | Inr a \<Rightarrow>
        if \<not> prefix (cfg_str E ''AWS_S3_VERIFICATION_PREFIX'' @ attemptId @ ''/'') (upl_objectKey input)
        then (Inl invalidMedia, d)
        else (case confirmObject E input attemptId st of
            Inl e \<Rightarrow> (Inl invalidMedia, d)
          | Inr confirmed \<Rightarrow> store_media E schema attemptId input confirmed d))))"

subsection \<open>Liveness\<close>

text \<open>A text that is neither null nor empty.\<close>

definition truthy_text :: "string option \<Rightarrow> bool" where
  "truthy_text t \<longleftrightarrow> (case t of None \<Rightarrow> False | Some s \<Rightarrow> s \<noteq> [])"

text \<open>Up to the engine's answer: an existing session is returned, otherwise the engine is asked.\<close>

definition liveness_ask :: "env \<Rightarrow> (signed_request \<Rightarrow> engine_reply) \<Rightarrow> principal \<Rightarrow> string \<Rightarrow> db
    \<Rightarrow> (liveness_session + liveness_session) result" where
  "liveness_ask E post claims attemptId d =
     (case ownedActiveAttempt (prn_sub claims) attemptId d of
        Inl e \<Rightarrow> Inl e
      | Inr a \<Rightarrow>
          if truthy_text (att_livenessSessionId a)
          then Inr (Inl \<lparr>lvs_sessionId = the (att_livenessSessionId a), lvs_expiresAt =
            toISOString (att_startedAt a + seconds E ''VERIFICATION_MEDIA_RETENTION_SECONDS'')\<rparr>)
          else (case engine_liveness E post 1 [(''requestId'', JStr (uuid E 0)),
              (''attemptId'', JStr attemptId), (''userId'', JStr (prn_sub claims)),
              (''policyVersion'', JStr (att_policyVersion a))] of
             Inl e \<Rightarrow> Inl (Http 503 ''LIVENESS_PROVIDER_UNAVAILABLE'')
           | Inr created \<Rightarrow> Inr (Inr created)))"

definition without_liveness :: "principal \<Rightarrow> string \<Rightarrow> attempt_row \<Rightarrow> bool" where
  "without_liveness claims attemptId a \<longleftrightarrow> att_id a = attemptId \<and> att_userId a = prn_sub claims
     \<and> att_livenessSessionId a = None \<and> att_status a = Attempt_MEDIA_PENDING"

definition liveness_store :: "principal \<Rightarrow> string \<Rightarrow> liveness_session \<Rightarrow> db \<Rightarrow> liveness_session result \<times> db" where
  "liveness_store claims attemptId created d =
     (let d1 = d\<lparr>attempts := update_rows (without_liveness claims attemptId)
            (\<lambda>a. a\<lparr>att_livenessSessionId := Some (lvs_sessionId created)\<rparr>) (attempts d)\<rparr>
      in if count_rows (without_liveness claims attemptId) (attempts d) \<noteq> 1
         then (Inl (Http 409 ''LIVENESS_SESSION_CONFLICT''), d1) else (Inr created, d1))"

definition createLivenessSession :: "env \<Rightarrow> (signed_request \<Rightarrow> engine_reply) \<Rightarrow> principal \<Rightarrow> string
    \<Rightarrow> db \<Rightarrow> liveness_session result \<times> db" where
  "createLivenessSession E post claims attemptId d =
     (case liveness_ask E post claims attemptId d of
        Inl e \<Rightarrow> (Inl e, d)
      | Inr (Inl existing) \<Rightarrow> (Inr existing, d)
      | Inr (Inr created) \<Rightarrow> liveness_store claims attemptId created d)"

subsection \<open>Submission\<close>

text \<open>The first read of \<open>submit\<close> and its checks: the attempt, and the reference of its document.\<close>

definition submit_read :: "env \<Rightarrow> principal \<Rightarrow> string \<Rightarrow> db \<Rightarrow> (attempt_row \<times> media_row) result" where
  "submit_read E claims attemptId d =
     (case find_row (\<lambda>a. att_id a = attemptId \<and> att_userId a = prn_sub claims) (attempts d) of
        None \<Rightarrow> Inl (Http 400 ''IDENTITY_VERIFICATION_NOT_READY'')
      | Some a \<Rightarrow>
          (case take_rows 1 (\<lambda>m. med_attemptId m = attemptId \<and> med_mediaType m = ID_DOCUMENT
              \<and> med_deletedAt m = None) (media d) of
             [] \<Rightarrow> Inl (Http 400 ''IDENTITY_VERIFICATION_NOT_READY'')
           | m # _ \<Rightarrow>
               if \<not> truthy_text (att_livenessSessionId a) \<or> \<not> att_documentBindingVerified a
                  \<or> att_status a \<notin> {Attempt_MEDIA_PENDING, Attempt_PROVIDER_UNAVAILABLE}
                  \<or> retry_later (clock E 0) (Some a)
               then Inl (Http 400 ''IDENTITY_VERIFICATION_NOT_READY'')
               else Inr (a, m)))"

definition claimed_by :: "principal \<Rightarrow> string \<Rightarrow> attempt_status \<Rightarrow> attempt_row \<Rightarrow> bool" where
  "claimed_by claims attemptId status a \<longleftrightarrow>
     att_id a = attemptId \<and> att_userId a = prn_sub claims \<and> att_status a = status"

text \<open>The conditional update that claims the attempt in the status that was read.\<close>

definition submit_claim :: "env \<Rightarrow> principal \<Rightarrow> string \<Rightarrow> attempt_status \<Rightarrow> db \<Rightarrow> unit result \<times> db" where
  "submit_claim E claims attemptId status d =
     (let d1 = d\<lparr>attempts := update_rows (claimed_by claims attemptId status)
            (\<lambda>a. a\<lparr>att_status := Attempt_PROCESSING, att_engineRequestId := Some (uuid E 0),
                   att_retryAfter := None\<rparr>) (attempts d)\<rparr>
      in if count_rows (claimed_by claims attemptId status) (attempts d) \<noteq> 1
         then (Inl (Http 409 ''IDENTITY_VERIFICATION_SUBMIT_CONFLICT''), d1) else (Inr (), d1))"

definition recordUnavailable :: "env \<Rightarrow> string \<Rightarrow> db \<Rightarrow> attempt_response result \<times> db" where
  "recordUnavailable E attemptId d =
     (let d1 = d\<lparr>attempts := update_rows (\<lambda>a. att_id a = attemptId)
            (\<lambda>a. a\<lparr>att_status := Attempt_PROVIDER_UNAVAILABLE, att_reasonCode := Some ''PROVIDER_UNAVAILABLE'',
                   att_retryAfter := Some (clock E 4 + seconds E ''VERIFICATION_RETRY_DELAY_SECONDS'')\<rparr>)
            (attempts d)\<rparr>
      in (case find_row (\<lambda>a. att_id a = attemptId) (attempts d1) of
            None \<Rightarrow> (Inl record_not_found, d) | Some a \<Rightarrow> (Inr (attemptSelect a), d1)))"

fun mapDecision :: "engine_decision \<Rightarrow> attempt_status \<times> identity_status" where
  "mapDecision Decision_PASS = (Attempt_PASSED, Identity_VERIFIED)"
| "mapDecision Decision_MANUAL_REVIEW = (Attempt_REVIEW_REQUIRED, Identity_REVIEW_REQUIRED)"
| "mapDecision Decision_RETRY = (Attempt_RETRY_REQUIRED, Identity_RETRY_REQUIRED)"
| "mapDecision Decision_PROVIDER_UNAVAILABLE = (Attempt_PROVIDER_UNAVAILABLE, Identity_PENDING)"
| "mapDecision _ = (Attempt_FAILED, Identity_RETRY_REQUIRED)"

text \<open>\<open>/^[A-Z][A-Z0-9_]{0,63}$/\<close>\<close>

definition safeReason :: "string \<Rightarrow> string" where
  "safeReason v = (case v of
     [] \<Rightarrow> ''VERIFICATION_UNAVAILABLE''
   | c # cs \<Rightarrow>
       if is_upper c \<and> length cs \<le> 63 \<and> list_all (\<lambda>x. is_upper x \<or> is_digit x \<or> x = CHR ''_'') cs
       then v else ''VERIFICATION_UNAVAILABLE'')"

definition completed_row :: "env \<Rightarrow> engine_evaluation \<Rightarrow> int \<Rightarrow> attempt_row \<Rightarrow> attempt_row" where
  "completed_row E v evaluatedAt a =
     a\<lparr>att_status := fst (mapDecision (evl_decision v)), att_policyVersion := evl_policyVersion v,
       att_documentBindingVerified := evl_documentBindingVerified v,
       att_faceSimilarity := (case evl_faceSimilarity v of None \<Rightarrow> att_faceSimilarity a | x \<Rightarrow> x),
       att_livenessConfidence := (case evl_livenessConfidence v of None \<Rightarrow> att_livenessConfidence a | x \<Rightarrow> x),
       att_compositeScore := (case evl_compositeScore v of None \<Rightarrow> att_compositeScore a | x \<Rightarrow> x),
       att_reasonCode := Some (safeReason (evl_reasonCode v)), att_completedAt := Some evaluatedAt,
       att_retryAfter := (if fst (mapDecision (evl_decision v)) = Attempt_RETRY_REQUIRED
         then Some (clock E 4 + seconds E ''VERIFICATION_RETRY_DELAY_SECONDS'') else None)\<rparr>"

definition settle_user :: "engine_evaluation \<Rightarrow> int \<Rightarrow> user_row \<Rightarrow> user_row" where
  "settle_user v evaluatedAt u =
     (let status = snd (mapDecision (evl_decision v));
          u1 = u\<lparr>usr_identityStatus := status, usr_version := usr_version u + 1\<rparr>
      in if status = Identity_VERIFIED
         then u1\<lparr>usr_idVerifiedAt := Some evaluatedAt, usr_isIdVerified := True\<rparr> else u1)"

definition completion_event :: "env \<Rightarrow> principal \<Rightarrow> engine_evaluation \<Rightarrow> request_context \<Rightarrow> event_input" where
  "completion_event E claims v ctx =
     (let passed = (fst (mapDecision (evl_decision v)) = Attempt_PASSED)
      in \<lparr>evi_userId = Some (prn_sub claims), evi_sessionId = Some (prn_sid claims),
          evi_type = IDENTITY_VERIFICATION_COMPLETED,
          evi_severity = (if passed then Severity_INFO else Severity_WARNING),
          evi_outcome = (if passed then Outcome_SUCCESS else Outcome_FAILURE),
          evi_reasonCode = Some (safeReason (evl_reasonCode v)),
          evi_correlationId = rq_correlationId ctx,
          evi_ipHash = Some (requestContext E (rq_ipAddress ctx)), evi_userAgentHash = None,
          evi_metadata = None\<rparr>)"

text \<open>The writes of a completion.\<close>

definition completion_writes :: "env \<Rightarrow> principal \<Rightarrow> string \<Rightarrow> verification_purpose \<Rightarrow> engine_evaluation
    \<Rightarrow> int \<Rightarrow> request_context \<Rightarrow> db \<Rightarrow> db" where
  "completion_writes E claims attemptId purpose v t ctx d =
     (let d1 = d\<lparr>attempts := update_rows (claimed_by claims attemptId Attempt_PROCESSING)
            (completed_row E v t) (attempts d)\<rparr>;
          d2 = (if purpose = ACCOUNT_ENROLLMENT
            then d1\<lparr>users := update_rows (\<lambda>u. usr_id u = prn_sub claims) (settle_user v t) (users d1)\<rparr>
            else d1);
          d3 = create_event E (completion_event E claims v ctx) d2
      in if fst (mapDecision (evl_decision v)) = Attempt_PASSED \<and> purpose = ACCOUNT_ENROLLMENT
         then create_outbox E (prn_sub claims) ''IDENTITY_VERIFICATION_COMPLETED''
           (JObj [(''userId'', JStr (prn_sub claims)), (''attemptId'', JStr attemptId)]) d3
         else d3)"

text \<open>
  \<open>completeAttempt\<close>; \<open>evaluatedAt\<close> is \<open>new Date(evaluation.evaluatedAt)\<close>, which the database client
  refuses when it is not a date.
\<close>

definition completeAttempt :: "env \<Rightarrow> principal \<Rightarrow> string \<Rightarrow> verification_purpose \<Rightarrow> engine_evaluation
    \<Rightarrow> int option \<Rightarrow> request_context \<Rightarrow> db \<Rightarrow> attempt_response result \<times> db" where
  "completeAttempt E claims attemptId purpose v evaluatedAt ctx = transact (\<lambda>d.
     (case evaluatedAt of
        None \<Rightarrow> (Inl (Raised ''Invalid value for argument completedAt''), d)
      | Some t \<Rightarrow>
          if count_rows (claimed_by claims attemptId Attempt_PROCESSING) (attempts d) \<noteq> 1
          then (Inl (Http 409 ''IDENTITY_VERIFICATION_COMPLETION_CONFLICT''), d)
          else if purpose = ACCOUNT_ENROLLMENT
            \<and> find_row (\<lambda>u. usr_id u = prn_sub claims) (users d) = None
          then (Inl record_not_found, d)
          else (let d4 = completion_writes E claims attemptId purpose v t ctx d
            in (case find_row (\<lambda>a. att_id a = attemptId) (attempts d4) of
                  None \<Rightarrow> (Inl record_not_found, d)
                | Some a \<Rightarrow> (Inr (attemptSelect a), d4)))))"

text \<open>What the engine is asked; the stored reference is opened inside the \<open>try\<close> block.\<close>

definition ask_engine :: "env \<Rightarrow> (signed_request \<Rightarrow> engine_reply) \<Rightarrow> principal \<Rightarrow> string \<Rightarrow> attempt_row
    \<Rightarrow> media_row \<Rightarrow> (engine_error + engine_evaluation) result" where
  "ask_engine E post claims attemptId a m =
     (case open_sealed E (med_reference m) Verification_Media_Reference of
        Inl e \<Rightarrow> Inl e
      | Inr key \<Rightarrow> Inr (evaluate E post 2
          [(''requestId'', JStr (uuid E 1)), (''attemptId'', JStr attemptId),
           (''userId'', JStr (prn_sub claims)), (''idDocumentReference'', JStr key),
           (''livenessSessionId'', JStr (the (att_livenessSessionId a))),
           (''documentBindingVerified'', JBool True),
           (''policyVersion'', JStr (att_policyVersion a)), (''idempotencyKey'', JStr attemptId)]))"

text \<open>
  The evaluation is used unless it is of another policy, passes an unbound document, is not of the
  last five minutes or says that the provider is unavailable.  \<open>Math.abs(NaN) > 300_000\<close> is false.
\<close>

definition usable_evaluation :: "int \<Rightarrow> attempt_row \<Rightarrow> engine_evaluation \<Rightarrow> int option \<Rightarrow> bool" where
  "usable_evaluation now a v evaluatedAt \<longleftrightarrow> \<not> (evl_policyVersion v \<noteq> att_policyVersion a
       \<or> (evl_decision v = Decision_PASS \<and> \<not> evl_documentBindingVerified v)
       \<or> (case evaluatedAt of None \<Rightarrow> False | Some t \<Rightarrow> \<bar>now - t\<bar> > 300000))
     \<and> evl_decision v \<noteq> Decision_PROVIDER_UNAVAILABLE"

definition later :: "nat \<Rightarrow> env \<Rightarrow> env" where
  "later n E = E\<lparr>clock := (\<lambda>i. clock E (i + n))\<rparr>"

text \<open>From the engine's answer on; \<open>date_ms\<close> is \<open>Date.parse\<close>.\<close>

definition submit_finish :: "env \<Rightarrow> (string \<Rightarrow> int option) \<Rightarrow> principal \<Rightarrow> string \<Rightarrow> attempt_row
    \<Rightarrow> (engine_error + engine_evaluation) result \<Rightarrow> request_context \<Rightarrow> db \<Rightarrow> storage
    \<Rightarrow> attempt_response result \<times> db \<times> storage" where
  "submit_finish E date_ms claims attemptId a answer ctx d st =
     (case answer of
        Inl e \<Rightarrow> (Inl e, d, st)
      | Inr (Inl unavailable) \<Rightarrow> (case recordUnavailable E attemptId d of (res, d1) \<Rightarrow> (res, d1, st))
      | Inr (Inr v) \<Rightarrow>
          if \<not> usable_evaluation (clock E 3) a v (date_ms (evl_evaluatedAt v))
          then (case recordUnavailable E attemptId d of (res, d1) \<Rightarrow> (res, d1, st))
          else (case completeAttempt E claims attemptId (att_purpose a) v (date_ms (evl_evaluatedAt v)) ctx d of
              (Inl e, d1) \<Rightarrow> (Inl e, d1, st)
            | (Inr completed, d1) \<Rightarrow>
                if atr_status completed \<noteq> Attempt_REVIEW_REQUIRED
                then (case deleteAttemptMedia (later 5 E) attemptId d1 st of (d2, st2) \<Rightarrow> (Inr completed, d2, st2))
                else (Inr completed, d1, st)))"

definition submit :: "env \<Rightarrow> (signed_request \<Rightarrow> engine_reply) \<Rightarrow> (string \<Rightarrow> int option) \<Rightarrow> principal \<Rightarrow> string
    \<Rightarrow> request_context \<Rightarrow> db \<Rightarrow> storage \<Rightarrow> attempt_response result \<times> db \<times> storage" where
  "submit E post date_ms claims attemptId ctx d st =
     (case submit_read E claims attemptId d of
        Inl e \<Rightarrow> (Inl e, d, st)
      | Inr (a, m) \<Rightarrow>
          (case submit_claim E claims attemptId (att_status a) d of
             (Inl e, d1) \<Rightarrow> (Inl e, d1, st)
           | (Inr _, d1) \<Rightarrow>
               submit_finish E date_ms claims attemptId a (ask_engine E post claims attemptId a m) ctx d1 st))"

subsection \<open>Reading\<close>

definition verification_status ::
  "principal \<Rightarrow> db \<Rightarrow> (identity_status \<times> attempt_response option) result" where
  "verification_status claims d =
     (case find_row (\<lambda>u. usr_id u = prn_sub claims) (users d) of
        None \<Rightarrow> Inl (Http_Message 404 ''Not Found'')
      | Some u \<Rightarrow> Inr (usr_identityStatus u,
          (case take_rows_desc att_startedAt 1 (enrolment_of (prn_sub claims)) (attempts d) of
             [] \<Rightarrow> None | a # _ \<Rightarrow> Some (attemptSelect a))))"

definition read_attempt :: "principal \<Rightarrow> string \<Rightarrow> db \<Rightarrow> attempt_response result" where
  "read_attempt claims attemptId d =
     (case find_row (\<lambda>a. att_id a = attemptId \<and> att_userId a = prn_sub claims) (attempts d) of
        None \<Rightarrow> Inl attemptNotFound | Some a \<Rightarrow> Inr (attemptSelect a))"

subsection \<open>What a handler leaves alone\<close>

lemma submit_claim_frame:
  "users (snd (submit_claim E claims attemptId status d)) = users d"
  "media (snd (submit_claim E claims attemptId status d)) = media d"
  by (simp_all add: submit_claim_def Let_def)

lemma recordUnavailable_frame:
  "recordUnavailable E attemptId d = (res, d1) \<Longrightarrow> users d1 = users d \<and> media d1 = media d"
  by (auto simp: recordUnavailable_def Let_def split: option.splits)

lemma delete_each_frame:
  "delete_each E ms d st = (d1, st1) \<Longrightarrow> users d1 = users d \<and> attempts d1 = attempts d"
proof (induction ms arbitrary: d st)
  case Nil
  then show ?case by simp
next
  case (Cons m ms)
  from Cons.prems Cons.IH show ?case
    by (fastforce simp: mark_deleted_def split: prod.splits sum.splits)
qed

lemma deleteAttemptMedia_frame:
  "deleteAttemptMedia E attemptId d st = (d1, st1) \<Longrightarrow> users d1 = users d \<and> attempts d1 = attempts d"
  unfolding deleteAttemptMedia_def by (rule delete_each_frame)

text \<open>A completion that commits: what it wrote.\<close>

lemma completion_writes_simps:
  "attempts (completion_writes E claims k purpose v t ctx d) =
     update_rows (claimed_by claims k Attempt_PROCESSING) (completed_row E v t) (attempts d)"
  "users (completion_writes E claims k purpose v t ctx d) = (if purpose = ACCOUNT_ENROLLMENT
      then update_rows (\<lambda>u. usr_id u = prn_sub claims) (settle_user v t) (users d) else users d)"
  "media (completion_writes E claims k purpose v t ctx d) = media d"
  "outbox (completion_writes E claims k purpose v t ctx d) =
     (if fst (mapDecision (evl_decision v)) = Attempt_PASSED \<and> purpose = ACCOUNT_ENROLLMENT
      then outbox (create_outbox E (prn_sub claims) ''IDENTITY_VERIFICATION_COMPLETED''
        (JObj [(''userId'', JStr (prn_sub claims)), (''attemptId'', JStr k)]) d)
      else outbox d)"
  by (simp_all add: completion_writes_def Let_def create_outbox_def)

lemma completeAttempt_InrE:
  assumes "completeAttempt E claims k purpose v evaluatedAt ctx d = (Inr completed, d')"
  obtains t where "evaluatedAt = Some t" and "d' = completion_writes E claims k purpose v t ctx d"
    and "count_rows (claimed_by claims k Attempt_PROCESSING) (attempts d) = 1"
    and "map_option attemptSelect (find_row (\<lambda>a. att_id a = k) (attempts d')) = Some completed"
proof -
  note body = transact_InrD [OF assms [unfolded completeAttempt_def]]
  obtain t where t: "evaluatedAt = Some t" using body by (cases evaluatedAt) simp_all
  show ?thesis
    using body by (intro that [OF t]) (simp_all add: t Let_def split: if_split_asm option.split_asm)
qed

subsection \<open>The course of a submission\<close>

lemma claimed_by_count:
  assumes "distinct (map att_id t)" and "a \<in> set t" and "claimed_by claims k status a"
  shows "count_rows (claimed_by claims k status) t = 1"
proof -
  have "count_rows (\<lambda>a. att_id a = k \<and> att_userId a = prn_sub claims \<and> att_status a = status) t = 1"
    by (rule count_rows_key_1 [where r = a]) (use assms in \<open>simp_all add: claimed_by_def\<close>)
  then show ?thesis by (simp add: claimed_by_def [abs_def])
qed

definition claimed_row :: "env \<Rightarrow> attempt_row \<Rightarrow> attempt_row" where
  "claimed_row E a = a\<lparr>att_status := Attempt_PROCESSING, att_engineRequestId := Some (uuid E 0),
     att_retryAfter := None\<rparr>"

lemma submit_claim_wins:
  assumes "distinct (map att_id (attempts d))" and "a \<in> set (attempts d)"
    and "claimed_by claims k status a"
  obtains d1 where "submit_claim E claims k status d = (Inr (), d1)"
    and "attempts d1 = update_rows (claimed_by claims k status) (claimed_row E) (attempts d)"
    and "users d1 = users d" and "media d1 = media d" and "outbox d1 = outbox d"
    and "distinct (map att_id (attempts d1))" and "claimed_row E a \<in> set (attempts d1)"
    and "claimed_by claims k Attempt_PROCESSING (claimed_row E a)"
proof -
  let ?d1 = "d\<lparr>attempts := update_rows (claimed_by claims k status) (claimed_row E) (attempts d)\<rparr>"
  have "submit_claim E claims k status d = (Inr (), ?d1)"
    using claimed_by_count [OF assms] by (simp add: submit_claim_def claimed_row_def [abs_def])
  moreover have "distinct (map att_id (attempts ?d1))"
    using assms(1) by (simp add: map_update_rows claimed_row_def)
  moreover have "claimed_row E a \<in> set (attempts ?d1)"
    using assms(2,3) by (auto simp: set_update_rows intro!: image_eqI [of _ _ a])
  moreover have "claimed_by claims k Attempt_PROCESSING (claimed_row E a)"
    using assms(3) by (simp add: claimed_by_def claimed_row_def)
  ultimately show ?thesis by (intro that [of ?d1]) simp_all
qed

lemma submit_read_InrD:
  assumes "submit_read E claims k d = Inr (a, m)"
  shows "a \<in> set (attempts d)" and "claimed_by claims k (att_status a) a"
    and "att_status a \<in> {Attempt_MEDIA_PENDING, Attempt_PROVIDER_UNAVAILABLE}"
    and "m \<in> set (media d)" and "med_attemptId m = k" and "med_mediaType m = ID_DOCUMENT" and "med_deletedAt m = None"
proof -
  obtain ms where f: "find_row (\<lambda>a. att_id a = k \<and> att_userId a = prn_sub claims) (attempts d) = Some a"
    and t: "take_rows 1 (\<lambda>m. med_attemptId m = k \<and> med_mediaType m = ID_DOCUMENT \<and> med_deletedAt m = None)
      (media d) = m # ms"
    and st: "att_status a \<in> {Attempt_MEDIA_PENDING, Attempt_PROVIDER_UNAVAILABLE}"
    using assms unfolding submit_read_def by (auto split: option.split_asm list.split_asm if_split_asm)
  show "a \<in> set (attempts d)" "claimed_by claims k (att_status a) a"
    using find_row_SomeD [OF f] by (simp_all add: claimed_by_def)
  show "att_status a \<in> {Attempt_MEDIA_PENDING, Attempt_PROVIDER_UNAVAILABLE}" by (rule st)
  have "m \<in> set (take_rows 1 (\<lambda>m. med_attemptId m = k \<and> med_mediaType m = ID_DOCUMENT
      \<and> med_deletedAt m = None) (media d))" using t by simp
  from subsetD [OF set_take_rows this] show "m \<in> set (media d)" "med_attemptId m = k"
    "med_mediaType m = ID_DOCUMENT" "med_deletedAt m = None" by simp_all
qed

lemma completeAttempt_commits:
  assumes "distinct (map att_id (attempts d))" and "a \<in> set (attempts d)"
    and "claimed_by claims k Attempt_PROCESSING a"
    and "purpose = ACCOUNT_ENROLLMENT \<Longrightarrow> find_row (\<lambda>u. usr_id u = prn_sub claims) (users d) \<noteq> None"
  obtains d' where
    "completeAttempt E claims k purpose v (Some t) ctx d = (Inr (attemptSelect (completed_row E v t a)), d')"
proof -
  note one = claimed_by_count [OF assms(1-3)]
  have "find_row (\<lambda>a. att_id a = k)
      (update_rows (claimed_by claims k Attempt_PROCESSING) (completed_row E v t) (attempts d))
    = map_option (\<lambda>a. if claimed_by claims k Attempt_PROCESSING a then completed_row E v t a else a)
        (find_row (\<lambda>a. att_id a = k) (attempts d))"
    by (rule find_row_update_rows) (simp add: completed_row_def)
  also have "find_row (\<lambda>a. att_id a = k) (attempts d) = Some a"
    using assms(2,3) by (intro find_row_key [OF assms(1)]) (auto simp: claimed_by_def)
  finally have f: "find_row (\<lambda>a. att_id a = k)
      (update_rows (claimed_by claims k Attempt_PROCESSING) (completed_row E v t) (attempts d))
    = Some (completed_row E v t a)" using assms(3) by simp
  have "completeAttempt E claims k purpose v (Some t) ctx d =
      (Inr (attemptSelect (completed_row E v t a)), completion_writes E claims k purpose v t ctx d)"
    unfolding completeAttempt_def
    by (rule transact_Inr) (use assms(4) in \<open>auto simp: Let_def one f completion_writes_simps\<close>)
  then show ?thesis by (rule that)
qed

text \<open>A ready attempt whose evaluation is usable is completed with the engine's decision.\<close>

lemma submit_outcome:
  assumes ids: "distinct (map att_id (attempts d))" and r: "submit_read E claims k d = Inr (a, m)"
    and e: "ask_engine E post claims k a m = Inr (Inr v)"
    and v: "date_ms (evl_evaluatedAt v) = Some t" "usable_evaluation (clock E 3) a v (Some t)"
    and u: "att_purpose a = ACCOUNT_ENROLLMENT \<Longrightarrow>
      find_row (\<lambda>u. usr_id u = prn_sub claims) (users d) \<noteq> None"
  obtains d' st' where
    "submit E post date_ms claims k ctx d st
       = (Inr (attemptSelect (completed_row E v t (claimed_row E a))), d', st')"
    and "users d' = (if att_purpose a = ACCOUNT_ENROLLMENT
      then update_rows (\<lambda>u. usr_id u = prn_sub claims) (settle_user v t) (users d) else users d)"
    and "fst (mapDecision (evl_decision v)) = Attempt_REVIEW_REQUIRED \<Longrightarrow> media d' = media d \<and> st' = st"
proof -
  note rd = submit_read_InrD [OF r]
  obtain d1 where c: "submit_claim E claims k (att_status a) d = (Inr (), d1)" and us: "users d1 = users d"
    and md: "media d1 = media d" and ids1: "distinct (map att_id (attempts d1))"
    and mem: "claimed_row E a \<in> set (attempts d1)"
    and mine: "claimed_by claims k Attempt_PROCESSING (claimed_row E a)"
    by (rule submit_claim_wins [OF ids rd(1,2)])
  let ?done = "attemptSelect (completed_row E v t (claimed_row E a))"
  obtain d2 where d2: "completeAttempt E claims k (att_purpose a) v (Some t) ctx d1 = (Inr ?done, d2)"
    using completeAttempt_commits [OF ids1 mem mine, of "att_purpose a"] u us by metis
  then have w: "d2 = completion_writes E claims k (att_purpose a) v t ctx d1"
    by (auto elim: completeAttempt_InrE)
  have status: "atr_status ?done = fst (mapDecision (evl_decision v))"
    by (simp add: attemptSelect_def completed_row_def)
  obtain d3 st3 where d3: "deleteAttemptMedia (later 5 E) k d2 st = (d3, st3)" by force
  have run: "submit E post date_ms claims k ctx d st =
      (if fst (mapDecision (evl_decision v)) \<noteq> Attempt_REVIEW_REQUIRED then (Inr ?done, d3, st3)
       else (Inr ?done, d2, st))"
    by (simp add: submit_def r c submit_finish_def e v d2 status d3)
  show ?thesis
  proof (cases "fst (mapDecision (evl_decision v)) = Attempt_REVIEW_REQUIRED")
    case True
    with run show ?thesis
      by (intro that [of d2 st]) (simp_all add: w completion_writes_simps us md)
  next
    case False
    with run show ?thesis
      using deleteAttemptMedia_frame [OF d3]
      by (intro that [of d3 st3]) (simp_all add: w completion_writes_simps us)
  qed
qed

text \<open>Only a passing, bound, fresh evaluation under the attempt's own policy verifies a user.\<close>

lemma submit_verifies:
  assumes s: "submit E post date_ms claims k ctx d st = (res, d', st')"
    and x: "x \<in> set (users d')" "x \<notin> set (users d)" "usr_identityStatus x = Identity_VERIFIED"
  obtains a m v t where "submit_read E claims k d = Inr (a, m)"
    and "count_rows (claimed_by claims k (att_status a)) (attempts d) = 1"
    and "ask_engine E post claims k a m = Inr (Inr v)" and "usr_id x = prn_sub claims"
    and "evl_decision v = Decision_PASS" and "evl_documentBindingVerified v"
    and "evl_policyVersion v = att_policyVersion a" and "att_purpose a = ACCOUNT_ENROLLMENT"
    and "date_ms (evl_evaluatedAt v) = Some t" and "\<bar>clock E 3 - t\<bar> \<le> 300000"
proof -
  have changed: "users d' \<noteq> users d" using x by metis
  obtain a m where r: "submit_read E claims k d = Inr (a, m)"
    using s changed by (cases "submit_read E claims k d") (auto simp: submit_def)
  obtain cres d1 where c: "submit_claim E claims k (att_status a) d = (cres, d1)" by force
  have us: "users d1 = users d" using submit_claim_frame(1) c by (metis snd_conv)
  have won: "cres = Inr ()" using s changed us by (cases cres) (auto simp: submit_def r c)
  have one: "count_rows (claimed_by claims k (att_status a)) (attempts d) = 1"
    using c won by (auto simp: submit_claim_def Let_def split: if_split_asm)
  have f: "submit_finish E date_ms claims k a (ask_engine E post claims k a m) ctx d1 st = (res, d', st')"
    using s won by (simp add: submit_def r c)
  obtain v where e: "ask_engine E post claims k a m = Inr (Inr v)"
    and ok: "usable_evaluation (clock E 3) a v (date_ms (evl_evaluatedAt v))"
    using f changed us recordUnavailable_frame
    by (auto simp: submit_finish_def split: sum.split_asm if_split_asm prod.split_asm)
  obtain cmp d2 where comp: "completeAttempt E claims k (att_purpose a) v (date_ms (evl_evaluatedAt v)) ctx d1
      = (cmp, d2)" by force
  have us': "users d' = users d2"
    using f deleteAttemptMedia_frame
    by (auto simp: submit_finish_def e ok comp split: sum.split_asm if_split_asm prod.split_asm)
  have "cmp = Inl err \<Longrightarrow> d2 = d1" for err
    using comp unfolding completeAttempt_def by (auto dest: transact_rolls_back)
  then obtain completed where "cmp = Inr completed" using changed us us' by (cases cmp) auto
  with comp obtain t where t: "date_ms (evl_evaluatedAt v) = Some t"
    and w: "d2 = completion_writes E claims k (att_purpose a) v t ctx d1"
    by (auto elim: completeAttempt_InrE)
  have enrol: "att_purpose a = ACCOUNT_ENROLLMENT"
    using changed us us' by (auto simp: w completion_writes_simps split: if_split_asm)
  then have "x \<in> set (update_rows (\<lambda>u. usr_id u = prn_sub claims) (settle_user v t) (users d))"
    using x(1) us us' by (simp add: w completion_writes_simps)
  then obtain u where u: "usr_id u = prn_sub claims" "x = settle_user v t u"
    using x(2) by (elim in_update_rowsE) simp_all
  have verified: "snd (mapDecision (evl_decision v)) = Identity_VERIFIED"
    using x(3) by (simp add: u(2) settle_user_def Let_def split: if_split_asm)
  then have pass: "evl_decision v = Decision_PASS" by (cases "evl_decision v") simp_all
  show ?thesis
    by (rule that [OF r one e _ pass _ _ enrol t])
      (use u pass ok in \<open>auto simp: settle_user_def Let_def usable_evaluation_def t\<close>)
qed

text \<open>The claims of one attempt in one status.\<close>

interpretation lc: single_use
  "\<lambda>(E, claims). submit_claim E claims k Attempt_MEDIA_PENDING"
  "\<lambda>d. \<forall>a \<in> set (attempts d). att_id a = k \<longrightarrow> att_status a \<noteq> Attempt_MEDIA_PENDING"
  "\<lambda>d. distinct (map att_id (attempts d))" "\<lambda>_. True" for k
proof
  fix d :: db and x :: "env \<times> principal"
  obtain E claims where x: "x = (E, claims)" by force
  assume ids: "distinct (map att_id (attempts d))"
  let ?d' = "snd ((\<lambda>(E, claims). submit_claim E claims k Attempt_MEDIA_PENDING) x d)"
  have att: "attempts ?d' = update_rows (claimed_by claims k Attempt_MEDIA_PENDING) (claimed_row E) (attempts d)"
    by (simp add: x submit_claim_def claimed_row_def [abs_def] Let_def)
  show "distinct (map att_id (attempts ?d'))"
    using ids unfolding att by (subst map_update_rows) (simp_all add: claimed_row_def)
  show "\<forall>a \<in> set (attempts ?d'). att_id a = k \<longrightarrow> att_status a \<noteq> Attempt_MEDIA_PENDING"
    if "\<forall>a \<in> set (attempts d). att_id a = k \<longrightarrow> att_status a \<noteq> Attempt_MEDIA_PENDING"
    using that unfolding att by (simp add: ball_update_rows claimed_row_def)
  assume win: "succeeded (fst ((\<lambda>(E, claims). submit_claim E claims k Attempt_MEDIA_PENDING) x d))"
  then have "count_rows (claimed_by claims k Attempt_MEDIA_PENDING) (attempts d) = Suc 0"
    by (simp add: x submit_claim_def Let_def split: if_split_asm)
  from count_rows_1D [OF this] obtain a where a: "a \<in> set (attempts d)"
    "claimed_by claims k Attempt_MEDIA_PENDING a" by blast
  then show "\<not> (\<forall>a \<in> set (attempts d). att_id a = k \<longrightarrow> att_status a \<noteq> Attempt_MEDIA_PENDING)"
    by (auto simp: claimed_by_def)
  show "\<forall>b \<in> set (attempts ?d'). att_id b = k \<longrightarrow> att_status b \<noteq> Attempt_MEDIA_PENDING"
    unfolding att ball_update_rows
  proof (intro ballI conjI impI)
    fix b assume "b \<in> set (attempts d)" "\<not> claimed_by claims k Attempt_MEDIA_PENDING b" "att_id b = k"
    then show "att_status b \<noteq> Attempt_MEDIA_PENDING"
      using distinct_key_eq [OF ids _ a(1)] a(2) by (auto simp: claimed_by_def)
  qed (simp add: claimed_row_def)
qed

subsection \<open>Attempts over time\<close>

text \<open>The starting times of a user's enrolment attempts; no handler but \<open>createAttempt\<close> adds one.\<close>

definition enrolment_starts :: "string \<Rightarrow> db \<Rightarrow> int list" where
  "enrolment_starts u d = map att_startedAt (filter (enrolment_of u) (attempts d))"

definition same_enrolment :: "(attempt_row \<Rightarrow> attempt_row) \<Rightarrow> bool" where
  "same_enrolment f \<longleftrightarrow> (\<forall>a u. enrolment_of u (f a) = enrolment_of u a \<and> att_startedAt (f a) = att_startedAt a)"

lemma enrolment_starts_update:
  "same_enrolment f \<Longrightarrow> attempts d' = update_rows P f (attempts d) \<Longrightarrow> enrolment_starts u d' = enrolment_starts u d"
proof -
  assume f: "same_enrolment f" and d': "attempts d' = update_rows P f (attempts d)"
  have "map att_startedAt (filter (enrolment_of u) (update_rows P f t)) = map att_startedAt (filter (enrolment_of u) t)"
    for t using f by (induction t) (auto simp: same_enrolment_def)
  then show ?thesis by (simp add: enrolment_starts_def d')
qed

lemma enrolment_starts_cong: "attempts d' = attempts d \<Longrightarrow> enrolment_starts u d' = enrolment_starts u d"
  by (simp add: enrolment_starts_def)

lemma same_enrolment_rows:
  "same_enrolment (claimed_row E)" "same_enrolment (completed_row E v t)"
  "same_enrolment (\<lambda>a. a\<lparr>att_livenessSessionId := l\<rparr>)"
  "same_enrolment (\<lambda>a. a\<lparr>att_status := s, att_reasonCode := rc, att_retryAfter := ra\<rparr>)"
  by (simp_all add: same_enrolment_def enrolment_of_def claimed_row_def completed_row_def)

lemma recordUnavailable_starts:
  "recordUnavailable E k d = (res, d1) \<Longrightarrow> enrolment_starts u d1 = enrolment_starts u d"
  using enrolment_starts_update [OF same_enrolment_rows(4)]
  by (auto simp: recordUnavailable_def Let_def split: option.splits)

lemma completeAttempt_starts:
  assumes "completeAttempt E claims k p v t ctx d = (res, d1)"
  shows "enrolment_starts u d1 = enrolment_starts u d"
proof (cases res)
  case (Inl e)
  with assms show ?thesis unfolding completeAttempt_def by (auto dest: transact_rolls_back)
next
  case (Inr c)
  with assms obtain t' where "d1 = completion_writes E claims k p v t' ctx d"
    by (auto elim: completeAttempt_InrE)
  then show ?thesis
    using enrolment_starts_update [OF same_enrolment_rows(2)] by (simp add: completion_writes_simps)
qed

lemma submit_claim_starts:
  "submit_claim E claims k status d = (res, d1) \<Longrightarrow> enrolment_starts u d1 = enrolment_starts u d"
  using enrolment_starts_update [OF same_enrolment_rows(1)]
  by (auto simp: submit_claim_def claimed_row_def [abs_def] Let_def split: if_splits)

lemma submit_finish_starts:
  "enrolment_starts u (fst (snd (submit_finish E date_ms claims k a answer ctx d st))) = enrolment_starts u d"
proof -
  obtain rres d1 where un: "recordUnavailable E k d = (rres, d1)" by force
  note r = recordUnavailable_starts [OF un, of u]
  show ?thesis
  proof (cases answer)
    case (Inr o1)
    show ?thesis
    proof (cases o1)
      case (Inr v)
      obtain cres d2 where c: "completeAttempt E claims k (att_purpose a) v (date_ms (evl_evaluatedAt v)) ctx d = (cres, d2)"
        by force
      obtain d3 st3 where del: "deleteAttemptMedia (later 5 E) k d2 st = (d3, st3)" by force
      have "attempts d3 = attempts d2" using deleteAttemptMedia_frame [OF del] by simp
      from enrolment_starts_cong [OF this, of u] completeAttempt_starts [OF c, of u] r show ?thesis
        by (cases cres) (simp_all add: submit_finish_def \<open>answer = Inr o1\<close> Inr c un del)
    qed (simp add: submit_finish_def \<open>answer = Inr o1\<close> un r)
  qed (simp add: submit_finish_def)
qed

lemma submit_starts:
  assumes "submit E post date_ms claims k ctx d st = (res, d', st')"
  shows "enrolment_starts u d' = enrolment_starts u d"
proof (cases "submit_read E claims k d")
  case (Inl e)
  with assms show ?thesis by (simp add: submit_def)
next
  case (Inr am)
  obtain a m where am: "am = (a, m)" by force
  obtain cres d1 where c: "submit_claim E claims k (att_status a) d = (cres, d1)" by force
  note starts = submit_claim_starts [OF c, of u]
  show ?thesis
  proof (cases cres)
    case (Inl e)
    with assms starts show ?thesis by (simp add: submit_def Inr am c)
  next
    case won: (Inr x)
    from assms have "submit_finish E date_ms claims k a (ask_engine E post claims k a m) ctx d1 st = (res, d', st')"
      by (simp add: submit_def Inr am c won)
    then show ?thesis
      using submit_finish_starts [of u E date_ms claims k a "ask_engine E post claims k a m" ctx d1 st] starts by simp
  qed
qed

lemma createLivenessSession_starts:
  assumes "createLivenessSession E post claims k d = (res, d1)"
  shows "enrolment_starts u d1 = enrolment_starts u d"
  using assms enrolment_starts_update [OF same_enrolment_rows(3)]
  by (auto simp: createLivenessSession_def liveness_store_def Let_def split: sum.split_asm if_split_asm)

lemma createChallenge_starts:
  assumes "createChallenge E claims input ctx d = (res, d1)"
  shows "enrolment_starts u d1 = enrolment_starts u d"
proof (cases "assertPurpose (sui_purpose input)")
  case (Inl e)
  with assms show ?thesis by (simp add: createChallenge_def)
next
  case (Inr x)
  then have p: "sui_purpose input \<noteq> ACCOUNT_ENROLLMENT"
    by (auto simp: assertPurpose_def isStepUpPurpose_def STEP_UP_PURPOSES_def split: if_split_asm)
  have "attempts d1 = attempts d \<or> attempts d1 = attempts d @ [new_attempt E claims input ctx (expireDue (clock E 0) d)]"
    using assms unfolding createChallenge_def Inr
    by (auto simp: transact_def Let_def split: if_split_asm option.split_asm)
  then show ?thesis using p by (auto simp: enrolment_starts_def enrolment_of_def new_attempt_def)
qed

lemma attempt_create_starts:
  assumes "attempt_create E claims ctx latest d = (res, d1)"
  shows "enrolment_starts u d1 = enrolment_starts u d @ (if succeeded res \<and> prn_sub claims = u then [db_clock E] else [])"
proof (cases res)
  case (Inl e)
  with assms show ?thesis by (auto dest: attempt_create_InlD)
next
  case (Inr x)
  with assms attempt_create_InrD(1) have "attempts d1 = attempts d @ [new_enrolment E claims ctx latest d]" by blast
  with Inr show ?thesis by (auto simp: enrolment_starts_def new_enrolment_def enrolment_of_def)
qed

text \<open>How many attempts of a user count for a start that reads the clock now.\<close>

definition started_recently :: "env \<Rightarrow> string \<Rightarrow> db \<Rightarrow> nat" where
  "started_recently E u d = length (filter (\<lambda>s. clock E 0 - hours E ''VERIFICATION_ATTEMPT_WINDOW_HOURS'' \<le> s)
     (enrolment_starts u d))"

lemma attempt_read_counts:
  assumes "attempt_read E u d = Inr latest"
  shows "started_recently E u d < cfg_num E ''VERIFICATION_MAX_ATTEMPTS''"
proof -
  have "count_rows (\<lambda>a. enrolment_of u a
      \<and> clock E 0 - hours E ''VERIFICATION_ATTEMPT_WINDOW_HOURS'' \<le> att_startedAt a) (attempts d)
    < cfg_num E ''VERIFICATION_MAX_ATTEMPTS''"
    using assms by (auto simp: attempt_read_def attempt_refusal_def Let_def split: option.split_asm if_split_asm)
  then show ?thesis
    by (simp add: started_recently_def enrolment_starts_def count_rows_def filter_map comp_def conj_commute)
qed

lemma attempt_create_recent:
  "attempt_create E claims ctx latest d = (res, d1) \<Longrightarrow> started_recently E u d1 \<le> started_recently E u d + 1"
  using attempt_create_starts [of E claims ctx latest d res d1 u] by (simp add: started_recently_def)

text \<open>Two starts that read the same state are both written, neither sees the other.  (The schema of the
  database is not in the repository; one that keeps a user from having two attempts with the same number
  would refuse the second.)\<close>

lemma concurrent_starts:
  assumes "attempt_read E (prn_sub claims) d = Inr latest"
  obtains a1 d1 a2 d2 where "attempt_create E claims ctx latest d = (Inr a1, d1)"
    and "attempt_create E claims ctx' latest d1 = (Inr a2, d2)"
    and "length (enrolment_starts (prn_sub claims) d2) = length (enrolment_starts (prn_sub claims) d) + 2"
proof -
  have u: "find_row (\<lambda>x. usr_id x = prn_sub claims) (users d) \<noteq> None" using assms by (rule attempt_read_user)
  then obtain a1 d1 where c1: "attempt_create E claims ctx latest d = (Inr a1, d1)"
    by (auto simp: attempt_create_def Let_def)
  have "find_row (\<lambda>x. usr_id x = prn_sub claims) (users d1) \<noteq> None"
    using u by (simp add: attempt_create_InrD(2) [OF c1] start_enrolment_def find_row_update_key)
  then obtain a2 d2 where c2: "attempt_create E claims ctx' latest d1 = (Inr a2, d2)"
    by (auto simp: attempt_create_def Let_def)
  show thesis
    using attempt_create_starts [OF c1, of "prn_sub claims"] attempt_create_starts [OF c2, of "prn_sub claims"]
    by (intro that [OF c1 c2]) simp
qed

text \<open>A confirmed upload: the row it stores opens to the object's key.\<close>

lemma confirmUpload_InrE:
  assumes "confirmUpload E schema claims k input st d = (Inr (), d')"
  obtains a confirmed reference where "ownedActiveAttempt (prn_sub claims) k d = Inr a"
    and "upl_mediaType input = ID_DOCUMENT"
    and "prefix (cfg_str E ''AWS_S3_VERIFICATION_PREFIX'' @ k @ ''/'') (upl_objectKey input)"
    and "confirmObject E input k st = Inr confirmed"
    and "seal E 0 (upl_objectKey input) Verification_Media_Reference = Inr reference"
    and "d' = d\<lparr>media := media d @ [new_media E (mds_default schema) k input confirmed reference d]\<rparr>"
  using assms
  by (auto simp: confirmUpload_def store_media_def assertDocumentMedia_def Let_def
      split: sum.split_asm if_split_asm)

end
