(* ===== verification/Outbox.thy ===== *)
theory Outbox
  imports Identity
begin

text \<open>
  The mail outbox (\<open>integrations/mail\<close>): the templates, the request to the mail provider, and the
  worker that claims due events with a lease, delivers them, retries with a growing delay and gives up
  after \<open>OUTBOX_MAX_ATTEMPTS\<close>.  The provider (whether a delivery is accepted), the URL parser and
  Joi's e-mail check are parameters.
\<close>

subsection \<open>Templates\<close>

record mail_message =
  mlm_recipient :: string
  mlm_subject :: string
  mlm_text :: string
  mlm_html :: string
  mlm_deliveryId :: "string option"

record mail_platform =
  mlp_action_url :: "string \<Rightarrow> string \<Rightarrow> string \<Rightarrow> string"
  mlp_valid_email :: "string \<Rightarrow> bool"

text \<open>\<open>escapeHtml\<close>: one replacement after the other.\<close>

definition replace_char :: "char \<Rightarrow> string \<Rightarrow> string \<Rightarrow> string" where
  "replace_char c entity s = concat (map (\<lambda>x. if x = c then entity else [x]) s)"

definition quote :: char where
  "quote = char_of (34 :: nat)"

definition escapeHtml :: "string \<Rightarrow> string" where
  "escapeHtml v = replace_char (CHR ''>'') ''&gt;'' (replace_char (CHR ''<'') ''&lt;''
     (replace_char quote ''&quot;'' (replace_char (CHR ''&'') ''&amp;'' v)))"

definition emailVerification :: "env \<Rightarrow> mail_platform \<Rightarrow> string \<Rightarrow> string \<Rightarrow> mail_message" where
  "emailVerification E p recipient token =
     (let url = mlp_action_url p ''/verify-email'' (cfg_str E ''MUCYORA_USER_APP_URL'') token
      in \<lparr>mlm_recipient = recipient, mlm_subject = ''Verify your MUCYORA email'',
          mlm_text = ''Verify your email by opening this link: '' @ url,
          mlm_html = ''<p>Complete your MUCYORA registration by verifying your email.</p><p><a href=''
            @ [quote] @ escapeHtml url @ [quote] @ ''>Verify email</a></p>'',
          mlm_deliveryId = None\<rparr>)"

definition welcome_mail :: "string \<Rightarrow> mail_message" where
  "welcome_mail recipient =
     \<lparr>mlm_recipient = recipient, mlm_subject = ''Your MUCYORA email is verified'',
      mlm_text = ''Your email is verified. Continue with identity verification in MUCYORA.'',
      mlm_html = ''<p>Your email is verified.</p><p>Continue with identity verification in MUCYORA.</p>'',
      mlm_deliveryId = None\<rparr>"

definition passwordReset :: "env \<Rightarrow> mail_platform \<Rightarrow> string \<Rightarrow> string \<Rightarrow> mail_message" where
  "passwordReset E p recipient token =
     (let url = mlp_action_url p ''/reset-password'' (cfg_str E ''MUCYORA_USER_APP_URL'') token
      in \<lparr>mlm_recipient = recipient, mlm_subject = ''Reset your MUCYORA password'',
          mlm_text = ''Reset your password by opening this link: '' @ url,
          mlm_html = ''<p>A password reset was requested for your MUCYORA account.</p><p><a href=''
            @ [quote] @ escapeHtml url @ [quote] @ ''>Reset password</a></p><p>''
            @ ''If you did not request this, you can ignore this email.</p>'',
          mlm_deliveryId = None\<rparr>)"

definition passwordChanged :: "string \<Rightarrow> mail_message" where
  "passwordChanged recipient =
     \<lparr>mlm_recipient = recipient, mlm_subject = ''Your MUCYORA password was changed'',
      mlm_text = ''Your MUCYORA password was changed. If this was not you, contact support immediately.'',
      mlm_html = ''<p>Your MUCYORA password was changed.</p><p>If this was not you, contact support immediately.</p>'',
      mlm_deliveryId = None\<rparr>"

subsection \<open>The provider\<close>

record mail_request =
  mrq_url :: string
  mrq_body :: "(string \<times> string) list"
  mrq_headers :: "(string \<times> string) list"

definition mail_http_request :: "env \<Rightarrow> mail_message \<Rightarrow> mail_request" where
  "mail_http_request E m =
     \<lparr>mrq_url = cfg_str E ''MAIL_PROVIDER_URL'',
      mrq_body = [(''from'', cfg_str E ''MAIL_FROM''), (''to'', mlm_recipient m),
        (''subject'', mlm_subject m), (''text'', mlm_text m), (''html'', mlm_html m)],
      mrq_headers = [(''authorization'', ''Bearer '' @ cfg_str E ''MAIL_API_KEY''),
        (''content-type'', ''application/json'')]
        @ (if truthy_text (mlm_deliveryId m) then [(''idempotency-key'', the (mlm_deliveryId m))] else [])\<rparr>"

text \<open>What the provider accepts, and the requests it has accepted.\<close>

record mailer =
  mlr_accepts :: "mail_request \<Rightarrow> bool"
  mlr_sent :: "mail_request list"

definition mail_send :: "env \<Rightarrow> mail_message \<Rightarrow> mailer \<Rightarrow> unit result \<times> mailer" where
  "mail_send E m s =
     (let request = mail_http_request E m
      in if mlr_accepts s request then (Inr (), s\<lparr>mlr_sent := mlr_sent s @ [request]\<rparr>)
         else (Inl (Raised ''mail provider''), s))"

subsection \<open>Messages of events\<close>

record mail_payload =
  mpl_recipient :: string
  mpl_tokenEncrypted :: "string option"

definition payloadSchema :: "mail_platform \<Rightarrow> json \<Rightarrow> mail_payload option" where
  "payloadSchema p j =
     (if \<not> only_members [''recipient'', ''tokenEncrypted''] j then None
      else (case json_field ''recipient'' j of
          Some (JStr recipient) \<Rightarrow>
            if recipient = [] \<or> \<not> mlp_valid_email p recipient then None
            else (case optional_field (joi_strict 4096) ''tokenEncrypted'' j of
                Inl _ \<Rightarrow> None
              | Inr token \<Rightarrow> Some \<lparr>mpl_recipient = recipient, mpl_tokenEncrypted = token\<rparr>)
        | _ \<Rightarrow> None))"

definition messageFor :: "env \<Rightarrow> mail_platform \<Rightarrow> string \<Rightarrow> mail_payload \<Rightarrow> mail_message result" where
  "messageFor E p eventType payload =
     (let encrypted = (case mpl_tokenEncrypted payload of None \<Rightarrow> [] | Some s \<Rightarrow> s)
      in if eventType = ''EMAIL_VERIFICATION_REQUESTED''
         then (case open_sealed E encrypted Email_Verification_Token of
             Inl e \<Rightarrow> Inl e | Inr token \<Rightarrow> Inr (emailVerification E p (mpl_recipient payload) token))
         else if eventType = ''PASSWORD_RESET_REQUESTED''
         then (case open_sealed E encrypted Password_Reset_Token of
             Inl e \<Rightarrow> Inl e | Inr token \<Rightarrow> Inr (passwordReset E p (mpl_recipient payload) token))
         else if eventType = ''PASSWORD_CHANGED_NOTIFICATION''
         then Inr (passwordChanged (mpl_recipient payload))
         else Inr (welcome_mail (mpl_recipient payload)))"

text \<open>The body of the \<open>try\<close> block up to the database: validate, render, send.\<close>

definition deliver :: "env \<Rightarrow> mail_platform \<Rightarrow> outbox_row \<Rightarrow> mailer \<Rightarrow> unit result \<times> mailer" where
  "deliver E p event s =
     (case payloadSchema p (obx_payload event) of
        None \<Rightarrow> (Inl (Raised ''Invalid outbox payload''), s)
      | Some payload \<Rightarrow>
          (case messageFor E p (obx_eventType event) payload of
             Inl e \<Rightarrow> (Inl e, s)
           | Inr message \<Rightarrow> mail_send E (message\<lparr>mlm_deliveryId := Some (obx_id event)\<rparr>) s))"

subsection \<open>The worker\<close>

definition retryDelayMilliseconds :: "env \<Rightarrow> nat \<Rightarrow> nat" where
  "retryDelayMilliseconds E attemptCount =
     min (cfg_num E ''OUTBOX_RETRY_MAX_SECONDS'')
       (cfg_num E ''OUTBOX_RETRY_BASE_SECONDS'' * 2 ^ min attemptCount 10) * 1000"

definition lease_free :: "env \<Rightarrow> int \<Rightarrow> outbox_row \<Rightarrow> bool" where
  "lease_free E now x \<longleftrightarrow> (case obx_processingStartedAt x of
     None \<Rightarrow> True | Some t \<Rightarrow> t \<le> now - seconds E ''OUTBOX_LEASE_SECONDS'')"

definition open_event :: "env \<Rightarrow> int \<Rightarrow> outbox_row \<Rightarrow> bool" where
  "open_event E now x \<longleftrightarrow> obx_publishedAt x = None \<and> obx_deadLetteredAt x = None
     \<and> obx_nextAttemptAt x \<le> now \<and> lease_free E now x"

definition mail_event_types :: "string list" where
  "mail_event_types = [''EMAIL_VERIFICATION_REQUESTED'', ''WELCOME_NEXT_STEP'',
     ''PASSWORD_RESET_REQUESTED'', ''PASSWORD_CHANGED_NOTIFICATION'']"

definition available_events :: "env \<Rightarrow> db \<Rightarrow> outbox_row list" where
  "available_events E d = take_rows_asc obx_createdAt (cfg_num E ''OUTBOX_BATCH_SIZE'')
     (\<lambda>x. open_event E (clock E 0) x \<and> obx_attemptCount x < cfg_num E ''OUTBOX_MAX_ATTEMPTS''
        \<and> obx_eventType x \<in> set mail_event_types) (outbox d)"

definition claimable_event :: "env \<Rightarrow> string \<Rightarrow> int \<Rightarrow> outbox_row \<Rightarrow> bool" where
  "claimable_event E k now x \<longleftrightarrow> obx_id x = k \<and> open_event E now x"

definition owned_event :: "string \<Rightarrow> string \<Rightarrow> outbox_row \<Rightarrow> bool" where
  "owned_event k worker x \<longleftrightarrow> obx_id x = k \<and> obx_publishedAt x = None \<and> obx_processingBy x = Some worker"

definition claim_event :: "env \<Rightarrow> string \<Rightarrow> outbox_row \<Rightarrow> db \<Rightarrow> bool \<times> db" where
  "claim_event E worker event d =
     (let now = clock E 0
      in (count_rows (claimable_event E (obx_id event) now) (outbox d) = 1,
          d\<lparr>outbox := update_rows (claimable_event E (obx_id event) now)
            (\<lambda>x. x\<lparr>obx_processingStartedAt := Some now, obx_processingBy := Some worker\<rparr>) (outbox d)\<rparr>))"

definition event_published :: "env \<Rightarrow> outbox_row \<Rightarrow> outbox_row" where
  "event_published E x = x\<lparr>obx_publishedAt := Some (clock E 1), obx_attemptCount := obx_attemptCount x + 1,
     obx_lastError := None, obx_processingStartedAt := None, obx_processingBy := None\<rparr>"

definition event_failed :: "env \<Rightarrow> outbox_row \<Rightarrow> outbox_row \<Rightarrow> outbox_row" where
  "event_failed E event x =
     (let x1 = x\<lparr>obx_attemptCount := obx_attemptCount x + 1, obx_lastError := Some ''MAIL_DELIVERY_FAILED'',
            obx_nextAttemptAt := clock E 1 + int (retryDelayMilliseconds E (obx_attemptCount event)),
            obx_processingStartedAt := None, obx_processingBy := None\<rparr>
      in if cfg_num E ''OUTBOX_MAX_ATTEMPTS'' \<le> obx_attemptCount event + 1
         then x1\<lparr>obx_deadLetteredAt := Some (clock E 2)\<rparr> else x1)"

text \<open>From the claim on: other workers may run between a claim and its settlement.\<close>

definition settle_event :: "env \<Rightarrow> string \<Rightarrow> outbox_row \<Rightarrow> unit result \<Rightarrow> db \<Rightarrow> bool \<times> db" where
  "settle_event E worker event outcome d =
     (succeeded outcome,
      d\<lparr>outbox := update_rows (owned_event (obx_id event) worker)
        (if succeeded outcome then event_published E else event_failed E event) (outbox d)\<rparr>)"

definition dispatchEvent :: "env \<Rightarrow> mail_platform \<Rightarrow> string \<Rightarrow> outbox_row \<Rightarrow> db \<times> mailer \<Rightarrow> bool \<times> db \<times> mailer" where
  "dispatchEvent E p worker event s = (case s of (d, ml) \<Rightarrow>
     (case claim_event E worker event d of (claimed, d1) \<Rightarrow>
        if \<not> claimed then (False, d1, ml)
        else (case deliver E p event ml of (outcome, ml1) \<Rightarrow>
          (case settle_event E worker event outcome d1 of (done', d2) \<Rightarrow> (done', d2, ml1)))))"

text \<open>
  A slice of at most \<open>concurrency\<close> events is dispatched together.  They are distinct rows, and the theory
  \<open>Delivery\<close> proves that every interleaving of their steps does what this order does.  The event number
  \<open>n\<close> of the batch reads its own clock.
\<close>

fun dispatch_slice :: "env \<Rightarrow> mail_platform \<Rightarrow> string \<Rightarrow> nat \<Rightarrow> outbox_row list \<Rightarrow> db \<times> mailer \<Rightarrow> nat \<times> db \<times> mailer" where
  "dispatch_slice E p worker n [] s = (0, s)"
| "dispatch_slice E p worker n (event # evs) s =
     (case dispatchEvent (later (3 * n + 1) E) p worker event s of (done', s1) \<Rightarrow>
       (case dispatch_slice E p worker (n + 1) evs s1 of (k, s2) \<Rightarrow> ((if done' then k + 1 else k), s2)))"

text \<open>
  \<open>for (let offset = 0; offset < events.length; offset += concurrency)\<close>; \<open>None\<close> is a loop that does
  not end.
\<close>

partial_function (option) dispatch_loop ::
  "env \<Rightarrow> mail_platform \<Rightarrow> string \<Rightarrow> nat \<Rightarrow> outbox_row list \<Rightarrow> nat \<Rightarrow> nat \<times> db \<times> mailer \<Rightarrow> (nat \<times> db \<times> mailer) option" where
  "dispatch_loop E p worker concurrency evs offset s =
     (if offset < length evs
      then dispatch_loop E p worker concurrency evs (offset + concurrency)
        (let (published, t) = s; (k, t1) = dispatch_slice E p worker offset (take concurrency (drop offset evs)) t
         in (published + k, t1))
      else Some s)"

definition dispatchAvailableEvents :: "env \<Rightarrow> mail_platform \<Rightarrow> string \<Rightarrow> db \<times> mailer \<Rightarrow> (nat \<times> db \<times> mailer) option" where
  "dispatchAvailableEvents E p worker s =
     dispatch_loop E p worker (cfg_num E ''OUTBOX_DELIVERY_CONCURRENCY'') (available_events E (fst s)) 0 (0, s)"

text \<open>
  \<open>dispatchBatch\<close> under the lock and the process's own flag.  The configuration only admits a positive
  concurrency, for which \<open>dispatch_loop_total\<close> below shows that the first branch is not taken.
\<close>

definition outbox_work :: "env \<Rightarrow> mail_platform \<Rightarrow> string \<Rightarrow> bool \<times> db \<times> mailer \<Rightarrow> redis
    \<Rightarrow> nat result \<times> (bool \<times> db \<times> mailer) \<times> redis" where
  "outbox_work E p worker s r = (case s of (flag, t) \<Rightarrow>
     (case dispatchAvailableEvents E p worker t of
        None \<Rightarrow> (Inl (Raised ''unreachable''), (flag, t), r)
      | Some (n, t1) \<Rightarrow> (Inr n, (flag, t1), r)))"

definition dispatchBatch :: "env \<Rightarrow> nat \<Rightarrow> mail_platform \<Rightarrow> string \<Rightarrow> bool \<times> db \<times> mailer \<Rightarrow> redis
    \<Rightarrow> nat result \<times> (bool \<times> db \<times> mailer) \<times> redis" where
  "dispatchBatch E i p worker s r = (case s of (dispatching, t) \<Rightarrow>
     if dispatching then (Inr 0, s, r)
     else (case runExclusive E i ''mail-outbox-batch'' (cfg_num E ''OPERATIONAL_JOB_LOCK_TTL_SECONDS'')
         (outbox_work E p worker) (True, t) r of
        (Inl e, (_, t1), r1) \<Rightarrow> (Inl e, (False, t1), r1)
      | (Inr n, (_, t1), r1) \<Rightarrow> (Inr (case n of None \<Rightarrow> 0 | Some k \<Rightarrow> k), (False, t1), r1)))"

subsection \<open>The loop ends, and handles every event once in order\<close>

lemma dispatch_slice_append:
  "dispatch_slice E p worker n (xs @ ys) s =
     (case dispatch_slice E p worker n xs s of (k, s1) \<Rightarrow>
       (case dispatch_slice E p worker (n + length xs) ys s1 of (k', s2) \<Rightarrow> (k + k', s2)))"
  by (induction xs arbitrary: n s) (auto split: prod.splits)

lemma dispatch_loop_total:
  assumes "0 < concurrency"
  shows "dispatch_loop E p worker concurrency evs offset (k, t) =
    (case dispatch_slice E p worker offset (drop offset evs) t of (n, t1) \<Rightarrow> Some (k + n, t1))"
proof (induction "length evs - offset" arbitrary: offset k t rule: less_induct)
  case less
  show ?case
  proof (cases "offset < length evs")
    case False
    then show ?thesis by (subst dispatch_loop.simps) simp
  next
    case True
    let ?xs = "take concurrency (drop offset evs)"
    obtain n1 t1 where s1: "dispatch_slice E p worker offset ?xs t = (n1, t1)" by (meson surj_pair)
    obtain n2 t2 where s2: "dispatch_slice E p worker (offset + concurrency) (drop (offset + concurrency) evs) t1
      = (n2, t2)" by (meson surj_pair)
    have split: "drop offset evs = ?xs @ drop (offset + concurrency) evs"
      by (metis add.commute append_take_drop_id drop_drop)
    have all: "dispatch_slice E p worker offset (drop offset evs) t = (n1 + n2, t2)"
    proof (cases "offset + concurrency \<le> length evs")
      case True
      then have "length ?xs = concurrency" by simp
      then show ?thesis by (subst split) (simp add: dispatch_slice_append s1 s2 del: take_append)
    next
      case False
      then have "drop (offset + concurrency) evs = []" by simp
      then show ?thesis using s1 s2 by (subst split) (simp add: dispatch_slice_append)
    qed
    have "dispatch_loop E p worker concurrency evs (offset + concurrency) (k + n1, t1) = Some (k + n1 + n2, t2)"
      using less [of "offset + concurrency" "k + n1" t1] True assms by (simp add: s2)
    then show ?thesis
      using True by (subst dispatch_loop.simps) (simp add: s1 all)
  qed
qed

subsection \<open>The life of an event\<close>

text \<open>
  The contract of the worker over the rows: an event waits with the number of deliveries it has had,
  or is published, or is given up.
\<close>

datatype mail_state = Mail_waiting nat | Mail_published | Mail_dead

definition mail_state_of :: "outbox_row \<Rightarrow> mail_state" where
  "mail_state_of x = (if obx_publishedAt x \<noteq> None then Mail_published
     else if obx_deadLetteredAt x \<noteq> None then Mail_dead else Mail_waiting (obx_attemptCount x))"

fun mail_spec :: "nat \<Rightarrow> bool \<Rightarrow> mail_state \<Rightarrow> mail_state" where
  "mail_spec maximum delivered (Mail_waiting n) =
     (if delivered then Mail_published else if maximum \<le> n + 1 then Mail_dead else Mail_waiting (n + 1))"
| "mail_spec maximum delivered x = x"

definition mail_row :: "string \<Rightarrow> db \<Rightarrow> outbox_row option" where
  "mail_row k d = find_row (\<lambda>x. obx_id x = k) (outbox d)"

lemma event_published_simps [simp]:
  "obx_id (event_published E x) = obx_id x" "mail_state_of (event_published E x) = Mail_published"
  by (simp_all add: event_published_def mail_state_of_def)

lemma event_failed_simps [simp]:
  "obx_id (event_failed E ev x) = obx_id x"
  by (simp add: event_failed_def Let_def)

lemma event_failed_state:
  "mail_state_of x = Mail_waiting (obx_attemptCount ev) \<Longrightarrow> obx_attemptCount x = obx_attemptCount ev \<Longrightarrow>
     mail_state_of (event_failed E ev x) = mail_spec (cfg_num E ''OUTBOX_MAX_ATTEMPTS'') False (mail_state_of x)"
  by (auto simp: mail_state_of_def event_failed_def Let_def split: if_splits)

text \<open>A dispatch of an event: what becomes of its row, of the others, and what is sent.\<close>

lemma dispatchEvent_row:
  assumes ids: "distinct (map obx_id (outbox d))" and ev: "event \<in> set (outbox d)"
    and avail: "open_event E (clock E 0) event"
    and r: "dispatchEvent E p worker event (d, ml) = (ok, d', ml')"
  shows "map_option mail_state_of (mail_row (obx_id event) d')
      = Some (mail_spec (cfg_num E ''OUTBOX_MAX_ATTEMPTS'') ok (mail_state_of event))"
    and "k \<noteq> obx_id event \<Longrightarrow> mail_row k d' = mail_row k d"
    and "deliver E p event ml = (if ok then Inr () else fst (deliver E p event ml), ml')"
    and "distinct (map obx_id (outbox d'))"
proof -
  let ?now = "clock E 0"
  let ?claim = "\<lambda>x. x\<lparr>obx_processingStartedAt := Some ?now, obx_processingBy := Some worker\<rparr>"
  let ?d1 = "d\<lparr>outbox := update_rows (claimable_event E (obx_id event) ?now) ?claim (outbox d)\<rparr>"
  have one: "count_rows (claimable_event E (obx_id event) ?now) (outbox d) = 1"
    using count_rows_key_1 [OF ids ev HOL.refl, of "open_event E ?now"] avail
    by (simp add: claimable_event_def [abs_def])
  obtain outcome ml1 where dl: "deliver E p event ml = (outcome, ml1)" by force
  let ?settle = "if succeeded outcome then event_published E else event_failed E event"
  have ok: "ok = succeeded outcome" "ml' = ml1"
    and d': "d' = ?d1\<lparr>outbox := update_rows (owned_event (obx_id event) worker) ?settle (outbox ?d1)\<rparr>"
    using r by (auto simp: dispatchEvent_def claim_event_def Let_def one dl settle_event_def)
  show "deliver E p event ml = (if ok then Inr () else fst (deliver E p event ml), ml')"
    by (cases outcome) (simp_all add: dl ok)
  have settle_id: "obx_id (?settle x) = obx_id x" for x by simp
  have find1: "mail_row k ?d1 = map_option (\<lambda>x. if claimable_event E (obx_id event) ?now x then ?claim x else x) (mail_row k d)"
    for k unfolding mail_row_def by (simp add: find_row_update_key)
  have find2: "mail_row k d' = map_option (\<lambda>x. if owned_event (obx_id event) worker x then ?settle x else x) (mail_row k ?d1)"
    for k unfolding mail_row_def d' by (simp add: find_row_update_key)
  have row: "mail_row (obx_id event) d = Some event"
    unfolding mail_row_def by (rule find_row_key [OF ids ev HOL.refl])
  have claimed: "owned_event (obx_id event) worker (?claim event)"
    using avail by (simp add: owned_event_def open_event_def)
  have waiting: "mail_state_of event = Mail_waiting (obx_attemptCount event)"
    using avail by (simp add: mail_state_of_def open_event_def)
  have same: "mail_state_of (?claim event) = mail_state_of event" by (simp add: mail_state_of_def)
  have "mail_row (obx_id event) d' = Some (?settle (?claim event))"
    using claimed avail by (simp add: find2 find1 row claimable_event_def)
  then show "map_option mail_state_of (mail_row (obx_id event) d')
      = Some (mail_spec (cfg_num E ''OUTBOX_MAX_ATTEMPTS'') ok (mail_state_of event))"
    using event_failed_state [of "?claim event" event E] by (simp add: ok waiting same)
  show "mail_row k d' = mail_row k d" if "k \<noteq> obx_id event"
  proof (cases "mail_row k d")
    case None
    then show ?thesis by (simp add: find1 find2)
  next
    case (Some x)
    then have "obx_id x = k" unfolding mail_row_def by (auto dest: find_row_SomeD)
    with that Some show ?thesis by (simp add: find1 find2 claimable_event_def owned_event_def)
  qed
  show "distinct (map obx_id (outbox d'))"
    using ids by (simp add: d' map_update_rows settle_id)
qed

end
