(* ===== verification/Jobs.thy ===== *)
theory Jobs
  imports Outbox
begin

text \<open>
  \<open>OperationalJobsService\<close> (\<open>modules/operations\<close>): the retention cycle that runs under one Redis lock.
  Each job works on the oldest rows that are due, a batch at a time; rows that refer to deleted ones
  are left to the schema's foreign keys.
\<close>

subsection \<open>Retention\<close>

text \<open>\<open>deleteByIds\<close>: the count, and the table.\<close>

definition deleteByIds :: "nat \<Rightarrow> ('r \<Rightarrow> string) \<Rightarrow> ('r \<Rightarrow> int) \<Rightarrow> ('r \<Rightarrow> bool) \<Rightarrow> 'r list \<Rightarrow> nat \<times> 'r list" where
  "deleteByIds batch key orderBy due t =
     (let ids = map key (take_rows_asc orderBy batch due t)
      in if ids = [] then (0, t)
         else (count_rows (\<lambda>x. key x \<in> set ids) t, delete_rows (\<lambda>x. key x \<in> set ids) t))"

definition retentionCutoff :: "env \<Rightarrow> int \<Rightarrow> string \<Rightarrow> int" where
  "retentionCutoff E now k = now - days E k"

definition batchSize :: "env \<Rightarrow> nat" where
  "batchSize E = cfg_num E ''OPERATIONAL_JOB_BATCH_SIZE''"

text \<open>The legacy table of password-reset tokens, which no other part of the service uses.\<close>

record legacy_token_row =
  lgt_id :: string
  lgt_expiresAt :: int

record ops_state =
  ops_db :: db
  ops_legacy :: "legacy_token_row list"

definition delete_email_tokens :: "env \<Rightarrow> int \<Rightarrow> ops_state \<Rightarrow> nat \<times> ops_state" where
  "delete_email_tokens E now s =
     (case deleteByIds (batchSize E) emt_id emt_expiresAt
         (\<lambda>x. emt_expiresAt x \<le> retentionCutoff E now ''TOKEN_RETENTION_DAYS'') (email_tokens (ops_db s)) of
        (n, t) \<Rightarrow> (n, s\<lparr>ops_db := (ops_db s)\<lparr>email_tokens := t\<rparr>\<rparr>))"

definition delete_reset_requests :: "env \<Rightarrow> int \<Rightarrow> ops_state \<Rightarrow> nat \<times> ops_state" where
  "delete_reset_requests E now s =
     (case deleteByIds (batchSize E) rst_id rst_expiresAt
         (\<lambda>x. rst_expiresAt x \<le> retentionCutoff E now ''TOKEN_RETENTION_DAYS'') (reset_requests (ops_db s)) of
        (n, t) \<Rightarrow> (n, s\<lparr>ops_db := (ops_db s)\<lparr>reset_requests := t\<rparr>\<rparr>))"

definition delete_legacy_tokens :: "env \<Rightarrow> int \<Rightarrow> ops_state \<Rightarrow> nat \<times> ops_state" where
  "delete_legacy_tokens E now s =
     (case deleteByIds (batchSize E) lgt_id lgt_expiresAt
         (\<lambda>x. lgt_expiresAt x \<le> retentionCutoff E now ''TOKEN_RETENTION_DAYS'') (ops_legacy s) of
        (n, t) \<Rightarrow> (n, s\<lparr>ops_legacy := t\<rparr>))"

definition delete_idempotency :: "env \<Rightarrow> int \<Rightarrow> ops_state \<Rightarrow> nat \<times> ops_state" where
  "delete_idempotency E now s =
     (case deleteByIds (batchSize E) idm_id idm_expiresAt (\<lambda>x. idm_expiresAt x \<le> now) (idempotency (ops_db s)) of
        (n, t) \<Rightarrow> (n, s\<lparr>ops_db := (ops_db s)\<lparr>idempotency := t\<rparr>\<rparr>))"

definition delete_refresh_tokens :: "env \<Rightarrow> int \<Rightarrow> ops_state \<Rightarrow> nat \<times> ops_state" where
  "delete_refresh_tokens E now s =
     (case deleteByIds (batchSize E) rft_id rft_expiresAt
         (\<lambda>x. rft_expiresAt x \<le> retentionCutoff E now ''TOKEN_RETENTION_DAYS'') (refresh_tokens (ops_db s)) of
        (n, t) \<Rightarrow> (n, s\<lparr>ops_db := (ops_db s)\<lparr>refresh_tokens := t\<rparr>\<rparr>))"

definition expire_sessions_of :: "int \<Rightarrow> string list \<Rightarrow> db \<Rightarrow> db" where
  "expire_sessions_of now ids d =
     d\<lparr>sessions := update_rows (\<lambda>s. ses_id s \<in> set ids \<and> ses_status s = Session_ACTIVE)
         (\<lambda>s. s\<lparr>ses_status := Session_EXPIRED, ses_revokedAt := Some now,
                ses_revocationReason := Some ''SESSION_EXPIRED'', ses_version := ses_version s + 1\<rparr>) (sessions d),
       refresh_tokens := update_rows (\<lambda>t. rft_sessionId t \<in> set ids \<and> rft_revokedAt t = None)
         (\<lambda>t. t\<lparr>rft_revoked := True, rft_revokedAt := Some now\<rparr>) (refresh_tokens d)\<rparr>"

definition expireSessions :: "env \<Rightarrow> int \<Rightarrow> ops_state \<Rightarrow> nat \<times> ops_state" where
  "expireSessions E now s =
     (let d = ops_db s;
          ids = map ses_id (take_rows_asc ses_expiresAt (batchSize E)
            (\<lambda>x. ses_status x = Session_ACTIVE \<and> ses_expiresAt x \<le> now) (sessions d))
      in if ids = [] then (0, s)
         else (count_rows (\<lambda>x. ses_id x \<in> set ids \<and> ses_status x = Session_ACTIVE) (sessions d),
               s\<lparr>ops_db := expire_sessions_of now ids d\<rparr>))"

definition deleteRetainedSessions :: "env \<Rightarrow> int \<Rightarrow> ops_state \<Rightarrow> nat \<times> ops_state" where
  "deleteRetainedSessions E now s =
     (case deleteByIds (batchSize E) ses_id ses_expiresAt
         (\<lambda>x. ses_status x \<in> {Session_EXPIRED, Session_REVOKED, Session_COMPROMISED}
            \<and> ses_expiresAt x \<le> retentionCutoff E now ''SESSION_RETENTION_DAYS'') (sessions (ops_db s)) of
        (n, t) \<Rightarrow> (n, s\<lparr>ops_db := (ops_db s)\<lparr>sessions := t\<rparr>\<rparr>))"

definition stale_status :: "attempt_row \<Rightarrow> bool" where
  "stale_status a \<longleftrightarrow> att_status a \<in> {Attempt_PENDING, Attempt_MEDIA_PENDING, Attempt_PROCESSING,
     Attempt_PROVIDER_UNAVAILABLE}"

definition expire_attempts_of :: "int \<Rightarrow> string list \<Rightarrow> db \<Rightarrow> db" where
  "expire_attempts_of now ids d =
     d\<lparr>attempts := update_rows (\<lambda>a. att_id a \<in> set ids \<and> stale_status a)
         (\<lambda>a. a\<lparr>att_status := Attempt_EXPIRED, att_completedAt := Some now,
                att_reasonCode := Some ''ATTEMPT_EXPIRED''\<rparr>) (attempts d),
       media := update_rows (\<lambda>m. med_attemptId m \<in> set ids \<and> med_deletedAt m = None \<and> not_held now m)
         (\<lambda>m. m\<lparr>med_expiresAt := now, med_nextDeletionAttemptAt := now\<rparr>) (media d)\<rparr>"

definition expireStaleAttempts :: "env \<Rightarrow> int \<Rightarrow> ops_state \<Rightarrow> nat \<times> ops_state" where
  "expireStaleAttempts E now s =
     (let d = ops_db s;
          ids = map att_id (take_rows_asc att_startedAt (batchSize E)
            (\<lambda>a. stale_status a \<and> att_startedAt a \<le> now - hours E ''STALE_VERIFICATION_ATTEMPT_HOURS'') (attempts d))
      in if ids = [] then (0, s)
         else (count_rows (\<lambda>a. att_id a \<in> set ids \<and> stale_status a) (attempts d),
               s\<lparr>ops_db := expire_attempts_of now ids d\<rparr>))"

definition event_not_held :: "int \<Rightarrow> event_row \<Rightarrow> bool" where
  "event_not_held now x \<longleftrightarrow> (case evt_legalHoldUntil x of None \<Rightarrow> True | Some t \<Rightarrow> t \<le> now)"

definition deleteRetainedSecurityEvents :: "env \<Rightarrow> int \<Rightarrow> ops_state \<Rightarrow> nat \<times> ops_state" where
  "deleteRetainedSecurityEvents E now s =
     (case deleteByIds (batchSize E) evt_id evt_createdAt
         (\<lambda>x. evt_createdAt x \<le> retentionCutoff E now ''SECURITY_EVENT_RETENTION_DAYS'' \<and> event_not_held now x)
         (events (ops_db s)) of
        (n, t) \<Rightarrow> (n, s\<lparr>ops_db := (ops_db s)\<lparr>events := t\<rparr>\<rparr>))"

definition delete_step_ups :: "env \<Rightarrow> int \<Rightarrow> ops_state \<Rightarrow> nat \<times> ops_state" where
  "delete_step_ups E now s =
     (case deleteByIds (batchSize E) sup_id sup_expiresAt
         (\<lambda>x. sup_status x \<in> {StepUp_CONSUMED, StepUp_EXPIRED, StepUp_REVOKED}
            \<and> sup_expiresAt x \<le> retentionCutoff E now ''TOKEN_RETENTION_DAYS'') (step_ups (ops_db s)) of
        (n, t) \<Rightarrow> (n, s\<lparr>ops_db := (ops_db s)\<lparr>step_ups := t\<rparr>\<rparr>))"

definition count_dead_letters :: "ops_state \<Rightarrow> nat \<times> ops_state" where
  "count_dead_letters s =
     (count_rows (\<lambda>x. obx_deadLetteredAt x \<noteq> None \<and> obx_publishedAt x = None) (outbox (ops_db s)), s)"

definition count_pending :: "int \<Rightarrow> ops_state \<Rightarrow> nat \<times> ops_state" where
  "count_pending now s =
     (count_rows (\<lambda>x. obx_deadLetteredAt x = None \<and> obx_publishedAt x = None \<and> obx_nextAttemptAt x \<le> now)
        (outbox (ops_db s)), s)"

subsection \<open>The cycle\<close>

text \<open>\<open>runSequentially\<close>.\<close>

fun runSequentially :: "('s \<Rightarrow> nat \<times> 's) list \<Rightarrow> 's \<Rightarrow> nat list \<times> 's" where
  "runSequentially [] s = ([], s)"
| "runSequentially (job # jobs) s =
     (case job s of (n, s1) \<Rightarrow> (case runSequentially jobs s1 of (ns, s2) \<Rightarrow> (n # ns, s2)))"

definition job_names :: "string list" where
  "job_names = [''emailTokens'', ''resetRequests'', ''legacyResetTokens'', ''idempotency'',
     ''refreshTokens'', ''sessionsExpired'', ''sessionsDeleted'', ''attemptsExpired'',
     ''securityEvents'', ''stepUpChallenges'', ''outboxDeadLetters'', ''outboxPending'']"

definition cycle_jobs :: "env \<Rightarrow> int \<Rightarrow> (ops_state \<Rightarrow> nat \<times> ops_state) list" where
  "cycle_jobs E now =
     [delete_email_tokens E now, delete_reset_requests E now, delete_legacy_tokens E now,
      delete_idempotency E now, delete_refresh_tokens E now, expireSessions E now,
      deleteRetainedSessions E now, expireStaleAttempts E now, deleteRetainedSecurityEvents E now,
      delete_step_ups E now, count_dead_letters, count_pending now]"

definition executeJobs :: "env \<Rightarrow> ops_state \<Rightarrow> (string \<times> nat) list \<times> ops_state" where
  "executeJobs E s = (case runSequentially (cycle_jobs E (clock E 0)) s of (ns, s1) \<Rightarrow> (zip job_names ns, s1))"

record job_snapshot =
  jsn_running :: bool
  jsn_lastStartedAt :: "int option"
  jsn_lastCompletedAt :: "int option"
  jsn_lastFailedAt :: "int option"
  jsn_lastErrorCode :: "string option"
  jsn_totals :: "(string \<times> nat) list"

text \<open>
  The locked callback of \<open>runCycle\<close>.  The jobs are run by a database that may fail after any of them:
  \<open>fails\<close> is the number of the first job whose query raises, if one does.
\<close>

definition cycle_work :: "env \<Rightarrow> nat option \<Rightarrow> job_snapshot \<times> ops_state \<Rightarrow> redis
    \<Rightarrow> (string \<times> nat) list result \<times> (job_snapshot \<times> ops_state) \<times> redis" where
  "cycle_work E fails st r = (case st of (snap, s) \<Rightarrow>
     (let started = snap\<lparr>jsn_running := True, jsn_lastStartedAt := Some (clock E 0)\<rparr>
      in (case fails of
            None \<Rightarrow> (case executeJobs (later 1 E) s of (totals, s1) \<Rightarrow>
              (Inr totals, (started\<lparr>jsn_running := False, jsn_lastCompletedAt := Some (clock E 2),
                 jsn_lastErrorCode := None, jsn_totals := totals\<rparr>, s1), r))
          | Some k \<Rightarrow> (case runSequentially (take k (cycle_jobs E (clock E 1))) s of (_, s1) \<Rightarrow>
              (Inr [], (started\<lparr>jsn_running := False, jsn_lastFailedAt := Some (clock E 2),
                 jsn_lastErrorCode := Some ''OPERATIONAL_CYCLE_FAILED''\<rparr>, s1), r)))))"

definition runCycle :: "env \<Rightarrow> nat \<Rightarrow> nat option \<Rightarrow> job_snapshot \<times> ops_state \<Rightarrow> redis
    \<Rightarrow> (string \<times> nat) list result \<times> (job_snapshot \<times> ops_state) \<times> redis" where
  "runCycle E i fails st r =
     (if jsn_running (fst st) then (Inr [], st, r)
      else (case runExclusive E i ''auth-operational-cycle'' (cfg_num E ''OPERATIONAL_JOB_LOCK_TTL_SECONDS'')
          (cycle_work E fails) st r of
         (Inl e, st1, r1) \<Rightarrow> (Inl e, st1, r1)
       | (Inr totals, st1, r1) \<Rightarrow> (Inr (case totals of None \<Rightarrow> [] | Some t \<Rightarrow> t), st1, r1)))"

subsection \<open>What a batch deletes\<close>

lemma take_rows_asc_sorted:
  assumes "x \<in> set (take_rows_asc f n P t)" and "y \<in> set t" "P y" "y \<notin> set (take_rows_asc f n P t)"
  shows "f x \<le> f y"
proof -
  let ?s = "sort_key f (filter P t)"
  have "y \<in> set ?s" using assms(2,3) by simp
  then have "y \<in> set (drop n ?s)"
    using assms(4) unfolding take_rows_asc_def by (metis Un_iff append_take_drop_id set_append)
  moreover have "sorted (map f (take n ?s @ drop n ?s))" by simp
  ultimately show ?thesis
    using assms(1) unfolding take_rows_asc_def map_append sorted_append by simp
qed

lemma key_image_iff:
  "distinct (map key t) \<Longrightarrow> set b \<subseteq> set t \<Longrightarrow> x \<in> set t \<Longrightarrow> key x \<in> key ` set b \<longleftrightarrow> x \<in> set b"
  by (rule inj_on_image_mem_iff) (simp_all add: distinct_map)

lemma deleteByIds_set:
  assumes "distinct (map key t)"
  shows "set (snd (deleteByIds n key f P t)) = set t - set (take_rows_asc f n P t)"
proof -
  let ?b = "take_rows_asc f n P t"
  have sub: "set ?b \<subseteq> set t" using set_take_rows_asc [of f n P t] by blast
  have "key x \<in> key ` set ?b \<longleftrightarrow> x \<in> set ?b" if "x \<in> set t" for x
    by (rule key_image_iff [OF assms sub that])
  then show ?thesis
    using sub by (auto simp: deleteByIds_def Let_def set_delete_rows)
qed

lemma deleteByIds_distinct:
  "distinct (map key t) \<Longrightarrow> distinct (map key (snd (deleteByIds n key f P t)))"
  by (simp add: deleteByIds_def Let_def distinct_delete_rows)

lemma deleteByIds_keeps:
  "distinct (map key t) \<Longrightarrow> x \<in> set t \<Longrightarrow> \<not> P x \<Longrightarrow> x \<in> set (snd (deleteByIds n key f P t))"
  using set_take_rows_asc [of f n P t] by (auto simp: deleteByIds_set)

lemma count_rows_card: "distinct (map key t) \<Longrightarrow> count_rows P t = card {x \<in> set t. P x}"
  by (metis count_rows_def distinct_card distinct_filter distinct_map set_filter)

lemma deleteByIds_count:
  assumes "distinct (map key t)"
  shows "fst (deleteByIds n key f P t) = min n (count_rows P t)"
    and "count_rows P (snd (deleteByIds n key f P t)) = count_rows P t - n"
proof -
  let ?b = "take_rows_asc f n P t"
  have sub: "set ?b \<subseteq> {x \<in> set t. P x}" by (rule set_take_rows_asc)
  have "distinct t" using assms by (simp add: distinct_map)
  then have db: "distinct ?b" by (simp add: take_rows_asc_def)
  have cb: "card (set ?b) = min n (count_rows P t)"
    using length_take_rows(2) [of f n P t] db by (simp add: distinct_card)
  have key_in: "key x \<in> key ` set ?b \<longleftrightarrow> x \<in> set ?b" if "x \<in> set t" for x
    by (rule key_image_iff [OF assms _ that]) (use sub in blast)
  have "count_rows (\<lambda>x. key x \<in> key ` set ?b) t = card {x \<in> set t. key x \<in> key ` set ?b}"
    by (rule count_rows_card [OF assms])
  also have "{x \<in> set t. key x \<in> key ` set ?b} = set ?b" using key_in sub by blast
  finally have count: "count_rows (\<lambda>x. key x \<in> key ` set ?b) t = min n (count_rows P t)" by (simp add: cb)
  show "fst (deleteByIds n key f P t) = min n (count_rows P t)"
    using count cb by (auto simp: deleteByIds_def Let_def)
  have "count_rows P (snd (deleteByIds n key f P t)) = card {x \<in> set t - set ?b. P x}"
    using count_rows_card [OF deleteByIds_distinct [OF assms], of P n f P]
    by (simp add: deleteByIds_set [OF assms])
  also have "{x \<in> set t - set ?b. P x} = {x \<in> set t. P x} - set ?b" by blast
  also have "card \<dots> = count_rows P t - card (set ?b)"
    using sub by (simp add: card_Diff_subset count_rows_card [OF assms])
  finally show "count_rows P (snd (deleteByIds n key f P t)) = count_rows P t - n"
    by (simp add: cb)
qed

text \<open>Running a job again and again, with nothing new becoming due, leaves nothing due.\<close>

lemma deleteByIds_drains:
  assumes "distinct (map key t)"
  shows "count_rows P (((\<lambda>t. snd (deleteByIds n key f P t)) ^^ k) t) = count_rows P t - k * n"
    and "distinct (map key (((\<lambda>t. snd (deleteByIds n key f P t)) ^^ k) t))"
  using assms by (induction k) (simp_all add: deleteByIds_count(2) deleteByIds_distinct)

subsection \<open>What a whole cycle leaves alone\<close>

lemma runSequentially_keeps:
  assumes "\<And>job s. job \<in> set jobs \<Longrightarrow> P s \<Longrightarrow> P (snd (job s))" and "P s"
  shows "P (snd (runSequentially jobs s))"
  using assms
proof (induction jobs arbitrary: s)
  case Nil
  then show ?case by simp
next
  case (Cons job jobs)
  obtain n s1 where j: "job s = (n, s1)" by force
  have "P s1" using Cons.prems(1) [of job s] Cons.prems(2) j by simp
  from Cons.IH [OF _ this] Cons.prems(1) show ?case by (simp add: j split: prod.splits) (metis snd_conv)
qed

lemma runSequentially_length: "length (fst (runSequentially jobs s)) = length jobs"
  by (induction jobs arbitrary: s) (auto split: prod.splits, metis fst_conv)

text \<open>A live session, one of its refresh tokens, and a security event that is new or held.\<close>

definition spared :: "int \<Rightarrow> env \<Rightarrow> session_row \<Rightarrow> refresh_row \<Rightarrow> event_row \<Rightarrow> bool" where
  "spared now E x t e \<longleftrightarrow> ses_status x = Session_ACTIVE \<and> now < ses_expiresAt x
     \<and> rft_sessionId t = ses_id x \<and> now < rft_expiresAt t
     \<and> (retentionCutoff E now ''SECURITY_EVENT_RETENTION_DAYS'' < evt_createdAt e \<or> \<not> event_not_held now e)"

definition holds_rows :: "session_row \<Rightarrow> refresh_row \<Rightarrow> event_row \<Rightarrow> ops_state \<Rightarrow> bool" where
  "holds_rows x t e s \<longleftrightarrow> x \<in> set (sessions (ops_db s)) \<and> t \<in> set (refresh_tokens (ops_db s))
     \<and> e \<in> set (events (ops_db s)) \<and> distinct (map ses_id (sessions (ops_db s)))
     \<and> distinct (map rft_id (refresh_tokens (ops_db s))) \<and> distinct (map evt_id (events (ops_db s)))"

lemma holds_rows_frame:
  assumes "holds_rows x t e s"
    and "sessions (ops_db s') = sessions (ops_db s)" "refresh_tokens (ops_db s') = refresh_tokens (ops_db s)"
    and "events (ops_db s') = events (ops_db s)"
  shows "holds_rows x t e s'"
  using assms by (simp add: holds_rows_def)

lemma retentionCutoff_past: "retentionCutoff E now k \<le> now"
  by (simp add: retentionCutoff_def)

lemma expire_sessions_keeps:
  assumes "holds_rows x t e s" and "spared now E x t e"
    and ids: "\<forall>y \<in> set (sessions (ops_db s)). ses_id y \<in> set ids \<longrightarrow> \<not> (ses_status y = Session_ACTIVE \<and> now < ses_expiresAt y)"
  shows "holds_rows x t e (s\<lparr>ops_db := expire_sessions_of now ids (ops_db s)\<rparr>)"
proof -
  have x: "ses_id x \<notin> set ids" using assms by (auto simp: holds_rows_def spared_def)
  let ?d = "expire_sessions_of now ids (ops_db s)"
  have "x \<in> set (sessions ?d)" "t \<in> set (refresh_tokens ?d)"
    using assms(1,2) x unfolding holds_rows_def spared_def expire_sessions_of_def
    by (auto simp: set_update_rows intro!: image_eqI [of _ _ x] image_eqI [of _ _ t])
  moreover have "map ses_id (sessions ?d) = map ses_id (sessions (ops_db s))"
    "map rft_id (refresh_tokens ?d) = map rft_id (refresh_tokens (ops_db s))" "events ?d = events (ops_db s)"
    by (simp_all add: expire_sessions_of_def map_update_rows)
  ultimately show ?thesis using assms(1) by (simp add: holds_rows_def)
qed

lemma cycle_job_keeps:
  assumes "job \<in> set (cycle_jobs E now)" and h: "holds_rows x t e s" and sp: "spared now E x t e"
  shows "holds_rows x t e (snd (job s))"
proof -
  have now: "retentionCutoff E now k \<le> now" for k by (rule retentionCutoff_past)
  consider "job \<in> {delete_email_tokens E now, delete_reset_requests E now, delete_legacy_tokens E now,
      delete_idempotency E now, expireStaleAttempts E now, delete_step_ups E now, count_dead_letters, count_pending now}"
    | "job = delete_refresh_tokens E now" | "job = expireSessions E now" | "job = deleteRetainedSessions E now"
    | "job = deleteRetainedSecurityEvents E now"
    using assms(1) unfolding cycle_jobs_def by auto
  then show ?thesis
  proof cases
    case 1
    then show ?thesis
      by (intro holds_rows_frame [OF h])
        (auto simp: delete_email_tokens_def delete_reset_requests_def delete_legacy_tokens_def
          delete_idempotency_def expireStaleAttempts_def expire_attempts_of_def delete_step_ups_def
          count_dead_letters_def count_pending_def Let_def split: prod.splits)
  next
    case 2
    have "\<not> rft_expiresAt t \<le> retentionCutoff E now ''TOKEN_RETENTION_DAYS''"
      using sp now [of "''TOKEN_RETENTION_DAYS''"] by (simp add: spared_def)
    with 2 h show ?thesis
      by (auto simp: delete_refresh_tokens_def holds_rows_def split_beta intro: deleteByIds_keeps deleteByIds_distinct)
  next
    case 3
    let ?due = "\<lambda>x. ses_status x = Session_ACTIVE \<and> ses_expiresAt x \<le> now"
    let ?b = "take_rows_asc ses_expiresAt (batchSize E) ?due (sessions (ops_db s))"
    have ids: "distinct (map ses_id (sessions (ops_db s)))" using h by (simp add: holds_rows_def)
    have sub: "set ?b \<subseteq> set (sessions (ops_db s))"
      by (rule subset_trans [OF set_take_rows_asc]) simp
    have b: "y \<in> set ?b" if y: "y \<in> set (sessions (ops_db s))" and k: "ses_id y \<in> ses_id ` set ?b" for y
      using k unfolding key_image_iff [OF ids sub y] .
    have "holds_rows x t e (s\<lparr>ops_db := expire_sessions_of now (map ses_id ?b) (ops_db s)\<rparr>)"
    proof (rule expire_sessions_keeps [OF h sp], intro ballI impI)
      fix y assume y: "y \<in> set (sessions (ops_db s))" "ses_id y \<in> set (map ses_id ?b)"
      then have "y \<in> set ?b" using b by simp
      from subsetD [OF set_take_rows_asc this] show "\<not> (ses_status y = Session_ACTIVE \<and> now < ses_expiresAt y)" by simp
    qed
    with 3 h show ?thesis by (simp add: expireSessions_def Let_def)
  next
    case 4
    with h sp show ?thesis
      by (auto simp: deleteRetainedSessions_def holds_rows_def spared_def split_beta
          intro: deleteByIds_keeps deleteByIds_distinct)
  next
    case 5
    with h sp show ?thesis
      by (auto simp: deleteRetainedSecurityEvents_def holds_rows_def spared_def split_beta
          intro: deleteByIds_keeps deleteByIds_distinct)
  qed
qed

lemma executeJobs_keeps:
  assumes "holds_rows x t e s" and "spared (clock E 0) E x t e"
  shows "holds_rows x t e (snd (executeJobs E s))"
proof -
  have "holds_rows x t e (snd (runSequentially (cycle_jobs E (clock E 0)) s))"
    by (rule runSequentially_keeps) (use assms cycle_job_keeps in blast)+
  then show ?thesis by (simp add: executeJobs_def split_beta)
qed

end
