(* ===== verification/Passkeys.thy ===== *)
theory Passkeys
  imports Jobs
begin

text \<open>
  \<open>PasskeyService\<close> (\<open>modules/passkeys\<close>): signing in with a passkey, registering one, and recovery
  codes.  The WebAuthn library is a parameter: the options it generates and what it says of a response.
\<close>

subsection \<open>Tables and the library\<close>

record passkey_row =
  pkc_id :: string
  pkc_userId :: string
  pkc_credentialId :: string
  pkc_publicKey :: string
  pkc_counter :: int
  pkc_transports :: "string list"
  pkc_deviceType :: string
  pkc_backedUp :: bool
  pkc_label :: "string option"
  pkc_lastUsedAt :: "int option"
  pkc_createdAt :: int
  pkc_revokedAt :: "int option"

record recovery_row =
  rcc_id :: string
  rcc_userId :: string
  rcc_codeDigest :: string
  rcc_usedAt :: "int option"
  rcc_revokedAt :: "int option"

record passkey_db =
  pdb_db :: db
  pdb_passkeys :: "passkey_row list"
  pdb_codes :: "recovery_row list"

record passkey_options =
  pko_challenge :: string
  pko_json :: json

record registered_passkey =
  rgp_id :: string
  rgp_publicKey :: string
  rgp_counter :: int
  rgp_transports :: "string list option"
  rgp_deviceType :: string
  rgp_backedUp :: bool

text \<open>
  \<open>generateAuthenticationOptions\<close> (relying party, allowed credentials), \<open>verifyAuthenticationResponse\<close>
  (response, challenge, origins, relying party, credential; \<open>None\<close>: it raises, else whether it verifies
  and the new counter), and the two for registrations.
\<close>

record webauthn =
  wan_authentication_options :: "string \<Rightarrow> (string \<times> string list) list \<Rightarrow> passkey_options"
  wan_verify_authentication :: "json \<Rightarrow> string \<Rightarrow> string list \<Rightarrow> string \<Rightarrow> passkey_row \<Rightarrow> (bool \<times> int) option"
  wan_registration_options :: "string \<times> string \<times> string \<times> string \<times> string \<Rightarrow> (string \<times> string list) list \<Rightarrow> passkey_options"
  wan_verify_registration :: "json \<Rightarrow> string \<Rightarrow> string list \<Rightarrow> string \<Rightarrow> (bool \<times> registered_passkey option) option"

abbreviation invalidAuthentication :: api_error where
  "invalidAuthentication \<equiv> Http 401 ''PASSKEY_AUTHENTICATION_INVALID''"

abbreviation invalidRegistration :: api_error where
  "invalidRegistration \<equiv> Http 401 ''PASSKEY_REGISTRATION_INVALID''"

abbreviation invalidRecovery :: api_error where
  "invalidRecovery \<equiv> Http 401 ''RECOVERY_CODE_INVALID''"

definition challengeKey :: "env \<Rightarrow> string \<Rightarrow> string" where
  "challengeKey E userId = cfg_str E ''CACHE_PREFIX'' @ ''passkey:registration:'' @ userId"

definition authenticationKey :: "env \<Rightarrow> string \<Rightarrow> string" where
  "authenticationKey E flowId = cfg_str E ''CACHE_PREFIX'' @ ''passkey:authentication:'' @ flowId"

definition allowed_origins :: "env \<Rightarrow> string list" where
  "allowed_origins E = map trim (split_on (CHR '','') (cfg_str E ''PASSKEY_ALLOWED_ORIGINS''))"

definition passkey_active :: "string \<Rightarrow> passkey_row \<Rightarrow> bool" where
  "passkey_active userId p \<longleftrightarrow> pkc_userId p = userId \<and> pkc_revokedAt p = None"

text \<open>\<open>redis.getdel(key)\<close>.\<close>

definition redis_getdel :: "string \<Rightarrow> redis \<Rightarrow> string option result \<times> redis" where
  "redis_getdel k r = (if \<not> rds_online r then (Inl redis_unreachable, r)
     else (Inr (redis_get k r), del_entry k r))"

text \<open>\<open>ensureRedisConnected\<close>, then one command.\<close>

definition take_challenge :: "string \<Rightarrow> redis \<Rightarrow> string option result \<times> redis" where
  "take_challenge k r = (case ensureRedisConnected r of
     (Inl e, r1) \<Rightarrow> (Inl e, r1) | (Inr _, r1) \<Rightarrow> redis_getdel k r1)"

definition put_challenge :: "env \<Rightarrow> string \<Rightarrow> string \<Rightarrow> redis \<Rightarrow> unit result \<times> redis" where
  "put_challenge E k v r = cache_set k v (cfg_num E ''PASSKEY_CHALLENGE_TTL_SECONDS'') r"

subsection \<open>Signing in\<close>

definition authenticationOptions :: "env \<Rightarrow> webauthn \<Rightarrow> string \<Rightarrow> passkey_db \<Rightarrow> redis
    \<Rightarrow> (string \<times> passkey_options) result \<times> redis" where
  "authenticationOptions E w email d r =
     (case normalizeEmail E email of
        Inl e \<Rightarrow> (Inl e, r)
      | Inr emailNormalized \<Rightarrow>
          (let user = find_row (\<lambda>u. usr_emailNormalized u = emailNormalized) (users (pdb_db d));
               allowed = (case user of None \<Rightarrow> [] | Some u \<Rightarrow>
                 map (\<lambda>p. (pkc_credentialId p, pkc_transports p)) (take_rows 20 (passkey_active (usr_id u)) (pdb_passkeys d)));
               options = wan_authentication_options w (cfg_str E ''PASSKEY_RP_ID'') allowed
           in (case generate_token E 0 32 of
                 Inl e \<Rightarrow> (Inl e, r)
               | Inr flow \<Rightarrow>
                   (case put_challenge E (authenticationKey E (tok_token flow))
                       (stringify E (JObj [(''challenge'', JStr (pko_challenge options)),
                         (''userId'', case user of None \<Rightarrow> JNull | Some u \<Rightarrow> JStr (usr_id u))])) r of
                      (Inl e, r1) \<Rightarrow> (Inl e, r1)
                    | (Inr _, r1) \<Rightarrow> (Inr (tok_token flow, options), r1)))))"

record passkey_login_input =
  pli_flowId :: string
  pli_response :: json
  pli_deviceId :: string
  pli_deviceLabel :: "string option"
  pli_transport :: token_transport

text \<open>
  The state stored under the flow.  A \<open>credentialId\<close> that is undefined is no condition of the query, one
  that is not a text is refused by the database client.
\<close>

definition flow_state :: "env \<Rightarrow> string \<Rightarrow> (string \<times> string) result" where
  "flow_state E encoded =
     (if encoded = [] then Inl invalidAuthentication
      else (case parse_json E encoded of
          None \<Rightarrow> Inl (Raised ''SyntaxError'')
        | Some j \<Rightarrow>
            (case (json_field ''challenge'' j, json_field ''userId'' j) of
               (Some (JStr challenge), Some (JStr userId)) \<Rightarrow>
                 if userId = [] then Inl invalidAuthentication else Inr (challenge, userId)
             | _ \<Rightarrow> Inl invalidAuthentication)))"

definition presented_passkey :: "string \<Rightarrow> json \<Rightarrow> passkey_db \<Rightarrow> passkey_row result" where
  "presented_passkey userId response d =
     (let found = (\<lambda>P. case find_row (\<lambda>p. passkey_active userId p \<and> P p) (pdb_passkeys d) of
            None \<Rightarrow> Inl invalidAuthentication | Some p \<Rightarrow> Inr p)
      in (case json_field ''id'' response of
            None \<Rightarrow> found (\<lambda>p. True)
          | Some v \<Rightarrow> (case v of JStr k \<Rightarrow> found (\<lambda>p. pkc_credentialId p = k)
              | _ \<Rightarrow> Inl (Raised ''Invalid value for argument credentialId''))))"

definition passkey_session :: "env \<Rightarrow> passkey_login_input \<Rightarrow> string \<Rightarrow> request_context \<Rightarrow> session_level \<Rightarrow> session_row" where
  "passkey_session E input userId ctx sessionLevel =
     \<lparr>ses_id = [], ses_userId = userId, ses_familyId = uuid E 0, ses_level = sessionLevel,
      ses_status = Session_ACTIVE, ses_deviceId = pli_deviceId input,
      ses_deviceLabel = pli_deviceLabel input, ses_ipHash = requestContext E (rq_ipAddress ctx),
      ses_userAgentHash = requestContext E (rq_userAgent ctx), ses_riskLevel = None, ses_riskReason = None,
      ses_createdAt = db_clock E, ses_lastUsedAt = db_clock E,
      ses_expiresAt = clock E 0 + seconds E ''REFRESH_TOKEN_TTL_SECONDS'', ses_revokedAt = None,
      ses_revocationReason = None, ses_version = 0\<rparr>"

definition passkey_refresh_row :: "env \<Rightarrow> string \<Rightarrow> string \<Rightarrow> string \<Rightarrow> session_level \<Rightarrow> refresh_row" where
  "passkey_refresh_row E userId sessionId tokenDigest sessionLevel =
     \<lparr>rft_id = [], rft_userId = userId, rft_sessionId = sessionId, rft_tokenDigest = tokenDigest,
      rft_tokenType = session_level_lower sessionLevel, rft_generation = default_token_generation E,
      rft_issuedAt = db_clock E, rft_expiresAt = clock E 0 + seconds E ''REFRESH_TOKEN_TTL_SECONDS'',
      rft_usedAt = None, rft_revoked = False, rft_revokedAt = None, rft_replacedBy = None,
      rft_reuseDetectedAt = None\<rparr>"

text \<open>The transaction of a verified response: counter, session and refresh token.\<close>

definition passkey_commit :: "env \<Rightarrow> passkey_login_input \<Rightarrow> string \<Rightarrow> request_context \<Rightarrow> session_level \<Rightarrow> passkey_row
    \<Rightarrow> int \<Rightarrow> string \<Rightarrow> passkey_db \<Rightarrow> string result \<times> passkey_db" where
  "passkey_commit E input userId ctx sessionLevel credential newCounter tokenDigest = transact (\<lambda>d.
     if count_rows (\<lambda>p. pkc_id p = pkc_id credential) (pdb_passkeys d) = 0 then (Inl record_not_found, d)
     else
     (let d1 = d\<lparr>pdb_passkeys := update_rows (\<lambda>p. pkc_id p = pkc_id credential)
            (\<lambda>p. p\<lparr>pkc_counter := newCounter, pkc_lastUsedAt := Some (clock E 1)\<rparr>) (pdb_passkeys d)\<rparr>;
          (sid, db1) = create_session E (passkey_session E input userId ctx sessionLevel) (pdb_db d1)
      in (case create_refresh_token E (passkey_refresh_row E userId sid tokenDigest sessionLevel) db1 of
            (Inl e, db2) \<Rightarrow> (Inl e, d)
          | (Inr _, db2) \<Rightarrow> (Inr sid, d1\<lparr>pdb_db := db2\<rparr>))))"

definition passkey_level :: "user_row \<Rightarrow> session_level" where
  "passkey_level u = (if usr_identityStatus u = Identity_VERIFIED then FULL else LIMITED)"

definition passkey_sign_in :: "env \<Rightarrow> passkey_login_input \<Rightarrow> string \<Rightarrow> request_context \<Rightarrow> passkey_row \<Rightarrow> int
    \<Rightarrow> passkey_db \<Rightarrow> issued_authentication result \<times> passkey_db" where
  "passkey_sign_in E input userId ctx credential newCounter d =
     (case find_row (\<lambda>u. usr_id u = userId) (users (pdb_db d)) of
        None \<Rightarrow> (Inl record_not_found, d)
      | Some u \<Rightarrow>
          (case generate_token E 0 48 of
             Inl e \<Rightarrow> (Inl e, d)
           | Inr refresh' \<Rightarrow>
               (case passkey_commit E input userId ctx (passkey_level u) credential newCounter (tok_digest refresh') d of
                  (Inl e, d1) \<Rightarrow> (Inl e, d1)
                | (Inr sid, d1) \<Rightarrow>
                    (buildIssuedAuthentication E 2 1 userId sid (passkey_level u) (tok_token refresh')
                       (pli_transport input), d1))))"

definition verifyAuthentication :: "env \<Rightarrow> webauthn \<Rightarrow> passkey_login_input \<Rightarrow> request_context \<Rightarrow> passkey_db \<Rightarrow> redis
    \<Rightarrow> issued_authentication result \<times> passkey_db \<times> redis" where
  "verifyAuthentication E w input ctx d r =
     (case take_challenge (authenticationKey E (pli_flowId input)) r of
        (Inl e, r1) \<Rightarrow> (Inl e, d, r1)
      | (Inr None, r1) \<Rightarrow> (Inl invalidAuthentication, d, r1)
      | (Inr (Some encoded), r1) \<Rightarrow>
     (case flow_state E encoded of
        Inl e \<Rightarrow> (Inl e, d, r1)
      | Inr (challenge, userId) \<Rightarrow>
     (case presented_passkey userId (pli_response input) d of
        Inl e \<Rightarrow> (Inl e, d, r1)
      | Inr credential \<Rightarrow>
     (case wan_verify_authentication w (pli_response input) challenge (allowed_origins E)
          (cfg_str E ''PASSKEY_RP_ID'') credential of
        None \<Rightarrow> (Inl (Raised ''verifyAuthenticationResponse''), d, r1)
      | Some (verified, newCounter) \<Rightarrow>
          if \<not> verified then (Inl invalidAuthentication, d, r1)
          else (case passkey_sign_in E input userId ctx credential newCounter d of
              (res, d1) \<Rightarrow> (res, d1, r1))))))"

subsection \<open>Registering a passkey\<close>

definition registrationOptions :: "env \<Rightarrow> webauthn \<Rightarrow> principal \<Rightarrow> passkey_db \<Rightarrow> redis
    \<Rightarrow> passkey_options result \<times> redis" where
  "registrationOptions E w claims d r =
     (case find_row (\<lambda>u. usr_id u = prn_sub claims) (users (pdb_db d)) of
        None \<Rightarrow> (Inl record_not_found, r)
      | Some u \<Rightarrow>
          (let display = (case find_row (\<lambda>c. cit_userId c = prn_sub claims) (identities (pdb_db d)) of
                 None \<Rightarrow> ''MUCYORA user'' | Some c \<Rightarrow> cit_postNames c @ '' '' @ cit_surName c);
               options = wan_registration_options w
                 (cfg_str E ''PASSKEY_RP_NAME'', cfg_str E ''PASSKEY_RP_ID'', prn_sub claims,
                  usr_emailNormalized u, display)
                 (map (\<lambda>p. (pkc_credentialId p, pkc_transports p))
                   (filter (passkey_active (prn_sub claims)) (pdb_passkeys d)))
           in (case put_challenge E (challengeKey E (prn_sub claims)) (pko_challenge options) r of
                 (Inl e, r1) \<Rightarrow> (Inl e, r1) | (Inr _, r1) \<Rightarrow> (Inr options, r1))))"

definition new_passkey :: "env \<Rightarrow> principal \<Rightarrow> string option \<Rightarrow> registered_passkey \<Rightarrow> passkey_db \<Rightarrow> passkey_row" where
  "new_passkey E claims label g d =
     \<lparr>pkc_id = gen_id E (map pkc_id (pdb_passkeys d)), pkc_userId = prn_sub claims, pkc_credentialId = rgp_id g,
      pkc_publicKey = rgp_publicKey g, pkc_counter = rgp_counter g,
      pkc_transports = (case rgp_transports g of None \<Rightarrow> [] | Some ts \<Rightarrow> ts),
      pkc_deviceType = rgp_deviceType g, pkc_backedUp = rgp_backedUp g, pkc_label = label,
      pkc_lastUsedAt = None, pkc_createdAt = db_clock E, pkc_revokedAt = None\<rparr>"

definition verifyRegistration :: "env \<Rightarrow> webauthn \<Rightarrow> principal \<Rightarrow> json \<Rightarrow> string option \<Rightarrow> passkey_db \<Rightarrow> redis
    \<Rightarrow> passkey_row result \<times> passkey_db \<times> redis" where
  "verifyRegistration E w claims response label d r =
     (case take_challenge (challengeKey E (prn_sub claims)) r of
        (Inl e, r1) \<Rightarrow> (Inl e, d, r1)
      | (Inr stored, r1) \<Rightarrow>
          if \<not> truthy_text stored then (Inl invalidRegistration, d, r1)
          else (case wan_verify_registration w response (the stored) (allowed_origins E) (cfg_str E ''PASSKEY_RP_ID'') of
              None \<Rightarrow> (Inl (Raised ''verifyRegistrationResponse''), d, r1)
            | Some (verified, info) \<Rightarrow>
                (case info of
                   None \<Rightarrow> (Inl invalidRegistration, d, r1)
                 | Some g \<Rightarrow>
                     if \<not> verified then (Inl invalidRegistration, d, r1)
                     else (let p = new_passkey E claims label g d
                       in (Inr p, d\<lparr>pdb_passkeys := pdb_passkeys d @ [p]\<rparr>, r1)))))"

definition passkey_list :: "principal \<Rightarrow> passkey_db \<Rightarrow> passkey_row list" where
  "passkey_list claims d = take_rows_desc pkc_createdAt 20 (passkey_active (prn_sub claims)) (pdb_passkeys d)"

definition passkey_revoke :: "env \<Rightarrow> principal \<Rightarrow> string \<Rightarrow> passkey_db \<Rightarrow> nat \<times> passkey_db" where
  "passkey_revoke E claims k d =
     (let mine = (\<lambda>p. pkc_id p = k \<and> passkey_active (prn_sub claims) p)
      in (count_rows mine (pdb_passkeys d),
          d\<lparr>pdb_passkeys := update_rows mine (\<lambda>p. p\<lparr>pkc_revokedAt := Some (clock E 0)\<rparr>) (pdb_passkeys d)\<rparr>))"

subsection \<open>Recovery codes\<close>

fun generate_codes :: "env \<Rightarrow> nat \<Rightarrow> opaque_token list result" where
  "generate_codes E 0 = Inr []"
| "generate_codes E (Suc n) =
     (case generate_codes E n of
        Inl e \<Rightarrow> Inl e
      | Inr ts \<Rightarrow> (case generate_token E n 16 of Inl e \<Rightarrow> Inl e | Inr t \<Rightarrow> Inr (ts @ [t])))"

fun insert_codes :: "env \<Rightarrow> string \<Rightarrow> string list \<Rightarrow> recovery_row list \<Rightarrow> recovery_row list" where
  "insert_codes E userId [] t = t"
| "insert_codes E userId (k # ks) t = insert_codes E userId ks
     (t @ [\<lparr>rcc_id = gen_id E (map rcc_id t), rcc_userId = userId, rcc_codeDigest = k, rcc_usedAt = None,
            rcc_revokedAt = None\<rparr>])"

definition rotateRecoveryCodes :: "env \<Rightarrow> principal \<Rightarrow> passkey_db \<Rightarrow> string list result \<times> passkey_db" where
  "rotateRecoveryCodes E claims d =
     (case generate_codes E (cfg_num E ''RECOVERY_CODE_COUNT'') of
        Inl e \<Rightarrow> (Inl e, d)
      | Inr generated \<Rightarrow>
          (let open_codes = update_rows
                 (\<lambda>c. rcc_userId c = prn_sub claims \<and> rcc_usedAt c = None \<and> rcc_revokedAt c = None)
                 (\<lambda>c. c\<lparr>rcc_revokedAt := Some (clock E 0)\<rparr>) (pdb_codes d)
           in (Inr (map tok_token generated),
               d\<lparr>pdb_codes := insert_codes E (prn_sub claims) (map tok_digest generated) open_codes\<rparr>)))"

definition usable_code :: "string \<Rightarrow> string \<Rightarrow> recovery_row \<Rightarrow> bool" where
  "usable_code userId k c \<longleftrightarrow> rcc_userId c = userId \<and> rcc_codeDigest c = k \<and> rcc_usedAt c = None
     \<and> rcc_revokedAt c = None"

definition recover :: "env \<Rightarrow> string \<Rightarrow> string \<Rightarrow> opaque_token \<Rightarrow> int \<Rightarrow> passkey_db \<Rightarrow> unit result \<times> passkey_db" where
  "recover E emailNormalized codeDigest resetToken expiresAt = transact (\<lambda>d.
     (case find_row (\<lambda>u. usr_emailNormalized u = emailNormalized) (users (pdb_db d)) of
        None \<Rightarrow> (Inl invalidRecovery, d)
      | Some u \<Rightarrow>
          if count_rows (usable_code (usr_id u) codeDigest) (pdb_codes d) \<noteq> 1 then (Inl invalidRecovery, d)
          else (case create_reset_request E
              \<lparr>rst_id = [], rst_userId = usr_id u, rst_tokenDigest = tok_digest resetToken, rst_expiresAt = expiresAt,
               rst_usedAt = None, rst_revokedAt = None, rst_requestedIpHash = None\<rparr> (pdb_db d) of
             (Inl e, db1) \<Rightarrow> (Inl e, d)
           | (Inr _, db1) \<Rightarrow> (Inr (), d\<lparr>pdb_db := db1,
               pdb_codes := update_rows (usable_code (usr_id u) codeDigest)
                 (\<lambda>c. c\<lparr>rcc_usedAt := Some (clock E 1)\<rparr>) (pdb_codes d)\<rparr>))))"

definition consumeRecoveryCode :: "env \<Rightarrow> string \<Rightarrow> string \<Rightarrow> passkey_db \<Rightarrow> (string \<times> int) result \<times> passkey_db" where
  "consumeRecoveryCode E email recoveryCode d =
     (case normalizeEmail E email of
        Inl e \<Rightarrow> (Inl e, d)
      | Inr emailNormalized \<Rightarrow>
          (case generate_token E 0 32 of
             Inl e \<Rightarrow> (Inl e, d)
           | Inr resetToken \<Rightarrow>
               (let expiresAt = clock E 0 + 15 * 60 * 1000
                in (case recover E emailNormalized (token_digest E recoveryCode) resetToken expiresAt d of
                      (Inl e, d1) \<Rightarrow> (Inl e, d1)
                    | (Inr _, d1) \<Rightarrow> (Inr (tok_token resetToken, expiresAt), d1)))))"

subsection \<open>What signing in shows\<close>

lemma passkey_commit_InrE:
  assumes "passkey_commit E input userId ctx l credential n k d = (Inr sid, d')"
  obtains "sid = gen_id E (map ses_id (sessions (pdb_db d)))"
    and "sessions (pdb_db d') = sessions (pdb_db d) @ [(passkey_session E input userId ctx l)\<lparr>ses_id := sid\<rparr>]"
    and "users (pdb_db d') = users (pdb_db d)"
    and "pdb_passkeys d' = update_rows (\<lambda>p. pkc_id p = pkc_id credential)
      (\<lambda>p. p\<lparr>pkc_counter := n, pkc_lastUsedAt := Some (clock E 1)\<rparr>) (pdb_passkeys d)"
    and "pdb_codes d' = pdb_codes d"
  using transact_InrD [OF assms [unfolded passkey_commit_def]] that
  by (auto simp: create_session_def create_refresh_token_def Let_def split: if_split_asm)

lemma passkey_sign_in_InrE:
  assumes "passkey_sign_in E input userId ctx credential n d = (Inr x, d')"
  obtains u sid where "find_row (\<lambda>u. usr_id u = userId) (users (pdb_db d)) = Some u"
    and "sid = gen_id E (map ses_id (sessions (pdb_db d)))"
    and "sessions (pdb_db d') = sessions (pdb_db d) @ [(passkey_session E input userId ctx (passkey_level u))\<lparr>ses_id := sid\<rparr>]"
    and "rsp_sessionLevel (iss_response x) = passkey_level u" and "users (pdb_db d') = users (pdb_db d)"
proof -
  obtain u where u: "find_row (\<lambda>u. usr_id u = userId) (users (pdb_db d)) = Some u"
    using assms by (auto simp: passkey_sign_in_def split: option.split_asm)
  obtain t where t: "generate_token E 0 48 = Inr t"
    using assms by (auto simp: passkey_sign_in_def u split: sum.split_asm)
  obtain sid where c: "passkey_commit E input userId ctx (passkey_level u) credential n (tok_digest t) d = (Inr sid, d')"
    and b: "buildIssuedAuthentication E 2 1 userId sid (passkey_level u) (tok_token t) (pli_transport input) = Inr x"
    using assms by (auto simp: passkey_sign_in_def u t simp del: generate_token_valid split: sum.split_asm prod.split_asm)
  have "rsp_sessionLevel (iss_response x) = passkey_level u"
    using b by (auto simp: buildIssuedAuthentication_def split: sum.split_asm)
  with c u show ?thesis by (auto elim!: passkey_commit_InrE intro: that)
qed

lemma take_challenge_effect:
  assumes "take_challenge k r = (res, r')"
  shows "res = Inr (Some v) \<Longrightarrow> redis_get k r = Some v \<and> redis_get k r' = None"
    and "redis_get k r = None \<Longrightarrow> redis_get k r' = None"
proof -
  have same: "redis_get k r1 = redis_get k r" if "ensureRedisConnected r = (x, r1)" for x r1
    using ensureRedisConnected_store [of r] that unfolding redis_get_def by (simp cong: live_cong)
  have del: "redis_get k (del_entry k r1) = None" for r1 by (simp add: redis_get_def live_def del_entry_def)
  show "res = Inr (Some v) \<Longrightarrow> redis_get k r = Some v \<and> redis_get k r' = None"
    and "redis_get k r = None \<Longrightarrow> redis_get k r' = None"
    using assms same del
    by (auto simp: take_challenge_def redis_getdel_def split: prod.split_asm sum.split_asm if_split_asm)
qed

lemma verifyAuthentication_InrE:
  assumes "verifyAuthentication E w input ctx d r = (Inr x, d', r')"
  obtains encoded challenge userId credential n u where
    "redis_get (authenticationKey E (pli_flowId input)) r = Some encoded"
    and "redis_get (authenticationKey E (pli_flowId input)) r' = None"
    and "flow_state E encoded = Inr (challenge, userId)"
    and "presented_passkey userId (pli_response input) d = Inr credential"
    and "wan_verify_authentication w (pli_response input) challenge (allowed_origins E)
      (cfg_str E ''PASSKEY_RP_ID'') credential = Some (True, n)"
    and "passkey_sign_in E input userId ctx credential n d = (Inr x, d')"
proof -
  obtain res r1 where t: "take_challenge (authenticationKey E (pli_flowId input)) r = (res, r1)" by force
  obtain encoded where res: "res = Inr (Some encoded)"
    using assms by (auto simp: verifyAuthentication_def t split: sum.split_asm option.split_asm)
  obtain challenge userId where f: "flow_state E encoded = Inr (challenge, userId)"
    using assms by (auto simp: verifyAuthentication_def t res split: sum.split_asm)
  obtain credential where p: "presented_passkey userId (pli_response input) d = Inr credential"
    using assms by (auto simp: verifyAuthentication_def t res f split: sum.split_asm)
  obtain n where v: "wan_verify_authentication w (pli_response input) challenge (allowed_origins E)
      (cfg_str E ''PASSKEY_RP_ID'') credential = Some (True, n)"
    and s: "passkey_sign_in E input userId ctx credential n d = (Inr x, d')" and r': "r' = r1"
    using assms by (auto simp: verifyAuthentication_def t res f p split: option.split_asm prod.split_asm if_split_asm)
  show ?thesis
    by (rule that [OF _ _ f p v s]) (use take_challenge_effect(1) [OF t, where v = encoded] res r' in auto)
qed

lemma presented_passkey_InrD:
  assumes "presented_passkey userId response d = Inr p"
  shows "p \<in> set (pdb_passkeys d)" and "pkc_userId p = userId" and "pkc_revokedAt p = None"
  using assms unfolding presented_passkey_def
  by (auto simp: passkey_active_def Let_def split: option.split_asm json.split_asm dest!: find_row_SomeD)

text \<open>A flow's challenge admits one sign-in.\<close>

type_synonym passkey_try = "env \<times> webauthn \<times> passkey_login_input \<times> request_context"

definition passkey_attempt :: "passkey_try \<Rightarrow> passkey_db \<times> redis \<Rightarrow> issued_authentication result \<times> passkey_db \<times> redis" where
  "passkey_attempt a s = (case a of (E, w, input, ctx) \<Rightarrow> (case s of (d, r) \<Rightarrow> verifyAuthentication E w input ctx d r))"

definition for_flow :: "string \<Rightarrow> passkey_try \<Rightarrow> bool" where
  "for_flow k a = (case a of (E, w, input, ctx) \<Rightarrow> authenticationKey E (pli_flowId input) = k)"

lemma verifyAuthentication_redis:
  assumes "verifyAuthentication E w input ctx d r = (res, d', r')"
  shows "r' = snd (take_challenge (authenticationKey E (pli_flowId input)) r)"
  using assms unfolding verifyAuthentication_def
  by (auto split: prod.split_asm sum.split_asm option.split_asm if_split_asm)

interpretation pk: single_use passkey_attempt "\<lambda>(d, r). redis_get k r = None" "\<lambda>_. True" "for_flow k" for k
proof
  fix s :: "passkey_db \<times> redis" and a :: passkey_try
  obtain E w input ctx where a: "a = (E, w, input, ctx)" by (cases a)
  obtain d r where s: "s = (d, r)" by (cases s)
  assume "for_flow k a"
  then have k: "authenticationKey E (pli_flowId input) = k" by (simp add: for_flow_def a)
  obtain res d' r' where v: "verifyAuthentication E w input ctx d r = (res, d', r')" by (metis prod_cases3)
  have run: "passkey_attempt a s = (res, d', r')" by (simp add: passkey_attempt_def a s v)
  obtain tres where t: "take_challenge k r = (tres, r')"
    using verifyAuthentication_redis [OF v] unfolding k by (metis prod.collapse)
  have won: "redis_get k r \<noteq> None \<and> redis_get k r' = None" if "res = Inr x" for x
    using v [unfolded that] k by (auto elim!: verifyAuthentication_InrE)
  show "\<not> (case s of (d, r) \<Rightarrow> redis_get k r = None)" if "succeeded (fst (passkey_attempt a s))"
    using that won unfolding run unfolding s by (cases res) simp_all
  show "case snd (passkey_attempt a s) of (d, r) \<Rightarrow> redis_get k r = None" if "succeeded (fst (passkey_attempt a s))"
    using that won unfolding run by (cases res) simp_all
  show "case snd (passkey_attempt a s) of (d, r) \<Rightarrow> redis_get k r = None"
    if "case s of (d, r) \<Rightarrow> redis_get k r = None"
    using that take_challenge_effect(2) [OF t] unfolding run unfolding s by simp
qed simp

subsection \<open>What the recovery codes show\<close>

lemma generate_16_fails: "\<exists>e. generate_token E i 16 = Inl e"
  by (simp add: generate_token_def)

lemma generate_codes_fails: "\<exists>e. generate_codes E (Suc n) = Inl e"
  using generate_16_fails [of E n] by (auto split: sum.split)

lemma recover_InrE:
  assumes "recover E m k t x d = (Inr (), d')"
  obtains u where "find_row (\<lambda>u. usr_emailNormalized u = m) (users (pdb_db d)) = Some u"
    and "count_rows (usable_code (usr_id u) k) (pdb_codes d) = 1"
    and "pdb_codes d' = update_rows (usable_code (usr_id u) k) (\<lambda>c. c\<lparr>rcc_usedAt := Some (clock E 1)\<rparr>) (pdb_codes d)"
    and "users (pdb_db d') = users (pdb_db d)"
    and "\<exists>i. reset_requests (pdb_db d') = reset_requests (pdb_db d) @
      [\<lparr>rst_id = i, rst_userId = usr_id u, rst_tokenDigest = tok_digest t, rst_expiresAt = x,
        rst_usedAt = None, rst_revokedAt = None, rst_requestedIpHash = None\<rparr>]"
  using transact_InrD [OF assms [unfolded recover_def]] that
  by (auto simp: create_reset_request_def split: option.split_asm if_split_asm)

lemma consumeRecoveryCode_InrE:
  assumes "consumeRecoveryCode E email code d = (Inr x, d')"
  obtains m t where "normalizeEmail E email = Inr m" and "generate_token E 0 32 = Inr t"
    and "recover E m (token_digest E code) t (clock E 0 + 15 * 60 * 1000) d = (Inr (), d')"
    and "x = (tok_token t, clock E 0 + 15 * 60 * 1000)"
proof -
  obtain m where m: "normalizeEmail E email = Inr m"
    using assms by (auto simp: consumeRecoveryCode_def split: sum.split_asm)
  obtain t where t: "generate_token E 0 32 = Inr t"
    using assms by (auto simp: consumeRecoveryCode_def m simp del: generate_token_valid split: sum.split_asm)
  show ?thesis
    using assms by (intro that [OF m t])
      (auto simp: consumeRecoveryCode_def m t Let_def simp del: generate_token_valid split: sum.split_asm prod.split_asm)
qed

lemma consumeRecoveryCode_failed:
  "consumeRecoveryCode E email code d = (Inl e, d') \<Longrightarrow> d' = d"
  by (auto simp: consumeRecoveryCode_def recover_def Let_def simp del: generate_token_valid
      split: sum.split_asm prod.split_asm dest: transact_rolls_back)

type_synonym recovery_try = "env \<times> string \<times> string"

definition recovery_attempt :: "recovery_try \<Rightarrow> passkey_db \<Rightarrow> (string \<times> int) result \<times> passkey_db" where
  "recovery_attempt a d = (case a of (E, email, code) \<Rightarrow> consumeRecoveryCode E email code d)"

definition recovers :: "string \<Rightarrow> string \<Rightarrow> recovery_try \<Rightarrow> bool" where
  "recovers m k a = (case a of (E, email, code) \<Rightarrow> normalizeEmail E email = Inr m \<and> token_digest E code = k)"

definition code_owner :: "string \<Rightarrow> string \<Rightarrow> passkey_db \<Rightarrow> bool" where
  "code_owner m u d \<longleftrightarrow> map_option usr_id (find_row (\<lambda>u. usr_emailNormalized u = m) (users (pdb_db d))) = Some u"

interpretation rc: single_use recovery_attempt "\<lambda>d. \<forall>c \<in> set (pdb_codes d). \<not> usable_code u k c"
  "code_owner m u" "recovers m k" for m u k
proof
  fix d :: passkey_db and a :: recovery_try
  obtain E email code where a: "a = (E, email, code)" by (cases a)
  assume o: "code_owner m u d" and "recovers m k a"
  then have v: "normalizeEmail E email = Inr m" "token_digest E code = k" by (simp_all add: recovers_def a)
  obtain res d' where r: "consumeRecoveryCode E email code d = (res, d')" by force
  have run: "recovery_attempt a d = (res, d')" by (simp add: recovery_attempt_def a r)
  have won: "count_rows (usable_code u k) (pdb_codes d) = Suc 0
      \<and> (\<exists>t. pdb_codes d' = update_rows (usable_code u k) (\<lambda>c. c\<lparr>rcc_usedAt := Some t\<rparr>) (pdb_codes d))
      \<and> code_owner m u d'" if "res = Inr x" for x
    using r [unfolded that] v o by (auto elim!: consumeRecoveryCode_InrE recover_InrE simp: code_owner_def)
  have lost: "d' = d" if "res = Inl e" for e
    using r [unfolded that] by (rule consumeRecoveryCode_failed)
  show "\<not> (\<forall>c \<in> set (pdb_codes d). \<not> usable_code u k c)" if "succeeded (fst (recovery_attempt a d))"
    using that won count_rows_1D by (cases res) (fastforce simp: run)+
  show "\<forall>c \<in> set (pdb_codes (snd (recovery_attempt a d))). \<not> usable_code u k c"
    if "succeeded (fst (recovery_attempt a d))"
  proof (cases res)
    case (Inl e)
    with that show ?thesis by (simp add: run)
  next
    case (Inr x)
    from won [OF this] obtain t where
      t: "pdb_codes d' = update_rows (usable_code u k) (\<lambda>c. c\<lparr>rcc_usedAt := Some t\<rparr>) (pdb_codes d)" by blast
    show ?thesis unfolding run snd_conv t ball_update_rows by (simp add: usable_code_def)
  qed
  show "code_owner m u (snd (recovery_attempt a d))"
    using o won lost by (cases res) (auto simp: run)
  show "\<forall>c \<in> set (pdb_codes (snd (recovery_attempt a d))). \<not> usable_code u k c"
    if "\<forall>c \<in> set (pdb_codes d). \<not> usable_code u k c"
    using that won lost by (cases res) (auto simp: run count_rows_0_iff [symmetric])
qed

end
