(* ===== verification/Configuration.thy ===== *)
theory Configuration
  imports AccessToken
begin

text \<open>
  The validation of the environment (\<open>config/environment.validation.ts\<close>): the schema as a table of
  settings, and the checks that span settings.  Joi's conversion of numbers and its checks of URIs,
  host names and addresses, the URL parser and the key parsers are parameters; a missing variable is
  \<open>None\<close>.
\<close>

subsection \<open>Settings\<close>

datatype text_rule =
    One_Of "string list"
  | Uri "string list"
  | Hostname
  | Email
  | At_Least nat
  | At_Most nat
  | Of_Chars string nat nat
  | Of_Lower_Chars string nat nat
  | Path_Prefix
  | Key_Version
  | Four_Digits

text \<open>
  \<open>Joi.number().integer().min().max().default()\<close>, \<open>Joi.boolean().default()\<close>, and
  \<open>Joi.string()\<close> with its rules, whether the empty text is allowed, and its default
  (\<open>None\<close>: the variable is required).
\<close>

datatype setting =
    Number_Setting int int int
  | Flag_Setting bool
  | Text_Setting "text_rule list" bool "string option"

datatype setting_value = Num_Value int | Flag_Value bool | Text_Value string

record url =
  url_protocol :: string
  url_username :: string
  url_password :: string
  url_search :: string
  url_hash :: string
  url_hostname :: string
  url_origin :: string

record config_platform =
  cpl_number :: "string \<Rightarrow> int option"
  cpl_uri :: "string list \<Rightarrow> string \<Rightarrow> bool"
  cpl_hostname :: "string \<Rightarrow> bool"
  cpl_email :: "string \<Rightarrow> bool"
  cpl_url :: "string \<Rightarrow> url option"
  cpl_decode_component :: "string \<Rightarrow> string option"
  cpl_private_rsa :: "string \<Rightarrow> bool option"
  cpl_key_pair :: "string \<Rightarrow> string \<Rightarrow> bool"

fun text_rule_ok :: "config_platform \<Rightarrow> text_rule \<Rightarrow> string \<Rightarrow> bool" where
  "text_rule_ok P (One_Of vs) s = (s \<in> set vs)"
| "text_rule_ok P (Uri schemes) s = cpl_uri P schemes s"
| "text_rule_ok P Hostname s = cpl_hostname P s"
| "text_rule_ok P Email s = cpl_email P s"
| "text_rule_ok P (At_Least n) s = (n \<le> length s)"
| "text_rule_ok P (At_Most n) s = (length s \<le> n)"
| "text_rule_ok P (Of_Chars extra lo hi) s =
     (lo \<le> length s \<and> length s \<le> hi \<and> list_all (\<lambda>c. is_alnum c \<or> c \<in> set extra) s)"
| "text_rule_ok P (Of_Lower_Chars extra lo hi) s =
     (lo \<le> length s \<and> length s \<le> hi \<and> list_all (\<lambda>c. is_lower c \<or> is_digit c \<or> c \<in> set extra) s)"
| "text_rule_ok P Path_Prefix s =
     (2 \<le> length s \<and> length s \<le> 129 \<and> last s = CHR ''/''
      \<and> list_all (\<lambda>c. is_alnum c \<or> c \<in> set ''/_-'') (butlast s))"
| "text_rule_ok P Key_Version s =
     (case s of v # c # cs \<Rightarrow> v = CHR ''v'' \<and> is_digit c \<and> c \<noteq> CHR ''0'' \<and> list_all is_digit cs | _ \<Rightarrow> False)"
| "text_rule_ok P Four_Digits s = (length s = 4 \<and> list_all is_digit s)"

definition read_flag :: "env \<Rightarrow> string \<Rightarrow> bool option" where
  "read_flag E s = (if to_lower E s = ''true'' then Some True
     else if to_lower E s = ''false'' then Some False else None)"

fun read_setting :: "env \<Rightarrow> config_platform \<Rightarrow> setting \<Rightarrow> string option \<Rightarrow> setting_value option" where
  "read_setting E P (Number_Setting lo hi dflt) None = Some (Num_Value dflt)"
| "read_setting E P (Number_Setting lo hi dflt) (Some s) =
     (case cpl_number P s of None \<Rightarrow> None
      | Some n \<Rightarrow> if lo \<le> n \<and> n \<le> hi then Some (Num_Value n) else None)"
| "read_setting E P (Flag_Setting dflt) None = Some (Flag_Value dflt)"
| "read_setting E P (Flag_Setting dflt) (Some s) = map_option Flag_Value (read_flag E s)"
| "read_setting E P (Text_Setting rules allowed dflt) None = map_option Text_Value dflt"
| "read_setting E P (Text_Setting rules allowed dflt) (Some s) =
     (if s = [] then (if allowed then Some (Text_Value s) else None)
      else if list_all (\<lambda>r. text_rule_ok P r s) rules then Some (Text_Value s) else None)"

subsection \<open>The schema\<close>

definition service_settings :: "(string \<times> setting) list" where
  "service_settings =
     [(''APP_ENV'', Text_Setting [One_Of [''development'', ''test'', ''production'']] False (Some ''development'')),
      (''DATABASE_URL'', Text_Setting [Uri [''postgresql'', ''postgres'']] False None),
      (''LOG_LEVEL'', Text_Setting [One_Of [''error'', ''warn'', ''log'', ''debug'', ''verbose'']] False (Some ''log'')),
      (''OTEL_ENABLED'', Flag_Setting False),
      (''OTEL_SERVICE_NAME'', Text_Setting [Of_Chars ''._-'' 1 64] False (Some ''mucyora-auth'')),
      (''OTEL_EXPORTER_OTLP_ENDPOINT'', Text_Setting [Uri []] True (Some '''')),
      (''CORS_ALLOWED_ORIGINS'', Text_Setting [] False (Some ''http://localhost:4000'')),
      (''ENABLE_SWAGGER'', Flag_Setting False),
      (''DOCS_BASIC_AUTH_USER'', Text_Setting [] True (Some '''')),
      (''DOCS_BASIC_AUTH_PASS'', Text_Setting [] True (Some '''')),
      (''READINESS_CACHE_TTL_MS'', Number_Setting 250 30000 5000),
      (''READINESS_REDIS_REQUIRED'', Flag_Setting True),
      (''IDENTITY_ENCRYPTION_PROVIDER'', Text_Setting [One_Of [''SOFTWARE_GCM'']] False (Some ''SOFTWARE_GCM'')),
      (''IDENTITY_ENCRYPTION_KEY_VERSION'', Text_Setting [Key_Version] False None),
      (''IDENTITY_ENCRYPTION_SECRET'', Text_Setting [At_Least 43] False None),
      (''IDENTITY_LOOKUP_KEY_VERSION'', Text_Setting [Key_Version] False None),
      (''IDENTITY_LOOKUP_HMAC_KEY'', Text_Setting [At_Least 43] False None),
      (''TOKEN_DIGEST_HMAC_KEY'', Text_Setting [At_Least 43] False None),
      (''REQUEST_CONTEXT_HMAC_KEY'', Text_Setting [At_Least 43] False None),
      (''REDIS_URL'', Text_Setting [Uri [''redis'', ''rediss'']] False None),
      (''CACHE_PREFIX'', Text_Setting [Of_Lower_Chars '':_-'' 1 64] False (Some ''mucyora:auth:'')),
      (''CITIZEN_API_URL'', Text_Setting [Uri []] False None),
      (''CITIZEN_API_USERNAME'', Text_Setting [At_Least 1, At_Most 256] False None),
      (''CITIZEN_API_PASSWORD'', Text_Setting [At_Least 8, At_Most 512] False None),
      (''CITIZEN_API_FOSA_ID'', Text_Setting [Four_Digits] False (Some ''0022'')),
      (''CITIZEN_API_CONNECT_TIMEOUT_MS'', Number_Setting 250 30000 3000),
      (''CITIZEN_API_RESPONSE_TIMEOUT_MS'', Number_Setting 500 60000 10000),
      (''CITIZEN_API_MAX_RETRIES'', Number_Setting 0 3 2),
      (''CITIZEN_CACHE_TTL_SECONDS'', Number_Setting 30 3600 300),
      (''CITIZEN_CIRCUIT_FAILURE_THRESHOLD'', Number_Setting 2 20 5),
      (''CITIZEN_CIRCUIT_RESET_TIMEOUT_MS'', Number_Setting 1000 300000 30000),
      (''CITIZEN_LOOKUP_IP_LIMIT_PER_MINUTE'', Number_Setting 1 100 5),
      (''CITIZEN_LOOKUP_CLIENT_LIMIT_PER_MINUTE'', Number_Setting 1 100 5),
      (''CITIZEN_LOOKUP_NID_LIMIT_PER_MINUTE'', Number_Setting 1 100 3),
      (''REGISTRATION_CHALLENGE_TTL_SECONDS'', Number_Setting 120 900 600),
      (''REGISTRATION_CHALLENGE_MAX_ATTEMPTS'', Number_Setting 1 10 3),
      (''PASSWORD_ARGON2_MEMORY_KIB'', Number_Setting 32768 262144 65536)]"

definition delivery_settings :: "(string \<times> setting) list" where
  "delivery_settings =
     [(''PASSWORD_ARGON2_TIME_COST'', Number_Setting 2 10 3),
      (''PASSWORD_ARGON2_PARALLELISM'', Number_Setting 1 4 1),
      (''PASSWORD_HASH_MAX_CONCURRENCY'', Number_Setting 1 16 4),
      (''COMPROMISED_PASSWORD_CHECK_ENABLED'', Flag_Setting False),
      (''COMPROMISED_PASSWORD_API_URL'', Text_Setting [Uri []] False (Some ''https://api.pwnedpasswords.com/range'')),
      (''COMPROMISED_PASSWORD_TIMEOUT_MS'', Number_Setting 250 10000 2000),
      (''PASSWORD_RESET_TOKEN_TTL_SECONDS'', Number_Setting 300 3600 900),
      (''PASSWORD_RESET_LIMIT_PER_HOUR'', Number_Setting 1 20 3),
      (''PASSWORD_CHANGE_LIMIT_PER_HOUR'', Number_Setting 1 20 5),
      (''EMAIL_TOKEN_TTL_SECONDS'', Number_Setting 900 172800 86400),
      (''REGISTRATION_LIMIT_PER_HOUR'', Number_Setting 1 20 3),
      (''EMAIL_RESEND_LIMIT_PER_HOUR'', Number_Setting 1 20 3),
      (''MAIL_OUTBOX_WORKER_ENABLED'', Flag_Setting False),
      (''MAIL_PROVIDER_URL'', Text_Setting [] True (Some '''')),
      (''MAIL_FROM'', Text_Setting [Email] True (Some '''')),
      (''MAIL_API_KEY'', Text_Setting [] True (Some '''')),
      (''MUCYORA_USER_APP_URL'', Text_Setting [Uri []] False (Some ''http://localhost:4000'')),
      (''MAIL_PROVIDER_TIMEOUT_MS'', Number_Setting 500 30000 5000),
      (''OUTBOX_POLL_INTERVAL_MS'', Number_Setting 1000 60000 5000),
      (''OUTBOX_BATCH_SIZE'', Number_Setting 1 100 20),
      (''OUTBOX_DELIVERY_CONCURRENCY'', Number_Setting 1 16 4),
      (''OUTBOX_MAX_ATTEMPTS'', Number_Setting 1 25 10),
      (''OUTBOX_LEASE_SECONDS'', Number_Setting 30 900 120),
      (''OUTBOX_RETRY_BASE_SECONDS'', Number_Setting 5 300 30),
      (''OUTBOX_RETRY_MAX_SECONDS'', Number_Setting 60 86400 3600),
      (''MUCYORA_AUTH_ISSUER'', Text_Setting [Uri []] False None),
      (''MUCYORA_AUTH_ACCESS_AUDIENCES'', Text_Setting [At_Least 1] False None),
      (''MUCYORA_AUTH_SIGNING_KEY_ID'', Text_Setting [Of_Chars ''._:-'' 8 128] False None),
      (''MUCYORA_AUTH_SIGNING_PROVIDER'', Text_Setting [One_Of [''SOFTWARE_PEM'', ''AWS_KMS'']] False (Some ''SOFTWARE_PEM'')),
      (''MUCYORA_AUTH_SIGNING_PRIVATE_KEY'', Text_Setting [] True (Some '''')),
      (''MUCYORA_AUTH_SIGNING_PUBLIC_KEY'', Text_Setting [At_Least 128] False None),
      (''MUCYORA_AUTH_KMS_KEY_ID'', Text_Setting [At_Most 512] True (Some '''')),
      (''MUCYORA_AUTH_PREVIOUS_SIGNING_PUBLIC_KEYS_JSON'', Text_Setting [At_Most 32768] False (Some ''[]'')),
      (''ACCESS_TOKEN_TTL_SECONDS'', Number_Setting 300 1800 900),
      (''LIMITED_ACCESS_TOKEN_TTL_SECONDS'', Number_Setting 300 7200 900),
      (''REFRESH_TOKEN_TTL_SECONDS'', Number_Setting 86400 7776000 2592000),
      (''REFRESH_REPLAY_GRACE_SECONDS'', Number_Setting 1 30 10),
      (''SESSION_UPGRADE_IDEMPOTENCY_TTL_SECONDS'', Number_Setting 300 3600 900),
      (''LOGIN_LIMIT_PER_MINUTE'', Number_Setting 1 50 5),
      (''REFRESH_LIMIT_PER_MINUTE'', Number_Setting 1 100 10),
      (''LOGIN_LOCK_THRESHOLD'', Number_Setting 5 50 10),
      (''LOGIN_LOCK_SECONDS'', Number_Setting 60 3600 900),
      (''COOKIE_DOMAIN'', Text_Setting [] True (Some '''')),
      (''COOKIE_SECURE'', Flag_Setting False),
      (''COOKIE_SAME_SITE'', Text_Setting [One_Of [''lax'', ''strict'', ''none'']] False (Some ''lax'')),
      (''REFRESH_COOKIE_NAME'', Text_Setting [Of_Chars ''_-'' 1 64] False (Some ''mucyora_refresh''))]"

definition verification_settings :: "(string \<times> setting) list" where
  "verification_settings =
     [(''PASSKEY_RP_ID'', Text_Setting [Hostname] False (Some ''localhost'')),
      (''PASSKEY_RP_NAME'', Text_Setting [At_Least 1, At_Most 100] False (Some ''MUCYORA'')),
      (''PASSKEY_ALLOWED_ORIGINS'', Text_Setting [] False (Some ''http://localhost:4000'')),
      (''PASSKEY_CHALLENGE_TTL_SECONDS'', Number_Setting 60 600 300),
      (''RECOVERY_CODE_COUNT'', Number_Setting 6 12 8),
      (''CSRF_COOKIE_NAME'', Text_Setting [Of_Chars ''_-'' 1 64] False (Some ''mucyora_csrf'')),
      (''AWS_REGION'', Text_Setting [At_Least 3, At_Most 64] False (Some ''eu-west-1'')),
      (''AWS_S3_VERIFICATION_BUCKET'', Text_Setting [At_Least 3, At_Most 63] False None),
      (''AWS_S3_VERIFICATION_PREFIX'', Text_Setting [Path_Prefix] False (Some ''identity-verification/'')),
      (''AWS_S3_ENDPOINT'', Text_Setting [Uri []] True (Some '''')),
      (''AWS_S3_FORCE_PATH_STYLE'', Flag_Setting False),
      (''AWS_ACCESS_KEY_ID'', Text_Setting [] True (Some '''')),
      (''AWS_SECRET_ACCESS_KEY'', Text_Setting [] True (Some '''')),
      (''AWS_SESSION_TOKEN'', Text_Setting [] True (Some '''')),
      (''VERIFICATION_UPLOAD_TTL_SECONDS'', Number_Setting 60 900 300),
      (''VERIFICATION_MEDIA_MAX_SIZE_BYTES'', Number_Setting 65536 10485760 5242880),
      (''VERIFICATION_MEDIA_MAX_PIXELS'', Number_Setting 1000000 40000000 20000000),
      (''VERIFICATION_MEDIA_RETENTION_SECONDS'', Number_Setting 900 604800 86400),
      (''VERIFICATION_MAX_ATTEMPTS'', Number_Setting 1 10 3),
      (''VERIFICATION_ATTEMPT_WINDOW_HOURS'', Number_Setting 1 168 24),
      (''VERIFICATION_RETRY_DELAY_SECONDS'', Number_Setting 60 86400 3600),
      (''VERIFICATION_POLICY_VERSION'', Text_Setting [Of_Chars ''._:-'' 8 64] False None),
      (''VERIFICATION_CLEANUP_INTERVAL_MS'', Number_Setting 10000 3600000 300000),
      (''VERIFICATION_CLEANUP_ENABLED'', Flag_Setting False),
      (''MUCYORA_ENGINE_URL'', Text_Setting [Uri []] False None),
      (''MUCYORA_ENGINE_SERVICE_KEY'', Text_Setting [At_Least 32, At_Most 512] False None),
      (''MUCYORA_ENGINE_TIMEOUT_MS'', Number_Setting 1000 90000 45000),
      (''MUCYORA_ENGINE_MAX_CONCURRENCY'', Number_Setting 1 32 4),
      (''STEP_UP_POLICY_VERSION'', Text_Setting [Of_Chars ''._:-'' 8 64] False None),
      (''STEP_UP_CHALLENGE_TTL_SECONDS'', Number_Setting 300 1800 600),
      (''STEP_UP_ASSERTION_TTL_SECONDS'', Number_Setting 60 600 300),
      (''MUCYORA_USER_SERVICE_KEY'', Text_Setting [At_Least 32, At_Most 512] False None),
      (''MUCYORA_SIGNATURE_SERVICE_KEY'', Text_Setting [At_Least 32, At_Most 512] False None),
      (''MUCYORA_AUTH_RECOVERY_SERVICE_KEY'', Text_Setting [At_Least 32, At_Most 512] False None),
      (''MUCYORA_OPERATIONS_SERVICE_KEY'', Text_Setting [At_Least 32, At_Most 512] False None),
      (''OPERATIONAL_JOBS_ENABLED'', Flag_Setting False),
      (''OPERATIONAL_JOBS_INTERVAL_MS'', Number_Setting 10000 3600000 300000),
      (''OPERATIONAL_JOB_BATCH_SIZE'', Number_Setting 1 500 50),
      (''OPERATIONAL_JOB_LOCK_TTL_SECONDS'', Number_Setting 30 900 240),
      (''TOKEN_RETENTION_DAYS'', Number_Setting 0 90 7),
      (''SESSION_RETENTION_DAYS'', Number_Setting 1 365 30),
      (''SECURITY_EVENT_RETENTION_DAYS'', Number_Setting 30 3650 365),
      (''STALE_VERIFICATION_ATTEMPT_HOURS'', Number_Setting 1 168 24),
      (''MEDIA_DELETE_RETRY_BASE_SECONDS'', Number_Setting 5 300 60),
      (''MEDIA_DELETE_RETRY_MAX_SECONDS'', Number_Setting 60 86400 3600),
      (''VERIFICATION_ORPHAN_GRACE_SECONDS'', Number_Setting 300 86400 900)]"


definition environmentSchema :: "(string \<times> setting) list" where
  "environmentSchema = service_settings @ delivery_settings @ verification_settings"

type_synonym environment = "(string \<times> setting_value) list"

text \<open>\<open>environmentSchema.validate(values, ...)\<close>: every value converted, or a validation error.\<close>

fun read_settings :: "env \<Rightarrow> config_platform \<Rightarrow> (string \<Rightarrow> string option) \<Rightarrow> (string \<times> setting) list \<Rightarrow> environment option" where
  "read_settings E P values [] = Some []"
| "read_settings E P values ((k, s) # ss) =
     (case (read_setting E P s (values k), read_settings E P values ss) of
        (Some v, Some e) \<Rightarrow> Some ((k, v) # e)
      | _ \<Rightarrow> None)"

definition num_of :: "environment \<Rightarrow> string \<Rightarrow> int" where
  "num_of e k = (case map_of e k of Some (Num_Value n) \<Rightarrow> n | _ \<Rightarrow> 0)"

definition flag_of :: "environment \<Rightarrow> string \<Rightarrow> bool" where
  "flag_of e k = (case map_of e k of Some (Flag_Value b) \<Rightarrow> b | _ \<Rightarrow> False)"

definition text_of :: "environment \<Rightarrow> string \<Rightarrow> string" where
  "text_of e k = (case map_of e k of Some (Text_Value s) \<Rightarrow> s | _ \<Rightarrow> [])"

definition production :: "environment \<Rightarrow> bool" where
  "production e \<longleftrightarrow> text_of e ''APP_ENV'' = ''production''"

subsection \<open>Checks that span settings\<close>

text \<open>A check that throws, and a sequence of them: the first error.\<close>

definition reject_if :: "bool \<Rightarrow> string \<Rightarrow> unit result" where
  "reject_if b message = (if b then Inl (Raised message) else Inr ())"

fun all_checks :: "unit result list \<Rightarrow> unit result" where
  "all_checks [] = Inr ()"
| "all_checks (c # cs) = (case c of Inl e \<Rightarrow> Inl e | Inr _ \<Rightarrow> all_checks cs)"

text \<open>\<open>new URL(value)\<close> and a check of it.\<close>

definition with_url :: "config_platform \<Rightarrow> string \<Rightarrow> (url \<Rightarrow> unit result) \<Rightarrow> unit result" where
  "with_url P v check = (case cpl_url P v of None \<Rightarrow> Inl (Raised ''Invalid URL'') | Some u \<Rightarrow> check u)"

definition local_host :: "url \<Rightarrow> bool" where
  "local_host u \<longleftrightarrow> url_hostname u \<in> set [''localhost'', ''127.0.0.1'', ''::1'']"

definition web_url :: "url \<Rightarrow> bool" where
  "web_url u \<longleftrightarrow> url_protocol u \<in> set [''https:'', ''http:'']"

definition plain_url :: "url \<Rightarrow> bool" where
  "plain_url u \<longleftrightarrow> url_username u = [] \<and> url_password u = [] \<and> url_search u = [] \<and> url_hash u = []"

definition isHttpOrigin :: "config_platform \<Rightarrow> string \<Rightarrow> bool" where
  "isHttpOrigin P v = (case cpl_url P v of
     None \<Rightarrow> False | Some u \<Rightarrow> web_url u \<and> url_origin u = v)"

fun first_occurrences :: "string list \<Rightarrow> string list" where
  "first_occurrences [] = []"
| "first_occurrences (s # ss) = s # filter (\<lambda>t. t \<noteq> s) (first_occurrences ss)"

definition parseAllowedOrigins :: "config_platform \<Rightarrow> string \<Rightarrow> string list result" where
  "parseAllowedOrigins P v =
     (let origins = filter (\<lambda>s. s \<noteq> []) (map trim (split_on (CHR '','') v))
      in if list_ex (\<lambda>s. s = ''*'' \<or> \<not> isHttpOrigin P s) origins
         then Inl (Raised ''Auth environment validation failed: invalid CORS origin'')
         else Inr (first_occurrences origins))"

definition assertRuntimeDatabaseRole :: "config_platform \<Rightarrow> string \<Rightarrow> unit result" where
  "assertRuntimeDatabaseRole P databaseUrl = with_url P databaseUrl (\<lambda>u.
     (case cpl_decode_component P (url_username u) of
        None \<Rightarrow> Inl (Raised ''URI malformed'')
      | Some name \<Rightarrow> reject_if (name \<noteq> ''mucyora_auth_app'')
          ''Auth environment validation failed: production DATABASE_URL must use the mucyora_auth_app runtime role''))"

definition encoded_keys :: "environment \<Rightarrow> string list" where
  "encoded_keys e = map (text_of e) [''IDENTITY_ENCRYPTION_SECRET'', ''IDENTITY_LOOKUP_HMAC_KEY'',
     ''TOKEN_DIGEST_HMAC_KEY'', ''REQUEST_CONTEXT_HMAC_KEY'']"

definition assertEncodedKeys :: "environment \<Rightarrow> unit result" where
  "assertEncodedKeys e =
     all_checks
       (map (\<lambda>v. if \<not> key_syntax v
            then Inl (Raised ''Auth environment validation failed: key must be base64url encoded'')
            else reject_if (length (b64_decode v) < 32)
              ''Auth environment validation failed: key must decode to at least 32 bytes'') (encoded_keys e)
        @ [reject_if (\<not> distinct (map (\<lambda>v. b64_decode v) (encoded_keys e)))
             ''Auth environment validation failed: keys must differ''])"

definition assertCitizenProviderUrl :: "config_platform \<Rightarrow> environment \<Rightarrow> unit result" where
  "assertCitizenProviderUrl P e = with_url P (text_of e ''CITIZEN_API_URL'') (\<lambda>u. all_checks
     [reject_if (\<not> plain_url u \<or> \<not> web_url u)
        ''CITIZEN_API_URL must be a fixed HTTP(S) URL without credentials, query, or fragment'',
      reject_if (production e \<and> url_protocol u \<noteq> ''https:'') ''production CITIZEN_API_URL must use HTTPS'',
      reject_if (url_protocol u = ''http:'' \<and> \<not> local_host u)
        ''insecure CITIZEN_API_URL is allowed only for a local test provider''])"

definition assertRedisUrl :: "config_platform \<Rightarrow> environment \<Rightarrow> unit result" where
  "assertRedisUrl P e = with_url P (text_of e ''REDIS_URL'') (\<lambda>u. all_checks
     [reject_if (url_hash u \<noteq> [] \<or> url_search u \<noteq> []) ''REDIS_URL must not contain query or fragment data'',
      reject_if (production e \<and> url_protocol u \<noteq> ''rediss:'') ''production REDIS_URL must use TLS''])"

definition assertMailConfiguration :: "config_platform \<Rightarrow> environment \<Rightarrow> unit result" where
  "assertMailConfiguration P e = all_checks
     [with_url P (text_of e ''MUCYORA_USER_APP_URL'') (\<lambda>u.
        reject_if (\<not> web_url u \<or> \<not> plain_url u \<or> (production e \<and> url_protocol u \<noteq> ''https:''))
          ''MUCYORA_USER_APP_URL must be a fixed HTTPS origin in production''),
      if \<not> flag_of e ''MAIL_OUTBOX_WORKER_ENABLED'' then Inr ()
      else all_checks
       [reject_if (text_of e ''MAIL_PROVIDER_URL'' = [] \<or> text_of e ''MAIL_FROM'' = []
            \<or> length (text_of e ''MAIL_API_KEY'') < 16)
          ''enabled mail worker requires MAIL_PROVIDER_URL, MAIL_FROM, and a MAIL_API_KEY of at least 16 characters'',
        with_url P (text_of e ''MAIL_PROVIDER_URL'') (\<lambda>u. all_checks
         [reject_if (\<not> plain_url u \<or> \<not> web_url u)
            ''MAIL_PROVIDER_URL must be a fixed HTTP(S) URL without credentials, query, or fragment'',
          reject_if (production e \<and> url_protocol u \<noteq> ''https:'') ''production MAIL_PROVIDER_URL must use HTTPS'',
          reject_if (url_protocol u = ''http:'' \<and> \<not> local_host u)
            ''insecure MAIL_PROVIDER_URL is allowed only for a local test provider''])]]"

text \<open>The \<open>try\<close> block of \<open>assertAuthSigningConfiguration\<close>: whether it ends without an exception.\<close>

definition signing_keys_valid :: "env \<Rightarrow> config_platform \<Rightarrow> environment \<Rightarrow> bool" where
  "signing_keys_valid E P e \<longleftrightarrow>
     rsa_public_key E (text_of e ''MUCYORA_AUTH_SIGNING_PUBLIC_KEY'') = Some True
     \<and> (if text_of e ''MUCYORA_AUTH_SIGNING_PROVIDER'' = ''SOFTWARE_PEM''
        then cpl_private_rsa P (text_of e ''MUCYORA_AUTH_SIGNING_PRIVATE_KEY'') = Some True
          \<and> cpl_key_pair P (text_of e ''MUCYORA_AUTH_SIGNING_PRIVATE_KEY'') (text_of e ''MUCYORA_AUTH_SIGNING_PUBLIC_KEY'')
        else text_of e ''MUCYORA_AUTH_KMS_KEY_ID'' \<noteq> [])
     \<and> filter (\<lambda>s. s \<noteq> []) (map trim (split_on (CHR '','') (text_of e ''MUCYORA_AUTH_ACCESS_AUDIENCES''))) \<noteq> []
     \<and> succeeded (parsePreviousSigningKeys E (text_of e ''MUCYORA_AUTH_PREVIOUS_SIGNING_PUBLIC_KEYS_JSON'')
          (text_of e ''MUCYORA_AUTH_SIGNING_KEY_ID''))"

definition assertAuthSigningConfiguration :: "env \<Rightarrow> config_platform \<Rightarrow> environment \<Rightarrow> unit result" where
  "assertAuthSigningConfiguration E P e = all_checks
     [reject_if (\<not> signing_keys_valid E P e) ''Auth signing keys must be valid RSA PEM keys'',
      reject_if (text_of e ''COOKIE_SAME_SITE'' = ''none'' \<and> \<not> flag_of e ''COOKIE_SECURE'')
        ''COOKIE_SAME_SITE=none requires COOKIE_SECURE=true'',
      reject_if (production e \<and> \<not> flag_of e ''COOKIE_SECURE'')
        ''production authentication cookies must be secure'']"

definition internal_service_keys :: "environment \<Rightarrow> string list" where
  "internal_service_keys e = map (text_of e) [''MUCYORA_USER_SERVICE_KEY'', ''MUCYORA_SIGNATURE_SERVICE_KEY'',
     ''MUCYORA_AUTH_RECOVERY_SERVICE_KEY'', ''MUCYORA_OPERATIONS_SERVICE_KEY'']"

definition assertVerificationConfiguration :: "config_platform \<Rightarrow> environment \<Rightarrow> unit result" where
  "assertVerificationConfiguration P e =
     (let fixed = (\<lambda>u. plain_url u \<and> (production e \<longrightarrow> url_protocol u = ''https:''));
          engineKey = text_of e ''MUCYORA_ENGINE_SERVICE_KEY''; internal = internal_service_keys e
      in with_url P (text_of e ''MUCYORA_ENGINE_URL'') (\<lambda>engine. all_checks
       [if text_of e ''AWS_S3_ENDPOINT'' = [] then Inr ()
        else with_url P (text_of e ''AWS_S3_ENDPOINT'') (\<lambda>_. Inr ()),
        reject_if (\<not> fixed engine) ''MUCYORA_ENGINE_URL must be a fixed HTTPS origin in production'',
        if text_of e ''AWS_S3_ENDPOINT'' = [] then Inr ()
        else with_url P (text_of e ''AWS_S3_ENDPOINT'') (\<lambda>storage. reject_if (\<not> fixed storage)
          ''AWS_S3_ENDPOINT must use HTTPS without embedded credentials in production''),
        reject_if (engineKey \<in> set (encoded_keys e))
          ''MUCYORA_ENGINE_SERVICE_KEY must differ from all other security keys'',
        reject_if (list_ex (\<lambda>k. k \<in> set (encoded_keys e)) internal \<or> engineKey \<in> set internal \<or> \<not> distinct internal)
          ''internal service keys must be purpose-separated'']))"

definition assertAdvancedSecurityConfiguration :: "config_platform \<Rightarrow> environment \<Rightarrow> unit result" where
  "assertAdvancedSecurityConfiguration P e =
     (let origins = map (\<lambda>s. cpl_url P (trim s)) (split_on (CHR '','') (text_of e ''PASSKEY_ALLOWED_ORIGINS''))
      in all_checks
       [reject_if (None \<in> set origins) ''Invalid URL'',
        reject_if (production e \<and> (text_of e ''PASSKEY_RP_ID'' = ''localhost''
            \<or> list_ex (\<lambda>u. map_option url_protocol u \<noteq> Some ''https:'') origins))
          ''production passkeys require a non-local RP ID and HTTPS origins'',
        if flag_of e ''COMPROMISED_PASSWORD_CHECK_ENABLED''
        then with_url P (text_of e ''COMPROMISED_PASSWORD_API_URL'') (\<lambda>u.
          reject_if (url_protocol u \<noteq> ''https:'') ''compromised-password screening requires HTTPS'')
        else Inr (),
        if production e \<and> flag_of e ''OTEL_ENABLED''
        then (if text_of e ''OTEL_EXPORTER_OTLP_ENDPOINT'' = []
          then Inl (Raised ''production telemetry requires an HTTPS OTLP endpoint'')
          else with_url P (text_of e ''OTEL_EXPORTER_OTLP_ENDPOINT'') (\<lambda>u.
            reject_if (url_protocol u \<noteq> ''https:'') ''production telemetry requires an HTTPS OTLP endpoint''))
        else Inr ()])"

definition config_checks :: "env \<Rightarrow> config_platform \<Rightarrow> environment \<Rightarrow> unit result list" where
  "config_checks E P e =
     [case parseAllowedOrigins P (text_of e ''CORS_ALLOWED_ORIGINS'') of
        Inl x \<Rightarrow> Inl x
      | Inr origins \<Rightarrow> reject_if (origins = []) ''CORS_ALLOWED_ORIGINS must contain at least one origin'',
      reject_if (production e \<and> flag_of e ''ENABLE_SWAGGER''
          \<and> (text_of e ''DOCS_BASIC_AUTH_USER'' = [] \<or> length (text_of e ''DOCS_BASIC_AUTH_PASS'') < 16))
        ''protected production Swagger requires a username and a password of at least 16 characters'',
      if production e then assertRuntimeDatabaseRole P (text_of e ''DATABASE_URL'') else Inr (),
      reject_if (production e \<and> \<not> flag_of e ''READINESS_REDIS_REQUIRED'') ''production readiness must require Redis'',
      assertEncodedKeys e, assertCitizenProviderUrl P e, assertRedisUrl P e, assertMailConfiguration P e,
      assertAuthSigningConfiguration E P e, assertVerificationConfiguration P e,
      assertAdvancedSecurityConfiguration P e]"

definition validateEnvironment :: "env \<Rightarrow> config_platform \<Rightarrow> (string \<Rightarrow> string option) \<Rightarrow> environment result" where
  "validateEnvironment E P values =
     (case read_settings E P values environmentSchema of
        None \<Rightarrow> Inl (Raised ''Auth environment validation failed'')
      | Some e \<Rightarrow> (case all_checks (config_checks E P e) of Inl x \<Rightarrow> Inl x | Inr _ \<Rightarrow> Inr e))"

subsection \<open>What a validated environment guarantees\<close>

lemma reject_if_InrD [simp]: "reject_if b m = Inr () \<longleftrightarrow> \<not> b"
  by (simp add: reject_if_def)

lemma all_checks_Inr: "all_checks cs = Inr () \<longleftrightarrow> (\<forall>c \<in> set cs. c = Inr ())"
  by (induction cs) (auto split: sum.splits)

declare all_checks.simps [simp del]

lemma with_url_Inr: "with_url P v check = Inr () \<longleftrightarrow> (\<exists>u. cpl_url P v = Some u \<and> check u = Inr ())"
  by (auto simp: with_url_def split: option.splits)

lemma validateEnvironment_InrD:
  assumes "validateEnvironment E P values = Inr e"
  shows "read_settings E P values environmentSchema = Some e" and "c \<in> set (config_checks E P e) \<Longrightarrow> c = Inr ()"
  using assms all_checks_Inr [of "config_checks E P e"]
  by (auto simp: validateEnvironment_def split: option.split_asm sum.split_asm)

lemma read_settings_map_of:
  assumes "read_settings E P values ss = Some e"
  shows "map_of e k = (case map_of ss k of None \<Rightarrow> None | Some s \<Rightarrow> read_setting E P s (values k))"
    and "map_of ss k = Some s \<Longrightarrow> read_setting E P s (values k) \<noteq> None"
  using assms
  by (induction ss arbitrary: e) (auto split: option.split_asm if_splits option.splits prod.splits)

text \<open>The defaults are within their own bounds.\<close>

definition default_ok :: "setting \<Rightarrow> bool" where
  "default_ok s = (case s of Number_Setting lo hi dflt \<Rightarrow> lo \<le> dflt \<and> dflt \<le> hi | _ \<Rightarrow> True)"

lemma schema_defaults: "list_all (\<lambda>(k, s). default_ok s) environmentSchema"
  by (simp add: environmentSchema_def service_settings_def delivery_settings_def verification_settings_def
      default_ok_def)

lemma validated_number:
  assumes "validateEnvironment E P values = Inr e" and "map_of environmentSchema k = Some (Number_Setting lo hi dflt)"
  shows "lo \<le> num_of e k \<and> num_of e k \<le> hi"
proof -
  note r = validateEnvironment_InrD(1) [OF assms(1)]
  obtain v where v: "read_setting E P (Number_Setting lo hi dflt) (values k) = Some v"
    using read_settings_map_of(2) [OF r assms(2)] by blast
  have "default_ok (Number_Setting lo hi dflt)"
    using schema_defaults map_of_SomeD [OF assms(2)] by (auto simp: list_all_iff)
  then have "\<exists>n. v = Num_Value n \<and> lo \<le> n \<and> n \<le> hi"
    using v by (cases "values k") (auto simp: default_ok_def split: option.split_asm if_split_asm)
  moreover have "map_of e k = Some v" using read_settings_map_of(1) [OF r, of k] assms(2) v by simp
  ultimately show ?thesis by (auto simp: num_of_def)
qed

text \<open>
  The configuration a request reads (\<open>ConfigService.get\<close>) is the validated environment.
\<close>

definition configured :: "env \<Rightarrow> environment \<Rightarrow> bool" where
  "configured E e \<longleftrightarrow> cfg_num E = (\<lambda>k. nat (num_of e k)) \<and> cfg_flag E = flag_of e \<and> cfg_str E = text_of e"

lemma set_first_occurrences [simp]: "set (first_occurrences ss) = set ss"
  by (induction ss) auto

lemma distinct_first_occurrences: "distinct (first_occurrences ss)"
  by (induction ss) auto

lemma parseAllowedOrigins_InrD:
  assumes "parseAllowedOrigins P v = Inr origins" and "x \<in> set origins"
  shows "x \<noteq> ''*''" and "\<exists>u. cpl_url P x = Some u \<and> web_url u \<and> url_origin u = x"
proof -
  have "x \<noteq> ''*'' \<and> isHttpOrigin P x"
    using assms by (auto simp: parseAllowedOrigins_def Let_def list_ex_iff simp del: set_map split: if_split_asm)
  then show "x \<noteq> ''*''" and "\<exists>u. cpl_url P x = Some u \<and> web_url u \<and> url_origin u = x"
    by (auto simp: isHttpOrigin_def split: option.split_asm)
qed

text \<open>What production adds.\<close>

lemma validated_production:
  assumes "validateEnvironment E P values = Inr e" and "production e"
  shows "flag_of e ''COOKIE_SECURE''" and "flag_of e ''READINESS_REDIS_REQUIRED''"
    and "k \<in> {''MUCYORA_ENGINE_URL'', ''CITIZEN_API_URL'', ''MUCYORA_USER_APP_URL''} \<Longrightarrow>
      \<exists>u. cpl_url P (text_of e k) = Some u \<and> url_protocol u = ''https:'' \<and> plain_url u"
    and "\<exists>u. cpl_url P (text_of e ''REDIS_URL'') = Some u \<and> url_protocol u = ''rediss:''"
    and "\<exists>u. cpl_url P (text_of e ''DATABASE_URL'') = Some u
      \<and> cpl_decode_component P (url_username u) = Some ''mucyora_auth_app''"
    and "text_of e ''PASSKEY_RP_ID'' \<noteq> ''localhost''"
proof -
  note c = validateEnvironment_InrD(2) [OF assms(1), unfolded config_checks_def]
  have sign: "assertAuthSigningConfiguration E P e = Inr ()" and ver: "assertVerificationConfiguration P e = Inr ()"
    and red: "assertRedisUrl P e = Inr ()" and mail: "assertMailConfiguration P e = Inr ()"
    and cit: "assertCitizenProviderUrl P e = Inr ()" and adv: "assertAdvancedSecurityConfiguration P e = Inr ()"
    by (rule c; simp)+
  have "(if production e then assertRuntimeDatabaseRole P (text_of e ''DATABASE_URL'') else Inr ()) = Inr ()"
    by (rule c) simp
  then show "\<exists>u. cpl_url P (text_of e ''DATABASE_URL'') = Some u
      \<and> cpl_decode_component P (url_username u) = Some ''mucyora_auth_app''"
    using assms(2) by (auto simp: assertRuntimeDatabaseRole_def with_url_Inr split: option.split_asm)
  have "reject_if (production e \<and> \<not> flag_of e ''READINESS_REDIS_REQUIRED'') ''production readiness must require Redis'' = Inr ()"
    by (rule c) simp
  then show "flag_of e ''READINESS_REDIS_REQUIRED''" using assms(2) by simp
  show "flag_of e ''COOKIE_SECURE''"
    using sign assms(2) by (simp add: assertAuthSigningConfiguration_def all_checks_Inr)
  show "\<exists>u. cpl_url P (text_of e ''REDIS_URL'') = Some u \<and> url_protocol u = ''rediss:''"
    using red assms(2) by (auto simp: assertRedisUrl_def with_url_Inr all_checks_Inr)
  show "text_of e ''PASSKEY_RP_ID'' \<noteq> ''localhost''"
    using adv assms(2) by (simp add: assertAdvancedSecurityConfiguration_def Let_def all_checks_Inr)
  have "\<exists>u. cpl_url P (text_of e ''MUCYORA_ENGINE_URL'') = Some u \<and> url_protocol u = ''https:'' \<and> plain_url u"
    using ver assms(2) by (auto simp: assertVerificationConfiguration_def Let_def with_url_Inr all_checks_Inr)
  moreover have "\<exists>u. cpl_url P (text_of e ''CITIZEN_API_URL'') = Some u \<and> url_protocol u = ''https:'' \<and> plain_url u"
    using cit assms(2) by (auto simp: assertCitizenProviderUrl_def with_url_Inr all_checks_Inr)
  moreover have "\<exists>u. cpl_url P (text_of e ''MUCYORA_USER_APP_URL'') = Some u \<and> url_protocol u = ''https:'' \<and> plain_url u"
    using mail assms(2) by (auto simp: assertMailConfiguration_def with_url_Inr all_checks_Inr)
  ultimately show "k \<in> {''MUCYORA_ENGINE_URL'', ''CITIZEN_API_URL'', ''MUCYORA_USER_APP_URL''} \<Longrightarrow>
      \<exists>u. cpl_url P (text_of e k) = Some u \<and> url_protocol u = ''https:'' \<and> plain_url u" by blast
qed

lemma validated_separate_keys:
  assumes "validateEnvironment E P values = Inr e"
  shows "distinct (text_of e ''MUCYORA_ENGINE_SERVICE_KEY'' # encoded_keys e @ internal_service_keys e)"
proof -
  have keys: "assertEncodedKeys e = Inr ()" and ver: "assertVerificationConfiguration P e = Inr ()"
    using validateEnvironment_InrD(2) [OF assms] by (simp_all add: config_checks_def)
  have "distinct (map (\<lambda>v. b64_decode v) (encoded_keys e))"
    using keys by (simp add: assertEncodedKeys_def all_checks_Inr)
  then have "distinct (encoded_keys e)" by (simp add: distinct_map)
  moreover have "text_of e ''MUCYORA_ENGINE_SERVICE_KEY'' \<notin> set (encoded_keys e)"
    "\<not> list_ex (\<lambda>k. k \<in> set (encoded_keys e)) (internal_service_keys e)"
    "text_of e ''MUCYORA_ENGINE_SERVICE_KEY'' \<notin> set (internal_service_keys e)" "distinct (internal_service_keys e)"
    using ver by (auto simp: assertVerificationConfiguration_def Let_def with_url_Inr all_checks_Inr)
  ultimately show ?thesis by (auto simp: list_ex_iff)
qed

end
