(* ===== verification/Edge.thy ===== *)
theory Edge
  imports Configuration Engine
begin

text \<open>
  The edge of the service: correlation identifiers, the normalised route of the telemetry, log
  redaction, the error envelope of the global filter, the origins of CORS, the guard of the API
  documentation, and the health checks.
\<close>

subsection \<open>Correlation identifiers and routes\<close>

definition isSafeCorrelationId :: "string \<Rightarrow> bool" where
  "isSafeCorrelationId v \<longleftrightarrow> length v \<le> 128 \<and> v \<noteq> [] \<and> list_all (\<lambda>c. is_alnum c \<or> c \<in> set ''._:-'') v"

text \<open>\<open>CorrelationIdMiddleware.use\<close>: the identifier of the request and of the response header.\<close>

definition correlation_id :: "env \<Rightarrow> string option \<Rightarrow> string" where
  "correlation_id E header = (case header of
     None \<Rightarrow> uuid E 0
   | Some h \<Rightarrow> (let suppliedId = trim h
       in if suppliedId \<noteq> [] \<and> isSafeCorrelationId suppliedId then suppliedId else uuid E 0))"

definition uuid_segment :: "string \<Rightarrow> bool" where
  "uuid_segment s = (case split_on (CHR ''-'') s of
     [a, b, c, e, f] \<Rightarrow> map length [a, b, c, e, f] = [8, 4, 4, 4, 12]
        \<and> list_all is_hex (a @ b @ c @ e @ f)
        \<and> hd c \<in> set ''12345'' \<and> hd e \<in> set ''89abAB''
   | _ \<Rightarrow> False)"

definition long_segment :: "string \<Rightarrow> bool" where
  "long_segment s \<longleftrightarrow> 24 \<le> length s \<and> list_all (\<lambda>c. is_alnum c \<or> c \<in> set ''._:-'') s"

text \<open>\<open>normalizedRoute\<close>: both patterns match whole segments, that is from a slash to the next or the end.\<close>

definition normalized_segment :: "string \<Rightarrow> string" where
  "normalized_segment s = (if uuid_segment s then '':id'' else if long_segment s then '':value'' else s)"

definition normalizedRoute :: "string \<Rightarrow> string" where
  "normalizedRoute path = (case split_on (CHR ''/'') path of
     [] \<Rightarrow> path
   | s # ss \<Rightarrow> s @ concat (map (\<lambda>t. CHR ''/'' # normalized_segment t) ss))"

subsection \<open>Log redaction\<close>

definition redacted_words :: "string list" where
  "redacted_words = [''password'', ''token'', ''secret'', ''authorization'', ''database_url'']"

text \<open>\<open>database.?url\<close>: at most one character between the words.\<close>

definition sensitive_words :: "string list" where
  "sensitive_words = [''password'', ''token'', ''secret'', ''authorization'', ''cookie'', ''nid'', ''biometric'']"

fun database_url_at :: "string \<Rightarrow> bool" where
  "database_url_at s = (prefix ''databaseurl'' s
     \<or> (prefix ''database'' s \<and> (case drop 8 s of [] \<Rightarrow> False | c # cs \<Rightarrow> code_of c \<noteq> 10 \<and> prefix ''url'' cs)))"

definition isSensitiveKey :: "string \<Rightarrow> bool" where
  "isSensitiveKey key = (let k = ascii_lower key
     in list_ex (str_includes k) sensitive_words \<or> list_ex database_url_at (suffixes k))"

text \<open>
  \<open>/(password|token|...)([=:])([^&\s]+)/gi\<close> at the start of a text: the length of the word, and of the
  value behind the separator.
\<close>

definition value_char :: "char \<Rightarrow> bool" where
  "value_char c \<longleftrightarrow> c \<noteq> CHR ''&'' \<and> \<not> is_space c"

definition redaction_at :: "string \<Rightarrow> (nat \<times> nat) option" where
  "redaction_at s = (case filter (\<lambda>w. prefix w (ascii_lower s)) redacted_words of
     [] \<Rightarrow> None
   | w # _ \<Rightarrow> (case drop (length w) s of
       [] \<Rightarrow> None
     | c # cs \<Rightarrow>
         (let n = length (takeWhile value_char cs)
          in if c \<in> set ''=:'' \<and> 0 < n then Some (length w, n) else None)))"

function redact_text :: "string \<Rightarrow> string" where
  "redact_text s = (case s of [] \<Rightarrow> []
     | c # cs \<Rightarrow> (case redaction_at s of
         None \<Rightarrow> c # redact_text cs
       | Some (w, n) \<Rightarrow> take w s @ ''=[REDACTED]'' @ redact_text (drop (w + 1 + n) s)))"
  by pat_completeness auto

termination by (relation "measure length") auto

declare redact_text.simps [simp del]

text \<open>\<open>sanitizeLogValue\<close> on JSON-like values; an \<open>Error\<close> is logged by its name alone.\<close>

fun sanitizeLogValue :: "json \<Rightarrow> json" where
  "sanitizeLogValue (JStr s) = JStr (redact_text s)"
| "sanitizeLogValue (JArr js) = JArr (map sanitizeLogValue js)"
| "sanitizeLogValue (JObj fs) = JObj (map (\<lambda>(k, v).
     (k, if isSensitiveKey k then JStr ''[REDACTED]'' else sanitizeLogValue v)) fs)"
| "sanitizeLogValue j = j"

datatype log_message = Log_Error string | Log_Value json

definition sanitize_message :: "log_message \<Rightarrow> json" where
  "sanitize_message m = (case m of
     Log_Error name \<Rightarrow> JObj [(''name'', JStr name)] | Log_Value v \<Rightarrow> sanitizeLogValue v)"

definition log_levels :: "string list" where
  "log_levels = [''error'', ''warn'', ''log'', ''debug'', ''verbose'']"

text \<open>\<open>order.slice(0, order.indexOf(level) + 1)\<close>; \<open>indexOf\<close> is \<open>-1\<close> for an unknown level.\<close>

definition resolveLogLevels :: "string \<Rightarrow> string list" where
  "resolveLogLevels level =
     (if level \<in> set log_levels then takeWhile (\<lambda>l. l \<noteq> level) log_levels @ [level] else [])"

definition formatMessage :: "env \<Rightarrow> string \<Rightarrow> log_message \<Rightarrow> string \<Rightarrow> string" where
  "formatMessage E logLevel message contextMessage =
     stringify E (JObj ([(''timestamp'', JStr (toISOString (clock E 0))), (''level'', JStr logLevel),
         (''service'', JStr ''mucyora-auth'')]
       @ (if trim contextMessage = [] then [] else [(''context'', JStr (trim contextMessage))])
       @ [(''message'', sanitize_message message)])) @ [newline]"

subsection \<open>The error envelope\<close>

text \<open>\<open>exception.getResponse()\<close> of an \<open>HttpException\<close>: a text or an object.\<close>

datatype http_body = Body_Text string | Body_Object "(string \<times> json) list"

datatype thrown = Http_Exception nat http_body | Other_Exception

record error_response =
  err_statusCode :: nat
  err_message :: "string list"
  err_single :: bool
  err_error :: "string option"
  err_code :: "string option"
  err_path :: string
  err_timestamp :: string
  err_correlationId :: string

definition thrown_status :: "thrown \<Rightarrow> nat" where
  "thrown_status x = (case x of Http_Exception n b \<Rightarrow> n | Other_Exception \<Rightarrow> 500)"

text \<open>The message of an envelope: one text, or a list of texts.\<close>

fun json_text :: "json \<Rightarrow> string option" where
  "json_text (JStr s) = Some s"
| "json_text _ = None"

definition normalizeMessage :: "json option \<Rightarrow> string list \<times> bool" where
  "normalizeMessage v = (case v of
     Some (JStr s) \<Rightarrow> ([s], True)
   | Some (JArr js) \<Rightarrow>
       if list_all (\<lambda>j. json_text j \<noteq> None) js then (map (\<lambda>j. the (json_text j)) js, False)
       else ([''Request failed.''], True)
   | _ \<Rightarrow> ([''Request failed.''], True))"

definition public_code :: "json option \<Rightarrow> string option" where
  "public_code v = (case v of
     Some (JStr s) \<Rightarrow>
       (case s of
          [] \<Rightarrow> None
        | c # cs \<Rightarrow>
            if is_upper c \<and> 2 \<le> length cs \<and> length cs \<le> 63
               \<and> list_all (\<lambda>x. is_upper x \<or> is_digit x \<or> x = CHR ''_'') cs
            then Some s else None)
   | _ \<Rightarrow> None)"

definition buildResponse :: "env \<Rightarrow> thrown \<Rightarrow> string \<Rightarrow> string \<Rightarrow> error_response" where
  "buildResponse E x path correlationId =
     (let base = \<lparr>err_statusCode = thrown_status x, err_message = [''Request failed.''], err_single = True,
            err_error = None, err_code = None, err_path = path, err_timestamp = toISOString (clock E 0),
            err_correlationId = correlationId\<rparr>
      in (case x of
            Other_Exception \<Rightarrow> base\<lparr>err_message := [''An unexpected error occurred.''],
              err_error := Some ''Internal Server Error''\<rparr>
          | Http_Exception n b \<Rightarrow> (case b of
              Body_Text s \<Rightarrow> base\<lparr>err_message := [s]\<rparr>
            | Body_Object fs \<Rightarrow>
                (case normalizeMessage (map_of fs ''message'') of (m, single) \<Rightarrow>
                  base\<lparr>err_message := m, err_single := single,
                    err_error := Option.bind (map_of fs ''error'') json_text,
                    err_code := public_code (map_of fs ''code'')\<rparr>))))"

subsection \<open>CORS and the documentation guard\<close>

text \<open>\<open>buildCorsOptions\<close>: whether the origin of a request is let through.\<close>

definition cors_allows :: "config_platform \<Rightarrow> string \<Rightarrow> string option \<Rightarrow> bool result" where
  "cors_allows P allowedOriginValue origin =
     (case parseAllowedOrigins P allowedOriginValue of
        Inl e \<Rightarrow> Inl e
      | Inr allowedOrigins \<Rightarrow>
          if \<not> (case origin of None \<Rightarrow> False | Some s \<Rightarrow> s \<noteq> []) \<or> the origin \<in> set allowedOrigins then Inr True
          else Inl (Raised ''Origin is not allowed by the Auth CORS policy''))"

text \<open>\<open>base64\<close> is \<open>Buffer.from(..., 'base64').toString('utf8')\<close>.\<close>

definition parseBasicCredentials :: "(string \<Rightarrow> string) \<Rightarrow> string option \<Rightarrow> (string \<times> string) option" where
  "parseBasicCredentials base64 authorization = (case authorization of
     None \<Rightarrow> None
   | Some h \<Rightarrow>
       if \<not> prefix ''Basic '' h then None
       else (let decoded = base64 (drop 6 h)
         in if CHR '':'' \<notin> set decoded then None
            else Some (takeWhile (\<lambda>c. c \<noteq> CHR '':'') decoded,
                       drop 1 (dropWhile (\<lambda>c. c \<noteq> CHR '':'') decoded))))"

definition docs_admitted :: "(string \<Rightarrow> string) \<Rightarrow> string \<Rightarrow> string \<Rightarrow> string option \<Rightarrow> bool" where
  "docs_admitted base64 expectedUsername expectedPassword authorization =
     (case parseBasicCredentials base64 authorization of
        None \<Rightarrow> False
      | Some (username, password) \<Rightarrow>
          constantTimeEqual username expectedUsername \<and> constantTimeEqual password expectedPassword)"

subsection \<open>Health\<close>

datatype redis_check = Check_up | Check_down | Check_disabled

record health_status =
  hth_ok :: bool
  hth_timestamp :: string
  hth_checks :: "(bool \<times> redis_check) option"

definition health_live :: "env \<Rightarrow> health_status" where
  "health_live E = \<lparr>hth_ok = True, hth_timestamp = toISOString (clock E 0), hth_checks = None\<rparr>"

definition checkRedis :: "redis \<Rightarrow> unit result \<times> redis" where
  "checkRedis r = (case ensureRedisConnected r of
     (Inl e, r1) \<Rightarrow> (Inl e, r1)
   | (Inr _, r1) \<Rightarrow> (if rds_online r1 then Inr () else Inl redis_unreachable, r1))"

text \<open>\<open>database_up\<close>: whether \<open>isReady\<close> resolves.\<close>

definition checkReadiness :: "env \<Rightarrow> bool \<Rightarrow> redis \<Rightarrow> health_status \<times> redis" where
  "checkReadiness E database_up r =
     (let (redis, r1) = (if cfg_flag E ''READINESS_REDIS_REQUIRED''
            then (case checkRedis r of (Inl e, r1) \<Rightarrow> (Check_down, r1) | (Inr _, r1) \<Rightarrow> (Check_up, r1))
            else (Check_disabled, r))
      in (\<lparr>hth_ok = (database_up \<and> redis \<noteq> Check_down), hth_timestamp = toISOString (clock E 1),
           hth_checks = Some (database_up, redis)\<rparr>, r1))"

text \<open>The cached readiness: until when it holds, and its value.\<close>

type_synonym readiness_cache = "(int \<times> health_status) option"

definition ready :: "env \<Rightarrow> bool \<Rightarrow> readiness_cache \<times> redis \<Rightarrow> health_status \<times> readiness_cache \<times> redis" where
  "ready E database_up s = (case s of (cache, r) \<Rightarrow>
     (let now = clock E 0; fresh = (case cache of Some (t, v) \<Rightarrow> now < t | None \<Rightarrow> False)
      in if fresh then (snd (the cache), cache, r)
         else (case checkReadiness E database_up r of (v, r1) \<Rightarrow>
           (v, Some (now + int (cfg_num E ''READINESS_CACHE_TTL_MS''), v), r1))))"

subsection \<open>What the edge shows\<close>

text \<open>Every member of an object, at any depth.\<close>

fun all_members :: "json \<Rightarrow> (string \<times> json) list" where
  "all_members (JObj fs) = fs @ concat (map (\<lambda>(k, v). all_members v) fs)"
| "all_members (JArr js) = concat (map all_members js)"
| "all_members j = []"

lemma sanitized_members:
  "(k, v) \<in> set (all_members (sanitizeLogValue j)) \<Longrightarrow> isSensitiveKey k \<Longrightarrow> v = JStr ''[REDACTED]''"
proof (induction j arbitrary: k v rule: sanitizeLogValue.induct)
  case (3 fs)
  from 3(2) consider "(k, v) \<in> (\<lambda>(k, v). (k, if isSensitiveKey k then JStr ''[REDACTED]'' else sanitizeLogValue v)) ` set fs"
    | k' v' where "(k', v') \<in> set fs" "\<not> isSensitiveKey k'" "(k, v) \<in> set (all_members (sanitizeLogValue v'))"
  proof -
    assume a: "(k, v) \<in> (\<lambda>(k, v). (k, if isSensitiveKey k then JStr ''[REDACTED]'' else sanitizeLogValue v)) ` set fs \<Longrightarrow> thesis"
      and b: "\<And>k' v'. (k', v') \<in> set fs \<Longrightarrow> \<not> isSensitiveKey k' \<Longrightarrow>
        (k, v) \<in> set (all_members (sanitizeLogValue v')) \<Longrightarrow> thesis"
    let ?gs = "map (\<lambda>(k, v). (k, if isSensitiveKey k then JStr ''[REDACTED]'' else sanitizeLogValue v)) fs"
    from 3(2) have "(k, v) \<in> set ?gs \<or> (\<exists>x \<in> set ?gs. (k, v) \<in> set (all_members (snd x)))"
      by (simp add: split_beta)
    then show thesis
    proof
      assume "(k, v) \<in> set ?gs"
      then show thesis by (intro a) (simp only: set_map)
    next
      assume "\<exists>x \<in> set ?gs. (k, v) \<in> set (all_members (snd x))"
      then obtain k' v' where "(k', v') \<in> set fs"
        "(k, v) \<in> set (all_members (if isSensitiveKey k' then JStr ''[REDACTED]'' else sanitizeLogValue v'))"
        by auto
      then show thesis by (intro b [of k' v']) (simp_all split: if_split_asm)
    qed
  qed
  then show ?case
  proof cases
    case 1
    with 3(3) show ?thesis by auto
  next
    case 2
    with 3(1) [OF 2(1) HOL.refl 2(2) 2(3) 3(3)] show ?thesis by simp
  qed
qed auto

lemma public_code_shape:
  "public_code v = Some s \<Longrightarrow> 3 \<le> length s \<and> length s \<le> 64 \<and> list_all (\<lambda>x. is_upper x \<or> is_digit x \<or> x = CHR ''_'') s"
  by (auto simp: public_code_def split: option.split_asm json.split_asm list.split_asm if_split_asm)

lemma buildResponse_cong:
  assumes "map_of fs ''message'' = map_of gs ''message''" and "map_of fs ''error'' = map_of gs ''error''"
    and "map_of fs ''code'' = map_of gs ''code''"
  shows "buildResponse E (Http_Exception n (Body_Object fs)) path c = buildResponse E (Http_Exception n (Body_Object gs)) path c"
  using assms by (simp add: buildResponse_def thrown_status_def)

lemma correlation_id_safe:
  "correlation_id E header = uuid E 0 \<or> isSafeCorrelationId (correlation_id E header)"
  by (auto simp: correlation_id_def Let_def split: option.split)

lemma cors_allows_listed:
  assumes "cors_allows P v (Some x) = Inr True" and "x \<noteq> []"
  shows "x \<noteq> ''*'' \<and> (\<exists>u. cpl_url P x = Some u \<and> web_url u \<and> url_origin u = x)"
proof -
  obtain origins where "parseAllowedOrigins P v = Inr origins" "x \<in> set origins"
    using assms by (auto simp: cors_allows_def split: sum.split_asm if_split_asm)
  then show ?thesis using parseAllowedOrigins_InrD by blast
qed

lemma ready_fresh:
  assumes "ready E up (Some (t, v), r) = (v', c, r')" and "clock E 0 < t"
  shows "v' = v \<and> c = Some (t, v) \<and> r' = r"
  using assms by (auto simp: ready_def)

end
