(* ===== verification/Delivery.thy ===== *)
theory Delivery
  imports Outbox "HOL-Library.Multiset"
begin

text \<open>
  The deliveries of a slice run together (\<open>Promise.all\<close> in \<open>mail-outbox.worker.ts\<close>): each is a claim, a
  request to the provider and a settlement, and those of different events come in any order.  Whatever the
  order, the slice does what \<open>dispatch_slice\<close> does one event after the other.
\<close>

subsection \<open>Deliveries in flight\<close>

datatype delivery = Waiting | Claimed | Sent "unit result" | Settled bool

type_synonym flight = "nat \<times> outbox_row \<times> delivery"

abbreviation flight_id :: "flight \<Rightarrow> string" where
  "flight_id f \<equiv> obx_id (fst (snd f))"

text \<open>The clock of the event number \<open>n\<close> of the batch.\<close>

definition event_env :: "env \<Rightarrow> nat \<Rightarrow> env" where
  "event_env E n = later (3 * n + 1) E"

lemma dispatch_slice_Cons:
  "dispatch_slice E p worker n (ev # evs) s =
     (case dispatchEvent (event_env E n) p worker ev s of (ok, s1) \<Rightarrow>
       (case dispatch_slice E p worker (Suc n) evs s1 of (k, s2) \<Rightarrow> ((if ok then Suc k else k), s2)))"
  by (auto simp: event_env_def split: prod.split)

text \<open>What \<open>dispatchEvent\<close> does up to its next \<open>await\<close>.\<close>

definition delivery_step ::
    "env \<Rightarrow> mail_platform \<Rightarrow> string \<Rightarrow> flight \<Rightarrow> db \<times> mailer \<Rightarrow> delivery \<times> db \<times> mailer" where
  "delivery_step E p worker f s = (case (f, s) of ((n, event, st), (d, ml)) \<Rightarrow>
     (case st of
        Waiting \<Rightarrow> (case claim_event (event_env E n) worker event d of (claimed, d1) \<Rightarrow>
          (if claimed then Claimed else Settled False, d1, ml))
      | Claimed \<Rightarrow> (case deliver (event_env E n) p event ml of (outcome, ml1) \<Rightarrow> (Sent outcome, d, ml1))
      | Sent outcome \<Rightarrow> (case settle_event (event_env E n) worker event outcome d of (ok, d1) \<Rightarrow> (Settled ok, d1, ml))
      | Settled ok \<Rightarrow> (Settled ok, d, ml)))"

definition slice_step ::
    "env \<Rightarrow> mail_platform \<Rightarrow> string \<Rightarrow> nat \<Rightarrow> flight list \<times> db \<times> mailer \<Rightarrow> flight list \<times> db \<times> mailer" where
  "slice_step E p worker i s = (case s of (fl, d, ml) \<Rightarrow>
     if i < length fl
     then (case delivery_step E p worker (fl ! i) (d, ml) of (st, d1, ml1) \<Rightarrow>
       (fl[i := (fst (fl ! i), fst (snd (fl ! i)), st)], d1, ml1))
     else s)"

definition start_slice :: "nat \<Rightarrow> outbox_row list \<Rightarrow> flight list" where
  "start_slice n evs = map (\<lambda>(i, ev). (i, ev, Waiting)) (zip [n..<n + length evs] evs)"

definition concurrent_slice ::
    "env \<Rightarrow> mail_platform \<Rightarrow> string \<Rightarrow> nat list \<Rightarrow> flight list \<times> db \<times> mailer \<Rightarrow> flight list \<times> db \<times> mailer" where
  "concurrent_slice E p worker schedule s = fold (slice_step E p worker) schedule s"

definition settled_flight :: "flight \<Rightarrow> bool" where
  "settled_flight f \<longleftrightarrow> (case snd (snd f) of Settled ok \<Rightarrow> True | _ \<Rightarrow> False)"

definition published_flight :: "flight \<Rightarrow> bool" where
  "published_flight f \<longleftrightarrow> snd (snd f) = Settled True"

subsection \<open>What a delivery has done so far\<close>

text \<open>Its requests depend on the provider alone, and its claim and its settlement on its own row.\<close>

definition outcome_of :: "env \<Rightarrow> mail_platform \<Rightarrow> mailer \<Rightarrow> nat \<times> outbox_row \<Rightarrow> unit result" where
  "outcome_of E p ml a = fst (deliver (event_env E (fst a)) p (snd a) (ml\<lparr>mlr_sent := []\<rparr>))"

definition requests_of :: "env \<Rightarrow> mail_platform \<Rightarrow> mailer \<Rightarrow> nat \<times> outbox_row \<Rightarrow> mail_request list" where
  "requests_of E p ml a = mlr_sent (snd (deliver (event_env E (fst a)) p (snd a) (ml\<lparr>mlr_sent := []\<rparr>)))"

lemma deliver_eq:
  "deliver (event_env E n) p ev ml =
     (outcome_of E p ml (n, ev), ml\<lparr>mlr_sent := mlr_sent ml @ requests_of E p ml (n, ev)\<rparr>)"
  by (auto simp: outcome_of_def requests_of_def deliver_def mail_send_def Let_def split: option.split sum.split)

lemma outcome_cong:
  assumes "mlr_accepts ml1 = mlr_accepts ml"
  shows "outcome_of E p ml1 a = outcome_of E p ml a" and "requests_of E p ml1 a = requests_of E p ml a"
proof -
  have "ml1\<lparr>mlr_sent := []\<rparr> = ml\<lparr>mlr_sent := []\<rparr>" using assms by simp
  then show "outcome_of E p ml1 a = outcome_of E p ml a" "requests_of E p ml1 a = requests_of E p ml a"
    by (simp_all add: outcome_of_def requests_of_def)
qed

definition wins_claim :: "env \<Rightarrow> outbox_row list \<Rightarrow> nat \<times> outbox_row \<Rightarrow> bool" where
  "wins_claim E rows a \<longleftrightarrow>
     count_rows (claimable_event (event_env E (fst a)) (obx_id (snd a)) (clock (event_env E (fst a)) 0)) rows = 1"

definition claim_row :: "env \<Rightarrow> string \<Rightarrow> nat \<times> outbox_row \<Rightarrow> outbox_row \<Rightarrow> outbox_row" where
  "claim_row E worker a x =
     (let now = clock (event_env E (fst a)) 0
      in if claimable_event (event_env E (fst a)) (obx_id (snd a)) now x
         then x\<lparr>obx_processingStartedAt := Some now, obx_processingBy := Some worker\<rparr> else x)"

definition settle_row :: "env \<Rightarrow> string \<Rightarrow> nat \<times> outbox_row \<Rightarrow> unit result \<Rightarrow> outbox_row \<Rightarrow> outbox_row" where
  "settle_row E worker a outcome x =
     (if owned_event (obx_id (snd a)) worker x
      then (if succeeded outcome then event_published (event_env E (fst a)) x
            else event_failed (event_env E (fst a)) (snd a) x)
      else x)"

fun progress :: "env \<Rightarrow> mail_platform \<Rightarrow> string \<Rightarrow> outbox_row list \<Rightarrow> mailer \<Rightarrow> flight \<Rightarrow> outbox_row \<Rightarrow> outbox_row" where
  "progress E p worker rows ml (n, ev, Waiting) x = x"
| "progress E p worker rows ml (n, ev, Settled ok) x =
     (if wins_claim E rows (n, ev)
      then settle_row E worker (n, ev) (outcome_of E p ml (n, ev)) (claim_row E worker (n, ev) x)
      else claim_row E worker (n, ev) x)"
| "progress E p worker rows ml (n, ev, st) x = claim_row E worker (n, ev) x"

fun consistent :: "env \<Rightarrow> mail_platform \<Rightarrow> outbox_row list \<Rightarrow> mailer \<Rightarrow> flight \<Rightarrow> bool" where
  "consistent E p rows ml (n, ev, Waiting) \<longleftrightarrow> True"
| "consistent E p rows ml (n, ev, Claimed) \<longleftrightarrow> wins_claim E rows (n, ev)"
| "consistent E p rows ml (n, ev, Sent outcome) \<longleftrightarrow> wins_claim E rows (n, ev) \<and> outcome = outcome_of E p ml (n, ev)"
| "consistent E p rows ml (n, ev, Settled ok) \<longleftrightarrow>
     (ok \<longleftrightarrow> wins_claim E rows (n, ev) \<and> succeeded (outcome_of E p ml (n, ev)))"

fun sent_by :: "env \<Rightarrow> mail_platform \<Rightarrow> outbox_row list \<Rightarrow> mailer \<Rightarrow> flight \<Rightarrow> mail_request multiset" where
  "sent_by E p rows ml (n, ev, Waiting) = {#}"
| "sent_by E p rows ml (n, ev, Claimed) = {#}"
| "sent_by E p rows ml (n, ev, st) = (if wins_claim E rows (n, ev) then mset (requests_of E p ml (n, ev)) else {#})"

definition row_of :: "env \<Rightarrow> mail_platform \<Rightarrow> string \<Rightarrow> outbox_row list \<Rightarrow> mailer \<Rightarrow> flight list \<Rightarrow> outbox_row \<Rightarrow> outbox_row" where
  "row_of E p worker rows ml fl x = (case find_row (\<lambda>f. flight_id f = obx_id x) fl of
     None \<Rightarrow> x | Some f \<Rightarrow> progress E p worker rows ml f x)"

lemma row_ids [simp]:
  "obx_id (claim_row E worker a x) = obx_id x" "obx_id (settle_row E worker a outcome x) = obx_id x"
  "obx_id (progress E p worker rows ml f x) = obx_id x" "obx_id (row_of E p worker rows ml fl x) = obx_id x"
proof -
  show c: "obx_id (claim_row E worker a x) = obx_id x" for a x by (simp add: claim_row_def Let_def)
  show s: "obx_id (settle_row E worker a outcome x) = obx_id x" for a outcome x
    by (simp add: settle_row_def event_published_def event_failed_def Let_def)
  show g: "obx_id (progress E p worker rows ml f x) = obx_id x" for f
    by (cases "(E, p, worker, rows, ml, f, x)" rule: progress.cases) (simp_all add: c s)
  show "obx_id (row_of E p worker rows ml fl x) = obx_id x" by (simp add: row_of_def g split: option.split)
qed

subsection \<open>Every order does the same\<close>

lemma find_flight_update:
  "flight_id f = flight_id (fl ! i) \<Longrightarrow> k \<noteq> flight_id f \<Longrightarrow> i < length fl \<Longrightarrow>
     find_row (\<lambda>g. flight_id g = k) (fl[i := f]) = find_row (\<lambda>g. flight_id g = k) fl"
proof (induction fl arbitrary: i)
  case (Cons g fl)
  then show ?case by (cases i) auto
qed simp

lemma row_of_update:
  assumes "distinct (map flight_id fl)" and "i < length fl" and "flight_id f = flight_id (fl ! i)"
  shows "row_of E p worker rows ml (fl[i := f]) x =
    (if obx_id x = flight_id f then progress E p worker rows ml f x else row_of E p worker rows ml fl x)"
proof (cases "obx_id x = flight_id f")
  case True
  have ids: "map flight_id (fl[i := f]) = map flight_id fl"
    using assms(2,3) by (simp add: map_update list_update_same_conv)
  have "distinct (map flight_id (fl[i := f]))" by (subst ids) (rule assms(1))
  moreover have "f \<in> set (fl[i := f])" using assms(2) by (rule set_update_memI)
  ultimately have "find_row (\<lambda>g. flight_id g = obx_id x) (fl[i := f]) = Some f"
    using True by (intro find_row_key [where key = flight_id]) simp_all
  then show ?thesis using True by (simp add: row_of_def)
next
  case False
  then show ?thesis using find_flight_update [OF assms(3) _ assms(2)] by (simp add: row_of_def)
qed

lemma row_of_flight:
  assumes "distinct (map flight_id fl)" and "i < length fl" and "obx_id x = flight_id (fl ! i)"
  shows "row_of E p worker rows ml fl x = progress E p worker rows ml (fl ! i) x"
  using row_of_update [OF assms(1,2) HOL.refl, of E p worker rows ml x] assms(3) by simp

lemma sum_list_swap:
  "i < length fl \<Longrightarrow> sum_list (map g (fl[i := f])) + g (fl ! i) = sum_list (map g fl) + (g f :: 'a :: comm_monoid_add)"
proof (induction fl arbitrary: i)
  case (Cons h fl)
  then show ?case by (cases i) (auto simp: ac_simps)
qed simp

lemma count_rows_map:
  "(\<And>x. x \<in> set t \<Longrightarrow> P (g x) \<longleftrightarrow> P x) \<Longrightarrow> count_rows P (map g t) = count_rows P t"
  by (induction t) simp_all

definition slice_inv ::
    "env \<Rightarrow> mail_platform \<Rightarrow> string \<Rightarrow> db \<Rightarrow> mailer \<Rightarrow> (nat \<times> outbox_row) list \<Rightarrow> flight list \<times> db \<times> mailer \<Rightarrow> bool" where
  "slice_inv E p worker d0 ml0 as s \<longleftrightarrow> (case s of (fl, d, ml) \<Rightarrow>
     d = d0\<lparr>outbox := map (row_of E p worker (outbox d0) ml0 fl) (outbox d0)\<rparr>
     \<and> mlr_accepts ml = mlr_accepts ml0
     \<and> mset (mlr_sent ml) = mset (mlr_sent ml0) + sum_list (map (sent_by E p (outbox d0) ml0) fl)
     \<and> list_all (consistent E p (outbox d0) ml0) fl \<and> map (\<lambda>f. (fst f, fst (snd f))) fl = as)"

lemma slice_inv_set:
  assumes inv: "slice_inv E p worker d0 ml0 as (fl, d, ml)" and ids: "distinct (map (obx_id \<circ> snd) as)"
    and i: "i < length fl" and f: "fl ! i = (n, ev, st)"
    and rows: "\<And>x. x \<in> set (outbox d0) \<Longrightarrow> obx_id x = obx_id ev \<Longrightarrow>
        g (progress E p worker (outbox d0) ml0 (n, ev, st) x) = progress E p worker (outbox d0) ml0 (n, ev, st') x"
    and others: "\<And>y. obx_id y \<noteq> obx_id ev \<Longrightarrow> g y = y"
    and c: "consistent E p (outbox d0) ml0 (n, ev, st')" and acc: "mlr_accepts ml' = mlr_accepts ml"
    and sent: "mset (mlr_sent ml') + sent_by E p (outbox d0) ml0 (n, ev, st)
      = mset (mlr_sent ml) + sent_by E p (outbox d0) ml0 (n, ev, st')"
  shows "slice_inv E p worker d0 ml0 as (fl[i := (n, ev, st')], d\<lparr>outbox := map g (outbox d)\<rparr>, ml')"
proof -
  let ?R = "row_of E p worker (outbox d0) ml0" and ?S = "sent_by E p (outbox d0) ml0"
  have as: "map (\<lambda>f. (fst f, fst (snd f))) fl = as" and d: "d = d0\<lparr>outbox := map (?R fl) (outbox d0)\<rparr>"
    and m: "mset (mlr_sent ml) = mset (mlr_sent ml0) + sum_list (map ?S fl)"
    and cs: "list_all (consistent E p (outbox d0) ml0) fl" and ac: "mlr_accepts ml = mlr_accepts ml0"
    using inv by (simp_all add: slice_inv_def)
  have dist: "distinct (map flight_id fl)" using ids by (simp add: as [symmetric] comp_def)
  have "g (?R fl x) = ?R (fl[i := (n, ev, st')]) x" if "x \<in> set (outbox d0)" for x
    using rows [OF that] others [of "?R fl x"] row_of_flight [OF dist i, of x]
    by (auto simp: row_of_update [OF dist i] f)
  moreover have "map (\<lambda>f. (fst f, fst (snd f))) (fl[i := (n, ev, st')]) = as"
    using i f by (simp add: as [symmetric] map_update list_update_same_conv)
  moreover have "list_all (consistent E p (outbox d0) ml0) (fl[i := (n, ev, st')])"
    using cs c by (auto simp: list_all_iff dest!: subsetD [OF set_update_subset_insert])
  moreover have "mset (mlr_sent ml') = mset (mlr_sent ml0) + sum_list (map ?S (fl[i := (n, ev, st')]))"
  proof -
    have "mset (mlr_sent ml') + ?S (n, ev, st) = mset (mlr_sent ml0) + (sum_list (map ?S fl) + ?S (n, ev, st'))"
      by (simp add: sent m ac_simps)
    also have "\<dots> = mset (mlr_sent ml0) + sum_list (map ?S (fl[i := (n, ev, st')])) + ?S (n, ev, st)"
      using sum_list_swap [OF i, of ?S "(n, ev, st')"] by (simp add: f ac_simps)
    finally show ?thesis by simp
  qed
  ultimately show ?thesis using acc ac by (simp add: slice_inv_def d)
qed

lemma claim_event_eq:
  "claim_event (event_env E n) worker ev d =
     (wins_claim E (outbox d) (n, ev), d\<lparr>outbox := map (claim_row E worker (n, ev)) (outbox d)\<rparr>)"
  by (simp add: claim_event_def wins_claim_def claim_row_def [abs_def] update_rows_def Let_def)

lemma settle_event_eq:
  "settle_event (event_env E n) worker ev outcome d =
     (succeeded outcome, d\<lparr>outbox := map (settle_row E worker (n, ev) outcome) (outbox d)\<rparr>)"
  by (simp add: settle_event_def settle_row_def [abs_def] update_rows_def)

lemma other_rows:
  "obx_id y \<noteq> obx_id ev \<Longrightarrow> claim_row E worker (n, ev) y = y"
  "obx_id y \<noteq> obx_id ev \<Longrightarrow> settle_row E worker (n, ev) outcome y = y"
  by (simp_all add: claim_row_def settle_row_def claimable_event_def owned_event_def Let_def)

lemma delivery_step_inv:
  assumes inv: "slice_inv E p worker d0 ml0 as (fl, d, ml)" and ids: "distinct (map (obx_id \<circ> snd) as)"
    and i: "i < length fl" and step: "delivery_step E p worker (fl ! i) (d, ml) = (st', d', ml')"
  shows "slice_inv E p worker d0 ml0 as (fl[i := (fst (fl ! i), fst (snd (fl ! i)), st')], d', ml')"
proof -
  obtain n ev st where f: "fl ! i = (n, ev, st)" by (metis prod.exhaust)
  have as: "map (\<lambda>f. (fst f, fst (snd f))) fl = as" and d: "outbox d = map (row_of E p worker (outbox d0) ml0 fl) (outbox d0)"
    and cs: "list_all (consistent E p (outbox d0) ml0) fl" and ac: "mlr_accepts ml = mlr_accepts ml0"
    using inv by (simp_all add: slice_inv_def)
  have c: "consistent E p (outbox d0) ml0 (n, ev, st)" using cs i f by (metis list_all_length)
  have same: "d\<lparr>outbox := map (\<lambda>x. x) (outbox d)\<rparr> = d" by simp
  have dist: "distinct (map flight_id fl)" using ids by (simp add: as [symmetric] comp_def)
  note set = slice_inv_set [OF inv ids i f]
  show ?thesis
  proof (cases st)
    case Waiting
    have "wins_claim E (outbox d) (n, ev) = wins_claim E (outbox d0) (n, ev)"
      unfolding wins_claim_def d
    proof (subst count_rows_map)
      fix x assume "x \<in> set (outbox d0)"
      show "claimable_event (event_env E (fst (n, ev))) (obx_id (snd (n, ev))) (clock (event_env E (fst (n, ev))) 0)
          (row_of E p worker (outbox d0) ml0 fl x)
        = claimable_event (event_env E (fst (n, ev))) (obx_id (snd (n, ev))) (clock (event_env E (fst (n, ev))) 0) x"
      proof (cases "obx_id x = obx_id ev")
        case True
        then show ?thesis using row_of_flight [OF dist i, of x] by (simp add: f Waiting)
      qed (simp add: claimable_event_def)
    qed simp
    with step have "st' = (if wins_claim E (outbox d0) (n, ev) then Claimed else Settled False)"
      and "d' = d\<lparr>outbox := map (claim_row E worker (n, ev)) (outbox d)\<rparr>" "ml' = ml"
      by (auto simp: delivery_step_def f Waiting claim_event_eq)
    then show ?thesis
      using set [of "claim_row E worker (n, ev)" st' ml] by (auto simp: f Waiting other_rows)
  next
    case Claimed
    with step have st': "st' = Sent (outcome_of E p ml0 (n, ev))"
      and "d' = d" "ml' = ml\<lparr>mlr_sent := mlr_sent ml @ requests_of E p ml0 (n, ev)\<rparr>"
      by (auto simp: delivery_step_def f deliver_eq outcome_cong [OF ac])
    then show ?thesis
      using set [of "\<lambda>x. x" st' ml'] c by (simp add: f Claimed)
  next
    case (Sent outcome)
    with step c have "st' = Settled (succeeded (outcome_of E p ml0 (n, ev)))" "ml' = ml"
      and "d' = d\<lparr>outbox := map (settle_row E worker (n, ev) (outcome_of E p ml0 (n, ev))) (outbox d)\<rparr>"
      by (auto simp: delivery_step_def f settle_event_eq)
    then show ?thesis
      using set [of "settle_row E worker (n, ev) (outcome_of E p ml0 (n, ev))" st' ml] c
      by (simp add: f Sent other_rows)
  next
    case (Settled ok)
    with step have "st' = Settled ok" "d' = d" "ml' = ml" by (auto simp: delivery_step_def f)
    then show ?thesis using set [of "\<lambda>x. x" st' ml] c by (simp add: f Settled)
  qed
qed

lemma concurrent_slice_inv:
  assumes "slice_inv E p worker d0 ml0 as s" and "distinct (map (obx_id \<circ> snd) as)"
  shows "slice_inv E p worker d0 ml0 as (concurrent_slice E p worker schedule s)"
  using assms(1)
proof (induction schedule arbitrary: s)
  case (Cons i schedule)
  have "slice_inv E p worker d0 ml0 as (slice_step E p worker i s)"
    using Cons.prems delivery_step_inv [OF _ assms(2)]
    by (auto simp: slice_step_def split: prod.splits)
  from Cons.IH [OF this] show ?case by (simp add: concurrent_slice_def)
qed (simp add: concurrent_slice_def)

lemma start_slice_inv: "slice_inv E p worker d ml (zip [n..<n + length evs] evs) (start_slice n evs, d, ml)"
proof -
  have "row_of E p worker (outbox d) ml (start_slice n evs) x = x" for x
  proof (cases "find_row (\<lambda>f. flight_id f = obx_id x) (start_slice n evs)")
    case (Some f)
    then have "f \<in> set (start_slice n evs)" by (auto dest: find_row_SomeD)
    then obtain i ev where "f = (i, ev, Waiting)" by (auto simp: start_slice_def)
    with Some show ?thesis by (simp add: row_of_def)
  qed (simp add: row_of_def)
  moreover have "sum_list (map (sent_by E p (outbox d) ml) (start_slice n evs)) = {#}"
  proof -
    have "map (sent_by E p (outbox d) ml) (start_slice n evs) = map (\<lambda>_. {#}) (start_slice n evs)"
      by (rule map_cong) (auto simp: start_slice_def)
    then show ?thesis by (metis sum_list_0)
  qed
  ultimately show ?thesis
    by (auto simp: slice_inv_def start_slice_def list_all_iff comp_def split_beta map_idI)
qed

text \<open>Two schedules under which every delivery has settled agree.\<close>

lemma settled_agree:
  assumes "slice_inv E p worker d0 ml0 as (fl1, d1, ml1)" and "slice_inv E p worker d0 ml0 as (fl2, d2, ml2)"
    and "list_all settled_flight fl1" and "list_all settled_flight fl2"
  shows "fl1 = fl2 \<and> d1 = d2 \<and> mset (mlr_sent ml1) = mset (mlr_sent ml2) \<and> mlr_accepts ml1 = mlr_accepts ml2"
proof -
  let ?done = "\<lambda>(n, ev). (n, ev, Settled (wins_claim E (outbox d0) (n, ev) \<and> succeeded (outcome_of E p ml0 (n, ev))))"
  have "fl = map ?done as" if inv: "slice_inv E p worker d0 ml0 as (fl, d, ml)" and st: "list_all settled_flight fl" for fl d ml
  proof -
    have as: "as = map (\<lambda>f. (fst f, fst (snd f))) fl" and cs: "list_all (consistent E p (outbox d0) ml0) fl"
      using inv by (simp_all add: slice_inv_def)
    have "f = ?done (fst f, fst (snd f))" if "f \<in> set fl" for f
    proof -
      obtain n ev x where f: "f = (n, ev, x)" by (metis prod.exhaust)
      have "settled_flight f" "consistent E p (outbox d0) ml0 f" using st cs that by (simp_all add: list_all_iff)
      then show ?thesis by (cases x) (simp_all add: f settled_flight_def)
    qed
    then show ?thesis by (simp add: as comp_def map_idI)
  qed
  from this [OF assms(1,3)] this [OF assms(2,4)] assms(1,2) show ?thesis by (simp add: slice_inv_def)
qed

text \<open>One event after the other is such a schedule.\<close>

lemma dispatch_three_steps:
  assumes "dispatchEvent (event_env E n) p worker ev (d, ml) = (ok, d1, ml1)"
  shows "concurrent_slice E p worker [length xs, length xs, length xs] (xs @ (n, ev, Waiting) # ys, d, ml)
    = (xs @ (n, ev, Settled ok) # ys, d1, ml1)"
proof -
  obtain claimed e where c: "claim_event (event_env E n) worker ev d = (claimed, e)" by force
  obtain outcome ml2 where dl: "deliver (event_env E n) p ev ml = (outcome, ml2)" by force
  obtain ok2 e2 where st: "settle_event (event_env E n) worker ev outcome e = (ok2, e2)" by force
  show ?thesis using assms
    by (cases claimed)
      (auto simp: concurrent_slice_def slice_step_def delivery_step_def dispatchEvent_def c dl st nth_append list_update_append)
qed

lemma start_slice_Cons: "start_slice n (ev # evs) = (n, ev, Waiting) # start_slice (Suc n) evs"
proof -
  have "n < n + length (ev # evs)" by simp
  then have "[n..<n + length (ev # evs)] = n # [Suc n..<n + length (ev # evs)]" by (rule upt_conv_Cons)
  then show ?thesis by (simp add: start_slice_def del: upt_Suc)
qed

lemma settled_flights [simp]:
  "settled_flight (n, ev, Settled ok)" "published_flight (n, ev, Settled ok) \<longleftrightarrow> ok"
  by (simp_all add: settled_flight_def published_flight_def)

lemma sequential_schedule:
  assumes "dispatch_slice E p worker n evs (d, ml) = (k, d1, ml1)"
  shows "\<exists>schedule ys. concurrent_slice E p worker schedule (xs @ start_slice n evs, d, ml) = (xs @ ys, d1, ml1)
    \<and> list_all settled_flight ys \<and> length (filter published_flight ys) = k"
  using assms
proof (induction evs arbitrary: n d ml k xs)
  case Nil
  then show ?case by (intro exI [of _ "[]"]) (simp add: concurrent_slice_def start_slice_def)
next
  case (Cons ev evs)
  obtain ok e ml2 where e: "dispatchEvent (event_env E n) p worker ev (d, ml) = (ok, e, ml2)" by (metis prod.exhaust)
  obtain k' e' ml3 where r: "dispatch_slice E p worker (Suc n) evs (e, ml2) = (k', e', ml3)" by (metis prod.exhaust)
  have fin: "e' = d1" "ml3 = ml1" "k = (if ok then Suc k' else k')"
    using Cons.prems unfolding dispatch_slice_Cons by (simp_all add: e r)
  obtain schedule ys where s: "concurrent_slice E p worker schedule ((xs @ [(n, ev, Settled ok)]) @ start_slice (Suc n) evs, e, ml2)
      = ((xs @ [(n, ev, Settled ok)]) @ ys, e', ml3)"
    and ys: "list_all settled_flight ys" "length (filter published_flight ys) = k'"
    using Cons.IH [of "Suc n" e ml2 k' "xs @ [(n, ev, Settled ok)]"] r fin by auto
  have "concurrent_slice E p worker ([length xs, length xs, length xs] @ schedule) (xs @ start_slice n (ev # evs), d, ml)
      = (xs @ (n, ev, Settled ok) # ys, d1, ml1)"
    using dispatch_three_steps [OF e, of xs "start_slice (Suc n) evs"] s fin
    by (simp add: concurrent_slice_def start_slice_Cons)
  then show ?case
    using ys fin
    by (intro exI [of _ "[length xs, length xs, length xs] @ schedule"] exI [of _ "(n, ev, Settled ok) # ys"]) simp
qed

lemma concurrent_slice_sequential:
  assumes "distinct (map obx_id evs)"
    and "concurrent_slice E p worker schedule (start_slice n evs, d, ml) = (fl, d1, ml1)" and "list_all settled_flight fl"
    and "dispatch_slice E p worker n evs (d, ml) = (k, d2, ml2)"
  shows "d1 = d2 \<and> length (filter published_flight fl) = k \<and> mset (mlr_sent ml1) = mset (mlr_sent ml2)"
proof -
  let ?as = "zip [n..<n + length evs] evs"
  have "map snd ?as = evs" by simp
  then have ids: "distinct (map (obx_id \<circ> snd) ?as)" using assms(1) by (metis map_map)
  obtain schedule2 ys where s: "concurrent_slice E p worker schedule2 (start_slice n evs, d, ml) = (ys, d2, ml2)"
    and ys: "list_all settled_flight ys" "length (filter published_flight ys) = k"
    using sequential_schedule [OF assms(4), of "[]"] by auto
  have inv: "slice_inv E p worker d ml ?as (concurrent_slice E p worker sch (start_slice n evs, d, ml))" for sch
    by (rule concurrent_slice_inv [OF start_slice_inv ids])
  from settled_agree [OF inv [of schedule, unfolded assms(2)] inv [of schedule2, unfolded s] assms(3) ys(1)] ys(2)
  show ?thesis by auto
qed

end
