(* ===== verification/SampleData.thy ===== *)
theory SampleData
  imports Redis
begin

text \<open>
  A small account in a small database and an empty Redis: the inputs on which the witnesses of the
  properties evaluate the model.
\<close>

definition sample_user :: user_row where
  "sample_user = \<lparr>usr_id = ''user-1'', usr_emailNormalized = ''a@b.rw'', usr_emailVerifiedAt = Some 1,
     usr_accountStatus = Account_ACTIVE, usr_identityStatus = Identity_VERIFIED, usr_isVerified = True,
     usr_isActive = True, usr_isIdVerified = True, usr_idVerifiedAt = Some 1,
     usr_verificationAttempts = 1, usr_version = 0\<rparr>"

definition sample_credential :: credential_row where
  "sample_credential = \<lparr>cred_id = ''cred-1'', cred_userId = ''user-1'',
     cred_passwordHash = ''argon2:secret'', cred_passwordAlgorithm = ''argon2id'',
     cred_passwordChangedAt = None, cred_failedLoginCount = 0, cred_lockedUntil = None\<rparr>"

definition sample_session :: session_row where
  "sample_session = \<lparr>ses_id = ''session-1'', ses_userId = ''user-1'', ses_familyId = ''family-1'',
     ses_level = LIMITED, ses_status = Session_ACTIVE, ses_deviceId = ''device'', ses_deviceLabel = None,
     ses_ipHash = ''ip'', ses_userAgentHash = ''ua'', ses_riskLevel = None, ses_riskReason = None,
     ses_createdAt = 1, ses_lastUsedAt = 1, ses_expiresAt = 90000000, ses_revokedAt = None,
     ses_revocationReason = None, ses_version = 0\<rparr>"

definition sample_token :: refresh_row where
  "sample_token = \<lparr>rft_id = ''token-1'', rft_userId = ''user-1'', rft_sessionId = ''session-1'',
     rft_tokenDigest = token_digest sample_env ''refresh'', rft_tokenType = ''limited'',
     rft_generation = 0, rft_issuedAt = 1, rft_expiresAt = 90000000, rft_usedAt = None,
     rft_revoked = False, rft_revokedAt = None, rft_replacedBy = None, rft_reuseDetectedAt = None\<rparr>"

definition sample_db :: db where
  "sample_db = empty_db\<lparr>users := [sample_user], credentials := [sample_credential],
     sessions := [sample_session], refresh_tokens := [sample_token]\<rparr>"

definition sample_ctx :: request_context where
  "sample_ctx = \<lparr>rq_correlationId = ''request-1'', rq_ipAddress = ''10.0.0.1'', rq_userAgent = ''browser''\<rparr>"

definition sample_redis :: redis where
  "sample_redis = \<lparr>rds_status = Status_ready, rds_connecting = None, rds_online = True, rds_now = 0,
     rds_store = Map.empty\<rparr>"

lemmas sample_rows = sample_user_def sample_credential_def sample_session_def sample_token_def
  sample_db_def empty_db_def sample_ctx_def sample_redis_def

text \<open>A sample environment whose database hands out one UUID first.\<close>

definition sample_uuid :: string where
  "sample_uuid = ''00000000-0000-4000-8000-000000000000''"

definition sample_uuid_env :: env where
  "sample_uuid_env = sample_env\<lparr>gen_id := (\<lambda>ids. if sample_uuid \<in> set ids then longer_id ids else sample_uuid)\<rparr>"

lemma sample_uuid_laws:
  "json_laws sample_uuid_env" "gcm_laws sample_uuid_env" "id_laws sample_uuid_env" "default_laws sample_uuid_env"
  using sample_laws
  by (simp_all add: sample_uuid_env_def json_laws_def gcm_laws_def default_laws_def id_laws_def longer_id_fresh)

text \<open>The sample environment's fields that the witnesses read.\<close>

lemma sample_env_simps [simp]:
  "argon2_hash sample_env p = ''argon2:'' @ p"
  "argon2_verify sample_env h p = Some (h = ''argon2:'' @ p)"
  "argon2_needsRehash sample_env h = False"
  "nfkc sample_env s = s" "to_lower sample_env s = s"
  "clock sample_env i = 1000000 + int i"
  "random_bytes sample_env i n = replicate n (CHR ''r'')"
  "db_clock sample_env = 1000000"
  "default_session_status sample_env = Session_ACTIVE"
  "default_step_up_status sample_env = StepUp_PENDING"
  "default_idempotency_status sample_env = Idem_IN_PROGRESS"
  "cfg_flag sample_env k = False"
  by (simp_all add: sample_env_def)

lemma sample_db_simps [simp]:
  "users sample_db = [sample_user]" "credentials sample_db = [sample_credential]"
  "sessions sample_db = [sample_session]" "refresh_tokens sample_db = [sample_token]"
  "reset_requests sample_db = []" "email_tokens sample_db = []" "idempotency sample_db = []"
  "attempts sample_db = []" "step_ups sample_db = []" "media sample_db = []" "outbox sample_db = []"
  "challenges sample_db = []" "identities sample_db = []" "consents sample_db = []" "events sample_db = []"
  by (simp_all add: sample_db_def empty_db_def)

end
