(* ===== verification/SampleConfiguration.thy ===== *)
theory SampleConfiguration
  imports Configuration SampleData
begin

text \<open>
  A production environment that the validation admits: the input at which the properties of the
  configuration are applied.  The platform stands for Joi, the URL parser and the key parsers.
\<close>

definition sample_key :: "char \<Rightarrow> string" where
  "sample_key c = b64_encode (replicate 33 c)"

text \<open>The variables that are set, by their first letter.\<close>

definition sample_group :: "char \<Rightarrow> (string \<times> string) list" where
  "sample_group c = (
     if c = CHR ''M'' then [(''MUCYORA_USER_APP_URL'', ''https://app''),
       (''MUCYORA_AUTH_ISSUER'', ''https://auth''),
       (''MUCYORA_AUTH_ACCESS_AUDIENCES'', ''user''),
       (''MUCYORA_AUTH_SIGNING_KEY_ID'', ''key-2026''),
       (''MUCYORA_AUTH_SIGNING_PUBLIC_KEY'', replicate 128 (CHR ''p'')),
       (''MUCYORA_AUTH_PREVIOUS_SIGNING_PUBLIC_KEYS_JSON'', put_json (JArr [])),
       (''MUCYORA_ENGINE_URL'', ''https://engine''),
       (''MUCYORA_ENGINE_SERVICE_KEY'', replicate 32 (CHR ''e'')),
       (''MUCYORA_USER_SERVICE_KEY'', replicate 32 (CHR ''f'')),
       (''MUCYORA_SIGNATURE_SERVICE_KEY'', replicate 32 (CHR ''g'')),
       (''MUCYORA_AUTH_RECOVERY_SERVICE_KEY'', replicate 32 (CHR ''h'')),
       (''MUCYORA_OPERATIONS_SERVICE_KEY'', replicate 32 (CHR ''i''))]
     else if c = CHR ''C'' then [(''CORS_ALLOWED_ORIGINS'', ''https://app''),
       (''CITIZEN_API_URL'', ''https://nida''),
       (''CITIZEN_API_USERNAME'', ''user''),
       (''CITIZEN_API_PASSWORD'', ''password''),
       (''COOKIE_SECURE'', ''true'')]
     else if c = CHR ''I'' then [(''IDENTITY_ENCRYPTION_KEY_VERSION'', ''v1''),
       (''IDENTITY_ENCRYPTION_SECRET'', sample_key (CHR ''a'')),
       (''IDENTITY_LOOKUP_KEY_VERSION'', ''v1''),
       (''IDENTITY_LOOKUP_HMAC_KEY'', sample_key (CHR ''b''))]
     else if c = CHR ''A'' then [(''APP_ENV'', ''production''),
       (''AWS_S3_VERIFICATION_BUCKET'', ''bucket'')]
     else if c = CHR ''R'' then [(''REQUEST_CONTEXT_HMAC_KEY'', sample_key (CHR ''d'')),
       (''REDIS_URL'', ''rediss://cache'')]
     else if c = CHR ''P'' then [(''PASSKEY_RP_ID'', ''auth.rw''),
       (''PASSKEY_ALLOWED_ORIGINS'', ''https://app'')]
     else if c = CHR ''D'' then [(''DATABASE_URL'', ''postgresql://mucyora_auth_app@db'')]
     else if c = CHR ''T'' then [(''TOKEN_DIGEST_HMAC_KEY'', sample_key (CHR ''c''))]
     else if c = CHR ''V'' then [(''VERIFICATION_POLICY_VERSION'', ''policy-1'')]
     else if c = CHR ''S'' then [(''STEP_UP_POLICY_VERSION'', ''stepup-01'')]
     else [])"

definition sample_values :: "string \<Rightarrow> string option" where
  "sample_values k = (case k of [] \<Rightarrow> None | c # _ \<Rightarrow> map_of (sample_group c) k)"

definition sample_url :: "string \<Rightarrow> url" where
  "sample_url s = \<lparr>url_protocol = (if prefix ''https'' s then ''https:'' else if prefix ''rediss'' s then ''rediss:'' else ''http:''),
     url_username = (if prefix ''postgres'' s then ''mucyora_auth_app'' else []), url_password = [], url_search = [],
     url_hash = [], url_hostname = s, url_origin = s\<rparr>"

definition sample_platform :: config_platform where
  "sample_platform = \<lparr>cpl_number = (\<lambda>_. None), cpl_uri = (\<lambda>_ _. True), cpl_hostname = (\<lambda>_. True),
     cpl_email = (\<lambda>_. True), cpl_url = (\<lambda>s. Some (sample_url s)), cpl_decode_component = Some,
     cpl_private_rsa = (\<lambda>_. Some True), cpl_key_pair = (\<lambda>_ _. True)\<rparr>"

definition readable :: "string \<times> setting \<Rightarrow> bool" where
  "readable x = (read_setting sample_env sample_platform (snd x) (sample_values (fst x)) \<noteq> None)"

lemma sample_key_simps [simp]: "43 \<le> length (sample_key c)" "sample_key c \<noteq> []"
  by (simp_all add: sample_key_def length_b64_encode)

lemma sample_key_not_service [simp]: "replicate 32 c \<noteq> sample_key c'"
proof
  assume "replicate 32 c = sample_key c'"
  then have "length (replicate 32 c) = length (sample_key c')" by simp
  then show False by (simp add: sample_key_def length_b64_encode)
qed

lemma readable_text:
  "readable (k, Text_Setting rules allowed dflt) \<longleftrightarrow> (case sample_values k of
     None \<Rightarrow> dflt \<noteq> None
   | Some s \<Rightarrow> (if s = [] then allowed else list_all (\<lambda>r. text_rule_ok sample_platform r s) rules))"
  "readable (k, Number_Setting lo hi n) \<longleftrightarrow> sample_values k = None"
  "readable (k, Flag_Setting b) \<longleftrightarrow> (case sample_values k of
     None \<Rightarrow> True | Some s \<Rightarrow> s = ''true'' \<or> s = ''false'')"
proof -
  show "readable (k, Text_Setting rules allowed dflt) \<longleftrightarrow> (case sample_values k of
     None \<Rightarrow> dflt \<noteq> None
   | Some s \<Rightarrow> (if s = [] then allowed else list_all (\<lambda>r. text_rule_ok sample_platform r s) rules))"
    by (cases "sample_values k") (simp_all add: readable_def)
  show "readable (k, Number_Setting lo hi n) \<longleftrightarrow> sample_values k = None"
    by (cases "sample_values k") (simp_all add: readable_def sample_platform_def)
  show "readable (k, Flag_Setting b) \<longleftrightarrow> (case sample_values k of
     None \<Rightarrow> True | Some s \<Rightarrow> s = ''true'' \<or> s = ''false'')"
    by (cases "sample_values k") (auto simp: readable_def read_flag_def)
qed

lemma put_nat_0: "put_nat 0 = ''0.''"
  by code_simp

lemmas char_classes = is_digit_def is_alnum_def is_lower_def is_upper_def

lemma readable_service: "list_all readable service_settings"
  by (simp add: service_settings_def readable_text sample_values_def sample_group_def sample_platform_def char_classes)


lemma readable_delivery: "list_all readable delivery_settings"
  by (simp add: delivery_settings_def put_nat_0 readable_text sample_values_def sample_group_def sample_platform_def char_classes)

lemma readable_verification: "list_all readable verification_settings"
  by (simp add: verification_settings_def readable_text sample_values_def sample_group_def sample_platform_def char_classes)

lemma sample_key_decodes: "key_syntax (sample_key c)" "b64_decode (sample_key c) = replicate 33 c"
proof -
  show "key_syntax (sample_key c)"
    using decodeKeyMaterial_encode [of 32 "replicate 33 c" "[]"]
    by (simp add: sample_key_def decodeKeyMaterial_def split: if_split_asm)
qed (simp add: sample_key_def)

lemma read_settings_total:
  "\<forall>x \<in> set ss. read_setting E P (snd x) (values (fst x)) \<noteq> None \<Longrightarrow> \<exists>e. read_settings E P values ss = Some e"
  by (induction ss) fastforce+

lemma sample_settings_read:
  "\<exists>e. read_settings sample_env sample_platform sample_values environmentSchema = Some e"
  by (rule read_settings_total)
    (use readable_service readable_delivery readable_verification in
      \<open>auto simp: environmentSchema_def list_all_iff readable_def\<close>)

lemma sample_setting:
  assumes "read_settings sample_env sample_platform sample_values environmentSchema = Some e"
    and "map_of environmentSchema k = Some x"
  shows "map_of e k = read_setting sample_env sample_platform x (sample_values k)"
  using read_settings_map_of(1) [OF assms(1), of k] assms(2) by simp

text \<open>The entries of the schema that the checks read.\<close>

lemmas schema_defs = environmentSchema_def service_settings_def delivery_settings_def verification_settings_def
  append.simps map_of_Cons_code list.inject list.distinct char.inject simp_thms if_False if_True fst_conv snd_conv

lemma schema_entries:
  "map_of environmentSchema ''APP_ENV'' = Some (Text_Setting [One_Of [''development'', ''test'', ''production'']] False (Some ''development''))"
  "map_of environmentSchema ''DATABASE_URL'' = Some (Text_Setting [Uri [''postgresql'', ''postgres'']] False None)"
  "map_of environmentSchema ''CORS_ALLOWED_ORIGINS'' = Some (Text_Setting [] False (Some ''http://localhost:4000''))"
  "map_of environmentSchema ''IDENTITY_ENCRYPTION_SECRET'' = Some (Text_Setting [At_Least 43] False None)"
  "map_of environmentSchema ''IDENTITY_LOOKUP_HMAC_KEY'' = Some (Text_Setting [At_Least 43] False None)"
  "map_of environmentSchema ''TOKEN_DIGEST_HMAC_KEY'' = Some (Text_Setting [At_Least 43] False None)"
  "map_of environmentSchema ''REQUEST_CONTEXT_HMAC_KEY'' = Some (Text_Setting [At_Least 43] False None)"
  "map_of environmentSchema ''REDIS_URL'' = Some (Text_Setting [Uri [''redis'', ''rediss'']] False None)"
  "map_of environmentSchema ''CITIZEN_API_URL'' = Some (Text_Setting [Uri []] False None)"
  "map_of environmentSchema ''MUCYORA_USER_APP_URL'' = Some (Text_Setting [Uri []] False (Some ''http://localhost:4000''))"
  "map_of environmentSchema ''MUCYORA_AUTH_ACCESS_AUDIENCES'' = Some (Text_Setting [At_Least 1] False None)"
  "map_of environmentSchema ''MUCYORA_AUTH_SIGNING_PROVIDER'' = Some (Text_Setting [One_Of [''SOFTWARE_PEM'', ''AWS_KMS'']] False (Some ''SOFTWARE_PEM''))"
  "map_of environmentSchema ''MUCYORA_AUTH_PREVIOUS_SIGNING_PUBLIC_KEYS_JSON'' = Some (Text_Setting [At_Most 32768] False (Some ''[]''))"
  "map_of environmentSchema ''COOKIE_SAME_SITE'' = Some (Text_Setting [One_Of [''lax'', ''strict'', ''none'']] False (Some ''lax''))"
  "map_of environmentSchema ''PASSKEY_RP_ID'' = Some (Text_Setting [Hostname] False (Some ''localhost''))"
  "map_of environmentSchema ''PASSKEY_ALLOWED_ORIGINS'' = Some (Text_Setting [] False (Some ''http://localhost:4000''))"
  "map_of environmentSchema ''AWS_S3_ENDPOINT'' = Some (Text_Setting [Uri []] True (Some ''''))"
  "map_of environmentSchema ''MUCYORA_ENGINE_URL'' = Some (Text_Setting [Uri []] False None)"
  "map_of environmentSchema ''MUCYORA_ENGINE_SERVICE_KEY'' = Some (Text_Setting [At_Least 32, At_Most 512] False None)"
  "map_of environmentSchema ''MUCYORA_USER_SERVICE_KEY'' = Some (Text_Setting [At_Least 32, At_Most 512] False None)"
  "map_of environmentSchema ''MUCYORA_SIGNATURE_SERVICE_KEY'' = Some (Text_Setting [At_Least 32, At_Most 512] False None)"
  "map_of environmentSchema ''MUCYORA_AUTH_RECOVERY_SERVICE_KEY'' = Some (Text_Setting [At_Least 32, At_Most 512] False None)"
  "map_of environmentSchema ''MUCYORA_OPERATIONS_SERVICE_KEY'' = Some (Text_Setting [At_Least 32, At_Most 512] False None)"
  "map_of environmentSchema ''COOKIE_SECURE'' = Some (Flag_Setting False)"
  "map_of environmentSchema ''READINESS_REDIS_REQUIRED'' = Some (Flag_Setting True)"
  "map_of environmentSchema ''ENABLE_SWAGGER'' = Some (Flag_Setting False)"
  "map_of environmentSchema ''MAIL_OUTBOX_WORKER_ENABLED'' = Some (Flag_Setting False)"
  "map_of environmentSchema ''COMPROMISED_PASSWORD_CHECK_ENABLED'' = Some (Flag_Setting False)"
  "map_of environmentSchema ''OTEL_ENABLED'' = Some (Flag_Setting False)"
  "map_of environmentSchema ''OUTBOX_DELIVERY_CONCURRENCY'' = Some (Number_Setting 1 16 4)"
  by (simp_all only: schema_defs)

lemma sample_texts:
  assumes "read_settings sample_env sample_platform sample_values environmentSchema = Some e"
  shows "text_of e ''APP_ENV'' = ''production''" "text_of e ''DATABASE_URL'' = ''postgresql://mucyora_auth_app@db''"
    "text_of e ''CORS_ALLOWED_ORIGINS'' = ''https://app''"
    "text_of e ''IDENTITY_ENCRYPTION_SECRET'' = sample_key (CHR ''a'')"
    "text_of e ''IDENTITY_LOOKUP_HMAC_KEY'' = sample_key (CHR ''b'')"
    "text_of e ''TOKEN_DIGEST_HMAC_KEY'' = sample_key (CHR ''c'')"
    "text_of e ''REQUEST_CONTEXT_HMAC_KEY'' = sample_key (CHR ''d'')"
    "text_of e ''REDIS_URL'' = ''rediss://cache''" "text_of e ''CITIZEN_API_URL'' = ''https://nida''"
    "text_of e ''MUCYORA_USER_APP_URL'' = ''https://app''" "text_of e ''MUCYORA_AUTH_ACCESS_AUDIENCES'' = ''user''"
    "text_of e ''MUCYORA_AUTH_SIGNING_PROVIDER'' = ''SOFTWARE_PEM''"
    "text_of e ''MUCYORA_AUTH_PREVIOUS_SIGNING_PUBLIC_KEYS_JSON'' = put_json (JArr [])"
    "text_of e ''COOKIE_SAME_SITE'' = ''lax''" "text_of e ''PASSKEY_RP_ID'' = ''auth.rw''"
    "text_of e ''PASSKEY_ALLOWED_ORIGINS'' = ''https://app''" "text_of e ''AWS_S3_ENDPOINT'' = []"
    "text_of e ''MUCYORA_ENGINE_URL'' = ''https://engine''"
    "text_of e ''MUCYORA_ENGINE_SERVICE_KEY'' = replicate 32 (CHR ''e'')"
    "text_of e ''MUCYORA_USER_SERVICE_KEY'' = replicate 32 (CHR ''f'')"
    "text_of e ''MUCYORA_SIGNATURE_SERVICE_KEY'' = replicate 32 (CHR ''g'')"
    "text_of e ''MUCYORA_AUTH_RECOVERY_SERVICE_KEY'' = replicate 32 (CHR ''h'')"
    "text_of e ''MUCYORA_OPERATIONS_SERVICE_KEY'' = replicate 32 (CHR ''i'')"
    "flag_of e ''COOKIE_SECURE''" "flag_of e ''READINESS_REDIS_REQUIRED''" "\<not> flag_of e ''ENABLE_SWAGGER''"
    "\<not> flag_of e ''MAIL_OUTBOX_WORKER_ENABLED''" "\<not> flag_of e ''COMPROMISED_PASSWORD_CHECK_ENABLED''"
    "\<not> flag_of e ''OTEL_ENABLED''"
  unfolding text_of_def flag_of_def
  by (simp_all add: sample_setting [OF assms] schema_entries sample_values_def sample_group_def read_flag_def sample_platform_def put_nat_0
      char_classes)

lemma sample_keys_parse:
  "rsa_public_key sample_env k = Some True"
  "parsePreviousSigningKeys sample_env (put_json (JArr [])) k = Inr []"
proof -
  show "rsa_public_key sample_env k = Some True" by (simp add: sample_env_def)
  have "parse_json sample_env (put_json (JArr [])) = Some (JArr [])"
    by (simp add: sample_env_def read_put_json del: put_json.simps)
  then show "parsePreviousSigningKeys sample_env (put_json (JArr [])) k = Inr []"
    by (simp add: parsePreviousSigningKeys_def del: put_json.simps)
qed

lemma sample_environment:
  obtains e where "validateEnvironment sample_env sample_platform sample_values = Inr e" and "production e"
proof -
  obtain e where r: "read_settings sample_env sample_platform sample_values environmentSchema = Some e"
    using sample_settings_read by blast
  note v = sample_texts [OF r]
  have p: "production e" by (simp add: production_def v)
  have url: "cpl_url sample_platform u = Some (sample_url u)" "cpl_decode_component sample_platform u = Some u" for u
    by (simp_all add: sample_platform_def)
  have keys: "encoded_keys e = map sample_key [CHR ''a'', CHR ''b'', CHR ''c'', CHR ''d'']"
    "internal_service_keys e = map (replicate 32) [CHR ''f'', CHR ''g'', CHR ''h'', CHR ''i'']"
    by (simp_all add: encoded_keys_def internal_service_keys_def v)
  have "assertEncodedKeys e = Inr ()"
    by (simp add: assertEncodedKeys_def all_checks_Inr keys sample_key_decodes)
  moreover have "assertCitizenProviderUrl sample_platform e = Inr ()" "assertRedisUrl sample_platform e = Inr ()"
    "assertMailConfiguration sample_platform e = Inr ()"
    by (simp_all add: assertCitizenProviderUrl_def assertRedisUrl_def assertMailConfiguration_def with_url_def v url
        all_checks_Inr sample_url_def plain_url_def web_url_def)
  moreover have "assertVerificationConfiguration sample_platform e = Inr ()"
    by (simp add: assertVerificationConfiguration_def with_url_def v url all_checks_Inr sample_url_def plain_url_def Let_def keys)
  moreover have "assertAdvancedSecurityConfiguration sample_platform e = Inr ()"
    by (simp add: assertAdvancedSecurityConfiguration_def v url all_checks_Inr sample_url_def Let_def trim_def char_class_defs)
  moreover have "signing_keys_valid sample_env sample_platform e"
    by (simp add: signing_keys_valid_def v sample_platform_def sample_keys_parse trim_def char_class_defs
        del: put_json.simps)
  then have "assertAuthSigningConfiguration sample_env sample_platform e = Inr ()"
    by (simp add: assertAuthSigningConfiguration_def all_checks_Inr v)
  moreover have "parseAllowedOrigins sample_platform (text_of e ''CORS_ALLOWED_ORIGINS'') = Inr [''https://app'']"
    by (simp add: parseAllowedOrigins_def v isHttpOrigin_def url sample_url_def web_url_def Let_def trim_def char_class_defs)
  moreover have "assertRuntimeDatabaseRole sample_platform (text_of e ''DATABASE_URL'') = Inr ()"
    by (simp add: assertRuntimeDatabaseRole_def with_url_def v url sample_url_def)
  ultimately have "all_checks (config_checks sample_env sample_platform e) = Inr ()"
    by (simp add: config_checks_def all_checks_Inr v)
  then have "validateEnvironment sample_env sample_platform sample_values = Inr e"
    by (simp add: validateEnvironment_def r)
  then show ?thesis using p by (rule that)
qed

end
