(* ===== verification/Guarantees.thy ===== *)
theory Guarantees
  imports Passkeys Edge Delivery SampleConfiguration
begin

text \<open>
  The guarantees of registration, identity verification, step-up assertions, the mail outbox, the
  operational jobs, passkeys and the configuration, each with an input at which it applies.
\<close>

definition sample_principal :: principal where
  "sample_principal = \<lparr>prn_sub = ''user-1'', prn_sid = ''session-1''\<rparr>"

lemma sample_principal_simps [simp]:
  "prn_sub sample_principal = ''user-1''" "prn_sid sample_principal = ''session-1''"
  by (simp_all add: sample_principal_def)

text \<open>A request environment that reads a validated environment.\<close>

definition configured_env :: "environment \<Rightarrow> env" where
  "configured_env e = sample_env\<lparr>cfg_num := (\<lambda>k. nat (num_of e k)), cfg_flag := flag_of e, cfg_str := text_of e\<rparr>"

lemma configured_env: "configured (configured_env e) e"
  by (simp add: configured_def configured_env_def)

lemma schema_counts:
  "map_of environmentSchema ''RECOVERY_CODE_COUNT'' = Some (Number_Setting 6 12 8)"
  "map_of environmentSchema ''OUTBOX_DELIVERY_CONCURRENCY'' = Some (Number_Setting 1 16 4)"
  by (simp_all only: schema_defs)

section \<open>Identity verification\<close>

text \<open>An attempt that waits for its submission, its document and the engine's answer.\<close>

definition waiting_attempt :: attempt_row where
  "waiting_attempt = \<lparr>att_id = ''attempt-1'', att_userId = ''user-1'', att_purpose = ACCOUNT_ENROLLMENT,
     att_status = Attempt_MEDIA_PENDING, att_policyVersion = ''policy-1'', att_documentBindingVerified = True,
     att_attemptNumber = 1, att_ipHash = ''ip'', att_userAgentHash = ''ua'', att_startedAt = 1,
     att_completedAt = None, att_retryAfter = None, att_reasonCode = None,
     att_livenessSessionId = Some ''liveness-1'', att_engineRequestId = None, att_faceSimilarity = None,
     att_livenessConfidence = None, att_compositeScore = None\<rparr>"

definition document_row :: "string \<Rightarrow> media_row" where
  "document_row reference = \<lparr>med_id = ''media-1'', med_attemptId = ''attempt-1'', med_mediaType = ID_DOCUMENT,
     med_reference = reference, med_referenceDigest = None, med_objectVersion = Some ''v1'',
     med_checksum = ''sum'', med_contentType = ''image/jpeg'', med_sizeBytes = 1, med_expiresAt = 2,
     med_deletedAt = None, med_nextDeletionAttemptAt = 0, med_deletionAttemptCount = 0,
     med_lastDeletionError = None, med_legalHoldUntil = None\<rparr>"

definition engine_says :: "string \<Rightarrow> signed_request \<Rightarrow> engine_reply" where
  "engine_says decision request = Engine_Body (JObj [(''decision'', JStr decision),
     (''policyVersion'', JStr ''policy-1''), (''documentBindingVerified'', JBool True),
     (''reasonCode'', JStr ''CHECKED''), (''evaluatedAt'', JStr ''now'')])"

definition said_evaluation :: "engine_decision \<Rightarrow> engine_evaluation" where
  "said_evaluation decision = \<lparr>evl_decision = decision, evl_policyVersion = ''policy-1'',
     evl_faceSimilarity = None, evl_livenessConfidence = None, evl_compositeScore = None,
     evl_documentBindingVerified = True, evl_reasonCode = ''CHECKED'', evl_evaluatedAt = ''now''\<rparr>"

definition empty_storage :: storage where
  "empty_storage = \<lparr>sto_head = (\<lambda>_. None), sto_list = (\<lambda>_ _. Some ([], None)), sto_fails = (\<lambda>_. False), sto_deleted = []\<rparr>"

definition identity_db :: "string \<Rightarrow> identity_status \<Rightarrow> db" where
  "identity_db reference status = sample_db\<lparr>users := [sample_user\<lparr>usr_identityStatus := status\<rparr>],
     attempts := [waiting_attempt], media := [document_row reference]\<rparr>"

lemma sample_seals:
  obtains s where "seal sample_env i t p = Inr s" and "open_sealed sample_env s p = Inr t"
proof -
  have "length (random_bytes sample_env i 12) = 12" by simp
  then obtain s where s: "seal sample_env i t p = Inr s" using seal_total by blast
  from that [OF s open_seal(1) [OF sample_json sample_gcm s]] show thesis .
qed

lemma engine_says_evaluation:
  assumes "map_of decision_texts answer = Some decision"
  shows "evaluate sample_env (engine_says answer) i input = Inr (said_evaluation decision)"
  using assms
  by (simp add: evaluate_def engine_request_def engine_says_def evaluationSchema_def only_members_def
      evaluation_members_def joi_decision_def required_field_def joi_strict_def joi_score_def joi_boolean_def
      joi_iso_kept_def joi_iso_def sample_env_def evaluation_of_fields_def said_evaluation_def)

lemma identity_db_submission:
  assumes "open_sealed sample_env reference Verification_Media_Reference = Inr key"
    and "map_of decision_texts answer = Some decision"
  shows "submit_read sample_env sample_principal ''attempt-1'' (identity_db reference status)
      = Inr (waiting_attempt, document_row reference)"
    and "ask_engine sample_env (engine_says answer) sample_principal ''attempt-1'' waiting_attempt (document_row reference)
      = Inr (Inr (said_evaluation decision))"
  using assms
  by (simp_all add: submit_read_def identity_db_def waiting_attempt_def document_row_def truthy_text_def
      retry_later_def take_rows_def ask_engine_def engine_says_evaluation)

text \<open>C2. A submission makes a user verified only for the caller's own enrolment attempt: the attempt of the
  submission is a row of the caller that was open, the one row that the claim takes is the caller's, and its
  document is there; and only when the engine's validated answer to it is \<open>PASS\<close> on a bound document, under
  the policy the attempt was opened with, and is at most five minutes old.\<close>

theorem verification_needs_pass:
  assumes "submit E post date_ms claims k ctx d st = (res, d', st')"
    and "x \<in> set (users d')" and "x \<notin> set (users d)" and "usr_identityStatus x = Identity_VERIFIED"
  shows "usr_id x = prn_sub claims
    \<and> (\<exists>a m v t. a \<in> set (attempts d) \<and> att_id a = k \<and> att_userId a = prn_sub claims
         \<and> att_purpose a = ACCOUNT_ENROLLMENT \<and> att_status a \<in> {Attempt_MEDIA_PENDING, Attempt_PROVIDER_UNAVAILABLE}
         \<and> count_rows (\<lambda>b. att_id b = k \<and> att_userId b = prn_sub claims \<and> att_status b = att_status a) (attempts d) = 1
         \<and> m \<in> set (media d) \<and> med_attemptId m = k \<and> med_mediaType m = ID_DOCUMENT \<and> med_deletedAt m = None
         \<and> ask_engine E post claims k a m = Inr (Inr v)
         \<and> evl_decision v = Decision_PASS \<and> evl_documentBindingVerified v
         \<and> evl_policyVersion v = att_policyVersion a
         \<and> date_ms (evl_evaluatedAt v) = Some t \<and> \<bar>clock E 3 - t\<bar> \<le> 300000)"
proof (rule submit_verifies [OF assms])
  fix a m v t
  assume r: "submit_read E claims k d = Inr (a, m)"
    and one: "count_rows (claimed_by claims k (att_status a)) (attempts d) = 1"
    and rest: "usr_id x = prn_sub claims" "ask_engine E post claims k a m = Inr (Inr v)"
      "att_purpose a = ACCOUNT_ENROLLMENT" "evl_decision v = Decision_PASS" "evl_documentBindingVerified v"
      "evl_policyVersion v = att_policyVersion a" "date_ms (evl_evaluatedAt v) = Some t" "\<bar>clock E 3 - t\<bar> \<le> 300000"
  have claim: "claimed_by claims k s = (\<lambda>b. att_id b = k \<and> att_userId b = prn_sub claims \<and> att_status b = s)" for s
    by (simp add: claimed_by_def fun_eq_iff)
  from submit_read_InrD [OF r] one rest show ?thesis unfolding claim by blast
qed

theorem verification_needs_pass_witness:
  "\<exists>d res d' st' x. submit sample_env (engine_says ''PASS'') (\<lambda>_. Some 1000000) sample_principal ''attempt-1''
      sample_ctx d empty_storage = (res, d', st')
    \<and> x \<in> set (users d') \<and> x \<notin> set (users d) \<and> usr_identityStatus x = Identity_VERIFIED
    \<and> usr_id x = ''user-1''"
proof -
  obtain reference where o: "open_sealed sample_env reference Verification_Media_Reference = Inr ''object''"
    by (rule sample_seals)
  let ?d = "identity_db reference Identity_PENDING" and ?v = "said_evaluation Decision_PASS"
  note sub = identity_db_submission [OF o, where answer = "''PASS''" and decision = Decision_PASS]
  obtain res d' st' where r: "submit sample_env (engine_says ''PASS'') (\<lambda>_. Some 1000000) sample_principal
      ''attempt-1'' sample_ctx ?d empty_storage = (res, d', st')"
    and u: "users d' = (if att_purpose waiting_attempt = ACCOUNT_ENROLLMENT
      then update_rows (\<lambda>u. usr_id u = prn_sub sample_principal) (settle_user ?v 1000000) (users ?d) else users ?d)"
    by (rule submit_outcome [of ?d sample_env sample_principal "''attempt-1''" waiting_attempt "document_row reference"
          "engine_says ''PASS''" ?v "\<lambda>_. Some 1000000" 1000000 sample_ctx empty_storage])
      (use sub in \<open>simp_all add: decision_texts_def identity_db_def waiting_attempt_def usable_evaluation_def
        said_evaluation_def sample_user_def\<close>)
  let ?x = "settle_user ?v 1000000 (sample_user\<lparr>usr_identityStatus := Identity_PENDING\<rparr>)"
  have x: "?x \<in> set (users d')" "?x \<notin> set (users ?d)" "usr_identityStatus ?x = Identity_VERIFIED"
    by (simp_all add: u identity_db_def waiting_attempt_def sample_user_def settle_user_def said_evaluation_def Let_def)
  from verification_needs_pass [OF r x] r x show ?thesis by auto
qed

text \<open>C29. A verified user does not stay verified: the submission of another enrolment attempt that is still
  open to it (\<open>PROVIDER_UNAVAILABLE\<close> attempts are) and that the engine does not pass takes the status
  back, while \<open>isIdVerified\<close> and \<open>idVerifiedAt\<close> keep saying that the identity is verified.\<close>

theorem resubmission_downgrades:
  assumes "distinct (map att_id (attempts d))" and "submit_read E claims k d = Inr (a, m)"
    and "att_purpose a = ACCOUNT_ENROLLMENT"
    and "ask_engine E post claims k a m = Inr (Inr v)" and "date_ms (evl_evaluatedAt v) = Some t"
    and "usable_evaluation (clock E 3) a v (Some t)" and "evl_decision v \<noteq> Decision_PASS"
    and "u \<in> set (users d)" and "usr_id u = prn_sub claims" and "usr_identityStatus u = Identity_VERIFIED"
  shows "\<exists>res d' st'. submit E post date_ms claims k ctx d st = (Inr res, d', st')
    \<and> (\<exists>u' \<in> set (users d'). usr_id u' = usr_id u \<and> usr_identityStatus u' \<noteq> Identity_VERIFIED
         \<and> usr_isIdVerified u' = usr_isIdVerified u \<and> usr_idVerifiedAt u' = usr_idVerifiedAt u)"
proof -
  have f: "find_row (\<lambda>u. usr_id u = prn_sub claims) (users d) \<noteq> None"
    using assms(8,9) by (auto simp: find_None_iff)
  obtain d' st' where r: "submit E post date_ms claims k ctx d st
      = (Inr (attemptSelect (completed_row E v t (claimed_row E a))), d', st')"
    and us: "users d' = update_rows (\<lambda>u. usr_id u = prn_sub claims) (settle_user v t) (users d)"
    by (rule submit_outcome [OF assms(1,2,4) _ assms(6), where date_ms = date_ms and ctx = ctx and st = st])
      (use f in \<open>simp_all add: assms(3,5)\<close>)
  have "snd (mapDecision (evl_decision v)) \<noteq> Identity_VERIFIED"
    using assms(7) by (cases "evl_decision v") simp_all
  then have "usr_identityStatus (settle_user v t u) \<noteq> Identity_VERIFIED"
    "usr_isIdVerified (settle_user v t u) = usr_isIdVerified u" "usr_idVerifiedAt (settle_user v t u) = usr_idVerifiedAt u"
    "usr_id (settle_user v t u) = usr_id u"
    by (simp_all add: settle_user_def Let_def)
  moreover have "settle_user v t u \<in> set (users d')"
    using assms(8,9) unfolding us set_update_rows by (auto intro!: image_eqI [of _ _ u])
  ultimately show ?thesis using r by blast
qed

theorem resubmission_downgrades_witness:
  "\<exists>d res d' st'. users d = [sample_user] \<and> usr_identityStatus sample_user = Identity_VERIFIED
    \<and> submit sample_env (engine_says ''FAIL'') (\<lambda>_. Some 1000000) sample_principal ''attempt-1''
      sample_ctx d empty_storage = (Inr res, d', st')
    \<and> (\<exists>u' \<in> set (users d'). usr_identityStatus u' \<noteq> Identity_VERIFIED \<and> usr_isIdVerified u')"
proof -
  obtain reference where o: "open_sealed sample_env reference Verification_Media_Reference = Inr ''object''"
    by (rule sample_seals)
  let ?d = "identity_db reference Identity_VERIFIED" and ?v = "said_evaluation Decision_FAIL"
  note sub = identity_db_submission [OF o, where answer = "''FAIL''" and decision = Decision_FAIL]
  have u: "users ?d = [sample_user]" "usr_identityStatus sample_user = Identity_VERIFIED" "usr_isIdVerified sample_user"
    by (simp_all add: identity_db_def sample_user_def)
  have "\<exists>res d' st'. submit sample_env (engine_says ''FAIL'') (\<lambda>_. Some 1000000) sample_principal ''attempt-1''
      sample_ctx ?d empty_storage = (Inr res, d', st')
    \<and> (\<exists>u' \<in> set (users d'). usr_id u' = usr_id sample_user \<and> usr_identityStatus u' \<noteq> Identity_VERIFIED
         \<and> usr_isIdVerified u' = usr_isIdVerified sample_user \<and> usr_idVerifiedAt u' = usr_idVerifiedAt sample_user)"
    by (rule resubmission_downgrades [OF _ sub(1) _ sub(2)])
      (simp_all add: decision_texts_def identity_db_def waiting_attempt_def usable_evaluation_def
        said_evaluation_def sample_user_def)+
  with u show ?thesis by metis
qed

text \<open>
  What may happen between the queries of a start and its writes: the writes of other starts, whatever
  they read and whenever, the parts of the other requests that change attempts, the jobs, and anything that
  leaves the table of attempts alone.  The number counts the starts of the user \<open>u\<close> among them.
\<close>

inductive meanwhile :: "string \<Rightarrow> db \<Rightarrow> nat \<Rightarrow> db \<Rightarrow> bool" for u d where
  nothing: "meanwhile u d 0 d"
| start: "meanwhile u d n d1 \<Longrightarrow> attempt_create E claims ctx latest d1 = (res, d2)
    \<Longrightarrow> meanwhile u d (n + (if succeeded res \<and> prn_sub claims = u then 1 else 0)) d2"
| liveness: "meanwhile u d n d1 \<Longrightarrow> createLivenessSession E post claims k d1 = (lres, d2) \<Longrightarrow> meanwhile u d n d2"
| claim: "meanwhile u d n d1 \<Longrightarrow> submit_claim E claims k status d1 = (cres, d2) \<Longrightarrow> meanwhile u d n d2"
| finish: "meanwhile u d n d1 \<Longrightarrow> submit_finish E date_ms claims k a answer ctx d1 st = (res, d2, st2)
    \<Longrightarrow> meanwhile u d n d2"
| step_up: "meanwhile u d n d1 \<Longrightarrow> createChallenge E claims input ctx d1 = (sres, d2) \<Longrightarrow> meanwhile u d n d2"
| job: "meanwhile u d n (ops_db s) \<Longrightarrow> job \<in> set (cycle_jobs E now) \<Longrightarrow> job s = (m, s2) \<Longrightarrow> meanwhile u d n (ops_db s2)"
| elsewhere: "meanwhile u d n d1 \<Longrightarrow> attempts d2 = attempts d1 \<Longrightarrow> meanwhile u d n d2"

lemma cycle_job_starts:
  assumes "job \<in> set (cycle_jobs E now)" and "job s = (m, s2)"
  shows "enrolment_starts u (ops_db s2) = enrolment_starts u (ops_db s)"
proof -
  have e: "enrolment_starts u (expire_attempts_of now ids d) = enrolment_starts u d" for ids d
    by (rule enrolment_starts_update [where f = "\<lambda>a. a\<lparr>att_status := Attempt_EXPIRED, att_completedAt := Some now,
        att_reasonCode := Some ''ATTEMPT_EXPIRED''\<rparr>"]) (simp_all add: same_enrolment_def enrolment_of_def expire_attempts_of_def)
  have "enrolment_starts u (ops_db (snd (job s))) = enrolment_starts u (ops_db s)"
    using assms(1) unfolding cycle_jobs_def
    by (auto simp: delete_email_tokens_def delete_reset_requests_def delete_legacy_tokens_def delete_idempotency_def
        delete_refresh_tokens_def expireSessions_def expire_sessions_of_def deleteRetainedSessions_def
        expireStaleAttempts_def deleteRetainedSecurityEvents_def delete_step_ups_def count_dead_letters_def
        count_pending_def Let_def split_beta e [unfolded enrolment_starts_def] enrolment_starts_def)
  then show ?thesis by (simp add: assms(2))
qed

lemma meanwhile_recent:
  assumes "meanwhile u d n d1"
  shows "started_recently E u d1 \<le> started_recently E u d + n"
  using assms
proof induction
  case (start n d1 E' claims ctx latest res d2)
  then show ?case using attempt_create_starts [OF start(2), of u] by (auto simp: started_recently_def)
next
  case (liveness n d1 E' post claims k lres d2)
  then show ?case using createLivenessSession_starts [OF liveness(2)] by (simp add: started_recently_def)
next
  case (claim n d1 E' claims k status cres d2)
  then show ?case using submit_claim_starts [OF claim(2)] by (simp add: started_recently_def)
next
  case (finish n d1 E' date_ms claims k a answer ctx st res d2 st2)
  then show ?case using submit_finish_starts [of u E' date_ms claims k a answer ctx d1 st]
    by (simp add: started_recently_def)
next
  case (step_up n d1 E' claims input ctx sres d2)
  then show ?case using createChallenge_starts [OF step_up(2)] by (simp add: started_recently_def)
next
  case (job n s job E' now m s2)
  then show ?case using cycle_job_starts [OF job(2,3), of u] by (simp add: started_recently_def)
next
  case (elsewhere n d1 d2)
  then show ?case by (simp add: started_recently_def enrolment_starts_def)
qed simp

text \<open>C19. A start of an enrolment attempt is written only if, when it read them, fewer than
  \<open>VERIFICATION_MAX_ATTEMPTS\<close> attempts of its user had started within the window; so that after it at most
  that many have, and one more for every start of the same user that was written between its reading and
  its writing, whatever else requests and jobs did meanwhile.  A start that nothing comes between keeps the
  maximum, and one of a user who has reached it is refused and writes nothing.\<close>

theorem attempts_bounded:
  assumes "attempt_read E (prn_sub claims) d = Inr latest" and "meanwhile (prn_sub claims) d n d1"
    and "attempt_create E claims ctx latest d1 = (Inr a, d2)"
  shows "started_recently E (prn_sub claims) d < cfg_num E ''VERIFICATION_MAX_ATTEMPTS''
    \<and> started_recently E (prn_sub claims) d2 \<le> cfg_num E ''VERIFICATION_MAX_ATTEMPTS'' + n
    \<and> (\<forall>res e e'. createAttempt E claims ctx e = (res, e') \<longrightarrow>
          (if succeeded res then started_recently E (prn_sub claims) e' \<le> cfg_num E ''VERIFICATION_MAX_ATTEMPTS''
           else e' = e)
          \<and> (cfg_num E ''VERIFICATION_MAX_ATTEMPTS'' \<le> started_recently E (prn_sub claims) e \<longrightarrow> \<not> succeeded res))"
proof (intro conjI allI impI)
  show "started_recently E (prn_sub claims) d < cfg_num E ''VERIFICATION_MAX_ATTEMPTS''"
    by (rule attempt_read_counts [OF assms(1)])
  show "started_recently E (prn_sub claims) d2 \<le> cfg_num E ''VERIFICATION_MAX_ATTEMPTS'' + n"
    using attempt_read_counts [OF assms(1)] meanwhile_recent [OF assms(2), of E] attempt_create_recent [OF assms(3), of "prn_sub claims"]
    by linarith
next
  fix res e e'
  assume c: "createAttempt E claims ctx e = (res, e')"
  have ok: "started_recently E (prn_sub claims) e < cfg_num E ''VERIFICATION_MAX_ATTEMPTS''
      \<and> started_recently E (prn_sub claims) e' \<le> started_recently E (prn_sub claims) e + 1" if r: "res = Inr x" for x
  proof -
    obtain l where "attempt_read E (prn_sub claims) e = Inr l" "attempt_create E claims ctx l e = (Inr x, e')"
      using c r unfolding createAttempt_def
      by (auto simp: transact_def split: prod.split_asm sum.split_asm)
    then show ?thesis using attempt_read_counts attempt_create_recent by blast
  qed
  show "if succeeded res then started_recently E (prn_sub claims) e' \<le> cfg_num E ''VERIFICATION_MAX_ATTEMPTS'' else e' = e"
    using c ok by (cases res) (auto simp: createAttempt_def dest: transact_rolls_back)
  show "\<not> succeeded res" if "cfg_num E ''VERIFICATION_MAX_ATTEMPTS'' \<le> started_recently E (prn_sub claims) e"
    using ok that by (cases res) auto
qed

definition enrol_db :: db where
  "enrol_db = sample_db\<lparr>users := [sample_user\<lparr>usr_identityStatus := Identity_PENDING\<rparr>],
     identities := [\<lparr>cit_id = ''citizen-1'', cit_userId = ''user-1'', cit_encryptedIdentifier = ''e'',
       cit_lookupDigest = ''l'', cit_maskedIdentifier = ''m'', cit_sourceReference = None, cit_verifiedAt = Some 1,
       cit_surName = ''S'', cit_postNames = ''P'', cit_sex = ''F'', cit_dateOfBirth = 0, cit_countryOfBirth = ''C''\<rparr>],
     consents := [\<lparr>con_id = ''consent-1'', con_userId = ''user-1'', con_type = BIOMETRIC_PROCESSING,
       con_policyVersion = ''1'', con_grantedAt = 1, con_revokedAt = None\<rparr>]\<rparr>"

lemma enrol_db_starts: "attempt_read sample_env ''user-1'' enrol_db = Inr 0"
  by (simp add: attempt_read_def attempt_refusal_def enrol_db_def attempt_eligible_def sample_user_def Let_def
      take_rows_def latest_number_def latest_enrolment_def take_rows_desc_def retry_later_def sample_env_def sample_numbers_def)

theorem attempts_bounded_witness:
  "\<exists>a d2. attempt_create sample_env sample_principal sample_ctx 0 enrol_db = (Inr a, d2)
    \<and> started_recently sample_env ''user-1'' d2 \<le> 3"
proof -
  obtain a d2 where c: "attempt_create sample_env sample_principal sample_ctx 0 enrol_db = (Inr a, d2)"
    by (simp add: attempt_create_def Let_def enrol_db_def sample_user_def)
  have "cfg_num sample_env ''VERIFICATION_MAX_ATTEMPTS'' = 3" by (simp add: sample_env_def sample_numbers_def)
  then show ?thesis
    using attempts_bounded [of sample_env sample_principal enrol_db 0 0 enrol_db, OF _ meanwhile.nothing c] c
    by (auto simp: enrol_db_starts)
qed

section \<open>Registration\<close>

text \<open>C9. Of the registrations that opened the same challenge, in whatever order their transactions run, at
  most one succeeds; one that succeeds creates one pending account for the challenge's citizen and
  asks for the verification of its address, and signs nobody in.\<close>

theorem challenge_registers_once:
  assumes "challenge_ids d" and "list_all (register_of k) as"
  shows "length (wins register_attempt as d) \<le> 1
    \<and> (\<forall>E dft g res d'. register_transaction E dft g d = (Inr res, d') \<longrightarrow>
         (\<exists>u i. users d' = users d @ [u] \<and> usr_accountStatus u = Account_PENDING_EMAIL_VERIFICATION
            \<and> usr_emailVerifiedAt u = None \<and> usr_emailNormalized u = prg_emailNormalized g
            \<and> usr_emailNormalized u \<notin> usr_emailNormalized ` set (users d)
            \<and> identities d' = identities d @ [i] \<and> cit_userId i = usr_id u
            \<and> cit_lookupDigest i = chl_lookupDigest (prg_challenge g)
            \<and> (\<exists>e. outbox d' = outbox d @ [e] \<and> obx_eventType e = ''EMAIL_VERIFICATION_REQUESTED'')
            \<and> sessions d' = sessions d \<and> refresh_tokens d' = refresh_tokens d))"
proof (intro conjI allI impI)
  show "length (wins register_attempt as d) \<le> 1" by (rule rg.at_most_one_win [OF assms])
  fix E dft g res d'
  assume "register_transaction E dft g d = (Inr res, d')"
  then obtain user where "register_body E dft g d = (Inr user, d')"
    using register_transaction_InrD by blast
  then have reg: "registered g user d d'" by (rule register_body_registered)
  then obtain i where "identities d' = identities d @ [i]" "cit_userId i = usr_id user"
    "cit_lookupDigest i = chl_lookupDigest (prg_challenge g)" unfolding registered_def by blast
  moreover obtain e where "outbox d' = outbox d @ [e]" "obx_eventType e = ''EMAIL_VERIFICATION_REQUESTED''"
    using reg unfolding registered_def by blast
  ultimately show "\<exists>u i. users d' = users d @ [u] \<and> usr_accountStatus u = Account_PENDING_EMAIL_VERIFICATION
      \<and> usr_emailVerifiedAt u = None \<and> usr_emailNormalized u = prg_emailNormalized g
      \<and> usr_emailNormalized u \<notin> usr_emailNormalized ` set (users d)
      \<and> identities d' = identities d @ [i] \<and> cit_userId i = usr_id u
      \<and> cit_lookupDigest i = chl_lookupDigest (prg_challenge g)
      \<and> (\<exists>e. outbox d' = outbox d @ [e] \<and> obx_eventType e = ''EMAIL_VERIFICATION_REQUESTED'')
      \<and> sessions d' = sessions d \<and> refresh_tokens d' = refresh_tokens d"
    using reg unfolding registered_def by (intro exI [of _ user] exI [of _ i]) simp
qed

definition sample_challenge :: challenge_row where
  "sample_challenge = \<lparr>chl_id = ''challenge-1'', chl_lookupDigest = ''lookup'', chl_emailNormalized = ''c@d.rw'',
     chl_status = Challenge_PENDING, chl_snapshotEncrypted = ''s'', chl_snapshotDigest = ''d'',
     chl_expiresAt = 90000000, chl_consumedAt = None, chl_attemptCount = 0, chl_createdIpHash = ''ip''\<rparr>"

definition sample_citizen :: citizen where
  "sample_citizen = \<lparr>ctz_providerReference = None, ctz_nationality = ''RWANDA'', ctz_surname = ''S'',
     ctz_givenNames = ''G'', ctz_dateOfBirth = ''1990-01-01'', ctz_sex = ''F'', ctz_documentStatus = ''VALID'',
     ctz_portraitReference = None, ctz_sourceUpdatedAt = None\<rparr>"

definition sample_registration :: "string \<Rightarrow> prepared_registration" where
  "sample_registration key = \<lparr>prg_key = key, prg_requestDigest = ''request'', prg_challenge = sample_challenge,
     prg_nationalId = ''1199080012345678'', prg_citizen = sample_citizen, prg_emailNormalized = ''c@d.rw'',
     prg_passwordHash = ''argon2:p'', prg_consents = [], prg_emailToken = \<lparr>tok_token = ''t'', tok_digest = key\<rparr>,
     prg_encryptedEmailToken = ''et'', prg_encryptedIdentifier = ''ei'', prg_ipHash = ''ip'',
     prg_correlationId = ''request-1''\<rparr>"

definition sample_columns :: row_defaults where
  "sample_columns = \<lparr>dft_user = sample_user, dft_credential = sample_credential\<rparr>"

definition challenge_db :: db where
  "challenge_db = sample_db\<lparr>challenges := [sample_challenge]\<rparr>"

theorem challenge_registers_once_witness:
  "length (wins register_attempt [(sample_env, sample_columns, sample_registration ''first''),
     (sample_env, sample_columns, sample_registration ''second'')] challenge_db) \<le> 1"
  using challenge_registers_once [of challenge_db "''challenge-1''"
      "[(sample_env, sample_columns, sample_registration ''first''),
        (sample_env, sample_columns, sample_registration ''second'')]"]
  by (simp add: challenge_ids_def challenge_db_def register_of_def sample_registration_def sample_challenge_def)

definition sample_request_input :: registration_input where
  "sample_request_input = \<lparr>rgi_token = [], rgi_email = ''c@d.rw'', rgi_password = ''secret'', rgi_consents = []\<rparr>"

definition sample_registration_ctx :: registration_context where
  "sample_registration_ctx = \<lparr>rgc_correlationId = ''request-1'', rgc_ipAddress = ''10.0.0.1'', rgc_idempotencyKey = ''key''\<rparr>"

lemma empty_token_refused:
  "\<exists>e. register sample_env sample_columns sample_request_input sample_registration_ctx challenge_db sample_redis
    = (Inl e, challenge_db, sample_redis)"
  by (simp add: register_def sample_request_input_def challenge_resolve_def)

text \<open>A registration keeps accounts unique: identifiers, addresses and citizens each name one account,
  before and after it, whether it commits or fails.\<close>

lemma registration_keeps_unique:
  assumes "accounts_unique d" and "id_laws E" and "register E dft input ctx d r = (res, d', r')"
  shows "distinct (map usr_id (users d')) \<and> distinct (map usr_emailNormalized (users d'))
    \<and> distinct (map cit_lookupDigest (identities d'))"
proof -
  have "d' = d \<or> (\<exists>g res'. register_transaction E dft g d = (res', d'))"
    using assms(3) by (auto simp: register_def register_checked_def Let_def
        split: sum.split_asm option.split_asm prod.split_asm)
  then have "accounts_unique d'" using register_transaction_unique [OF assms(1,2)] assms(1) by blast
  then show ?thesis by (simp add: accounts_unique_def)
qed

lemma registration_keeps_unique_witness:
  "\<exists>res d' r'. register sample_env sample_columns sample_request_input sample_registration_ctx challenge_db sample_redis
      = (res, d', r') \<and> distinct (map usr_emailNormalized (users d'))"
proof -
  obtain e where r: "register sample_env sample_columns sample_request_input sample_registration_ctx challenge_db sample_redis
    = (Inl e, challenge_db, sample_redis)" using empty_token_refused by blast
  have "accounts_unique challenge_db" by (simp add: accounts_unique_def challenge_db_def)
  from registration_keeps_unique [OF this sample_ids r] r show ?thesis by blast
qed

text \<open>C40. A registration that is refused leaves the database as it was, whatever the reason, the attempt
  count of its challenge included: the count limits no failed attempt.\<close>

theorem failed_registration_changes_nothing:
  assumes "register E dft input ctx d r = (Inl e, d', r')"
  shows "d' = d \<and> map chl_attemptCount (challenges d') = map chl_attemptCount (challenges d)"
  using register_fails [OF assms] by simp

theorem failed_registration_changes_nothing_witness:
  "\<exists>e d' r'. register sample_env sample_columns sample_request_input sample_registration_ctx challenge_db sample_redis
      = (Inl e, d', r') \<and> map chl_attemptCount (challenges d') = [0]"
proof -
  obtain e where r: "register sample_env sample_columns sample_request_input sample_registration_ctx challenge_db sample_redis
    = (Inl e, challenge_db, sample_redis)" using empty_token_refused by blast
  from failed_registration_changes_nothing [OF r] r show ?thesis
    by (auto simp: challenge_db_def sample_challenge_def)
qed

section \<open>Step-up verification\<close>

definition pending_step_up :: step_up_row where
  "pending_step_up = \<lparr>sup_id = ''step-1'', sup_userId = ''user-1'', sup_sessionId = ''session-1'',
     sup_attemptId = ''attempt-1'', sup_purpose = AGREEMENT_SIGNING,
     sup_targetDigest = targetDigest sample_env AGREEMENT_SIGNING ''contract'', sup_status = StepUp_PENDING,
     sup_policyVersion = ''stepup-1'', sup_expiresAt = 90000000, sup_verifiedAt = None, sup_assertionDigest = None,
     sup_assertionEncrypted = None, sup_assertionExpiresAt = None, sup_consumedAt = None,
     sup_consumedByService = None\<rparr>"

definition verified_step_up :: step_up_row where
  "verified_step_up = pending_step_up\<lparr>sup_status := StepUp_VERIFIED, sup_verifiedAt := Some 1,
     sup_assertionDigest := Some (token_digest sample_env ''assertion''), sup_assertionEncrypted := Some ''sealed'',
     sup_assertionExpiresAt := Some 80000000\<rparr>"

definition consumed_step_up :: step_up_row where
  "consumed_step_up = verified_step_up\<lparr>sup_id := ''step-0'', sup_status := StepUp_CONSUMED,
     sup_assertionDigest := Some (token_digest sample_env ''other'')\<rparr>"

definition step_up_db :: "step_up_row list \<Rightarrow> db" where
  "step_up_db cs = sample_db\<lparr>attempts := [waiting_attempt\<lparr>att_status := Attempt_PASSED\<rparr>], step_ups := cs\<rparr>"

definition sample_consume :: "string \<Rightarrow> consume_input" where
  "sample_consume assertion = \<lparr>sui_purpose = AGREEMENT_SIGNING, sui_target = ''contract'', csi_userId = ''user-1'',
     csi_assertion = assertion\<rparr>"

lemma step_up_db_wf: "step_up_wf (step_up_db [verified_step_up, consumed_step_up])" "step_up_wf (step_up_db [pending_step_up])"
  by (simp_all add: step_up_wf_def step_up_db_def consumed_step_up_def verified_step_up_def pending_step_up_def
      token_digest_inj [OF sample_hmac])

text \<open>C8. Of the consumptions that present the same assertion, by whatever services and in whatever order, at
  most one succeeds; it is by the service the purpose names, for the user, purpose and target of a
  verified challenge, before the assertion expires.  The same holds of consumptions that have all read the
  challenge before any of them writes: of their updates at most one wins.\<close>

theorem assertion_consumed_once:
  assumes "step_up_wf d" and "list_all (presents k) as"
  shows "length (wins consume_attempt as d) \<le> 1
    \<and> (\<forall>i bs. list_all (claims_challenge i) bs \<longrightarrow> length (wins claim_attempt bs d) \<le> 1)
    \<and> (\<forall>E service input r d'. consumeAssertion E service input d = (Inr r, d') \<longrightarrow>
         (\<exists>c \<in> set (step_ups d). sup_status c = StepUp_VERIFIED
            \<and> sup_assertionDigest c = Some (token_digest E (csi_assertion input))
            \<and> PURPOSE_CONSUMERS (sup_purpose c) = Some service \<and> sup_userId c = csi_userId input
            \<and> sup_purpose c = sui_purpose input
            \<and> sup_targetDigest c = targetDigest E (sui_purpose input) (sui_target input)
            \<and> (\<exists>t. sup_assertionExpiresAt c = Some t \<and> clock E 0 < t)))"
proof (intro conjI allI impI)
  show "length (wins consume_attempt as d) \<le> 1" by (rule sa.at_most_one_win [OF assms])
  have ids: "distinct (map sup_id (step_ups d))" using assms(1) by (simp add: step_up_wf_def)
  show "length (wins claim_attempt bs d) \<le> 1" if "list_all (claims_challenge i) bs" for i bs
    by (rule ca.at_most_one_win [OF ids that])
  fix E service input r d'
  assume "consumeAssertion E service input d = (Inr r, d')"
  then show "\<exists>c \<in> set (step_ups d). sup_status c = StepUp_VERIFIED
            \<and> sup_assertionDigest c = Some (token_digest E (csi_assertion input))
            \<and> PURPOSE_CONSUMERS (sup_purpose c) = Some service \<and> sup_userId c = csi_userId input
            \<and> sup_purpose c = sui_purpose input
            \<and> sup_targetDigest c = targetDigest E (sui_purpose input) (sui_target input)
            \<and> (\<exists>t. sup_assertionExpiresAt c = Some t \<and> clock E 0 < t)"
    by (rule consumeAssertion_InrE) (auto dest: expireDue_origin)
qed

theorem assertion_consumed_once_witness:
  "length (wins consume_attempt
     [(sample_env, ''mucyora-signature'', sample_consume ''assertion''),
      (sample_env, ''mucyora-signature'', sample_consume ''assertion'')] (step_up_db [verified_step_up, consumed_step_up])) \<le> 1"
  using assertion_consumed_once [OF step_up_db_wf(1), of "token_digest sample_env ''assertion''"
      "[(sample_env, ''mucyora-signature'', sample_consume ''assertion''),
        (sample_env, ''mucyora-signature'', sample_consume ''assertion'')]"]
  by (simp add: presents_def sample_consume_def)

text \<open>C22. An assertion issued for a pending challenge whose attempt passed can be consumed: until its expiry,
  by the service of the purpose, for the same user and target, the consumption succeeds.\<close>

theorem issued_assertion_consumable:
  assumes "step_up_wf d" and "json_laws E" and "c \<in> set (step_ups d)" and "sup_status c = StepUp_PENDING"
    and "clock E 0 < sup_expiresAt c" and "sup_assertionExpiresAt c = None" and "sup_userId c = prn_sub claims"
    and "find_row (\<lambda>a. att_id a = sup_attemptId c) (attempts d) = Some a" and "att_status a = Attempt_PASSED"
    and "length (random_bytes E 1 12) = 12"
    and "\<forall>c \<in> set (step_ups d). sup_assertionDigest c \<noteq> Some (token_digest E (b64_encode (random_bytes E 0 48)))"
  shows "\<exists>x t d1. issue_round E claims (sup_id c) ctx d = (Inr (Some (x, t)), d1)
    \<and> t = min (sup_expiresAt c) (clock E 0 + seconds E ''STEP_UP_ASSERTION_TTL_SECONDS'')
    \<and> (\<forall>T service input. T 0 < t \<longrightarrow> PURPOSE_CONSUMERS (sup_purpose c) = Some service \<longrightarrow>
         csi_assertion input = x \<longrightarrow> csi_userId input = sup_userId c \<longrightarrow> sui_purpose input = sup_purpose c \<longrightarrow>
         targetDigest E (sup_purpose c) (sui_target input) = sup_targetDigest c \<longrightarrow>
         fst (consumeAssertion (E\<lparr>clock := T\<rparr>) service input d1) =
           Inr \<lparr>csa_userId = sup_userId c, csa_purpose = sup_purpose c, csa_attemptId = sup_attemptId c,
                csa_verifiedAt = Some (clock E 0), csa_consumedAt = T 0\<rparr>)"
  by (rule issued_consumable [OF assms])

theorem issued_assertion_consumable_witness:
  "\<exists>x t d1. issue_round sample_env sample_principal ''step-1'' sample_ctx (step_up_db [pending_step_up]) = (Inr (Some (x, t)), d1)
    \<and> succeeded (fst (consumeAssertion (sample_env\<lparr>clock := (\<lambda>i. 1000100)\<rparr>) ''mucyora-signature'' (sample_consume x) d1))"
proof -
  let ?d = "step_up_db [pending_step_up]"
  have row: "pending_step_up \<in> set (step_ups ?d)" "sup_status pending_step_up = StepUp_PENDING"
    "clock sample_env 0 < sup_expiresAt pending_step_up" "sup_assertionExpiresAt pending_step_up = None"
    "sup_userId pending_step_up = prn_sub sample_principal" "sup_id pending_step_up = ''step-1''"
    "sup_purpose pending_step_up = AGREEMENT_SIGNING" "sup_expiresAt pending_step_up = 90000000"
    by (simp_all add: step_up_db_def pending_step_up_def)
  have att: "find_row (\<lambda>a. att_id a = sup_attemptId pending_step_up) (attempts ?d)
      = Some (waiting_attempt\<lparr>att_status := Attempt_PASSED\<rparr>)"
    "att_status (waiting_attempt\<lparr>att_status := Attempt_PASSED\<rparr>) = Attempt_PASSED"
    by (simp_all add: step_up_db_def pending_step_up_def waiting_attempt_def)
  have fresh: "\<forall>c \<in> set (step_ups ?d). sup_assertionDigest c \<noteq> Some (token_digest sample_env (b64_encode (random_bytes sample_env 0 48)))"
    by (simp add: step_up_db_def pending_step_up_def)
  have ttl: "seconds sample_env ''STEP_UP_ASSERTION_TTL_SECONDS'' = 300000"
    by (simp add: sample_env_def sample_numbers_def)
  have bytes: "length (random_bytes sample_env 1 12) = 12" by simp
  note issued = issued_assertion_consumable [OF step_up_db_wf(2) sample_json row(1-5) att bytes fresh, of sample_ctx,
      unfolded row(6-8) ttl]
  obtain x t d1 where i: "issue_round sample_env sample_principal ''step-1'' sample_ctx ?d = (Inr (Some (x, t)), d1)"
    and t: "t = min 90000000 (clock sample_env 0 + 300000)"
    and c: "\<forall>T service input. T 0 < t \<longrightarrow> PURPOSE_CONSUMERS AGREEMENT_SIGNING = Some service \<longrightarrow>
         csi_assertion input = x \<longrightarrow> csi_userId input = sup_userId pending_step_up \<longrightarrow>
         sui_purpose input = AGREEMENT_SIGNING \<longrightarrow>
         targetDigest sample_env AGREEMENT_SIGNING (sui_target input) = sup_targetDigest pending_step_up \<longrightarrow>
         fst (consumeAssertion (sample_env\<lparr>clock := T\<rparr>) service input d1) =
           Inr \<lparr>csa_userId = sup_userId pending_step_up, csa_purpose = AGREEMENT_SIGNING,
                csa_attemptId = sup_attemptId pending_step_up,
                csa_verifiedAt = Some (clock sample_env 0), csa_consumedAt = T 0\<rparr>"
    using issued by blast
  have "succeeded (fst (consumeAssertion (sample_env\<lparr>clock := (\<lambda>i. 1000100)\<rparr>) ''mucyora-signature'' (sample_consume x) d1))"
    by (subst c [rule_format]) (simp_all add: t sample_consume_def pending_step_up_def)
  with i show ?thesis by blast
qed

text \<open>Issuing an assertion terminates: in every state the service reaches, the first call answers, and
  the recursive call after a lost race is not taken by a request that runs alone.\<close>

lemma issue_answers:
  assumes "step_up_steps d0 d" and "step_up_wf d0"
  shows "\<exists>res. issueAssertion Es n claims k ctx d = Some (res, snd (issue_round (Es n) claims k ctx d))"
  by (rule issueAssertion_answers) (rule step_up_steps_wf [OF assms])

lemma issue_answers_witness:
  "\<exists>res d'. issueAssertion (\<lambda>i. sample_env) 0 sample_principal ''step-1'' sample_ctx (step_up_db [pending_step_up]) = Some (res, d')"
  using issue_answers [OF step_up_steps.refl step_up_db_wf(2)] by blast

text \<open>C20. Through any sequence of requests, challenge identifiers stay unique, a verified challenge keeps its
  sealed assertion and its expiry, a digest names one challenge, and a challenge that is consumed,
  expired or revoked never changes again.\<close>

theorem step_up_challenges_settle:
  assumes "step_up_steps d d'" and "step_up_wf d"
  shows "distinct (map sup_id (step_ups d'))
    \<and> (\<forall>c \<in> set (step_ups d'). sup_status c = StepUp_VERIFIED \<longrightarrow>
         (\<exists>s t. sup_assertionEncrypted c = Some s \<and> s \<noteq> [] \<and> sup_assertionExpiresAt c = Some t))
    \<and> (\<forall>c \<in> set (step_ups d'). \<forall>c' \<in> set (step_ups d').
         sup_assertionDigest c \<noteq> None \<and> sup_assertionDigest c = sup_assertionDigest c' \<longrightarrow> c = c')
    \<and> (\<forall>c \<in> set (step_ups d). settled c \<longrightarrow> c \<in> set (step_ups d'))"
  using step_up_steps_wf [OF assms] step_up_steps_settled [OF assms(1)] unfolding step_up_wf_def by blast

theorem step_up_challenges_settle_witness:
  "\<exists>d'. step_up_steps (step_up_db [verified_step_up, consumed_step_up]) d' \<and> consumed_step_up \<in> set (step_ups d')"
proof -
  let ?d = "step_up_db [verified_step_up, consumed_step_up]"
  let ?d' = "snd (consumeAssertion sample_env ''mucyora-signature'' (sample_consume ''assertion'') ?d)"
  have s: "step_up_steps ?d ?d'" by (rule step_up_steps.step [OF step_up_steps.refl step_up_step.consume])
  have "consumed_step_up \<in> set (step_ups ?d)" "settled consumed_step_up"
    by (simp_all add: step_up_db_def settled_def consumed_step_up_def)
  with step_up_challenges_settle [OF s step_up_db_wf(1)] s show ?thesis by blast
qed

section \<open>External services\<close>

text \<open>As many failures in a row as the threshold says open the circuit of the citizen provider; no
  request passes before the reset timeout is over, and afterwards, until an outcome is recorded, one
  request at most.\<close>

lemma circuit_admits_one_probe:
  assumes "cfg_num E ''CITIZEN_CIRCUIT_FAILURE_THRESHOLD'' \<le> Suc (length ts)"
  shows "brk_state (failures E (ts @ [t]) breaker_new) = Circuit_open
    \<and> admissions E us (failures E (ts @ [t]) breaker_new) \<le> 1
    \<and> ((\<forall>u \<in> set us. u < t + int (cfg_num E ''CITIZEN_CIRCUIT_RESET_TIMEOUT_MS'')) \<longrightarrow>
         admissions E us (failures E (ts @ [t]) breaker_new) = 0)"
proof -
  have "brk_state (failures E (ts @ [t]) breaker_new) = Circuit_open
    \<and> brk_openedAt (failures E (ts @ [t]) breaker_new) = t"
    using failures_open [of E breaker_new ts t] assms by (simp add: breaker_new_def)
  then show ?thesis
    using admissions_not_closed [of "failures E (ts @ [t]) breaker_new" E us]
      admissions_open_early [of "failures E (ts @ [t]) breaker_new" us E] by simp
qed

lemma circuit_admits_one_probe_witness:
  "admissions sample_env [31006, 31007, 31008] (failures sample_env ([1, 2, 3, 4] @ [5]) breaker_new) \<le> 1
   \<and> admissions sample_env [6, 7] (failures sample_env ([1, 2, 3, 4] @ [5]) breaker_new) = 0"
proof -
  have n: "cfg_num sample_env ''CITIZEN_CIRCUIT_FAILURE_THRESHOLD'' = 5"
    "cfg_num sample_env ''CITIZEN_CIRCUIT_RESET_TIMEOUT_MS'' = 30000"
    by (simp_all add: sample_env_def sample_numbers_def)
  show ?thesis
    using circuit_admits_one_probe [of sample_env "[1, 2, 3, 4]" 5 "[31006, 31007, 31008]"]
      circuit_admits_one_probe [of sample_env "[1, 2, 3, 4]" 5 "[6, 7]"] unfolding n by simp
qed

text \<open>The concurrency limit of the engine client does not hold: a request that arrives between the
  release of a slot and the resumption of the request it woke takes the slot as well, so that one
  more request than the maximum runs.\<close>

lemma gate_overshoots:
  assumes "cfg_num E ''MUCYORA_ENGINE_MAX_CONCURRENCY'' = maximum" and "0 < maximum"
  shows "\<exists>g :: string gate. gate_reachable maximum g \<and> maximum < gat_active g"
  using gate_overshoot_path [OF assms(2)] by fastforce

lemma gate_overshoots_witness:
  "\<exists>g :: string gate. gate_reachable 4 g \<and> 4 < gat_active g"
  using gate_overshoots [of sample_env 4] by (simp add: sample_env_def sample_numbers_def)

text \<open>C38. The cleanup deletes only objects of documents that are past their retention, not under a legal
  hold, not already deleted, and not of an attempt under review.\<close>

theorem cleanup_respects_holds:
  assumes "x \<in> set (sto_deleted (snd (snd (deleteExpiredMediaBatch E d st))))" and "x \<notin> set (sto_deleted st)"
  shows "\<exists>m a. m \<in> set (media d) \<and> open_sealed E (med_reference m) Verification_Media_Reference = Inr (fst x)
    \<and> snd x = med_objectVersion m \<and> med_expiresAt m \<le> clock E 0 \<and> med_deletedAt m = None
    \<and> (\<forall>t. med_legalHoldUntil m = Some t \<longrightarrow> t \<le> clock E 0)
    \<and> find_row (\<lambda>a. att_id a = med_attemptId m) (attempts d) = Some a \<and> att_status a \<noteq> Attempt_REVIEW_REQUIRED"
proof -
  obtain m where m: "m \<in> set (media d)" "deletable_media (clock E 0) d m" "snd x = med_objectVersion m"
    "open_sealed E (med_reference m) Verification_Media_Reference = Inr (fst x)"
    using deleteExpiredMediaBatch_log [OF assms] by blast
  then show ?thesis
    by (intro exI [of _ m]) (auto simp: deletable_media_def not_held_def split: option.splits)
qed

theorem cleanup_respects_holds_witness:
  "\<exists>reference. (''object'', Some ''v1'') \<in> set (sto_deleted (snd (snd
      (deleteExpiredMediaBatch sample_env (identity_db reference Identity_PENDING) empty_storage))))
    \<and> (\<exists>m \<in> set (media (identity_db reference Identity_PENDING)). med_expiresAt m \<le> 1000000)"
proof -
  obtain reference where o: "open_sealed sample_env reference Verification_Media_Reference = Inr ''object''"
    by (rule sample_seals)
  let ?d = "identity_db reference Identity_PENDING"
  have n: "cfg_num sample_env ''OPERATIONAL_JOB_BATCH_SIZE'' = 50" by (simp add: sample_env_def sample_numbers_def)
  have "deletable_media (clock sample_env 0) ?d (document_row reference)"
    by (simp add: deletable_media_def identity_db_def document_row_def not_held_def waiting_attempt_def)
  then have "expired_batch sample_env ?d = [document_row reference]"
    by (simp add: expired_batch_def n take_rows_asc_def identity_db_def)
  then have x: "(''object'', Some ''v1'') \<in> set (sto_deleted (snd (snd (deleteExpiredMediaBatch sample_env ?d empty_storage))))"
    using o by (simp add: deleteExpiredMediaBatch_def delete_media_object_def deleteObject_def empty_storage_def
        document_row_def Let_def split: prod.split)
  have "(''object'', Some ''v1'') \<notin> set (sto_deleted empty_storage)" by (simp add: empty_storage_def)
  from cleanup_respects_holds [OF x this] x show ?thesis by fastforce
qed

section \<open>The mail outbox\<close>

text \<open>C16. Dispatching an event follows its contract: a delivery publishes it, a failure counts one attempt
  and gives the event up at the configured maximum, other events keep their rows, and what the
  dispatch reports is whether the message was handed over.\<close>

theorem outbox_refines_contract:
  assumes "distinct (map obx_id (outbox d))" and "event \<in> set (outbox d)" and "open_event E (clock E 0) event"
    and "dispatchEvent E p worker event (d, ml) = (sent, d', ml')"
  shows "map_option mail_state_of (mail_row (obx_id event) d')
      = Some (mail_spec (cfg_num E ''OUTBOX_MAX_ATTEMPTS'') sent (mail_state_of event))
    \<and> (\<forall>k. k \<noteq> obx_id event \<longrightarrow> mail_row k d' = mail_row k d)
    \<and> deliver E p event ml = (if sent then Inr () else fst (deliver E p event ml), ml')
    \<and> distinct (map obx_id (outbox d'))"
  using dispatchEvent_row [OF assms] by simp

definition sample_event :: outbox_row where
  "sample_event = \<lparr>obx_id = ''event-1'', obx_aggregateId = ''user-1'', obx_eventType = ''WELCOME_NEXT_STEP'',
     obx_payload = JObj [(''recipient'', JStr ''a@b.rw'')], obx_createdAt = 1, obx_attemptCount = 9,
     obx_nextAttemptAt = 1, obx_processingStartedAt = None, obx_processingBy = None, obx_publishedAt = None,
     obx_deadLetteredAt = None, obx_lastError = None\<rparr>"

definition sample_mail :: mail_platform where
  "sample_mail = \<lparr>mlp_action_url = (\<lambda>path base token. base @ path @ token), mlp_valid_email = (\<lambda>_. True)\<rparr>"

definition outbox_db :: db where
  "outbox_db = sample_db\<lparr>outbox := [sample_event]\<rparr>"

theorem outbox_refines_contract_witness:
  "\<exists>sent d' ml'. dispatchEvent sample_env sample_mail ''mail-1'' sample_event
      (outbox_db, \<lparr>mlr_accepts = (\<lambda>_. False), mlr_sent = []\<rparr>) = (sent, d', ml')
    \<and> map_option mail_state_of (mail_row ''event-1'' d') = Some (if sent then Mail_published else Mail_dead)"
proof -
  obtain sent d' ml' where r: "dispatchEvent sample_env sample_mail ''mail-1'' sample_event
      (outbox_db, \<lparr>mlr_accepts = (\<lambda>_. False), mlr_sent = []\<rparr>) = (sent, d', ml')" by (metis surj_pair)
  have "distinct (map obx_id (outbox outbox_db))" "sample_event \<in> set (outbox outbox_db)"
    by (simp_all add: outbox_db_def)
  moreover have "open_event sample_env (clock sample_env 0) sample_event"
    by (simp add: open_event_def lease_free_def sample_event_def)
  ultimately have "map_option mail_state_of (mail_row (obx_id sample_event) d')
      = Some (mail_spec (cfg_num sample_env ''OUTBOX_MAX_ATTEMPTS'') sent (mail_state_of sample_event))"
    using outbox_refines_contract [OF _ _ _ r] by blast
  moreover have "obx_id sample_event = ''event-1''" "mail_state_of sample_event = Mail_waiting 9"
    "cfg_num sample_env ''OUTBOX_MAX_ATTEMPTS'' = 10"
    by (simp_all add: sample_event_def mail_state_of_def sample_env_def sample_numbers_def)
  ultimately have "map_option mail_state_of (mail_row ''event-1'' d') = Some (if sent then Mail_published else Mail_dead)"
    by (cases sent) simp_all
  with r show ?thesis by blast
qed

text \<open>C36. In every validated environment the worker's loop over a batch ends, having dispatched the available
  events.  The deliveries of a slice run together: in whatever order their claims, their requests and their
  settlements come, once all have settled the rows, the number of published events and the requests sent are
  those of dispatching its events one after the other.\<close>

theorem outbox_loop_ends:
  assumes "validateEnvironment F P values = Inr e" and "configured E e"
  shows "dispatchAvailableEvents E p worker s = Some (dispatch_slice E p worker 0 (available_events E (fst s)) s)
    \<and> (\<forall>n evs schedule d ml fl d1 ml1. distinct (map obx_id evs)
        \<longrightarrow> concurrent_slice E p worker schedule (start_slice n evs, d, ml) = (fl, d1, ml1)
        \<longrightarrow> list_all settled_flight fl
        \<longrightarrow> (\<exists>ml2. dispatch_slice E p worker n evs (d, ml) = (length (filter published_flight fl), d1, ml2)
              \<and> mset (mlr_sent ml1) = mset (mlr_sent ml2)))"
proof -
  have slices: "\<exists>ml2. dispatch_slice E p worker n evs (d, ml) = (length (filter published_flight fl), d1, ml2)
      \<and> mset (mlr_sent ml1) = mset (mlr_sent ml2)"
    if "distinct (map obx_id evs)" and "concurrent_slice E p worker schedule (start_slice n evs, d, ml) = (fl, d1, ml1)"
      and "list_all settled_flight fl" for n evs schedule d ml fl d1 ml1
    using concurrent_slice_sequential [OF that] by (metis prod.exhaust)
  have "1 \<le> num_of e ''OUTBOX_DELIVERY_CONCURRENCY''"
    using validated_number [OF assms(1) schema_counts(2)] by simp
  then have "0 < cfg_num E ''OUTBOX_DELIVERY_CONCURRENCY''" using assms(2) by (auto simp: configured_def)
  then have "dispatchAvailableEvents E p worker s = Some (dispatch_slice E p worker 0 (available_events E (fst s)) s)"
    by (simp add: dispatchAvailableEvents_def dispatch_loop_total split: prod.split)
  with slices show ?thesis by blast
qed

theorem outbox_loop_ends_witness:
  "\<exists>E e n s. validateEnvironment sample_env sample_platform sample_values = Inr e \<and> configured E e
    \<and> dispatchAvailableEvents E sample_mail ''mail-1'' (outbox_db, \<lparr>mlr_accepts = (\<lambda>_. True), mlr_sent = []\<rparr>) = Some (n, s)"
proof -
  obtain e where v: "validateEnvironment sample_env sample_platform sample_values = Inr e" by (rule sample_environment)
  have c: "configured (configured_env e) e" by (rule configured_env)
  from outbox_loop_ends [OF v c, of sample_mail "''mail-1''" "(outbox_db, \<lparr>mlr_accepts = (\<lambda>_. True), mlr_sent = []\<rparr>)",
      THEN conjunct1] v c
  show ?thesis by (metis surj_pair)
qed

section \<open>Operational jobs\<close>

text \<open>C37. A whole cycle of the operational jobs keeps every session that is active and not expired, with its
  unexpired refresh tokens, and every security event that is within its retention or under a hold.\<close>

theorem retention_spares_live:
  assumes "x \<in> set (sessions (ops_db s))" and "t \<in> set (refresh_tokens (ops_db s))" and "e \<in> set (events (ops_db s))"
    and "distinct (map ses_id (sessions (ops_db s)))" and "distinct (map rft_id (refresh_tokens (ops_db s)))"
    and "distinct (map evt_id (events (ops_db s)))"
    and "ses_status x = Session_ACTIVE" and "clock E 0 < ses_expiresAt x"
    and "rft_sessionId t = ses_id x" and "clock E 0 < rft_expiresAt t"
    and "clock E 0 - days E ''SECURITY_EVENT_RETENTION_DAYS'' < evt_createdAt e
      \<or> (\<exists>h. evt_legalHoldUntil e = Some h \<and> clock E 0 < h)"
    and "executeJobs E s = (counts, s')"
  shows "x \<in> set (sessions (ops_db s')) \<and> t \<in> set (refresh_tokens (ops_db s')) \<and> e \<in> set (events (ops_db s'))"
proof -
  have "holds_rows x t e s" using assms(1-6) by (simp add: holds_rows_def)
  moreover have "spared (clock E 0) E x t e"
    using assms(7-11) by (auto simp: spared_def retentionCutoff_def event_not_held_def)
  ultimately have "holds_rows x t e (snd (executeJobs E s))" by (rule executeJobs_keeps)
  then show ?thesis by (simp add: holds_rows_def assms(12))
qed

definition held_event :: event_row where
  "held_event = \<lparr>evi_userId = Some ''user-1'', evi_sessionId = None, evi_type = RATE_LIMIT_EXCEEDED,
     evi_severity = Severity_INFO, evi_outcome = Outcome_DENIED, evi_reasonCode = None,
     evi_correlationId = ''request-1'', evi_ipHash = None, evi_userAgentHash = None, evi_metadata = None,
     evt_id = ''event-1'', evt_createdAt = 0, evt_legalHoldUntil = Some 90000000\<rparr>"

definition ops_sample :: ops_state where
  "ops_sample = \<lparr>ops_db = sample_db\<lparr>events := [held_event]\<rparr>, ops_legacy = []\<rparr>"

theorem retention_spares_live_witness:
  "sample_session \<in> set (sessions (ops_db (snd (executeJobs sample_env ops_sample))))"
proof -
  obtain counts s' where r: "executeJobs sample_env ops_sample = (counts, s')" by force
  have "sample_session \<in> set (sessions (ops_db s')) \<and> sample_token \<in> set (refresh_tokens (ops_db s'))
      \<and> held_event \<in> set (events (ops_db s'))"
    by (rule retention_spares_live [OF _ _ _ _ _ _ _ _ _ _ _ r])
      (simp_all add: ops_sample_def sample_session_def sample_token_def held_event_def)
  then show ?thesis by (simp add: r)
qed

section \<open>Passkeys and recovery codes\<close>

text \<open>Rotating the recovery codes never succeeds: in every validated environment the number of codes is
  positive, the code asks for tokens of 16 bytes, and \<open>TokenService.generate\<close> refuses fewer than 32.\<close>

lemma recovery_codes_never_rotate:
  assumes "validateEnvironment F P values = Inr e" and "configured E e"
  shows "\<exists>x. rotateRecoveryCodes E claims d = (Inl x, d)"
proof -
  have "6 \<le> num_of e ''RECOVERY_CODE_COUNT''"
    using validated_number [OF assms(1) schema_counts(1)] by simp
  then obtain n where "cfg_num E ''RECOVERY_CODE_COUNT'' = Suc n"
    using assms(2) by (cases "cfg_num E ''RECOVERY_CODE_COUNT''") (auto simp: configured_def)
  moreover obtain x where "generate_codes E (Suc n) = Inl x" using generate_codes_fails by blast
  ultimately show ?thesis by (simp add: rotateRecoveryCodes_def)
qed

definition passkey_sample :: passkey_db where
  "passkey_sample = \<lparr>pdb_db = sample_db, pdb_passkeys = [], pdb_codes = []\<rparr>"

lemma recovery_codes_never_rotate_witness:
  "\<exists>E e x. validateEnvironment sample_env sample_platform sample_values = Inr e \<and> configured E e
    \<and> rotateRecoveryCodes E sample_principal passkey_sample = (Inl x, passkey_sample)"
proof -
  obtain e where v: "validateEnvironment sample_env sample_platform sample_values = Inr e" by (rule sample_environment)
  have c: "configured (configured_env e) e" by (rule configured_env)
  from recovery_codes_never_rotate [OF v c, of sample_principal passkey_sample] v c show ?thesis by blast
qed

text \<open>The same database with other account statuses, verified addresses and locks.\<close>

definition account_states :: "(user_row \<Rightarrow> user_account_status \<times> int option) \<Rightarrow> (credential_row \<Rightarrow> int option)
    \<Rightarrow> passkey_db \<Rightarrow> passkey_db" where
  "account_states status lock d = d\<lparr>pdb_db := (pdb_db d)\<lparr>
     users := map (\<lambda>u. u\<lparr>usr_accountStatus := fst (status u), usr_emailVerifiedAt := snd (status u)\<rparr>) (users (pdb_db d)),
     credentials := map (\<lambda>c. c\<lparr>cred_lockedUntil := lock c\<rparr>) (credentials (pdb_db d))\<rparr>\<rparr>"

lemma account_states_find:
  "find_row (\<lambda>u. usr_id u = k) (users (pdb_db (account_states status lock d)))
   = map_option (\<lambda>u. u\<lparr>usr_accountStatus := fst (status u), usr_emailVerifiedAt := snd (status u)\<rparr>)
       (find_row (\<lambda>u. usr_id u = k) (users (pdb_db d)))"
proof -
  have "find_row (\<lambda>u. usr_id u = k) (map f us) = map_option f (find_row (\<lambda>u. usr_id u = k) us)"
    if "\<And>u. usr_id (f u) = usr_id u" for f :: "user_row \<Rightarrow> user_row" and us
    using that by (induction us) simp_all
  then show ?thesis by (simp add: account_states_def)
qed

lemma passkey_commit_account_states:
  "passkey_commit E input userId ctx l credential n k (account_states status lock d) =
     (case passkey_commit E input userId ctx l credential n k d of (res, d') \<Rightarrow> (res, account_states status lock d'))"
  by (simp add: passkey_commit_def transact_def account_states_def create_session_def create_refresh_token_def Let_def
      split: prod.split sum.split)

lemma passkey_sign_in_account_states:
  "passkey_sign_in E input userId ctx credential n (account_states status lock d) =
     (case passkey_sign_in E input userId ctx credential n d of (res, d') \<Rightarrow> (res, account_states status lock d'))"
  by (simp add: passkey_sign_in_def account_states_find passkey_commit_account_states passkey_level_def
      split: option.split sum.split prod.split)

lemma presented_passkey_account_states:
  "presented_passkey userId response (account_states status lock d) = presented_passkey userId response d"
  by (simp add: presented_passkey_def account_states_def)

text \<open>C39. A sign-in with a passkey does not look at the account: whatever the account status, the verified
  address and the lock of the user, a verified response is answered alike.\<close>

theorem passkey_ignores_account_state:
  "verifyAuthentication E w input ctx (account_states status lock d) r =
     (case verifyAuthentication E w input ctx d r of (res, d', r') \<Rightarrow> (res, account_states status lock d', r'))"
  by (simp add: verifyAuthentication_def presented_passkey_account_states passkey_sign_in_account_states
      split: option.split sum.split prod.split)

section \<open>Configuration\<close>

text \<open>C17. A validated environment keeps every number within the bounds of its schema and every key apart
  from every other key; in production the cookies are secure, Redis is part of readiness and reached
  over TLS, the database is entered with the runtime role, and the engine, the citizen provider and
  the application are fixed HTTPS addresses.\<close>

theorem validated_environment_safe:
  assumes "validateEnvironment E P values = Inr e"
  shows "distinct (text_of e ''MUCYORA_ENGINE_SERVICE_KEY'' # encoded_keys e @ internal_service_keys e)
    \<and> (\<forall>k lo hi dflt. map_of environmentSchema k = Some (Number_Setting lo hi dflt) \<longrightarrow>
         lo \<le> num_of e k \<and> num_of e k \<le> hi)
    \<and> (production e \<longrightarrow> flag_of e ''COOKIE_SECURE'' \<and> flag_of e ''READINESS_REDIS_REQUIRED''
         \<and> (\<exists>u. cpl_url P (text_of e ''REDIS_URL'') = Some u \<and> url_protocol u = ''rediss:'')
         \<and> (\<exists>u. cpl_url P (text_of e ''DATABASE_URL'') = Some u
              \<and> cpl_decode_component P (url_username u) = Some ''mucyora_auth_app'')
         \<and> (\<forall>k \<in> {''MUCYORA_ENGINE_URL'', ''CITIZEN_API_URL'', ''MUCYORA_USER_APP_URL''}.
              \<exists>u. cpl_url P (text_of e k) = Some u \<and> url_protocol u = ''https:'' \<and> plain_url u))"
  using validated_separate_keys [OF assms] validated_number [OF assms] validated_production [OF assms] by blast

theorem validated_environment_safe_witness:
  "\<exists>e. validateEnvironment sample_env sample_platform sample_values = Inr e \<and> production e
    \<and> flag_of e ''COOKIE_SECURE'' \<and> distinct (encoded_keys e)"
proof -
  obtain e where v: "validateEnvironment sample_env sample_platform sample_values = Inr e" and "production e"
    by (rule sample_environment)
  with validated_environment_safe [OF v] show ?thesis by auto
qed

end
