(* ===== verification/Validation.thy ===== *)
theory Validation
  imports Identity Passkeys
begin

text \<open>
  The bodies of the requests: the classes of the \<open>dto\<close> directories as tables of their
  \<open>class-validator\<close> decorators, the global \<open>ValidationPipe\<close> of \<open>main.ts\<close> (\<open>whitelist\<close> and
  \<open>forbidNonWhitelisted\<close>: a member without a decorator is refused) and the inputs that the handlers
  read from a body that passed.  The library's own notions (an address, a UUID, the length that
  \<open>MinLength\<close> and \<open>MaxLength\<close> count) are the fields of \<open>class_validator\<close>.
\<close>

subsection \<open>Decorators\<close>

record class_validator =
  val_isEmail :: "string \<Rightarrow> bool"
  val_isUUID :: "string \<Rightarrow> bool"
  \<comment> \<open>\<open>ParseUUIDPipe\<close> of the framework\<close>
  val_pipeUUID :: "string \<Rightarrow> bool"
  val_length :: "string \<Rightarrow> nat"
  \<comment> \<open>the values of the database client's \<open>VerificationMediaType\<close>\<close>
  val_mediaTypes :: "string list"

datatype decorator =
    IsString | IsEmail | IsUUID | IsObject | IsArray | IsInt
  | MinLength nat | MaxLength nat
  | Matches "string \<Rightarrow> bool"
  | IsIn "string list"
  | Minimum int | Maximum int
  | ArrayMinSize nat | ArrayMaxSize nat

text \<open>A property: its name, whether it is \<open>IsOptional\<close>, and its other decorators.\<close>

type_synonym dto_property = "string \<times> bool \<times> decorator list"

text \<open>
  A class: its properties, and the classes of the elements of those with
  \<open>ValidateNested({ each: true })\<close>.
\<close>

record dto =
  dto_properties :: "dto_property list"
  dto_nested :: "(string \<times> dto_property list) list"

definition on_text :: "(string \<Rightarrow> bool) \<Rightarrow> json \<Rightarrow> bool" where
  "on_text P j = (case j of JStr s \<Rightarrow> P s | _ \<Rightarrow> False)"

fun satisfies :: "class_validator \<Rightarrow> decorator \<Rightarrow> json \<Rightarrow> bool" where
  "satisfies V IsString j = on_text (\<lambda>s. True) j"
| "satisfies V IsEmail j = on_text (val_isEmail V) j"
| "satisfies V IsUUID j = on_text (val_isUUID V) j"
| "satisfies V IsObject j = (case j of JObj fs \<Rightarrow> True | _ \<Rightarrow> False)"
| "satisfies V IsArray j = (case j of JArr js \<Rightarrow> True | _ \<Rightarrow> False)"
| "satisfies V IsInt j = (case j of JNum n \<Rightarrow> True | _ \<Rightarrow> False)"
| "satisfies V (MinLength n) j = on_text (\<lambda>s. n \<le> val_length V s) j"
| "satisfies V (MaxLength n) j = on_text (\<lambda>s. val_length V s \<le> n) j"
| "satisfies V (Matches P) j = on_text P j"
| "satisfies V (IsIn ss) j = on_text (\<lambda>s. s \<in> set ss) j"
| "satisfies V (Minimum n) j = (case j of JNum i \<Rightarrow> n \<le> i | _ \<Rightarrow> False)"
| "satisfies V (Maximum n) j = (case j of JNum i \<Rightarrow> i \<le> n | _ \<Rightarrow> False)"
| "satisfies V (ArrayMinSize n) j = (case j of JArr js \<Rightarrow> n \<le> length js | _ \<Rightarrow> False)"
| "satisfies V (ArrayMaxSize n) j = (case j of JArr js \<Rightarrow> length js \<le> n | _ \<Rightarrow> False)"

text \<open>
  \<open>IsOptional\<close> skips the other decorators of a member that is absent or null.  A member that is
  absent and not optional fails: every class has a decorator on it that \<open>undefined\<close> does not satisfy.
\<close>

definition property_ok :: "class_validator \<Rightarrow> (string \<times> json) list \<Rightarrow> dto_property \<Rightarrow> bool" where
  "property_ok V fs p = (case p of (name, optional, ds) \<Rightarrow>
     (case map_of fs name of
        None \<Rightarrow> optional
      | Some v \<Rightarrow> optional \<and> v = JNull \<or> list_all (\<lambda>c. satisfies V c v) ds))"

definition members_ok :: "class_validator \<Rightarrow> dto_property list \<Rightarrow> (string \<times> json) list \<Rightarrow> bool" where
  "members_ok V ps fs \<longleftrightarrow> list_all (\<lambda>(k, v). k \<in> fst ` set ps) fs \<and> list_all (property_ok V fs) ps"

text \<open>The elements of a nested property; one that is not an object fails.\<close>

definition elements_ok :: "class_validator \<Rightarrow> dto_property list \<Rightarrow> json option \<Rightarrow> bool" where
  "elements_ok V ps value = (case value of
     Some (JArr js) \<Rightarrow> list_all (\<lambda>j. case j of JObj fs \<Rightarrow> members_ok V ps fs | _ \<Rightarrow> False) js
   | _ \<Rightarrow> False)"

abbreviation validation_failed :: api_error where
  "validation_failed \<equiv> Http_Message 400 ''Bad Request''"

text \<open>
  The pipe on the parsed body; \<open>toEmptyIfNil\<close> reads an absent body as the empty object.  Its
  messages are not modelled.
\<close>

definition validate_body :: "class_validator \<Rightarrow> dto \<Rightarrow> json option \<Rightarrow> (string \<times> json) list result" where
  "validate_body V t body =
     (let check = (\<lambda>fs. if members_ok V (dto_properties t) fs
            \<and> list_all (\<lambda>(name, ps). elements_ok V ps (map_of fs name)) (dto_nested t)
          then Inr fs else Inl validation_failed)
      in (case body of
            None \<Rightarrow> check []
          | Some j \<Rightarrow> (case j of JNull \<Rightarrow> check [] | JObj fs \<Rightarrow> check fs | _ \<Rightarrow> Inl validation_failed)))"

subsection \<open>The regular expressions of the classes and of the headers\<close>

text \<open>\<open>[A-Za-z0-9._:-]\<close>, and \<open>/^[A-Za-z0-9._:-]{16,128}$/\<close>\<close>

definition identifier_char :: "char \<Rightarrow> bool" where
  "identifier_char c \<longleftrightarrow> is_alnum c \<or> c \<in> set ''._:-''"

definition instance_pattern :: "string \<Rightarrow> bool" where
  "instance_pattern s \<longleftrightarrow> 16 \<le> length s \<and> length s \<le> 128 \<and> list_all identifier_char s"

definition identifier_pattern :: "string \<Rightarrow> bool" where
  "identifier_pattern s \<longleftrightarrow> s \<noteq> [] \<and> list_all identifier_char s"

text \<open>\<open>/^[\d\s-]+$/\<close>, \<open>/^[A-Za-z0-9_-]+$/\<close> and \<open>/^[A-Za-z0-9+/]{43}=$/\<close>\<close>

definition nid_pattern :: "string \<Rightarrow> bool" where
  "nid_pattern s \<longleftrightarrow> s \<noteq> [] \<and> list_all (\<lambda>c. is_digit c \<or> is_space c \<or> c = CHR ''-'') s"

definition token_pattern :: "string \<Rightarrow> bool" where
  "token_pattern s \<longleftrightarrow> s \<noteq> [] \<and> list_all is_b64url s"

definition checksum_pattern :: "string \<Rightarrow> bool" where
  "checksum_pattern s \<longleftrightarrow> length s = 44
     \<and> list_all (\<lambda>c. is_alnum c \<or> c = CHR ''+'' \<or> c = CHR ''/'') (take 43 s) \<and> drop 43 s = ''=''"

text \<open>\<open>/^\d{4}-\d{2}-\d{2}(?:\.[A-Za-z0-9_-]{1,32})?$/\<close>\<close>

definition policy_version_pattern :: "string \<Rightarrow> bool" where
  "policy_version_pattern s \<longleftrightarrow>
     (let date = take 10 s; rest = drop 10 s
      in length date = 10 \<and> list_all is_digit (take 4 date) \<and> date ! 4 = CHR ''-''
         \<and> list_all is_digit (take 2 (drop 5 date)) \<and> date ! 7 = CHR ''-''
         \<and> list_all is_digit (drop 8 date)
         \<and> (case rest of [] \<Rightarrow> True
            | c # cs \<Rightarrow> c = CHR ''.'' \<and> 1 \<le> length cs \<and> length cs \<le> 32 \<and> list_all is_b64url cs))"


subsection \<open>The classes\<close>

text \<open>\<open>IsEnum\<close> of an enumeration: one of its values.\<close>

abbreviation IsEnum :: "string list \<Rightarrow> decorator" where
  "IsEnum \<equiv> IsIn"

definition transports :: "string list" where
  "transports = map transport_text [COOKIE, NATIVE]"

definition purposes :: "string list" where
  "purposes = map purpose_text [ACCOUNT_ENROLLMENT, DEVICE_TRANSFER, AGREEMENT_SIGNING, ACCOUNT_RECOVERY]"

definition consent_types :: "string list" where
  "consent_types = map consent_text
     [BIOMETRIC_PROCESSING, IDENTITY_DATA_PROCESSING, PRIVACY_POLICY, TERMS_OF_SERVICE]"

abbreviation flat :: "dto_property list \<Rightarrow> dto" where
  "flat ps \<equiv> \<lparr>dto_properties = ps, dto_nested = []\<rparr>"

definition LoginDto :: dto where
  "LoginDto = flat
     [(''email'', False, [IsString, IsEmail, MaxLength 320]),
      (''password'', False, [IsString, MinLength 1, MaxLength 128]),
      (''deviceId'', False, [IsString, Matches instance_pattern]),
      (''deviceLabel'', True, [IsString, MaxLength 100]),
      (''transport'', False, [IsEnum transports])]"

definition RefreshDto :: dto where
  "RefreshDto = flat
     [(''transport'', False, [IsEnum transports]),
      (''refreshToken'', True, [IsString, MinLength 43, MaxLength 128])]"

definition SessionUpgradeDto :: dto where
  "SessionUpgradeDto = flat
     [(''verificationAttemptId'', False, [IsUUID]), (''transport'', False, [IsEnum transports])]"

definition CitizenLookupDto :: dto where
  "CitizenLookupDto = flat
     [(''nid'', False, [IsString, MinLength 16, MaxLength 32, Matches nid_pattern]),
      (''email'', False, [IsString, IsEmail, MaxLength 320])]"

definition RegistrationConsentDto :: "dto_property list" where
  "RegistrationConsentDto =
     [(''type'', False, [IsEnum consent_types]),
      (''policyVersion'', False, [IsString, Matches policy_version_pattern])]"

definition RegistrationDto :: dto where
  "RegistrationDto =
     \<lparr>dto_properties =
       [(''registrationChallengeToken'', False, [IsString, MinLength 64, MaxLength 2048]),
        (''email'', False, [IsString, IsEmail, MaxLength 320]),
        (''password'', False, [IsString, MinLength 15, MaxLength 128]),
        (''consents'', False, [IsArray, ArrayMinSize 4, ArrayMaxSize 4])],
      dto_nested = [(''consents'', RegistrationConsentDto)]\<rparr>"

definition VerifyEmailDto :: dto where
  "VerifyEmailDto = flat
     [(''token'', False, [IsString, MinLength 43, MaxLength 512, Matches token_pattern])]"

definition ResendEmailVerificationDto :: dto where
  "ResendEmailVerificationDto = flat [(''email'', False, [IsString, IsEmail, MaxLength 320])]"

definition ForgotPasswordDto :: dto where
  "ForgotPasswordDto = flat [(''email'', False, [IsString, IsEmail, MaxLength 320])]"

definition ResetPasswordDto :: dto where
  "ResetPasswordDto = flat
     [(''token'', False, [IsString, MinLength 43, MaxLength 128]),
      (''newPassword'', False, [IsString, MinLength 15, MaxLength 128])]"

definition ChangePasswordDto :: dto where
  "ChangePasswordDto = flat
     [(''currentPassword'', False, [IsString, MinLength 1, MaxLength 128]),
      (''newPassword'', False, [IsString, MinLength 15, MaxLength 128])]"

definition CreateStepUpChallengeDto :: dto where
  "CreateStepUpChallengeDto = flat
     [(''purpose'', False, [IsEnum purposes]),
      (''targetResourceId'', False, [IsString, MinLength 1, MaxLength 256, Matches identifier_pattern])]"

definition ConsumeStepUpAssertionDto :: dto where
  "ConsumeStepUpAssertionDto = flat (dto_properties CreateStepUpChallengeDto @
     [(''userId'', False, [IsUUID]),
      (''assertion'', False, [IsString, MinLength 43, MaxLength 128])])"

definition CreateUploadPolicyDto :: "class_validator \<Rightarrow> dto" where
  "CreateUploadPolicyDto V = flat
     [(''mediaType'', False, [IsEnum (val_mediaTypes V)]),
      (''contentType'', False, [IsString, IsIn [''image/jpeg'', ''image/png''], MaxLength 32]),
      (''checksum'', False, [IsString, Matches checksum_pattern]),
      (''width'', False, [IsInt, Minimum 1, Maximum 12000]),
      (''height'', False, [IsInt, Minimum 1, Maximum 12000])]"

definition ConfirmUploadDto :: "class_validator \<Rightarrow> dto" where
  "ConfirmUploadDto V = flat (dto_properties (CreateUploadPolicyDto V) @
     [(''objectKey'', False, [IsString, MaxLength 512])])"

definition PasskeyRegistrationOptionsDto :: dto where
  "PasskeyRegistrationOptionsDto = flat [(''label'', True, [IsString, MaxLength 100])]"

definition ConsumeRecoveryCodeDto :: dto where
  "ConsumeRecoveryCodeDto = flat
     [(''email'', False, [IsEmail, MaxLength 320]),
      (''recoveryCode'', False, [IsString, MinLength 16, MaxLength 128])]"

definition PasskeyAuthenticationOptionsDto :: dto where
  "PasskeyAuthenticationOptionsDto = flat [(''email'', False, [IsEmail, MaxLength 320])]"

definition PasskeyAuthenticationVerifyDto :: dto where
  "PasskeyAuthenticationVerifyDto = flat
     [(''flowId'', False, [IsString, MinLength 32, MaxLength 128]),
      (''response'', False, [IsObject]),
      (''deviceId'', False, [IsString, MinLength 16, MaxLength 128]),
      (''deviceLabel'', True, [IsString, MaxLength 100]),
      (''transport'', False, [IsEnum transports])]"

definition PasskeyRegistrationVerifyDto :: dto where
  "PasskeyRegistrationVerifyDto = flat
     [(''response'', False, [IsObject]), (''label'', True, [IsString, MaxLength 100])]"

subsection \<open>Reading a validated body\<close>

text \<open>\<open>input.name\<close>: a text, or a text that may be absent or null, or a number.\<close>

definition text_member :: "(string \<times> json) list \<Rightarrow> string \<Rightarrow> string" where
  "text_member fs k = (case map_of fs k of Some (JStr s) \<Rightarrow> s | _ \<Rightarrow> [])"

definition optional_member :: "(string \<times> json) list \<Rightarrow> string \<Rightarrow> string option" where
  "optional_member fs k = (case map_of fs k of Some (JStr s) \<Rightarrow> Some s | _ \<Rightarrow> None)"

definition number_member :: "(string \<times> json) list \<Rightarrow> string \<Rightarrow> nat" where
  "number_member fs k = (case map_of fs k of Some (JNum n) \<Rightarrow> nat n | _ \<Rightarrow> 0)"

definition transport_member :: "(string \<times> json) list \<Rightarrow> token_transport" where
  "transport_member fs = (if text_member fs ''transport'' = ''COOKIE'' then COOKIE else NATIVE)"

definition purpose_member :: "(string \<times> json) list \<Rightarrow> verification_purpose" where
  "purpose_member fs = (case find_row (\<lambda>p. purpose_text p = text_member fs ''purpose'')
     [DEVICE_TRANSFER, AGREEMENT_SIGNING, ACCOUNT_RECOVERY] of None \<Rightarrow> ACCOUNT_ENROLLMENT | Some p \<Rightarrow> p)"

definition consent_member :: "(string \<times> json) list \<Rightarrow> consent_type" where
  "consent_member fs = (case find_row (\<lambda>c. consent_text c = text_member fs ''type'')
     [BIOMETRIC_PROCESSING, IDENTITY_DATA_PROCESSING, PRIVACY_POLICY] of
       None \<Rightarrow> TERMS_OF_SERVICE | Some c \<Rightarrow> c)"

definition login_input_of :: "(string \<times> json) list \<Rightarrow> login_input" where
  "login_input_of fs = \<lparr>lgi_email = text_member fs ''email'', lgi_password = text_member fs ''password'',
     lgi_deviceId = text_member fs ''deviceId'', lgi_deviceLabel = optional_member fs ''deviceLabel'',
     lgi_transport = transport_member fs\<rparr>"

definition registration_input_of :: "(string \<times> json) list \<Rightarrow> registration_input" where
  "registration_input_of fs = \<lparr>rgi_token = text_member fs ''registrationChallengeToken'',
     rgi_email = text_member fs ''email'', rgi_password = text_member fs ''password'',
     rgi_consents = (case map_of fs ''consents'' of
       Some (JArr js) \<Rightarrow> map (\<lambda>j. case j of
           JObj c \<Rightarrow> (consent_member c, text_member c ''policyVersion'')
         | _ \<Rightarrow> (TERMS_OF_SERVICE, [])) js
     | _ \<Rightarrow> [])\<rparr>"

definition step_up_input_of :: "(string \<times> json) list \<Rightarrow> step_up_input" where
  "step_up_input_of fs = \<lparr>sui_purpose = purpose_member fs, sui_target = text_member fs ''targetResourceId''\<rparr>"

definition consume_input_of :: "(string \<times> json) list \<Rightarrow> consume_input" where
  "consume_input_of fs = \<lparr>sui_purpose = purpose_member fs, sui_target = text_member fs ''targetResourceId'',
     csi_userId = text_member fs ''userId'', csi_assertion = text_member fs ''assertion''\<rparr>"

definition media_type_of :: "string \<Rightarrow> media_type" where
  "media_type_of s = (if s = ''ID_DOCUMENT'' then ID_DOCUMENT else Media_Other s)"

definition upload_input_of :: "(string \<times> json) list \<Rightarrow> upload_input" where
  "upload_input_of fs = \<lparr>upl_mediaType = media_type_of (text_member fs ''mediaType''),
     upl_contentType = text_member fs ''contentType'', upl_checksum = text_member fs ''checksum'',
     upl_width = number_member fs ''width'', upl_height = number_member fs ''height''\<rparr>"

definition confirm_input_of :: "(string \<times> json) list \<Rightarrow> confirm_input" where
  "confirm_input_of fs = \<lparr>upl_mediaType = media_type_of (text_member fs ''mediaType''),
     upl_contentType = text_member fs ''contentType'', upl_checksum = text_member fs ''checksum'',
     upl_width = number_member fs ''width'', upl_height = number_member fs ''height'',
     upl_objectKey = text_member fs ''objectKey''\<rparr>"

definition passkey_input_of :: "(string \<times> json) list \<Rightarrow> passkey_login_input" where
  "passkey_input_of fs = \<lparr>pli_flowId = text_member fs ''flowId'',
     pli_response = (case map_of fs ''response'' of None \<Rightarrow> JNull | Some j \<Rightarrow> j),
     pli_deviceId = text_member fs ''deviceId'', pli_deviceLabel = optional_member fs ''deviceLabel'',
     pli_transport = transport_member fs\<rparr>"

end
