(* ===== verification/Routes.thy ===== *)
theory Routes
  imports Validation Jobs Edge
begin

text \<open>
  The controllers: a table with the route of every handler, its status, the guards in front of it and
  the class of its body, and what the handlers pass on to the services.  \<open>serve\<close> composes them the way
  the framework does: middleware, router, guards, pipes, handler.  The router compares the literal
  segments of a path without regard to case and lets a parameter stand for any segment that is not empty.
\<close>

subsection \<open>Routes\<close>

datatype endpoint =
    Auth_login | Auth_refresh | Session_upgrade | Jwks_getKeys
  | Sessions_logout | Sessions_logoutAll | Sessions_list | Sessions_revoke
  | Registration_register | Registration_lookup | Email_verify | Email_resend
  | Password_forgot | Password_reset | Password_change
  | StepUp_create | StepUp_challenge | StepUp_assertion | Internal_consume
  | Identity_createAttempt | Identity_uploadPolicy | Identity_confirmUpload
  | Identity_liveness | Identity_submit | Identity_status | Identity_attempt
  | Passkey_authenticationOptions | Passkey_authenticationVerify
  | Passkey_registrationOptions | Passkey_registrationVerify | Passkey_list | Passkey_revoke
  | Passkey_recoveryCodes | Recovery_consume
  | Operations_jobs | Health_live | Health_ready

datatype http_method = GET | POST | DELETE

datatype segment = Literal string | Parameter

text \<open>
  \<open>@UseGuards\<close>: none, \<open>AccessAuthGuard\<close> and \<open>SessionLevelGuard\<close> with the level of
  \<open>@RequireSessionLevel\<close>, \<open>SessionUpgradeGuard\<close>, or \<open>InternalServiceGuard\<close>.
\<close>

datatype guarded = Unguarded | Bearer "session_level option" | Upgrade_Guard | Internal_Guard

record route =
  rte_method :: http_method
  rte_path :: "segment list"
  rte_status :: nat
  rte_guard :: guarded
  rte_body :: "(class_validator \<Rightarrow> dto) option"

text \<open>The global prefix \<open>api/v1\<close>, from which \<open>main.ts\<close> excludes the keys and the health checks.\<close>

definition prefixed :: "http_method \<Rightarrow> string list \<Rightarrow> segment list \<Rightarrow> nat \<Rightarrow> guarded
    \<Rightarrow> (class_validator \<Rightarrow> dto) option \<Rightarrow> route" where
  "prefixed m controller p status g body =
     \<lparr>rte_method = m, rte_path = map Literal ([''api'', ''v1''] @ controller) @ p, rte_status = status,
      rte_guard = g, rte_body = body\<rparr>"

definition excluded_route :: "string list \<Rightarrow> route" where
  "excluded_route p =
     \<lparr>rte_method = GET, rte_path = map Literal p, rte_status = 200, rte_guard = Unguarded, rte_body = None\<rparr>"

abbreviation body_class :: "dto \<Rightarrow> (class_validator \<Rightarrow> dto) option" where
  "body_class t \<equiv> Some (\<lambda>V. t)"

definition AuthController :: "(endpoint \<times> route) list" where
  "AuthController =
    [(Auth_login, prefixed POST [''auth''] [Literal ''login''] 200 Unguarded (body_class LoginDto)),
     (Auth_refresh, prefixed POST [''auth''] [Literal ''refresh''] 200 Unguarded (body_class RefreshDto))]"

definition SessionUpgradeController :: "(endpoint \<times> route) list" where
  "SessionUpgradeController =
    [(Session_upgrade, prefixed POST [''auth'', ''session''] [Literal ''upgrade''] 200 Upgrade_Guard
       (body_class SessionUpgradeDto))]"

definition SessionsController :: "(endpoint \<times> route) list" where
  "SessionsController =
    [(Sessions_logout, prefixed POST [''auth''] [Literal ''logout''] 204 (Bearer None) None),
     (Sessions_logoutAll, prefixed POST [''auth''] [Literal ''logout-all''] 204 (Bearer None) None),
     (Sessions_list, prefixed GET [''auth''] [Literal ''sessions''] 200 (Bearer None) None),
     (Sessions_revoke, prefixed DELETE [''auth''] [Literal ''sessions'', Parameter] 204 (Bearer None) None)]"

definition RegistrationController :: "(endpoint \<times> route) list" where
  "RegistrationController =
    [(Registration_register, prefixed POST [''registration''] [] 201 Unguarded (body_class RegistrationDto)),
     (Registration_lookup, prefixed POST [''registration''] [Literal ''citizen'', Literal ''lookup''] 201 Unguarded
       (body_class CitizenLookupDto))]"

definition EmailVerificationController :: "(endpoint \<times> route) list" where
  "EmailVerificationController =
    [(Email_verify, prefixed POST [''registration'', ''email''] [Literal ''verify''] 200 Unguarded
       (body_class VerifyEmailDto)),
     (Email_resend, prefixed POST [''registration'', ''email''] [Literal ''resend''] 202 Unguarded
       (body_class ResendEmailVerificationDto))]"

definition PasswordController :: "(endpoint \<times> route) list" where
  "PasswordController =
    [(Password_forgot, prefixed POST [''auth'', ''password''] [Literal ''forgot''] 200 Unguarded
       (body_class ForgotPasswordDto)),
     (Password_reset, prefixed POST [''auth'', ''password''] [Literal ''reset''] 200 Unguarded
       (body_class ResetPasswordDto)),
     (Password_change, prefixed POST [''auth'', ''password''] [Literal ''change''] 200 (Bearer None)
       (body_class ChangePasswordDto))]"

definition StepUpVerificationController :: "(endpoint \<times> route) list" where
  "StepUpVerificationController =
    [(StepUp_create, prefixed POST [''step-up'', ''challenges''] [] 201 (Bearer (Some FULL))
       (body_class CreateStepUpChallengeDto)),
     (StepUp_challenge, prefixed GET [''step-up'', ''challenges''] [Parameter] 200 (Bearer (Some FULL)) None),
     (StepUp_assertion, prefixed POST [''step-up'', ''challenges''] [Parameter, Literal ''assertion''] 200 (Bearer (Some FULL))
       None)]"

definition InternalStepUpController :: "(endpoint \<times> route) list" where
  "InternalStepUpController =
    [(Internal_consume, prefixed POST [''internal'', ''step-up'', ''assertions''] [Literal ''consume''] 200 Internal_Guard
       (body_class ConsumeStepUpAssertionDto))]"

definition IdentityVerificationController :: "(endpoint \<times> route) list" where
  "IdentityVerificationController =
    [(Identity_createAttempt, prefixed POST [''identity-verification''] [Literal ''attempts''] 201 (Bearer None)
       None),
     (Identity_uploadPolicy, prefixed POST [''identity-verification''] [Literal ''attempts'', Parameter, Literal ''upload-policy''] 201 (Bearer None)
       (Some CreateUploadPolicyDto)),
     (Identity_confirmUpload, prefixed POST [''identity-verification''] [Literal ''attempts'', Parameter, Literal ''media'', Literal ''confirm''] 200 (Bearer None)
       (Some ConfirmUploadDto)),
     (Identity_liveness, prefixed POST [''identity-verification''] [Literal ''attempts'', Parameter, Literal ''liveness-session''] 200 (Bearer None)
       None),
     (Identity_submit, prefixed POST [''identity-verification''] [Literal ''attempts'', Parameter, Literal ''submit''] 200 (Bearer None)
       None),
     (Identity_status, prefixed GET [''identity-verification''] [Literal ''status''] 200 (Bearer None) None),
     (Identity_attempt, prefixed GET [''identity-verification''] [Literal ''attempts'', Parameter] 200 (Bearer None)
       None)]"

definition PasskeyAuthenticationController :: "(endpoint \<times> route) list" where
  "PasskeyAuthenticationController =
    [(Passkey_authenticationOptions, prefixed POST [''auth'', ''passkeys'', ''authentication''] [Literal ''options''] 201 Unguarded
       (body_class PasskeyAuthenticationOptionsDto)),
     (Passkey_authenticationVerify, prefixed POST [''auth'', ''passkeys'', ''authentication''] [Literal ''verify''] 200 Unguarded
       (body_class PasskeyAuthenticationVerifyDto))]"

definition PasskeyController :: "(endpoint \<times> route) list" where
  "PasskeyController =
    [(Passkey_registrationOptions, prefixed POST [''auth'', ''passkeys''] [Literal ''registration'', Literal ''options''] 201 (Bearer None)
       (body_class PasskeyRegistrationOptionsDto)),
     (Passkey_registrationVerify, prefixed POST [''auth'', ''passkeys''] [Literal ''registration'', Literal ''verify''] 200 (Bearer None)
       (body_class PasskeyRegistrationVerifyDto)),
     (Passkey_list, prefixed GET [''auth'', ''passkeys''] [] 200 (Bearer None) None),
     (Passkey_revoke, prefixed DELETE [''auth'', ''passkeys''] [Parameter] 204 (Bearer None) None),
     (Passkey_recoveryCodes, prefixed POST [''auth'', ''passkeys''] [Literal ''recovery-codes''] 201 (Bearer None)
       None)]"

definition RecoveryCodeController :: "(endpoint \<times> route) list" where
  "RecoveryCodeController =
    [(Recovery_consume, prefixed POST [''auth'', ''recovery-codes''] [Literal ''consume''] 200 Unguarded
       (body_class ConsumeRecoveryCodeDto))]"

definition OperationsController :: "(endpoint \<times> route) list" where
  "OperationsController =
    [(Operations_jobs, prefixed GET [''internal'', ''operations''] [Literal ''jobs''] 200 Internal_Guard
       None)]"

definition JwksController :: "(endpoint \<times> route) list" where
  "JwksController = [(Jwks_getKeys, excluded_route [''.well-known'', ''jwks.json''])]"

definition HealthController :: "(endpoint \<times> route) list" where
  "HealthController =
    [(Health_live, excluded_route [''health'', ''live'']), (Health_ready, excluded_route [''health'', ''ready''])]"

definition route_table :: "(endpoint \<times> route) list" where
  "route_table = concat
    [RegistrationController, EmailVerificationController, IdentityVerificationController, AuthController,
     SessionUpgradeController, JwksController, SessionsController, PasswordController,
     StepUpVerificationController, InternalStepUpController, OperationsController, PasskeyController,
     PasskeyAuthenticationController, RecoveryCodeController, HealthController]"

lemmas controller_defs = RegistrationController_def EmailVerificationController_def
  IdentityVerificationController_def AuthController_def SessionUpgradeController_def JwksController_def
  SessionsController_def PasswordController_def StepUpVerificationController_def
  InternalStepUpController_def OperationsController_def PasskeyController_def
  PasskeyAuthenticationController_def RecoveryCodeController_def HealthController_def

fun segments_match :: "segment list \<Rightarrow> string list \<Rightarrow> bool" where
  "segments_match [] [] = True"
| "segments_match (Literal l # p) (s # ss) = (ascii_lower s = l \<and> segments_match p ss)"
| "segments_match (Parameter # p) (s # ss) = (s \<noteq> [] \<and> segments_match p ss)"
| "segments_match _ _ = False"

fun route_parameters :: "segment list \<Rightarrow> string list \<Rightarrow> string list" where
  "route_parameters (Literal l # p) (s # ss) = route_parameters p ss"
| "route_parameters (Parameter # p) (s # ss) = s # route_parameters p ss"
| "route_parameters _ _ = []"

text \<open>The router takes the first route of the table that matches.\<close>

definition find_route :: "http_method \<Rightarrow> string list \<Rightarrow> (endpoint \<times> route) option" where
  "find_route m path = find_row (\<lambda>(e, r). rte_method r = m \<and> segments_match (rte_path r) path) route_table"


subsection \<open>Requests, the state of the service, and answers\<close>

text \<open>
  A request as the handlers see it: the segments of its path, its headers by lower-case name, its
  cookies, the body that the parsers of \<open>main.ts\<close> read, \<open>request.ip\<close> and the address of the socket.
\<close>

record http_request =
  hrq_method :: http_method
  hrq_path :: "string list"
  hrq_header :: "string \<Rightarrow> string option"
  hrq_cookies :: "string \<rightharpoonup> string"
  hrq_body :: "json option"
  hrq_ip :: "string option"
  hrq_remoteAddress :: "string option"

text \<open>What the service keeps: its database, Redis, the citizen provider, the object store, two caches.\<close>

record 'p server =
  srv_db :: passkey_db
  srv_redis :: redis
  srv_provider :: 'p
  srv_storage :: storage
  srv_readiness :: readiness_cache
  srv_jobs :: job_snapshot

text \<open>
  What a request runs in.  The first environment is that of the middleware and of the guards; the others
  are those of the handler, in which a retried round of \<open>issueAssertion\<close> reads a later clock.
\<close>

record 'p world =
  wld_env :: "nat \<Rightarrow> env"
  wld_validator :: class_validator
  wld_webauthn :: webauthn
  wld_provider :: "'p citizen_provider"
  wld_defaults :: row_defaults
  wld_media :: media_schema
  wld_engine :: "signed_request \<Rightarrow> engine_reply"
  wld_date :: "string \<Rightarrow> int option"
  wld_databaseUp :: bool

abbreviation handler_env :: "'p world \<Rightarrow> env" where
  "handler_env W \<equiv> wld_env W 1"

datatype caller = Anonymous | Claims json | Internal_Service string

text \<open>A request at its handler: what the middleware, the guards and the pipes have added to it.\<close>

record call =
  cal_request :: http_request
  cal_correlationId :: string
  cal_caller :: caller
  cal_parameters :: "string list"
  cal_body :: "(string \<times> json) list"

datatype payload =
    No_Content | Token_Body auth_response | Keys_Body json | Sessions_Body "listed_session list"
  | Lookup_Body lookup_response | Registration_Body registration_response | Email_Verified_Body
  | Accepted_Body | Password_Changed_Body | Challenge_Body step_up_row | Assertion_Body "string \<times> int"
  | Consumed_Body consumed_assertion | Attempt_Body attempt_response | Policy_Body upload_policy
  | Confirmed_Body | Liveness_Body liveness_session | Status_Body "identity_status \<times> attempt_response option"
  | Passkey_Flow_Body "string \<times> passkey_options" | Passkey_Options_Body passkey_options
  | Passkey_Body passkey_row | Passkeys_Body "passkey_row list" | Codes_Body "string list"
  | Reset_Token_Body "string \<times> int" | Jobs_Body job_snapshot | Health_Body health_status

text \<open>A cleared cookie: its name, domain and path.\<close>

record outcome =
  out_body :: payload
  out_cookies :: "cookie list"
  out_cleared :: "(string \<times> string option \<times> string) list"

definition plain :: "payload \<Rightarrow> outcome" where
  "plain b = \<lparr>out_body = b, out_cookies = [], out_cleared = []\<rparr>"

subsection \<open>What the handlers share\<close>

abbreviation get_db :: "'p server \<Rightarrow> db" where
  "get_db s \<equiv> pdb_db (srv_db s)"

definition put_db :: "db \<Rightarrow> 'p server \<Rightarrow> 'p server" where
  "put_db d s = s\<lparr>srv_db := (srv_db s)\<lparr>pdb_db := d\<rparr>\<rparr>"

text \<open>The answer and the state after a service call, by the part of the state that the call returns.\<close>

definition after_db :: "('a \<Rightarrow> outcome) \<Rightarrow> 'a result \<times> db \<Rightarrow> 'p server \<Rightarrow> outcome result \<times> 'p server" where
  "after_db k x s = (case x of (res, d) \<Rightarrow> (map_sum id k res, put_db d s))"

definition after_db_redis :: "('a \<Rightarrow> outcome) \<Rightarrow> 'a result \<times> db \<times> redis \<Rightarrow> 'p server
    \<Rightarrow> outcome result \<times> 'p server" where
  "after_db_redis k x s = (case x of (res, d, r) \<Rightarrow> (map_sum id k res, put_db d (s\<lparr>srv_redis := r\<rparr>)))"

definition after_redis :: "('a \<Rightarrow> outcome) \<Rightarrow> 'a result \<times> redis \<Rightarrow> 'p server \<Rightarrow> outcome result \<times> 'p server" where
  "after_redis k x s = (case x of (res, r) \<Rightarrow> (map_sum id k res, s\<lparr>srv_redis := r\<rparr>))"

definition after_passkeys :: "('a \<Rightarrow> outcome) \<Rightarrow> 'a result \<times> passkey_db \<Rightarrow> 'p server
    \<Rightarrow> outcome result \<times> 'p server" where
  "after_passkeys k x s = (case x of (res, d) \<Rightarrow> (map_sum id k res, s\<lparr>srv_db := d\<rparr>))"

definition after_passkeys_redis :: "('a \<Rightarrow> outcome) \<Rightarrow> 'a result \<times> passkey_db \<times> redis \<Rightarrow> 'p server
    \<Rightarrow> outcome result \<times> 'p server" where
  "after_passkeys_redis k x s = (case x of (res, d, r) \<Rightarrow>
     (map_sum id k res, s\<lparr>srv_db := d, srv_redis := r\<rparr>))"

text \<open>\<open>request.ip || request.socket.remoteAddress || 'unknown'\<close>\<close>

definition client_address :: "http_request \<Rightarrow> string" where
  "client_address q =
     (if truthy_text (hrq_ip q) then the (hrq_ip q)
      else if truthy_text (hrq_remoteAddress q) then the (hrq_remoteAddress q) else ''unknown'')"

text \<open>\<open>request.header('user-agent') ?? 'unknown'\<close>\<close>

definition user_agent :: "http_request \<Rightarrow> string" where
  "user_agent q = (case hrq_header q ''user-agent'' of None \<Rightarrow> ''unknown'' | Some v \<Rightarrow> v)"

definition call_context :: "call \<Rightarrow> request_context" where
  "call_context c = \<lparr>rq_correlationId = cal_correlationId c, rq_ipAddress = client_address (cal_request c),
     rq_userAgent = user_agent (cal_request c)\<rparr>"

text \<open>
  \<open>request.auth\<close>: the guards in front of the handlers that read it only let claims through whose
  \<open>sub\<close> and \<open>sid\<close> are texts.
\<close>

definition call_principal :: "call \<Rightarrow> principal" where
  "call_principal c = (case cal_caller c of
     Claims j \<Rightarrow> (case principal_of j of Some p \<Rightarrow> p | None \<Rightarrow> \<lparr>prn_sub = [], prn_sid = []\<rparr>)
   | _ \<Rightarrow> \<lparr>prn_sub = [], prn_sid = []\<rparr>)"

definition call_parameter :: "call \<Rightarrow> string" where
  "call_parameter c = (case cal_parameters c of [] \<Rightarrow> [] | p # ps \<Rightarrow> p)"

definition call_service :: "call \<Rightarrow> string" where
  "call_service c = (case cal_caller c of Internal_Service s \<Rightarrow> s | _ \<Rightarrow> [])"

abbreviation call_header :: "call \<Rightarrow> string \<Rightarrow> string option" where
  "call_header c k \<equiv> hrq_header (cal_request c) k"

text \<open>The body of issued credentials, and their cookies when the transport is \<open>COOKIE\<close>.\<close>

definition issued_outcome :: "env \<Rightarrow> issued_authentication \<Rightarrow> outcome" where
  "issued_outcome E issued = \<lparr>out_body = Token_Body (iss_response issued),
     out_cookies = applyTransport E issued, out_cleared = []\<rparr>"

lemmas after_defs = after_db_def after_db_redis_def after_redis_def after_passkeys_def
  after_passkeys_redis_def put_db_def

subsection \<open>The handlers: sessions and credentials\<close>

definition auth_login :: "'p world \<Rightarrow> call \<Rightarrow> 'p server \<Rightarrow> outcome result \<times> 'p server" where
  "auth_login W c s = after_db_redis (issued_outcome (handler_env W))
     (login (handler_env W) (login_input_of (cal_body c)) (call_context c) (get_db s) (srv_redis s)) s"

definition auth_refresh :: "'p world \<Rightarrow> call \<Rightarrow> 'p server \<Rightarrow> outcome result \<times> 'p server" where
  "auth_refresh W c s =
     (let transport = transport_member (cal_body c)
      in (case readRefreshToken (handler_env W) transport (optional_member (cal_body c) ''refreshToken'')
            (hrq_cookies (cal_request c)) (call_header c ''x-csrf-token'') of
          Inl e \<Rightarrow> (Inl e, s)
        | Inr refreshToken \<Rightarrow> after_db_redis (issued_outcome (handler_env W))
            (refresh (handler_env W) refreshToken transport (call_context c) (get_db s) (srv_redis s)) s))"

definition session_upgrade :: "'p world \<Rightarrow> call \<Rightarrow> 'p server \<Rightarrow> outcome result \<times> 'p server" where
  "session_upgrade W c s = after_db
     (\<lambda>(response, cookies). \<lparr>out_body = Token_Body response, out_cookies = cookies, out_cleared = []\<rparr>)
     (upgrade_request (handler_env W) (call_principal c)
       \<lparr>upi_verificationAttemptId = text_member (cal_body c) ''verificationAttemptId'',
        upi_transport = transport_member (cal_body c)\<rparr>
       (call_header c ''idempotency-key'') (call_context c) (get_db s)) s"

text \<open>\<open>clearCookies\<close>, and the logouts.\<close>

definition clearCookies :: "env \<Rightarrow> (string \<times> string option \<times> string) list" where
  "clearCookies E =
     (let domain = (if cfg_str E ''COOKIE_DOMAIN'' = [] then None else Some (cfg_str E ''COOKIE_DOMAIN''))
      in [(cfg_str E ''REFRESH_COOKIE_NAME'', domain, ''/api/v1/auth''),
          (cfg_str E ''CSRF_COOKIE_NAME'', domain, ''/api/v1/auth'')])"

definition logged_out :: "env \<Rightarrow> unit \<Rightarrow> outcome" where
  "logged_out E u = \<lparr>out_body = No_Content, out_cookies = [], out_cleared = clearCookies E\<rparr>"

definition sessions_logout :: "'p world \<Rightarrow> call \<Rightarrow> 'p server \<Rightarrow> outcome result \<times> 'p server" where
  "sessions_logout W c s = after_db (logged_out (handler_env W))
     (logout (handler_env W) (call_principal c) (call_context c) (get_db s)) s"

definition sessions_logoutAll :: "'p world \<Rightarrow> call \<Rightarrow> 'p server \<Rightarrow> outcome result \<times> 'p server" where
  "sessions_logoutAll W c s = after_db (logged_out (handler_env W))
     (logoutAll (handler_env W) (call_principal c) (call_context c) (get_db s)) s"

definition sessions_list :: "'p world \<Rightarrow> call \<Rightarrow> 'p server \<Rightarrow> outcome result \<times> 'p server" where
  "sessions_list W c s =
     (Inr (plain (Sessions_Body (list_sessions (handler_env W) (call_principal c) (get_db s)))), s)"

definition sessions_revoke :: "'p world \<Rightarrow> call \<Rightarrow> 'p server \<Rightarrow> outcome result \<times> 'p server" where
  "sessions_revoke W c s = after_db (\<lambda>u. plain No_Content)
     (revoke (handler_env W) (call_principal c) (call_parameter c) (call_context c) (get_db s)) s"

definition password_forgot :: "'p world \<Rightarrow> call \<Rightarrow> 'p server \<Rightarrow> outcome result \<times> 'p server" where
  "password_forgot W c s = after_db_redis (\<lambda>a. plain Accepted_Body)
     (forgot (handler_env W) (text_member (cal_body c) ''email'') (call_context c) (get_db s) (srv_redis s)) s"

definition password_reset :: "'p world \<Rightarrow> call \<Rightarrow> 'p server \<Rightarrow> outcome result \<times> 'p server" where
  "password_reset W c s = after_db_redis (\<lambda>u. plain Password_Changed_Body)
     (reset (handler_env W) \<lparr>rsi_token = text_member (cal_body c) ''token'',
        rsi_newPassword = text_member (cal_body c) ''newPassword''\<rparr> (call_context c) (get_db s) (srv_redis s)) s"

definition password_change :: "'p world \<Rightarrow> call \<Rightarrow> 'p server \<Rightarrow> outcome result \<times> 'p server" where
  "password_change W c s = after_db_redis (\<lambda>u. plain Password_Changed_Body)
     (change (handler_env W) (call_principal c) \<lparr>chi_currentPassword = text_member (cal_body c) ''currentPassword'',
        chi_newPassword = text_member (cal_body c) ''newPassword''\<rparr> (call_context c) (get_db s) (srv_redis s)) s"

subsection \<open>The handlers: registration\<close>

text \<open>\<open>/^[A-Za-z0-9._:-]+$/\<close> with 8 to 200 characters, and the client's identifier.\<close>

definition valid_registration_key :: "string option \<Rightarrow> bool" where
  "valid_registration_key h \<longleftrightarrow> truthy_text h \<and> 8 \<le> length (the h) \<and> length (the h) \<le> 200
     \<and> identifier_pattern (the h)"

definition registration_register :: "'p world \<Rightarrow> call \<Rightarrow> 'p server \<Rightarrow> outcome result \<times> 'p server" where
  "registration_register W c s =
     (if \<not> valid_registration_key (call_header c ''idempotency-key'')
      then (Inl (Http 400 ''IDEMPOTENCY_KEY_INVALID''), s)
      else after_db_redis (\<lambda>x. plain (Registration_Body x))
        (register (handler_env W) (wld_defaults W) (registration_input_of (cal_body c))
          \<lparr>rgc_correlationId = cal_correlationId c, rgc_ipAddress = client_address (cal_request c),
           rgc_idempotencyKey = the (call_header c ''idempotency-key'')\<rparr> (get_db s) (srv_redis s)) s)"

definition valid_client_instance :: "string option \<Rightarrow> bool" where
  "valid_client_instance h \<longleftrightarrow> truthy_text h \<and> instance_pattern (the h)"

definition registration_lookup :: "'p world \<Rightarrow> call \<Rightarrow> 'p server \<Rightarrow> outcome result \<times> 'p server" where
  "registration_lookup W c s =
     (if \<not> valid_client_instance (call_header c ''x-client-instance-id'')
      then (Inl (Http 400 ''CLIENT_INSTANCE_INVALID''), s)
      else (case initiate (handler_env W) 0 (wld_provider W)
          \<lparr>lki_nid = text_member (cal_body c) ''nid'', lki_email = text_member (cal_body c) ''email''\<rparr>
          \<lparr>lkc_correlationId = cal_correlationId c, lkc_ipAddress = client_address (cal_request c),
           lkc_clientInstanceId = the (call_header c ''x-client-instance-id'')\<rparr>
          (get_db s) (srv_provider s) (srv_redis s) of
        (res, d, p, r) \<Rightarrow> (map_sum id (\<lambda>x. plain (Lookup_Body x)) res,
          put_db d (s\<lparr>srv_provider := p, srv_redis := r\<rparr>))))"

definition email_verify :: "'p world \<Rightarrow> call \<Rightarrow> 'p server \<Rightarrow> outcome result \<times> 'p server" where
  "email_verify W c s = after_db (\<lambda>u. plain Email_Verified_Body)
     (verify_email (handler_env W) (text_member (cal_body c) ''token'') (call_context c) (get_db s)) s"

definition email_resend :: "'p world \<Rightarrow> call \<Rightarrow> 'p server \<Rightarrow> outcome result \<times> 'p server" where
  "email_resend W c s = after_db_redis (\<lambda>a. plain Accepted_Body)
     (resend (handler_env W) (text_member (cal_body c) ''email'') (call_context c) (get_db s) (srv_redis s)) s"

subsection \<open>The handlers: verification\<close>

definition stepUp_create :: "'p world \<Rightarrow> call \<Rightarrow> 'p server \<Rightarrow> outcome result \<times> 'p server" where
  "stepUp_create W c s = after_db (\<lambda>x. plain (Challenge_Body x))
     (createChallenge (handler_env W) (call_principal c) (step_up_input_of (cal_body c)) (call_context c)
       (get_db s)) s"

definition stepUp_challenge :: "'p world \<Rightarrow> call \<Rightarrow> 'p server \<Rightarrow> outcome result \<times> 'p server" where
  "stepUp_challenge W c s = after_db (\<lambda>x. plain (Challenge_Body x))
     (read_challenge (handler_env W) (call_principal c) (call_parameter c) (get_db s)) s"

text \<open>The retried rounds end with the first one (\<open>issue_answers\<close>): the last case does not occur.\<close>

definition stepUp_assertion :: "'p world \<Rightarrow> call \<Rightarrow> 'p server \<Rightarrow> outcome result \<times> 'p server" where
  "stepUp_assertion W c s =
     (case issueAssertion (\<lambda>n. wld_env W (n + 1)) 0 (call_principal c) (call_parameter c) (call_context c)
        (get_db s) of
        Some x \<Rightarrow> after_db (\<lambda>a. plain (Assertion_Body a)) x s
      | None \<Rightarrow> (Inl (Raised ''no answer''), s))"

definition internal_consume :: "'p world \<Rightarrow> call \<Rightarrow> 'p server \<Rightarrow> outcome result \<times> 'p server" where
  "internal_consume W c s = after_db (\<lambda>x. plain (Consumed_Body x))
     (consumeAssertion (handler_env W) (call_service c) (consume_input_of (cal_body c)) (get_db s)) s"

definition identity_createAttempt :: "'p world \<Rightarrow> call \<Rightarrow> 'p server \<Rightarrow> outcome result \<times> 'p server" where
  "identity_createAttempt W c s = after_db (\<lambda>x. plain (Attempt_Body x))
     (createAttempt (handler_env W) (call_principal c) (call_context c) (get_db s)) s"

definition identity_uploadPolicy :: "'p world \<Rightarrow> call \<Rightarrow> 'p server \<Rightarrow> outcome result \<times> 'p server" where
  "identity_uploadPolicy W c s =
     (map_sum id (\<lambda>x. plain (Policy_Body x))
       (createUploadPolicy (handler_env W) (call_principal c) (call_parameter c) (upload_input_of (cal_body c))
         (get_db s)), s)"

definition identity_confirmUpload :: "'p world \<Rightarrow> call \<Rightarrow> 'p server \<Rightarrow> outcome result \<times> 'p server" where
  "identity_confirmUpload W c s = after_db (\<lambda>u. plain Confirmed_Body)
     (confirmUpload (handler_env W) (wld_media W) (call_principal c) (call_parameter c)
       (confirm_input_of (cal_body c)) (srv_storage s) (get_db s)) s"

definition identity_liveness :: "'p world \<Rightarrow> call \<Rightarrow> 'p server \<Rightarrow> outcome result \<times> 'p server" where
  "identity_liveness W c s = after_db (\<lambda>x. plain (Liveness_Body x))
     (createLivenessSession (handler_env W) (wld_engine W) (call_principal c) (call_parameter c) (get_db s)) s"

definition identity_submit :: "'p world \<Rightarrow> call \<Rightarrow> 'p server \<Rightarrow> outcome result \<times> 'p server" where
  "identity_submit W c s =
     (case submit (handler_env W) (wld_engine W) (wld_date W) (call_principal c) (call_parameter c)
        (call_context c) (get_db s) (srv_storage s) of
        (res, d, st) \<Rightarrow> (map_sum id (\<lambda>x. plain (Attempt_Body x)) res, put_db d (s\<lparr>srv_storage := st\<rparr>)))"

definition identity_status :: "'p world \<Rightarrow> call \<Rightarrow> 'p server \<Rightarrow> outcome result \<times> 'p server" where
  "identity_status W c s =
     (map_sum id (\<lambda>x. plain (Status_Body x)) (verification_status (call_principal c) (get_db s)), s)"

definition identity_attempt :: "'p world \<Rightarrow> call \<Rightarrow> 'p server \<Rightarrow> outcome result \<times> 'p server" where
  "identity_attempt W c s =
     (map_sum id (\<lambda>x. plain (Attempt_Body x)) (read_attempt (call_principal c) (call_parameter c) (get_db s)), s)"

subsection \<open>The handlers: passkeys, operations, keys and health\<close>

definition passkey_authenticationOptions :: "'p world \<Rightarrow> call \<Rightarrow> 'p server \<Rightarrow> outcome result \<times> 'p server" where
  "passkey_authenticationOptions W c s = after_redis (\<lambda>x. plain (Passkey_Flow_Body x))
     (authenticationOptions (handler_env W) (wld_webauthn W) (text_member (cal_body c) ''email'') (srv_db s)
       (srv_redis s)) s"

text \<open>The context of a passkey sign-in has no correlation identifier.\<close>

definition passkey_authenticationVerify :: "'p world \<Rightarrow> call \<Rightarrow> 'p server \<Rightarrow> outcome result \<times> 'p server" where
  "passkey_authenticationVerify W c s = after_passkeys_redis (issued_outcome (handler_env W))
     (verifyAuthentication (handler_env W) (wld_webauthn W) (passkey_input_of (cal_body c))
       ((call_context c)\<lparr>rq_correlationId := []\<rparr>) (srv_db s) (srv_redis s)) s"

definition passkey_registrationOptions :: "'p world \<Rightarrow> call \<Rightarrow> 'p server \<Rightarrow> outcome result \<times> 'p server" where
  "passkey_registrationOptions W c s = after_redis (\<lambda>x. plain (Passkey_Options_Body x))
     (registrationOptions (handler_env W) (wld_webauthn W) (call_principal c) (srv_db s) (srv_redis s)) s"

definition passkey_registrationVerify :: "'p world \<Rightarrow> call \<Rightarrow> 'p server \<Rightarrow> outcome result \<times> 'p server" where
  "passkey_registrationVerify W c s = after_passkeys_redis (\<lambda>x. plain (Passkey_Body x))
     (verifyRegistration (handler_env W) (wld_webauthn W) (call_principal c)
       (pli_response (passkey_input_of (cal_body c))) (optional_member (cal_body c) ''label'') (srv_db s)
       (srv_redis s)) s"

definition passkey_listing :: "'p world \<Rightarrow> call \<Rightarrow> 'p server \<Rightarrow> outcome result \<times> 'p server" where
  "passkey_listing W c s = (Inr (plain (Passkeys_Body (passkey_list (call_principal c) (srv_db s)))), s)"

definition passkey_revocation :: "'p world \<Rightarrow> call \<Rightarrow> 'p server \<Rightarrow> outcome result \<times> 'p server" where
  "passkey_revocation W c s =
     (Inr (plain No_Content),
      s\<lparr>srv_db := snd (passkey_revoke (handler_env W) (call_principal c) (call_parameter c) (srv_db s))\<rparr>)"

definition passkey_recoveryCodes :: "'p world \<Rightarrow> call \<Rightarrow> 'p server \<Rightarrow> outcome result \<times> 'p server" where
  "passkey_recoveryCodes W c s = after_passkeys (\<lambda>x. plain (Codes_Body x))
     (rotateRecoveryCodes (handler_env W) (call_principal c) (srv_db s)) s"

definition recovery_consume :: "'p world \<Rightarrow> call \<Rightarrow> 'p server \<Rightarrow> outcome result \<times> 'p server" where
  "recovery_consume W c s = after_passkeys (\<lambda>x. plain (Reset_Token_Body x))
     (consumeRecoveryCode (handler_env W) (text_member (cal_body c) ''email'')
       (text_member (cal_body c) ''recoveryCode'') (srv_db s)) s"

definition operations_jobs :: "'p world \<Rightarrow> call \<Rightarrow> 'p server \<Rightarrow> outcome result \<times> 'p server" where
  "operations_jobs W c s = (Inr (plain (Jobs_Body (srv_jobs s))), s)"

definition jwks_getKeys :: "'p world \<Rightarrow> call \<Rightarrow> 'p server \<Rightarrow> outcome result \<times> 'p server" where
  "jwks_getKeys W c s = (Inr (plain (Keys_Body (jwks (handler_env W)))), s)"

definition live_probe :: "'p world \<Rightarrow> call \<Rightarrow> 'p server \<Rightarrow> outcome result \<times> 'p server" where
  "live_probe W c s = (Inr (plain (Health_Body (health_live (handler_env W)))), s)"

text \<open>The body of the exception is the health status, which has no message for the envelope.\<close>

definition ready_probe :: "'p world \<Rightarrow> call \<Rightarrow> 'p server \<Rightarrow> outcome result \<times> 'p server" where
  "ready_probe W c s =
     (case ready (handler_env W) (wld_databaseUp W) (srv_readiness s, srv_redis s) of
        (v, cache, r) \<Rightarrow> (if hth_ok v then Inr (plain (Health_Body v)) else Inl (Http_Message 503 ''Request failed.''),
          s\<lparr>srv_readiness := cache, srv_redis := r\<rparr>))"

subsection \<open>Serving a request\<close>

fun handle :: "endpoint \<Rightarrow> 'p world \<Rightarrow> call \<Rightarrow> 'p server \<Rightarrow> outcome result \<times> 'p server" where
  "handle Auth_login = auth_login"
| "handle Auth_refresh = auth_refresh"
| "handle Session_upgrade = session_upgrade"
| "handle Jwks_getKeys = jwks_getKeys"
| "handle Sessions_logout = sessions_logout"
| "handle Sessions_logoutAll = sessions_logoutAll"
| "handle Sessions_list = sessions_list"
| "handle Sessions_revoke = sessions_revoke"
| "handle Registration_register = registration_register"
| "handle Registration_lookup = registration_lookup"
| "handle Email_verify = email_verify"
| "handle Email_resend = email_resend"
| "handle Password_forgot = password_forgot"
| "handle Password_reset = password_reset"
| "handle Password_change = password_change"
| "handle StepUp_create = stepUp_create"
| "handle StepUp_challenge = stepUp_challenge"
| "handle StepUp_assertion = stepUp_assertion"
| "handle Internal_consume = internal_consume"
| "handle Identity_createAttempt = identity_createAttempt"
| "handle Identity_uploadPolicy = identity_uploadPolicy"
| "handle Identity_confirmUpload = identity_confirmUpload"
| "handle Identity_liveness = identity_liveness"
| "handle Identity_submit = identity_submit"
| "handle Identity_status = identity_status"
| "handle Identity_attempt = identity_attempt"
| "handle Passkey_authenticationOptions = passkey_authenticationOptions"
| "handle Passkey_authenticationVerify = passkey_authenticationVerify"
| "handle Passkey_registrationOptions = passkey_registrationOptions"
| "handle Passkey_registrationVerify = passkey_registrationVerify"
| "handle Passkey_list = passkey_listing"
| "handle Passkey_revoke = passkey_revocation"
| "handle Passkey_recoveryCodes = passkey_recoveryCodes"
| "handle Recovery_consume = recovery_consume"
| "handle Operations_jobs = operations_jobs"
| "handle Health_live = live_probe"
| "handle Health_ready = ready_probe"

text \<open>The guards of a route, and the pipes: \<open>ParseUUIDPipe\<close> on every parameter, the class on the body.\<close>

definition authenticate :: "env \<Rightarrow> guarded \<Rightarrow> http_request \<Rightarrow> db \<Rightarrow> caller result" where
  "authenticate E g q d = (case g of
     Unguarded \<Rightarrow> Inr Anonymous
   | Bearer level \<Rightarrow>
       (case access_guard E (hrq_header q ''authorization'') d of
          Inl e \<Rightarrow> Inl e
        | Inr claims \<Rightarrow> map_sum id (\<lambda>_. Claims claims) (session_level_guard level claims))
   | Upgrade_Guard \<Rightarrow> map_sum id Claims (session_upgrade_guard E (hrq_header q ''authorization'') d)
   | Internal_Guard \<Rightarrow> map_sum id Internal_Service
       (internal_service_guard E (hrq_header q ''x-mucyora-service-name'') (hrq_header q ''x-mucyora-service-key'')))"

definition run_pipes :: "class_validator \<Rightarrow> route \<Rightarrow> http_request \<Rightarrow> (string list \<times> (string \<times> json) list) result" where
  "run_pipes V r q =
     (let ps = route_parameters (rte_path r) (hrq_path q)
      in if \<not> list_all (val_pipeUUID V) ps then Inl validation_failed
         else (case rte_body r of
             None \<Rightarrow> Inr (ps, [])
           | Some t \<Rightarrow> map_sum id (\<lambda>fs. (ps, fs)) (validate_body V (t V) (hrq_body q))))"

text \<open>A served request: the status and the outcome of its handler, or its error.\<close>

definition serve :: "'p world \<Rightarrow> http_request \<Rightarrow> 'p server \<Rightarrow> (nat \<times> outcome) result \<times> 'p server" where
  "serve W q s =
     (let E = wld_env W 0; correlationId = correlation_id E (hrq_header q ''x-correlation-id'')
      in (case find_route (hrq_method q) (hrq_path q) of
        None \<Rightarrow> (Inl (Http_Message 404 ''Not Found''), s)
      | Some (e, r) \<Rightarrow>
     (case authenticate E (rte_guard r) q (get_db s) of
        Inl err \<Rightarrow> (Inl err, s)
      | Inr who \<Rightarrow>
     (case run_pipes (wld_validator W) r q of
        Inl err \<Rightarrow> (Inl err, s)
      | Inr (ps, fs) \<Rightarrow>
          (case handle e W \<lparr>cal_request = q, cal_correlationId = correlationId, cal_caller = who,
              cal_parameters = ps, cal_body = fs\<rparr> s of
            (res, s1) \<Rightarrow> (map_sum id (\<lambda>x. (rte_status r, x)) res, s1))))))"

text \<open>The status of an answer, as the framework and the global filter send it.\<close>

definition error_status :: "api_error \<Rightarrow> nat" where
  "error_status e = (case e of Http n c \<Rightarrow> n | Http_Message n m \<Rightarrow> n | Raised m \<Rightarrow> 500)"

definition answer_status :: "(nat \<times> outcome) result \<Rightarrow> nat" where
  "answer_status res = (case res of Inl e \<Rightarrow> error_status e | Inr (n, x) \<Rightarrow> n)"

end
