(* ===== verification/Lifetimes.thy ===== *)
theory Lifetimes
  imports Routes
begin

text \<open>
  What no request undoes.  Sessions, refresh tokens, reset requests, email tokens, step-up challenges,
  recovery codes and passkeys each have a condition under which a row is still of use; every handler
  keeps a row that is no longer of use that way, and keeps it in its table.
\<close>

subsection \<open>Tables whose rows end for good\<close>

text \<open>
  \<open>U\<close> is a set of identifiers that are not given out again: those of rows that are or were there.  A table
  changes by rows that end, and by new rows whose identifiers are not in \<open>U\<close> and not in the table.
\<close>

definition fresh_ids :: "string set \<Rightarrow> env \<Rightarrow> bool" where
  "fresh_ids U E \<longleftrightarrow> id_laws E \<and> (\<forall>ids. gen_id E ids \<notin> U)"

definition stays_ended :: "string set \<Rightarrow> ('r \<Rightarrow> string) \<Rightarrow> ('r \<Rightarrow> bool) \<Rightarrow> 'r list \<Rightarrow> 'r list \<Rightarrow> bool" where
  "stays_ended U key alive t u \<longleftrightarrow> (distinct (map key t) \<longrightarrow> distinct (map key u)) \<and> key ` set t \<subseteq> key ` set u
     \<and> (\<forall>x \<in> set u. key x \<in> U \<longrightarrow> key x \<in> key ` set t)
     \<and> (\<forall>x \<in> set u. alive x \<longrightarrow> key x \<in> key ` set t \<longrightarrow> (\<exists>y \<in> set t. key y = key x \<and> alive y))"

lemma stays_ended_refl [simp, intro]: "stays_ended U key alive t t"
  by (auto simp: stays_ended_def)

lemma stays_ended_trans:
  assumes "stays_ended U key alive t u" and "stays_ended U key alive u v"
  shows "stays_ended U key alive t v"
proof -
  have ids: "key ` set t \<subseteq> key ` set u" "key ` set u \<subseteq> key ` set v"
    using assms by (auto simp: stays_ended_def)
  have new: "key x \<in> key ` set t" if x: "x \<in> set v" "key x \<in> U" for x
  proof -
    have "key x \<in> key ` set u" using assms(2) x unfolding stays_ended_def by blast
    then obtain z where "z \<in> set u" "key z = key x" by auto
    then show ?thesis using assms(1) x(2) unfolding stays_ended_def by metis
  qed
  have "\<exists>y \<in> set t. key y = key x \<and> alive y" if x: "x \<in> set v" "alive x" "key x \<in> key ` set t" for x
  proof -
    have "key x \<in> key ` set u" using x(3) ids(1) by blast
    then obtain z where z: "z \<in> set u" "key z = key x" "alive z"
      using assms(2) x by (auto simp: stays_ended_def)
    then have "key z \<in> key ` set t" using x(3) by simp
    then show ?thesis using assms(1) z unfolding stays_ended_def by metis
  qed
  moreover have "distinct (map key t) \<longrightarrow> distinct (map key v)" using assms by (simp add: stays_ended_def)
  ultimately show ?thesis using ids new by (auto simp: stays_ended_def)
qed

lemma stays_ended_update:
  assumes "\<And>x. P x \<Longrightarrow> key (f x) = key x" and "\<And>x. P x \<Longrightarrow> alive (f x) \<Longrightarrow> alive x"
  shows "stays_ended U key alive t (update_rows P f t)"
proof -
  have keys: "map key (update_rows P f t) = map key t" using assms(1) by (rule map_update_rows)
  then have ids: "key ` set (update_rows P f t) = key ` set t" by (metis set_map)
  have "\<exists>y \<in> set t. key y = key x \<and> alive y" if x: "x \<in> set (update_rows P f t)" "alive x" for x
    using x(1) by (cases rule: in_update_rowsE) (use assms x(2) in metis)+
  moreover have "key x \<in> key ` set t" if "x \<in> set (update_rows P f t)" for x
    using that ids by blast
  ultimately show ?thesis by (auto simp: stays_ended_def ids keys)
qed

lemma stays_ended_append:
  "fresh_ids U E \<Longrightarrow> key r = gen_id E (map key t) \<Longrightarrow> stays_ended U key alive t (t @ [r])"
  using id_lawsD [of E "map key t"] by (auto simp: stays_ended_def fresh_ids_def)

text \<open>The same after other changes of the table.\<close>

lemma stays_ended_then_update:
  "stays_ended U key alive t u \<Longrightarrow> (\<And>x. P x \<Longrightarrow> key (f x) = key x)
    \<Longrightarrow> (\<And>x. P x \<Longrightarrow> alive (f x) \<Longrightarrow> alive x) \<Longrightarrow> stays_ended U key alive t (update_rows P f u)"
  by (rule stays_ended_trans [OF _ stays_ended_update])

lemma stays_ended_then_append:
  "fresh_ids U E \<Longrightarrow> stays_ended U key alive t u \<Longrightarrow> key r = gen_id E (map key u)
    \<Longrightarrow> stays_ended U key alive t (u @ [r])"
  by (rule stays_ended_trans [OF _ stays_ended_append])

lemma stays_ended_dead:
  assumes "stays_ended U key alive t u" and "k \<in> key ` set t" and "\<And>y. y \<in> set t \<Longrightarrow> key y = k \<Longrightarrow> \<not> alive y"
  shows "k \<in> key ` set u" and "x \<in> set u \<Longrightarrow> key x = k \<Longrightarrow> \<not> alive x"
  using assms unfolding stays_ended_def by (blast, metis)

text \<open>A history of steps keeps what every step keeps.\<close>

locale monotone_system =
  fixes step :: "'a \<Rightarrow> 's \<Rightarrow> 's" and valid :: "'a \<Rightarrow> bool" and rel :: "'s \<Rightarrow> 's \<Rightarrow> bool"
  assumes rel_refl: "rel s s"
    and rel_trans: "rel s t \<Longrightarrow> rel t u \<Longrightarrow> rel s u"
    and step_rel: "valid a \<Longrightarrow> rel s (step a s)"
begin

lemma history_rel: "list_all valid as \<Longrightarrow> rel s (fold step as s)"
  by (induction as arbitrary: s) (auto intro: rel_refl rel_trans step_rel)

end

subsection \<open>The database\<close>

definition token_live :: "refresh_row \<Rightarrow> bool" where
  "token_live t \<longleftrightarrow> rft_usedAt t = None \<and> rft_revokedAt t = None"

definition reset_live :: "reset_request_row \<Rightarrow> bool" where
  "reset_live r \<longleftrightarrow> rst_usedAt r = None \<and> rst_revokedAt r = None"

definition email_live :: "email_token_row \<Rightarrow> bool" where
  "email_live t \<longleftrightarrow> emt_usedAt t = None \<and> emt_supersededAt t = None"

definition step_up_live :: "step_up_row \<Rightarrow> bool" where
  "step_up_live c \<longleftrightarrow> sup_status c = StepUp_PENDING \<or> sup_status c = StepUp_VERIFIED"

definition session_active :: "session_row \<Rightarrow> bool" where
  "session_active s \<longleftrightarrow> ses_status s = Session_ACTIVE"

lemmas live_defs = token_live_def reset_live_def email_live_def step_up_live_def session_active_def session_open_def

text \<open>Users, addresses, citizens and credentials are each there once.\<close>

definition accounts_wf :: "db \<Rightarrow> bool" where
  "accounts_wf d \<longleftrightarrow> accounts_unique d \<and> distinct (map cred_userId (credentials d))"

definition db_evolves :: "string set \<Rightarrow> db \<Rightarrow> db \<Rightarrow> bool" where
  "db_evolves U d e \<longleftrightarrow> stays_ended U ses_id session_active (sessions d) (sessions e)
     \<and> stays_ended U ses_id session_open (sessions d) (sessions e)
     \<and> stays_ended U rft_id token_live (refresh_tokens d) (refresh_tokens e)
     \<and> stays_ended U rst_id reset_live (reset_requests d) (reset_requests e)
     \<and> stays_ended U emt_id email_live (email_tokens d) (email_tokens e)
     \<and> stays_ended U sup_id step_up_live (step_ups d) (step_ups e)
     \<and> (accounts_wf d \<longrightarrow> accounts_wf e)"

named_theorems evolves \<open>rules that show db_evolves\<close>

lemma db_evolves_refl [simp, intro]: "db_evolves U d d"
  by (simp add: db_evolves_def)

lemma db_evolves_trans: "db_evolves U d e \<Longrightarrow> db_evolves U e f \<Longrightarrow> db_evolves U d f"
  unfolding db_evolves_def by (blast intro: stays_ended_trans)

lemma db_evolves_frame [simp]:
  "db_evolves U d (e\<lparr>consents := x4\<rparr>) = db_evolves U d e"
  "db_evolves U d (e\<lparr>challenges := x5\<rparr>) = db_evolves U d e"
  "db_evolves U d (e\<lparr>idempotency := x6\<rparr>) = db_evolves U d e"
  "db_evolves U d (e\<lparr>attempts := x7\<rparr>) = db_evolves U d e"
  "db_evolves U d (e\<lparr>media := x8\<rparr>) = db_evolves U d e"
  "db_evolves U d (e\<lparr>outbox := x9\<rparr>) = db_evolves U d e"
  "db_evolves U d (e\<lparr>events := x10\<rparr>) = db_evolves U d e"
  "db_evolves U d (create_event E i e) = db_evolves U d e"
  "db_evolves U d (create_outbox E a n p e) = db_evolves U d e"
  by (simp_all add: db_evolves_def accounts_wf_def accounts_unique_def)

lemma db_evolves_accounts:
  "db_evolves U d e \<Longrightarrow> t = users e
    \<Longrightarrow> (\<And>x. P x \<Longrightarrow> usr_id (f x) = usr_id x \<and> usr_emailNormalized (f x) = usr_emailNormalized x)
    \<Longrightarrow> db_evolves U d (e\<lparr>users := update_rows P f t\<rparr>)"
  "db_evolves U d e \<Longrightarrow> c = credentials e \<Longrightarrow> (\<And>x. Q x \<Longrightarrow> cred_userId (g x) = cred_userId x)
    \<Longrightarrow> db_evolves U d (e\<lparr>credentials := update_rows Q g c\<rparr>)"
  by (simp_all add: db_evolves_def accounts_wf_def accounts_unique_def map_update_rows)

lemma db_evolves_table:
  "db_evolves U d e \<Longrightarrow> stays_ended U ses_id session_active (sessions e) t1
    \<Longrightarrow> stays_ended U ses_id session_open (sessions e) t1 \<Longrightarrow> db_evolves U d (e\<lparr>sessions := t1\<rparr>)"
  "db_evolves U d e \<Longrightarrow> stays_ended U rft_id token_live (refresh_tokens e) t2 \<Longrightarrow> db_evolves U d (e\<lparr>refresh_tokens := t2\<rparr>)"
  "db_evolves U d e \<Longrightarrow> stays_ended U rst_id reset_live (reset_requests e) t3 \<Longrightarrow> db_evolves U d (e\<lparr>reset_requests := t3\<rparr>)"
  "db_evolves U d e \<Longrightarrow> stays_ended U emt_id email_live (email_tokens e) t4 \<Longrightarrow> db_evolves U d (e\<lparr>email_tokens := t4\<rparr>)"
  "db_evolves U d e \<Longrightarrow> stays_ended U sup_id step_up_live (step_ups e) t5 \<Longrightarrow> db_evolves U d (e\<lparr>step_ups := t5\<rparr>)"
  by (auto simp: db_evolves_def accounts_wf_def accounts_unique_def intro: stays_ended_trans)

declare db_evolves_table [evolves] db_evolves_accounts [evolves] stays_ended_then_update [evolves] stays_ended_then_append [evolves]

lemma transact_evolves:
  assumes "\<And>x e. body d = (Inr x, e) \<Longrightarrow> db_evolves U d e"
  shows "db_evolves U d (snd (transact body d))"
  using transact_cases [of body d] assms by (metis db_evolves_refl snd_conv)

text \<open>The rows that are created have new identifiers.\<close>


lemma create_evolves:
  assumes "fresh_ids U E" and "db_evolves U d e"
  shows "db_evolves U d (snd (create_session E s e))"
    and "db_evolves U d (snd (create_refresh_token E t e))"
    and "db_evolves U d (snd (create_reset_request E r e))"
    and "db_evolves U d (snd (create_email_token E m e))"
  using assms
  by (auto simp: create_session_def create_refresh_token_def create_reset_request_def create_email_token_def
      Let_def intro!: evolves)


subsection \<open>Sessions and credentials\<close>

lemmas create_defs = create_session_def create_refresh_token_def create_reset_request_def
  create_email_token_def and_then_def Let_def

lemma login_commit_evolves:
  "fresh_ids U E \<Longrightarrow> db_evolves U d (snd (login_commit E input ctx user credential ipHash risk refreshDigest rehashed d))"
  unfolding login_commit_def
  by (rule transact_evolves)
    (auto simp: create_defs split: prod.splits sum.splits if_splits intro!: evolves)

lemma recordFailedCredential_evolves: "db_evolves U d (snd (recordFailedCredential E u c n i h d))"
  unfolding recordFailedCredential_def
  by (rule transact_evolves) (auto simp: Let_def split: if_splits intro!: evolves)

lemma write_event_evolves [simp]: "db_evolves U d (snd (write_event E i e)) = db_evolves U d e"
  by (auto simp: write_event_def split: sum.splits if_splits prod.splits)

lemma snd_evolves: "f = (res, e) \<Longrightarrow> db_evolves U d (snd f) \<Longrightarrow> db_evolves U d e"
  by simp

text \<open>The branches of a handler, each on its own.\<close>

lemma branches:
  "R (snd a) \<Longrightarrow> R (snd b) \<Longrightarrow> R (snd (if P then a else b))"
  "(\<And>e. R (snd (f1 e))) \<Longrightarrow> (\<And>x. R (snd (g1 x))) \<Longrightarrow> R (snd (case r of Inl e \<Rightarrow> f1 e | Inr x \<Rightarrow> g1 x))"
  "R (snd a) \<Longrightarrow> (\<And>x. R (snd (g2 x))) \<Longrightarrow> R (snd (case v of None \<Rightarrow> a | Some x \<Rightarrow> g2 x))"
  "(\<And>y z. p = (y, z) \<Longrightarrow> R (snd (f3 y z))) \<Longrightarrow> R (snd (case p of (y, z) \<Rightarrow> f3 y z))"
  "R (snd m) \<Longrightarrow> (\<And>x e. m = (Inr x, e) \<Longrightarrow> R e \<Longrightarrow> R (snd (k x e))) \<Longrightarrow> R (snd (and_then m k))"
  by (auto simp: and_then_def split: sum.split option.split prod.split)

lemmas snd_branches = branches(1-4) [where R = "db_evolves U d" for U d]
lemmas snd_and_then = branches(5) [where R = "db_evolves U d" for U d]

lemma login_checked_evolves: "fresh_ids U E \<Longrightarrow> db_evolves U d (snd (login_checked E input ctx e d))"
  unfolding login_checked_def writeLoginFailure_def Let_def
  by (intro snd_branches)
    (simp_all add: snd_evolves [OF _ login_commit_evolves] snd_evolves [OF _ recordFailedCredential_evolves])

lemma login_evolves: "fresh_ids U E \<Longrightarrow> db_evolves U d (fst (snd (login E input ctx d r)))"
  by (auto simp: login_def split: sum.split prod.split intro: snd_evolves [OF _ login_checked_evolves])

lemma created_token_evolves:
  "create_refresh_token E t e = (res, e') \<Longrightarrow> fresh_ids U E \<Longrightarrow> db_evolves U d e \<Longrightarrow> db_evolves U d e'"
  using create_evolves(2) [of _ E d e t] by simp

lemma rotate_evolves: "fresh_ids U E \<Longrightarrow> db_evolves U d (snd (rotate E ctx current session x d))"
  unfolding rotate_def
  by (rule transact_evolves)
    (auto simp: and_then_def Let_def live_defs unspent_def split: prod.splits sum.splits if_splits
      intro!: db_evolves_table stays_ended_update,
     erule created_token_evolves, auto simp: live_defs intro!: db_evolves_table stays_ended_update)

lemma revokeForReuse_evolves: "db_evolves U d (snd (revokeForReuse E current ctx d))"
  unfolding revokeForReuse_def
  by (rule transact_evolves) (auto simp: Let_def live_defs split: if_splits intro!: evolves)

lemma revokeSessions_evolves: "db_evolves U d (snd (revokeSessions E p scope reason ctx d))"
  unfolding revokeSessions_def
  by (rule transact_evolves) (auto simp: Let_def live_defs split: if_splits intro!: evolves)

lemma revoke_user_sessions_evolves: "db_evolves U d e \<Longrightarrow> db_evolves U d (revoke_user_sessions u now e)"
  by (auto simp: revoke_user_sessions_def live_defs intro!: evolves)

lemma side_effects_evolves [simp]:
  "db_evolves U d (writePasswordChangedSideEffects E u recipient ctx h code e) = db_evolves U d e"
  by (simp add: writePasswordChangedSideEffects_def)

lemma reset_transaction_evolves: "db_evolves U d (snd (reset_transaction E q recipient h ip ctx d))"
  unfolding reset_transaction_def
  by (rule transact_evolves)
    (auto simp: Let_def live_defs unspent_request_def set_password_def split: if_splits
      intro!: evolves revoke_user_sessions_evolves)

lemma change_transaction_evolves: "db_evolves U d (snd (change_transaction E u oldHash recipient h ip ctx d))"
  unfolding change_transaction_def
  by (rule transact_evolves)
    (auto simp: Let_def live_defs set_password_def split: if_splits intro!: evolves revoke_user_sessions_evolves)

lemma forgot_transaction_evolves: "fresh_ids U E \<Longrightarrow> db_evolves U d (snd (forgot_transaction E u g t ip ctx d))"
  unfolding forgot_transaction_def
  by (rule transact_evolves)
    (auto simp: create_defs live_defs open_request_def split: prod.splits sum.splits if_splits intro!: evolves)

lemma resend_transaction_evolves: "fresh_ids U E \<Longrightarrow> db_evolves U d (snd (resend_transaction E u g t ip ctx d))"
  unfolding resend_transaction_def
  by (rule transact_evolves)
    (auto simp: create_defs live_defs open_email_token_def split: prod.splits sum.splits if_splits intro!: evolves)

lemma verify_email_evolves: "db_evolves U d (snd (verify_email E t ctx d))"
  unfolding verify_email_def
  by (rule transact_evolves)
    (auto simp: Let_def live_defs unspent_email_token_def split: option.splits if_splits intro!: evolves)


lemma refresh_locked_evolves: "fresh_ids U E \<Longrightarrow> db_evolves U d (snd (refresh_locked E current session t ctx d))"
  unfolding refresh_locked_def
  by (auto split: option.split sum.split prod.split
      intro: snd_evolves [OF _ rotate_evolves] snd_evolves [OF _ revokeForReuse_evolves])

lemma finally_release_db [simp]: "fst (snd (finally_release k v x)) = fst (snd x)"
  by (auto simp: finally_release_def split: prod.split sum.split)

lemma refresh_evolves: "fresh_ids U E \<Longrightarrow> db_evolves U d (fst (snd (refresh E token t ctx d r)))"
  unfolding refresh_def Let_def
  by (auto split: option.split sum.split prod.split
      intro: snd_evolves [OF _ refresh_locked_evolves])

lemma forgot_evolves: "fresh_ids U E \<Longrightarrow> db_evolves U d (fst (snd (forgot E email ctx d r)))"
  unfolding forgot_def Let_def
  by (auto split: option.split sum.split prod.split intro: snd_evolves [OF _ forgot_transaction_evolves])

lemma resend_evolves: "fresh_ids U E \<Longrightarrow> db_evolves U d (fst (snd (resend E email ctx d r)))"
  unfolding resend_def Let_def
  by (auto split: option.split sum.split prod.split intro: snd_evolves [OF _ resend_transaction_evolves])

lemma reset_evolves: "db_evolves U d (fst (snd (reset E input ctx d r)))"
  unfolding reset_def Let_def
  by (auto split: option.split sum.split prod.split intro: snd_evolves [OF _ reset_transaction_evolves])

lemma change_evolves: "db_evolves U d (fst (snd (change E p input ctx d r)))"
  unfolding change_def Let_def
  by (auto split: option.split sum.split prod.split intro: snd_evolves [OF _ change_transaction_evolves])

lemma logout_evolves:
  "db_evolves U d (snd (logout E p ctx d))" "db_evolves U d (snd (logoutAll E p ctx d))"
  "db_evolves U d (snd (revoke E p k ctx d))"
  by (simp_all add: logout_def logoutAll_def revoke_def revokeSessions_evolves)

lemma created_session_evolves:
  "create_session E t e = (res, e') \<Longrightarrow> fresh_ids U E \<Longrightarrow> db_evolves U d e \<Longrightarrow> db_evolves U d e'"
  using create_evolves(1) [of _ E d e t] by simp

lemma upgrade_replace_evolves:
  assumes "upgrade_replace E claims input scope k ctx g limited e = (Inr x, e')"
    and "fresh_ids U E" and "db_evolves U d e"
  shows "db_evolves U d e'"
  using assms unfolding upgrade_replace_def
  by (auto simp: create_defs live_defs upgrade_target_def split: prod.splits sum.splits if_splits intro!: evolves)

lemma upgrade_transaction_evolves:
  "fresh_ids U E \<Longrightarrow> db_evolves U d (snd (upgrade_transaction E claims input k ctx g d))"
  unfolding upgrade_transaction_def
  by (rule transact_evolves)
    (auto simp: Let_def and_then_def create_idempotency_def split: option.splits sum.splits prod.splits
      if_splits idempotency_status.splits elim!: upgrade_replace_evolves)

lemma upgrade_request_evolves: "fresh_ids U E \<Longrightarrow> db_evolves U d (snd (upgrade_request E claims input k ctx d))"
  unfolding upgrade_request_def upgrade_def
  by (auto split: option.split sum.split prod.split intro: snd_evolves [OF _ upgrade_transaction_evolves])


subsection \<open>Registration and verification\<close>

lemma create_consents_evolves [simp]: "db_evolves U d (create_consents E u now cs e) = db_evolves U d e"
  by (induction E u now cs e rule: create_consents.induct) simp_all

lemma account_rows_evolve:
  "fresh_ids U E \<Longrightarrow> db_evolves U d e \<Longrightarrow> db_evolves U d (snd (create_user E dft m e))"
  "db_evolves U d e \<Longrightarrow> db_evolves U d (snd (create_credential E dft u h now e))"
  "db_evolves U d e \<Longrightarrow> db_evolves U d (snd (create_identity E i e))"
  "db_evolves U d e \<Longrightarrow> db_evolves U d (snd (create_idempotency E scope k q t e))"
  using id_lawsD [of E "map usr_id (users e)"]
  by (auto simp: create_user_def create_credential_def create_identity_def create_idempotency_def Let_def
      db_evolves_def accounts_wf_def accounts_unique_def fresh_ids_def)

lemma create_account_evolves:
  "fresh_ids U E \<Longrightarrow> db_evolves U d e \<Longrightarrow> db_evolves U d (snd (create_account E dft g now e))"
  unfolding create_account_def
  by (intro snd_and_then snd_branches create_evolves account_rows_evolve) simp_all

lemma recordAttempt_evolves:
  "recordAttempt E k now e = (x, e') \<Longrightarrow> db_evolves U d e \<Longrightarrow> db_evolves U d e'"
  "consume E k now e = (x, e') \<Longrightarrow> db_evolves U d e \<Longrightarrow> db_evolves U d e'"
  by (auto simp: recordAttempt_def consume_def Let_def)

lemma register_body_evolves:
  "fresh_ids U E \<Longrightarrow> db_evolves U d (snd (register_body E dft g d))"
  unfolding register_body_def Let_def
  by (intro snd_and_then snd_branches create_account_evolves account_rows_evolve) (auto dest: recordAttempt_evolves)

lemma register_evolves: "fresh_ids U E \<Longrightarrow> db_evolves U d (fst (snd (register E dft input ctx d r)))"
proof -
  assume id: "fresh_ids U E"
  have t: "db_evolves U d (snd (register_transaction E dft g d))" for g
    using register_body_evolves [OF id, of d dft g] transact_evolves [of "register_body E dft g" d]
    by (auto simp: register_transaction_def split: prod.split sum.split dest: snd_evolves)
  have c: "db_evolves U d (snd (register_checked E dft input ctx m q x d))" for m q x
    unfolding register_checked_def by (intro snd_branches t) simp_all
  show ?thesis
    unfolding register_def Let_def
    by (auto split: sum.split option.split prod.split intro: snd_evolves [OF _ c])
qed

lemma initiate_evolves: "db_evolves U d (fst (snd (initiate E i provider input ctx d p r)))"
proof -
  have t: "db_evolves U d (snd (challenge_transaction E a b c x h t k d))" for a b c x h t k
    unfolding challenge_transaction_def by (rule transact_evolves) (auto simp: Let_def split: if_splits)
  have f: "db_evolves U d (snd (initiate_found E i k n m h c d))" for k n m h c
    unfolding initiate_found_def Let_def
    by (intro snd_branches)
      (auto simp: writeDeniedEvent_def intro!: snd_branches snd_evolves [OF _ t] split: option.split sum.split)
  show ?thesis
    unfolding initiate_def Let_def
    by (auto simp: writeDeniedEvent_def split: sum.split prod.split citizen_error.split intro: snd_evolves [OF _ f])
qed

lemma expireDue_evolves: "db_evolves U d (expireDue now d)"
  by (auto simp: expireDue_def live_defs step_up_due_def intro!: evolves)

lemma createChallenge_evolves: "fresh_ids U E \<Longrightarrow> db_evolves U d (snd (createChallenge E p input ctx d))"
proof -
  assume id: "fresh_ids U E"
  show ?thesis
    unfolding createChallenge_def
    by (auto split: sum.split
        intro!: db_evolves_trans [OF expireDue_evolves transact_evolves])
      (use id in \<open>auto simp: Let_def new_step_up_def split: if_splits option.splits intro!: evolves\<close>)
qed

lemma read_challenge_evolves: "db_evolves U d (snd (read_challenge E p k d))"
  by (auto simp: read_challenge_def Let_def expireDue_evolves split: option.split)

lemma claim_assertion_evolves: "db_evolves U d (snd (claim_assertion E p k ctx q a t d))"
  unfolding claim_assertion_def
  by (rule transact_evolves)
    (auto simp: Let_def live_defs claimable_def split: sum.splits if_splits intro!: evolves)

lemma issue_round_evolves: "db_evolves U d (snd (issue_round E p k ctx d))"
proof -
  have n: "db_evolves U e (snd (issue_new E p k ctx c a e))" for c a e
    unfolding issue_new_def Let_def
    by (intro snd_branches) (auto intro: snd_evolves [OF _ claim_assertion_evolves] split: sum.split)
  have "db_evolves U d (snd (issue_new E p k ctx c a (expireDue (clock E 0) d)))" for c a
    by (rule db_evolves_trans [OF expireDue_evolves n])
  then show ?thesis
    unfolding issue_round_def Let_def
    by (auto simp: expireDue_evolves split: option.split sum.split step_up_status.split prod.split)
qed

text \<open>What every round keeps, all of them keep.\<close>

lemma issueAssertion_keeps:
  assumes run: "issueAssertion Es n p k ctx d = Some x"
    and round: "\<And>E p k ctx d. R d (snd (issue_round E p k ctx d))"
    and trans: "\<And>a b c. R a b \<Longrightarrow> R b c \<Longrightarrow> R a c"
  shows "R d (snd x)"
proof (rule issueAssertion.raw_induct [of "\<lambda>Es n p k ctx d x. R d (snd x)", OF _ run])
  fix issue Es n p k ctx d x
  assume IH: "\<And>Es n p k ctx d x. issue Es n p k ctx d = Some x \<Longrightarrow> R d (snd x)"
    and eq: "(let (res, d1) = issue_round (Es n) p k ctx d
      in case res of Inl e \<Rightarrow> Some (Inl e, d1)
         | Inr answer \<Rightarrow> (case answer of Some x \<Rightarrow> Some (Inr x, d1) | None \<Rightarrow> issue Es (n + 1) p k ctx d1)) = Some x"
  have "R d (snd (issue_round (Es n) p k ctx d))" by (rule round)
  with eq show "R d (snd x)"
    by (auto split: prod.splits sum.splits option.splits dest: IH intro: trans)
qed

lemma issueAssertion_evolves: "issueAssertion Es n p k ctx d = Some x \<Longrightarrow> db_evolves U d (snd x)"
  by (erule issueAssertion_keeps) (rule issue_round_evolves, rule db_evolves_trans)

lemma consumeAssertion_evolves: "db_evolves U d (snd (consumeAssertion E service input d))"
  unfolding consumeAssertion_unfold Let_def
  by (auto simp: expireDue_evolves live_defs consumable_assertion_def split: sum.split option.split
      intro!: evolves)


lemma identity_evolves:
  "db_evolves U d (snd (createAttempt E p ctx d))"
  "db_evolves U d (snd (confirmUpload E schema p k input st d))"
  "db_evolves U d (snd (createLivenessSession E post p k d))"
proof -
  show "db_evolves U d (snd (createAttempt E p ctx d))"
    unfolding createAttempt_def by (rule transact_evolves)
      (auto simp: attempt_create_def Let_def start_enrolment_def split: option.splits sum.splits if_splits intro!: evolves)
  have "db_evolves U d (snd (store_media E schema k input c d))" for c
    unfolding store_media_def Let_def by (intro snd_branches) simp_all
  then show "db_evolves U d (snd (confirmUpload E schema p k input st d))"
    unfolding confirmUpload_def by (intro snd_branches) simp_all
  have "db_evolves U d (snd (liveness_store p k c d))" for c
    unfolding liveness_store_def Let_def by (intro snd_branches) simp_all
  then show "db_evolves U d (snd (createLivenessSession E post p k d))"
    unfolding createLivenessSession_def by (intro snd_branches) simp_all
qed

lemma delete_each_evolves [simp]: "db_evolves U d (fst (delete_each E ms e st)) = db_evolves U d e"
  by (induction E ms e st rule: delete_each.induct)
    (auto simp: mark_deleted_def split: prod.split sum.split)

lemma completion_writes_evolves:
  "db_evolves U d e \<Longrightarrow> db_evolves U d (completion_writes E p k q v t ctx e)"
  by (simp add: completion_writes_def Let_def db_evolves_accounts settle_user_def)

lemma submit_evolves: "db_evolves U d (fst (snd (submit E post date_ms p k ctx d st)))"
proof -
  have c: "db_evolves U e (snd (completeAttempt E p k q v t ctx e))" for e q v t
    unfolding completeAttempt_def
    by (rule transact_evolves) (auto simp: Let_def completion_writes_evolves split: option.splits if_splits)
  have u: "db_evolves U e (snd (recordUnavailable E k e))" for e
    unfolding recordUnavailable_def Let_def by (intro snd_branches) simp_all
  have f: "db_evolves U e (fst (snd (submit_finish E date_ms p k a answer ctx e st)))" for a answer e
    by (auto simp: submit_finish_def deleteAttemptMedia_def split: sum.split prod.split
        intro: snd_evolves [OF _ c] snd_evolves [OF _ u])
  have s: "db_evolves U d (snd (submit_claim E p k status d))" for status
    unfolding submit_claim_def Let_def by (intro snd_branches) simp_all
  show ?thesis
    using s f by (auto simp: submit_def split: sum.split prod.split)
      (metis db_evolves_trans snd_conv)+
qed

subsection \<open>Passkeys and recovery codes\<close>

definition code_live :: "recovery_row \<Rightarrow> bool" where
  "code_live c \<longleftrightarrow> rcc_usedAt c = None \<and> rcc_revokedAt c = None"

definition passkey_live :: "passkey_row \<Rightarrow> bool" where
  "passkey_live p \<longleftrightarrow> pkc_revokedAt p = None"

definition pdb_evolves :: "string set \<Rightarrow> passkey_db \<Rightarrow> passkey_db \<Rightarrow> bool" where
  "pdb_evolves U d e \<longleftrightarrow> db_evolves U (pdb_db d) (pdb_db e)
     \<and> stays_ended U rcc_id code_live (pdb_codes d) (pdb_codes e)
     \<and> stays_ended U pkc_id passkey_live (pdb_passkeys d) (pdb_passkeys e)"

lemma pdb_evolves_refl [simp, intro]: "pdb_evolves U d d"
  by (simp add: pdb_evolves_def)

lemma pdb_evolves_trans: "pdb_evolves U d e \<Longrightarrow> pdb_evolves U e f \<Longrightarrow> pdb_evolves U d f"
  unfolding pdb_evolves_def by (blast intro: stays_ended_trans db_evolves_trans)

lemmas pdb_branches = branches [where R = "pdb_evolves U d" for U d]

lemma pdb_transact_evolves: "pdb_evolves U d (snd (body d)) \<Longrightarrow> pdb_evolves U d (snd (transact body d))"
  by (auto simp: transact_def split: prod.split sum.split)

lemma pdb_db_evolves: "db_evolves U (pdb_db d) e \<Longrightarrow> pdb_evolves U d (d\<lparr>pdb_db := e\<rparr>)"
  by (simp add: pdb_evolves_def)

lemma pdb_snd_evolves: "f = (res, e) \<Longrightarrow> pdb_evolves U d (snd f) \<Longrightarrow> pdb_evolves U d e"
  by simp

lemma passkey_commit_evolves:
  assumes "fresh_ids U E"
  shows "pdb_evolves U d (snd (passkey_commit E input u ctx l credential n k d))"
  unfolding passkey_commit_def Let_def
proof (rule pdb_transact_evolves, intro pdb_branches)
  fix sid db1 r db2
  assume s: "create_session E (passkey_session E input u ctx l)
      (pdb_db (d\<lparr>pdb_passkeys := update_rows (\<lambda>p. pkc_id p = pkc_id credential)
        (\<lambda>p. p\<lparr>pkc_counter := n, pkc_lastUsedAt := Some (clock E 1)\<rparr>) (pdb_passkeys d)\<rparr>)) = (sid, db1)"
    and t: "create_refresh_token E (passkey_refresh_row E u sid k l) db1 = (r, db2)"
  have "db_evolves U (pdb_db d) db1" using created_session_evolves [OF s assms] by simp
  then have "db_evolves U (pdb_db d) db2" by (rule created_token_evolves [OF t assms])
  then show "pdb_evolves U d (snd (Inr sid, d\<lparr>pdb_passkeys := update_rows (\<lambda>p. pkc_id p = pkc_id credential)
        (\<lambda>p. p\<lparr>pkc_counter := n, pkc_lastUsedAt := Some (clock E 1)\<rparr>) (pdb_passkeys d), pdb_db := db2\<rparr>))"
    by (auto simp: pdb_evolves_def passkey_live_def intro!: stays_ended_update)
qed simp_all

lemma verifyAuthentication_evolves:
  assumes "fresh_ids U E"
  shows "pdb_evolves U d (fst (snd (verifyAuthentication E w input ctx d r)))"
proof -
  have s: "pdb_evolves U d (snd (passkey_sign_in E input u ctx credential n d))" for u credential n
    unfolding passkey_sign_in_def
    by (intro pdb_branches) (simp_all add: pdb_snd_evolves [OF _ passkey_commit_evolves] assms)
  show ?thesis
    unfolding verifyAuthentication_def
    by (auto split: option.split sum.split prod.split intro: pdb_snd_evolves [OF _ s])
qed

lemma verifyRegistration_evolves:
  "fresh_ids U E \<Longrightarrow> pdb_evolves U d (fst (snd (verifyRegistration E w p response label d r)))"
  unfolding verifyRegistration_def
  by (auto simp: pdb_evolves_def Let_def new_passkey_def split: option.split sum.split prod.split intro!: evolves)

lemma passkey_revoke_evolves: "pdb_evolves U d (snd (passkey_revoke E p k d))"
  by (auto simp: passkey_revoke_def Let_def pdb_evolves_def passkey_live_def intro!: evolves)

lemma insert_codes_ended:
  "fresh_ids U E \<Longrightarrow> stays_ended U rcc_id code_live t u \<Longrightarrow> stays_ended U rcc_id code_live t (insert_codes E i ks u)"
  by (induction E i ks u rule: insert_codes.induct) (simp_all add: stays_ended_then_append)

lemma rotateRecoveryCodes_evolves: "fresh_ids U E \<Longrightarrow> pdb_evolves U d (snd (rotateRecoveryCodes E p d))"
  by (auto simp: rotateRecoveryCodes_def Let_def pdb_evolves_def code_live_def split: sum.split
      intro!: insert_codes_ended evolves)

lemma consumeRecoveryCode_evolves:
  assumes "fresh_ids U E"
  shows "pdb_evolves U d (snd (consumeRecoveryCode E email code d))"
proof -
  have created: "create_reset_request E q e = (x, e') \<Longrightarrow> db_evolves U e e'" for q e x e'
    using create_evolves(3) [OF assms, of e e q] by simp
  have r: "pdb_evolves U d (snd (recover E m k t x d))" for m k t x
    unfolding recover_def
    by (rule pdb_transact_evolves, intro pdb_branches)
      (auto simp: pdb_evolves_def code_live_def usable_code_def dest: created intro!: stays_ended_update)
  show ?thesis
    unfolding consumeRecoveryCode_def Let_def
    by (intro pdb_branches) (auto intro: pdb_snd_evolves [OF _ r])
qed


subsection \<open>The service\<close>

definition server_evolves :: "string set \<Rightarrow> 'p server \<Rightarrow> 'p server \<Rightarrow> bool" where
  "server_evolves U s t \<longleftrightarrow> pdb_evolves U (srv_db s) (srv_db t)"

lemma server_evolves_refl [simp, intro]: "server_evolves U s s"
  by (simp add: server_evolves_def)

lemma server_evolves_trans: "server_evolves U s t \<Longrightarrow> server_evolves U t u \<Longrightarrow> server_evolves U s u"
  unfolding server_evolves_def by (rule pdb_evolves_trans)

lemma server_evolves_frame [simp]:
  "server_evolves U s (t\<lparr>srv_redis := r\<rparr>) = server_evolves U s t"
  "server_evolves U s (t\<lparr>srv_provider := p\<rparr>) = server_evolves U s t"
  "server_evolves U s (t\<lparr>srv_storage := st\<rparr>) = server_evolves U s t"
  "server_evolves U s (t\<lparr>srv_readiness := c\<rparr>) = server_evolves U s t"
  "srv_redis (t\<lparr>srv_db := pd\<rparr>) = srv_redis t"
  by (simp_all add: server_evolves_def)

lemma put_db_evolves: "db_evolves U (get_db s) d \<Longrightarrow> srv_db t = srv_db s \<Longrightarrow> server_evolves U s (put_db d t)"
  by (simp add: server_evolves_def put_db_def pdb_db_evolves)

lemma put_result_evolves:
  "f = (res, d, x) \<Longrightarrow> db_evolves U (get_db s) (fst (snd f)) \<Longrightarrow> srv_db t = srv_db s \<Longrightarrow> server_evolves U s (put_db d t)"
  by (simp add: put_db_evolves)

lemma after_evolves:
  "db_evolves U (get_db s) (snd x1) \<Longrightarrow> server_evolves U s (snd (after_db k1 x1 s))"
  "db_evolves U (get_db s) (fst (snd x2)) \<Longrightarrow> server_evolves U s (snd (after_db_redis k2 x2 s))"
  "server_evolves U s (snd (after_redis k3 x3 s))"
  "pdb_evolves U (srv_db s) (snd x4) \<Longrightarrow> server_evolves U s (snd (after_passkeys k4 x4 s))"
  "pdb_evolves U (srv_db s) (fst (snd x5)) \<Longrightarrow> server_evolves U s (snd (after_passkeys_redis k5 x5 s))"
  by (auto simp: after_db_def after_db_redis_def after_redis_def after_passkeys_def after_passkeys_redis_def
      put_db_def pdb_db_evolves server_evolves_def split: prod.split)

text \<open>The environments of a world generate identifiers that are not in use.\<close>

definition world_ids :: "string set \<Rightarrow> 'p world \<Rightarrow> bool" where
  "world_ids U W \<longleftrightarrow> (\<forall>n. fresh_ids U (wld_env W n))"

lemma world_idsD: "world_ids U W \<Longrightarrow> fresh_ids U (wld_env W n)"
  by (simp add: world_ids_def)

lemmas handler_evolves = login_evolves refresh_evolves upgrade_request_evolves logout_evolves forgot_evolves
  reset_evolves change_evolves register_evolves verify_email_evolves resend_evolves createChallenge_evolves
  read_challenge_evolves consumeAssertion_evolves identity_evolves verifyAuthentication_evolves
  verifyRegistration_evolves rotateRecoveryCodes_evolves consumeRecoveryCode_evolves

lemma handle_evolves:
  assumes W: "world_ids U W"
  shows "server_evolves U s (snd (handle e W c s))"
proof (cases e)
  case Auth_refresh
  then show ?thesis
    by (auto simp: auth_refresh_def Let_def split: sum.split
        intro!: after_evolves refresh_evolves world_idsD [OF W])
next
  case Registration_lookup
  then show ?thesis
    by (auto simp: registration_lookup_def split: prod.split intro: put_result_evolves [OF _ initiate_evolves])
next
  case StepUp_assertion
  then show ?thesis
    by (auto simp: stepUp_assertion_def split: option.split intro!: after_evolves issueAssertion_evolves)
next
  case Identity_submit
  then show ?thesis
    by (auto simp: identity_submit_def split: prod.split intro: put_result_evolves [OF _ submit_evolves])
next
  case Registration_register
  then show ?thesis
    using register_evolves [OF world_idsD [OF W]]
    by (auto simp: registration_register_def intro!: after_evolves)
next
  case Health_ready
  then show ?thesis by (auto simp: ready_probe_def split: prod.split)
next
  case Passkey_revoke
  then show ?thesis by (simp add: passkey_revocation_def server_evolves_def passkey_revoke_evolves)
qed (use handler_evolves world_idsD [OF W] in
    \<open>simp_all add: auth_login_def session_upgrade_def sessions_logout_def sessions_logoutAll_def sessions_list_def
      sessions_revoke_def password_forgot_def password_reset_def password_change_def email_verify_def
      email_resend_def stepUp_create_def stepUp_challenge_def internal_consume_def identity_createAttempt_def
      identity_uploadPolicy_def identity_confirmUpload_def identity_liveness_def identity_status_def
      identity_attempt_def passkey_authenticationOptions_def passkey_authenticationVerify_def
      passkey_registrationOptions_def passkey_registrationVerify_def passkey_listing_def
      passkey_recoveryCodes_def recovery_consume_def operations_jobs_def jwks_getKeys_def live_probe_def
      after_evolves\<close>)

lemma serve_evolves:
  assumes "world_ids U W"
  shows "server_evolves U s (snd (serve W q s))"
  using handle_evolves [OF assms]
  by (auto simp: serve_def Let_def split: option.split sum.split prod.split) (metis snd_conv)

text \<open>A history of served requests, each in its own world.\<close>

definition serve_step :: "'p world \<times> http_request \<Rightarrow> 'p server \<Rightarrow> 'p server" where
  "serve_step a s = snd (serve (fst a) (snd a) s)"

definition serve_all :: "('p world \<times> http_request) list \<Rightarrow> 'p server \<Rightarrow> 'p server" where
  "serve_all = fold serve_step"

interpretation sv: monotone_system serve_step "\<lambda>a. world_ids U (fst a)" "server_evolves U" for U
  by unfold_locales (auto simp: serve_step_def intro: server_evolves_trans serve_evolves)

lemma serve_all_evolves: "list_all (\<lambda>a. world_ids U (fst a)) as \<Longrightarrow> server_evolves U s (serve_all as s)"
  unfolding serve_all_def by (rule sv.history_rel)

end
