(* ===== verification/Service.thy ===== *)
theory Service
  imports Guarantees Lifetimes
begin

text \<open>
  The guarantees of the service as a whole: which credentials a route asks for, what its answers carry,
  and what no later request undoes.
\<close>

section \<open>Routes and their guards\<close>

text \<open>Two paths that some request could match both.\<close>

fun overlap :: "segment list \<Rightarrow> segment list \<Rightarrow> bool" where
  "overlap [] [] = True"
| "overlap (Literal a # p) (Literal b # q) = (a = b \<and> overlap p q)"
| "overlap (Parameter # p) (x # q) = overlap p q"
| "overlap (x # p) (Parameter # q) = overlap p q"
| "overlap _ _ = False"

lemma overlap_match: "segments_match p ss \<Longrightarrow> segments_match q ss \<Longrightarrow> overlap p q"
proof (induction p q arbitrary: ss rule: overlap.induct)
  case (2 a p b q)
  then show ?case by (cases ss) auto
next
  case (3 p x q)
  then show ?case by (cases ss; cases x) auto
next
  case (4 x p q)
  then show ?case by (cases ss; cases x) auto
qed (auto elim: segments_match.elims)

definition conflict :: "endpoint \<times> route \<Rightarrow> endpoint \<times> route \<Rightarrow> bool" where
  "conflict a b \<longleftrightarrow> rte_method (snd a) = rte_method (snd b) \<and> overlap (rte_path (snd a)) (rte_path (snd b))"

fun apart :: "('a \<Rightarrow> 'a \<Rightarrow> bool) \<Rightarrow> 'a list \<Rightarrow> bool" where
  "apart R [] = True"
| "apart R (x # xs) = (list_all (\<lambda>y. \<not> R x y) xs \<and> apart R xs)"

lemma apart_filter: "apart R xs \<Longrightarrow> (\<And>x y. P x \<Longrightarrow> P y \<Longrightarrow> R x y) \<Longrightarrow> length (filter P xs) \<le> 1"
proof (induction xs)
  case (Cons x xs)
  have "filter P xs = []" if "P x"
    using that Cons.prems by (auto simp: filter_empty_conv list_all_iff)
  with Cons show ?case by auto
qed simp

lemma route_table_apart: "apart conflict route_table"
  by code_simp

lemma one_route:
  "length (filter (\<lambda>(e, r). rte_method r = m \<and> segments_match (rte_path r) path) route_table) \<le> 1"
  by (rule apart_filter [OF route_table_apart]) (auto simp: conflict_def intro: overlap_match)

lemma map_sum_Inr: "map_sum f g x = Inr y \<longleftrightarrow> (\<exists>z. x = Inr z \<and> y = g z)"
  by (cases x) auto

lemma find_route_row: "find_route m path = Some (e, r) \<Longrightarrow> (e, r) \<in> set route_table"
  unfolding find_route_def by (drule find_row_SomeD) simp

text \<open>The routes of the guards, as the decorators of the controllers name them.\<close>

definition public_endpoints :: "endpoint set" where
  "public_endpoints = {Auth_login, Auth_refresh, Jwks_getKeys, Registration_register, Registration_lookup,
     Email_verify, Email_resend, Password_forgot, Password_reset, Passkey_authenticationOptions,
     Passkey_authenticationVerify, Recovery_consume, Health_live, Health_ready}"

lemma route_guards:
  assumes "(e, r) \<in> set route_table"
  shows "rte_guard r = Unguarded \<longleftrightarrow> e \<in> public_endpoints"
    and "rte_guard r = Bearer (Some l) \<longleftrightarrow> e \<in> {StepUp_create, StepUp_challenge, StepUp_assertion} \<and> l = FULL"
    and "rte_guard r = Upgrade_Guard \<longleftrightarrow> e = Session_upgrade"
    and "rte_guard r = Internal_Guard \<longleftrightarrow> e \<in> {Internal_consume, Operations_jobs}"
  using assms by (auto simp: route_table_def controller_defs prefixed_def excluded_route_def public_endpoints_def)

lemma serve_InrE:
  assumes "serve W q s = (Inr (n, x), s1)"
  obtains e r who ps fs where "find_route (hrq_method q) (hrq_path q) = Some (e, r)"
    and "authenticate (wld_env W 0) (rte_guard r) q (get_db s) = Inr who"
    and "run_pipes (wld_validator W) r q = Inr (ps, fs)"
    and "handle e W \<lparr>cal_request = q, cal_correlationId = correlation_id (wld_env W 0) (hrq_header q ''x-correlation-id''),
        cal_caller = who, cal_parameters = ps, cal_body = fs\<rparr> s = (Inr x, s1)"
    and "n = rte_status r"
proof -
  obtain e r where f: "find_route (hrq_method q) (hrq_path q) = Some (e, r)"
    using assms by (auto simp: serve_def Let_def split: option.splits)
  obtain who where a: "authenticate (wld_env W 0) (rte_guard r) q (get_db s) = Inr who"
    using assms f by (auto simp: serve_def Let_def split: sum.splits)
  obtain ps fs where p: "run_pipes (wld_validator W) r q = Inr (ps, fs)"
    using assms f a by (auto simp: serve_def Let_def split: sum.splits)
  have "handle e W \<lparr>cal_request = q, cal_correlationId = correlation_id (wld_env W 0) (hrq_header q ''x-correlation-id''),
        cal_caller = who, cal_parameters = ps, cal_body = fs\<rparr> s = (Inr x, s1) \<and> n = rte_status r"
    using assms f a p by (auto simp: serve_def Let_def map_sum_Inr split: prod.splits)
  with f a p show ?thesis using that by blast
qed

lemma session_upgrade_guard_InrE:
  assumes "session_upgrade_guard E authorization d = Inr claims"
  obtains token s where "authorization = Some (''Bearer '' @ token)" and "verify E 0 token = Inr claims"
    and "s \<in> set (sessions d)" and "json_field ''sid'' claims = Some (JStr (ses_id s))"
    and "json_field ''sub'' claims = Some (JStr (ses_userId s))" and "ses_level s = LIMITED"
    and "ses_status s = Session_ACTIVE
      \<or> ses_status s = Session_REVOKED \<and> ses_revocationReason s = Some SESSION_UPGRADE_REVOCATION_REASON"
    and "clock E 1 < ses_expiresAt s"
proof -
  obtain h where h: "authorization = Some h" "take 7 h = ''Bearer ''" and v: "verify E 0 (drop 7 h) = Inr claims"
    using assms by (auto simp: session_upgrade_guard_def bearer_token_def split: option.splits sum.splits if_splits)
  have "h = ''Bearer '' @ drop 7 h" using h(2) append_take_drop_id [of 7 h] by metis
  moreover obtain k where k: "json_field ''sid'' claims = Some (JStr k)"
    using assms v h by (auto simp: session_upgrade_guard_def bearer_token_def find_session_def
        split: option.splits sum.splits if_splits json.splits)
  moreover obtain s where s: "find_row (\<lambda>s. ses_id s = k) (sessions d) = Some s"
    and "json_field ''sub'' claims = Some (JStr (ses_userId s))" "ses_level s = LIMITED"
    and "ses_status s = Session_ACTIVE
      \<or> ses_status s = Session_REVOKED \<and> ses_revocationReason s = Some SESSION_UPGRADE_REVOCATION_REASON"
    and "clock E 1 < ses_expiresAt s"
    using assms v h k by (auto simp: session_upgrade_guard_def bearer_token_def find_session_def Let_def
        split: option.splits if_splits)
  moreover have "s \<in> set (sessions d)" "ses_id s = k" using find_row_SomeD [OF s] by auto
  ultimately show ?thesis using h(1) v that [of "drop 7 h" s] by auto
qed

end
