(* ===== verification/Isolation.thy ===== *)
theory Isolation
  imports Service
begin

text \<open>
  What a signed-in user cannot change: the account, the credential, the sessions, the passkeys and the
  recovery codes of anybody else.  Every handler behind a guard keeps the rows that others own.
\<close>

subsection \<open>Rows of others\<close>

definition kept :: "('r \<Rightarrow> string) \<Rightarrow> string \<Rightarrow> 'r list \<Rightarrow> 'r list \<Rightarrow> bool" where
  "kept owner u t t' \<longleftrightarrow> {x \<in> set t. owner x \<noteq> u} \<subseteq> set t'"

lemma kept_refl [simp, intro]: "kept owner u t t"
  by (auto simp: kept_def)

lemma kept_trans: "kept owner u t t1 \<Longrightarrow> kept owner u t1 t2 \<Longrightarrow> kept owner u t t2"
  by (auto simp: kept_def)

lemma kept_append: "kept owner u t t1 \<Longrightarrow> kept owner u t (t1 @ rs)"
  by (auto simp: kept_def)

lemma kept_update: "kept owner u t t1 \<Longrightarrow> (\<And>x. P x \<Longrightarrow> owner x = u) \<Longrightarrow> kept owner u t (update_rows P f t1)"
  unfolding kept_def set_update_rows by (auto 0 3 intro: rev_image_eqI)

definition others_kept :: "string \<Rightarrow> db \<Rightarrow> db \<Rightarrow> bool" where
  "others_kept u d e \<longleftrightarrow> kept usr_id u (users d) (users e)
     \<and> kept cred_userId u (credentials d) (credentials e) \<and> kept ses_userId u (sessions d) (sessions e)"

lemma others_kept_refl [simp, intro]: "others_kept u d d"
  by (simp add: others_kept_def)

lemma others_kept_trans: "others_kept u d e \<Longrightarrow> others_kept u e f \<Longrightarrow> others_kept u d f"
  unfolding others_kept_def by (blast intro: kept_trans)

lemma others_kept_frame [simp]:
  "others_kept u d (e\<lparr>refresh_tokens := x1\<rparr>) = others_kept u d e"
  "others_kept u d (e\<lparr>reset_requests := x2\<rparr>) = others_kept u d e"
  "others_kept u d (e\<lparr>email_tokens := x3\<rparr>) = others_kept u d e"
  "others_kept u d (e\<lparr>step_ups := x4\<rparr>) = others_kept u d e"
  "others_kept u d (e\<lparr>idempotency := x6\<rparr>) = others_kept u d e"
  "others_kept u d (e\<lparr>attempts := x7\<rparr>) = others_kept u d e"
  "others_kept u d (e\<lparr>media := x8\<rparr>) = others_kept u d e"
  "others_kept u d (create_event E i e) = others_kept u d e"
  "others_kept u d (create_outbox E a n p e) = others_kept u d e"
  by (simp_all add: others_kept_def)

lemma others_kept_table:
  "others_kept u d e \<Longrightarrow> kept usr_id u (users e) t1 \<Longrightarrow> others_kept u d (e\<lparr>users := t1\<rparr>)"
  "others_kept u d e \<Longrightarrow> kept cred_userId u (credentials e) t2 \<Longrightarrow> others_kept u d (e\<lparr>credentials := t2\<rparr>)"
  "others_kept u d e \<Longrightarrow> kept ses_userId u (sessions e) t3 \<Longrightarrow> others_kept u d (e\<lparr>sessions := t3\<rparr>)"
  by (auto simp: others_kept_def intro: kept_trans)

lemma transact_kept:
  assumes "\<And>x e. body d = (Inr x, e) \<Longrightarrow> others_kept u d e"
  shows "others_kept u d (snd (transact body d))"
  using transact_cases [of body d] assms by (metis others_kept_refl snd_conv)

lemma snd_kept: "f = (res, e) \<Longrightarrow> others_kept u d (snd f) \<Longrightarrow> others_kept u d e"
  by simp

lemmas kept_branches = branches(1-4) [where R = "others_kept u d" for u d]

subsection \<open>The services of a signed-in user\<close>

lemma revokeSessions_kept:
  assumes "distinct (map ses_id (sessions d))"
    and "\<And>s. s \<in> set (sessions d) \<Longrightarrow> scope s \<Longrightarrow> ses_userId s = u"
  shows "others_kept u d (snd (revokeSessions E p scope reason ctx d))"
proof -
  have "credentials (snd (revokeSessions E p scope reason ctx d)) = credentials d"
    by (simp add: revokeSessions_def transact_def Let_def)
  moreover have "x \<in> set (sessions (snd (revokeSessions E p scope reason ctx d)))"
    if "x \<in> set (sessions d)" "ses_userId x \<noteq> u" for x
    using revokeSessions_other [OF assms(1) that(1)] assms(2) that by metis
  ultimately show ?thesis by (auto simp: others_kept_def kept_def)
qed

lemma logout_kept:
  assumes "distinct (map ses_id (sessions d))" and "u = prn_sub p"
    and "\<And>s. s \<in> set (sessions d) \<Longrightarrow> ses_id s = prn_sid p \<Longrightarrow> ses_userId s = u"
  shows "others_kept u d (snd (logout E p ctx d))" and "others_kept u d (snd (logoutAll E p ctx d))"
    and "others_kept u d (snd (revoke E p k ctx d))"
  using assms by (auto simp: logout_def logoutAll_def revoke_def intro!: revokeSessions_kept)

lemma revoke_user_sessions_kept: "others_kept u d e \<Longrightarrow> others_kept u d (revoke_user_sessions u now e)"
  by (auto simp: revoke_user_sessions_def intro!: others_kept_table kept_update)

lemma change_kept: "others_kept (prn_sub p) d (fst (snd (change E p input ctx d r)))"
proof -
  have c: "others_kept u d (snd (change_transaction E u h m q i ctx d))" for u h m q i
    unfolding change_transaction_def
    by (rule transact_kept)
      (auto simp: Let_def writePasswordChangedSideEffects_def split: if_splits
        intro!: revoke_user_sessions_kept others_kept_table kept_update)
  then show ?thesis
    unfolding change_def Let_def by (auto split: option.split sum.split prod.split intro: snd_kept [OF _ c])
qed

lemma created_kept:
  "create_session E t e = (res, e') \<Longrightarrow> others_kept u d e \<Longrightarrow> others_kept u d e'"
  "create_refresh_token E k e = (res', e'') \<Longrightarrow> others_kept u d e \<Longrightarrow> others_kept u d e''"
  by (auto simp: create_session_def create_refresh_token_def Let_def split: if_splits intro!: others_kept_table kept_append)

lemma upgrade_kept: "others_kept (prn_sub p) d (snd (upgrade_request E p input k ctx d))"
proof -
  have r: "others_kept (prn_sub p) d e'"
    if "upgrade_replace E p input scope i ctx g limited e = (Inr x, e')" and "others_kept (prn_sub p) d e"
    for scope i g limited e x e'
    using that unfolding upgrade_replace_def
    by (auto simp: create_defs upgrade_target_def split: prod.splits sum.splits if_splits
        intro!: others_kept_table kept_append kept_update)
  have "others_kept (prn_sub p) d (snd (upgrade_transaction E p input i ctx g d))" for i g
    unfolding upgrade_transaction_def
    by (rule transact_kept)
      (auto simp: Let_def and_then_def create_idempotency_def split: option.splits sum.splits prod.splits
        if_splits idempotency_status.splits elim!: r)
  then show ?thesis
    unfolding upgrade_request_def upgrade_def by (auto split: option.split sum.split prod.split intro: snd_kept)
qed

lemma expireDue_kept [simp]: "others_kept u d (expireDue now d)"
  by (simp add: expireDue_def)

lemma createChallenge_kept: "others_kept u d (snd (createChallenge E p input ctx d))"
  unfolding createChallenge_def
  by (auto split: sum.split intro!: others_kept_trans [OF expireDue_kept transact_kept])
    (auto simp: Let_def split: if_splits option.splits)

lemma read_challenge_kept: "others_kept u d (snd (read_challenge E p k d))"
  by (auto simp: read_challenge_def Let_def split: option.split)

lemma issue_round_kept: "others_kept u d (snd (issue_round E p k ctx d))"
proof -
  have c: "others_kept u e (snd (claim_assertion E p k ctx q a t e))" for q a t e
    unfolding claim_assertion_def
    by (rule transact_kept) (auto simp: Let_def split: sum.splits if_splits)
  have n: "others_kept u e (snd (issue_new E p k ctx q a e))" for q a e
    unfolding issue_new_def Let_def
    by (intro kept_branches) (auto intro: snd_kept [OF _ c] split: sum.split)
  have "others_kept u d (snd (issue_new E p k ctx q a (expireDue (clock E 0) d)))" for q a
    by (rule others_kept_trans [OF expireDue_kept n])
  then show ?thesis
    unfolding issue_round_def Let_def by (auto split: option.split sum.split step_up_status.split prod.split)
qed

lemma issueAssertion_kept: "issueAssertion Es n p k ctx d = Some x \<Longrightarrow> others_kept u d (snd x)"
  by (erule issueAssertion_keeps) (rule issue_round_kept, rule others_kept_trans)

lemma identity_kept:
  "others_kept (prn_sub p) d (snd (createAttempt E p ctx d))"
  "others_kept (prn_sub p) d (snd (confirmUpload E schema p k input st d))"
  "others_kept (prn_sub p) d (snd (createLivenessSession E post p k d))"
proof -
  show "others_kept (prn_sub p) d (snd (createAttempt E p ctx d))"
    unfolding createAttempt_def
    by (rule transact_kept)
      (auto simp: attempt_create_def Let_def start_enrolment_def split: option.splits sum.splits if_splits
        intro!: others_kept_table kept_update)
  have s: "others_kept (prn_sub p) d (snd (store_media E schema k input c d))" for c
    unfolding store_media_def Let_def by (intro kept_branches) simp_all
  show "others_kept (prn_sub p) d (snd (confirmUpload E schema p k input st d))"
    unfolding confirmUpload_def by (intro kept_branches s) simp_all
  have l: "others_kept (prn_sub p) d (snd (liveness_store p k c d))" for c
    unfolding liveness_store_def Let_def by (intro kept_branches) simp_all
  show "others_kept (prn_sub p) d (snd (createLivenessSession E post p k d))"
    unfolding createLivenessSession_def by (intro kept_branches l) simp_all
qed

lemma delete_each_kept [simp]: "others_kept u d (fst (delete_each E ms e st)) = others_kept u d e"
  by (induction E ms e st rule: delete_each.induct)
    (auto simp: mark_deleted_def split: prod.split sum.split)

lemma completion_writes_kept:
  "others_kept (prn_sub p) d e \<Longrightarrow> others_kept (prn_sub p) d (completion_writes E p k q v t ctx e)"
  by (auto simp: completion_writes_def Let_def intro!: others_kept_table kept_update)

lemma submit_kept: "others_kept (prn_sub p) d (fst (snd (submit E post date_ms p k ctx d st)))"
proof -
  have c: "others_kept (prn_sub p) e (snd (completeAttempt E p k q v t ctx e))" for e q v t
    unfolding completeAttempt_def
    by (rule transact_kept) (auto simp: Let_def completion_writes_kept split: option.splits if_splits)
  have u: "others_kept (prn_sub p) e (snd (recordUnavailable E k e))" for e
    unfolding recordUnavailable_def Let_def by (intro kept_branches) simp_all
  have f: "others_kept (prn_sub p) e (fst (snd (submit_finish E date_ms p k a answer ctx e st)))" for a answer e
    by (auto simp: submit_finish_def deleteAttemptMedia_def split: sum.split prod.split
        intro: snd_kept [OF _ c] snd_kept [OF _ u])
  have s: "others_kept (prn_sub p) d (snd (submit_claim E p k status d))" for status
    unfolding submit_claim_def Let_def by (intro kept_branches) simp_all
  show ?thesis
    using s f by (auto simp: submit_def split: sum.split prod.split)
      (metis others_kept_trans snd_conv)+
qed

definition passkeys_kept :: "string \<Rightarrow> passkey_db \<Rightarrow> passkey_db \<Rightarrow> bool" where
  "passkeys_kept u d e \<longleftrightarrow> others_kept u (pdb_db d) (pdb_db e)
     \<and> kept pkc_userId u (pdb_passkeys d) (pdb_passkeys e) \<and> kept rcc_userId u (pdb_codes d) (pdb_codes e)"

lemma verifyRegistration_kept:
  "passkeys_kept u d (fst (snd (verifyRegistration E w p response label d r)))"
  by (auto simp: verifyRegistration_def passkeys_kept_def Let_def kept_append split: option.split sum.split prod.split)

lemma passkey_revoke_kept: "passkeys_kept (prn_sub p) d (snd (passkey_revoke E p k d))"
  by (auto simp: passkey_revoke_def Let_def passkeys_kept_def passkey_active_def intro!: kept_update)

lemma insert_codes_kept: "kept owner u t c \<Longrightarrow> kept owner u t (insert_codes E i ks c)"
  by (induction E i ks c rule: insert_codes.induct) (simp_all add: kept_append)

lemma rotateRecoveryCodes_kept: "passkeys_kept (prn_sub p) d (snd (rotateRecoveryCodes E p d))"
  by (auto simp: rotateRecoveryCodes_def Let_def passkeys_kept_def split: sum.split
      intro!: insert_codes_kept kept_update)

subsection \<open>The service\<close>

definition users_apart :: "string \<Rightarrow> 'p server \<Rightarrow> 'p server \<Rightarrow> bool" where
  "users_apart u s t \<longleftrightarrow> passkeys_kept u (srv_db s) (srv_db t)"

lemma users_apart_refl [simp, intro]: "users_apart u s s"
  by (simp add: users_apart_def passkeys_kept_def)

lemma users_apart_frame [simp]:
  "users_apart u s (t\<lparr>srv_redis := r\<rparr>) = users_apart u s t"
  "users_apart u s (t\<lparr>srv_storage := st\<rparr>) = users_apart u s t"
  by (simp_all add: users_apart_def)

lemma put_db_apart: "others_kept u (get_db s) d \<Longrightarrow> srv_db t = srv_db s \<Longrightarrow> users_apart u s (put_db d t)"
  by (simp add: users_apart_def put_db_def passkeys_kept_def)

lemma put_result_apart:
  "f = (res, d, x) \<Longrightarrow> others_kept u (get_db s) (fst (snd f)) \<Longrightarrow> srv_db t = srv_db s
    \<Longrightarrow> users_apart u s (put_db d t)"
  by (simp add: put_db_apart)

lemma after_apart:
  "others_kept u (get_db s) (snd x1) \<Longrightarrow> users_apart u s (snd (after_db k1 x1 s))"
  "others_kept u (get_db s) (fst (snd x2)) \<Longrightarrow> users_apart u s (snd (after_db_redis k2 x2 s))"
  "users_apart u s (snd (after_redis k3 x3 s))"
  "passkeys_kept u (srv_db s) (snd x4) \<Longrightarrow> users_apart u s (snd (after_passkeys k4 x4 s))"
  "passkeys_kept u (srv_db s) (fst (snd x5)) \<Longrightarrow> users_apart u s (snd (after_passkeys_redis k5 x5 s))"
  by (auto simp: after_db_def after_db_redis_def after_redis_def after_passkeys_def after_passkeys_redis_def
      put_db_def users_apart_def passkeys_kept_def split: prod.split)

text \<open>The endpoints behind a guard for users.\<close>

definition user_endpoints :: "endpoint set" where
  "user_endpoints = - public_endpoints - {Internal_consume, Operations_jobs}"

lemma user_endpoints_cases:
  "e \<in> user_endpoints \<longleftrightarrow> e \<in> {Session_upgrade, Sessions_logout, Sessions_logoutAll, Sessions_list,
     Sessions_revoke, Password_change, StepUp_create, StepUp_challenge, StepUp_assertion,
     Identity_createAttempt, Identity_uploadPolicy, Identity_confirmUpload, Identity_liveness, Identity_submit,
     Identity_status, Identity_attempt, Passkey_registrationOptions, Passkey_registrationVerify, Passkey_list,
     Passkey_revoke, Passkey_recoveryCodes}"
  by (cases e) (simp_all add: user_endpoints_def public_endpoints_def)

lemma handle_apart:
  assumes e: "e \<in> user_endpoints" and u: "u = prn_sub (call_principal c)"
    and d: "distinct (map ses_id (sessions (get_db s)))"
    and own: "\<And>v. v \<in> set (sessions (get_db s)) \<Longrightarrow> ses_id v = prn_sid (call_principal c) \<Longrightarrow> ses_userId v = u"
  shows "users_apart u s (snd (handle e W c s))"
  using e [unfolded user_endpoints_cases]
proof (elim insertE emptyE)
  assume "e = StepUp_assertion"
  then show ?thesis
    by (auto simp: stepUp_assertion_def split: option.split intro!: after_apart issueAssertion_kept)
next
  assume "e = Identity_submit"
  then show ?thesis
    by (auto simp: identity_submit_def u split: prod.split intro: put_result_apart [OF _ submit_kept])
next
  assume "e = Passkey_revoke"
  then show ?thesis by (simp add: passkey_revocation_def users_apart_def passkey_revoke_kept u)
qed (use u logout_kept [OF d u own] in
    \<open>simp_all add: session_upgrade_def sessions_logout_def sessions_logoutAll_def sessions_list_def
      sessions_revoke_def password_change_def stepUp_create_def stepUp_challenge_def identity_createAttempt_def
      identity_uploadPolicy_def identity_confirmUpload_def identity_liveness_def identity_status_def
      identity_attempt_def passkey_registrationOptions_def passkey_registrationVerify_def passkey_listing_def
      passkey_revocation_def passkey_recoveryCodes_def after_apart upgrade_kept change_kept createChallenge_kept
      read_challenge_kept identity_kept verifyRegistration_kept rotateRecoveryCodes_kept\<close>)

text \<open>The guards hand on the claims of a session of the user whom the token names.\<close>

lemma authenticated_user:
  assumes "(e, r) \<in> set route_table" and "e \<in> user_endpoints"
    and "authenticate E (rte_guard r) q d = Inr who"
  obtains token claims v where "who = Claims claims" and "hrq_header q ''authorization'' = Some (''Bearer '' @ token)"
    and "verify E 0 token = Inr claims" and "v \<in> set (sessions d)"
    and "json_field ''sid'' claims = Some (JStr (ses_id v))" and "json_field ''sub'' claims = Some (JStr (ses_userId v))"
proof (cases "rte_guard r")
  case (Bearer l)
  then obtain claims where who: "who = Claims claims"
    and g: "access_guard E (hrq_header q ''authorization'') d = Inr claims"
    using assms(3) by (auto simp: authenticate_def map_sum_Inr split: sum.splits)
  from g show ?thesis by (rule access_guard_InrE) (use that who in \<open>auto simp: live_session_def\<close>)
next
  case Upgrade_Guard
  then obtain claims where who: "who = Claims claims"
    and g: "session_upgrade_guard E (hrq_header q ''authorization'') d = Inr claims"
    using assms(3) by (auto simp: authenticate_def map_sum_Inr)
  from g show ?thesis by (rule session_upgrade_guard_InrE) (use that who in auto)
qed (use route_guards [OF assms(1)] assms(2) in \<open>auto simp: user_endpoints_def\<close>)

lemma serve_apart:
  assumes f: "find_route (hrq_method q) (hrq_path q) = Some (e, r)" and e: "e \<in> user_endpoints"
    and h: "hrq_header q ''authorization'' = Some (''Bearer '' @ token)" and v: "verify (wld_env W 0) 0 token = Inr claims"
    and u: "json_field ''sub'' claims = Some (JStr u)" and d: "distinct (map ses_id (sessions (get_db s)))"
  shows "users_apart u s (snd (serve W q s))"
proof (cases "authenticate (wld_env W 0) (rte_guard r) q (get_db s)")
  case (Inl err)
  then show ?thesis by (simp add: serve_def f)
next
  case (Inr who)
  obtain w where who: "who = Claims claims" and w: "w \<in> set (sessions (get_db s))"
    "json_field ''sid'' claims = Some (JStr (ses_id w))" "ses_userId w = u"
    by (rule authenticated_user [OF find_route_row [OF f] e Inr]) (use h v u in auto)
  have "users_apart u s (snd (handle e W \<lparr>cal_request = q, cal_correlationId = i, cal_caller = who,
      cal_parameters = ps, cal_body = fs\<rparr> s))" for i ps fs
    using distinct_key_eq [OF d _ w(1)] w u
    by (intro handle_apart [OF e _ d]) (auto simp: call_principal_def principal_of_def who)
  then show ?thesis
    by (auto simp: serve_def f Inr Let_def split: sum.split prod.split) (metis snd_conv)
qed

end
