(* ===== verification/Contract.thy ===== *)
theory Contract
  imports Routes "HOL-Library.AList"
begin

text \<open>
  The published interface: the contract \<open>contracts/auth-api-contract.json\<close> and its check
  \<open>scripts/verify-api-contract.mjs\<close> against the controllers, what \<open>openapi.ts\<close> adds to the generated
  document, and the release evidence of \<open>scripts/verify-release-evidence.ts\<close>.
\<close>

subsection \<open>The contract and the routes\<close>

definition auth_api_contract :: "string list" where
  "auth_api_contract =
    [''DELETE /api/v1/auth/sessions/:sessionId'',
     ''GET /.well-known/jwks.json'',
     ''GET /api/v1/auth/sessions'',
     ''GET /api/v1/identity-verification/attempts/:attemptId'',
     ''GET /api/v1/identity-verification/status'',
     ''GET /api/v1/internal/operations/jobs'',
     ''GET /api/v1/step-up/challenges/:challengeId'',
     ''GET /health/live'',
     ''GET /health/ready'',
     ''POST /api/v1/auth/login'',
     ''POST /api/v1/auth/logout'',
     ''POST /api/v1/auth/logout-all'',
     ''POST /api/v1/auth/password/change'',
     ''POST /api/v1/auth/password/forgot'',
     ''POST /api/v1/auth/password/reset'',
     ''POST /api/v1/auth/refresh'',
     ''POST /api/v1/auth/session/upgrade'',
     ''POST /api/v1/auth/passkeys/registration/options'',
     ''POST /api/v1/auth/passkeys/registration/verify'',
     ''POST /api/v1/auth/passkeys/authentication/options'',
     ''POST /api/v1/auth/passkeys/authentication/verify'',
     ''GET /api/v1/auth/passkeys'',
     ''DELETE /api/v1/auth/passkeys/:credentialId'',
     ''POST /api/v1/auth/passkeys/recovery-codes'',
     ''POST /api/v1/auth/recovery-codes/consume'',
     ''POST /api/v1/identity-verification/attempts'',
     ''POST /api/v1/identity-verification/attempts/:attemptId/liveness-session'',
     ''POST /api/v1/identity-verification/attempts/:attemptId/media/confirm'',
     ''POST /api/v1/identity-verification/attempts/:attemptId/submit'',
     ''POST /api/v1/identity-verification/attempts/:attemptId/upload-policy'',
     ''POST /api/v1/internal/step-up/assertions/consume'',
     ''POST /api/v1/registration'',
     ''POST /api/v1/registration/citizen/lookup'',
     ''POST /api/v1/registration/email/resend'',
     ''POST /api/v1/registration/email/verify'',
     ''POST /api/v1/step-up/challenges'',
     ''POST /api/v1/step-up/challenges/:challengeId/assertion'']"

text \<open>
  An entry of the contract.  The names of the parameters are not part of a route of the model, so that the
  check compares the routes instead of their texts.
\<close>

definition contract_method :: "string \<Rightarrow> http_method option" where
  "contract_method s = (if s = ''GET'' then Some GET else if s = ''POST'' then Some POST
     else if s = ''DELETE'' then Some DELETE else None)"

definition contract_segment :: "string \<Rightarrow> segment" where
  "contract_segment s = (case s of [] \<Rightarrow> Literal [] | c # cs \<Rightarrow> if c = CHR '':'' then Parameter else Literal s)"

definition contract_route :: "string \<Rightarrow> (http_method \<times> segment list) option" where
  "contract_route entry = (case split_on (CHR '' '') entry of
     [m, path] \<Rightarrow> map_option (\<lambda>v. (v, map contract_segment (drop 1 (split_on (CHR ''/'') path)))) (contract_method m)
   | _ \<Rightarrow> None)"

text \<open>What \<open>verify-api-contract.mjs\<close> discovers in the controllers, and its two lists of differences.\<close>

definition discovered_routes :: "(http_method \<times> segment list) list" where
  "discovered_routes = map (\<lambda>(e, r). (rte_method r, rte_path r)) route_table"

definition missing_endpoints :: "string list \<Rightarrow> string list" where
  "missing_endpoints contract =
     filter (\<lambda>e. case contract_route e of None \<Rightarrow> True | Some r \<Rightarrow> r \<notin> set discovered_routes) contract"

definition undocumented_routes :: "string list \<Rightarrow> (http_method \<times> segment list) list" where
  "undocumented_routes contract = filter (\<lambda>r. Some r \<notin> set (map contract_route contract)) discovered_routes"

text \<open>The routes of the contract in its order, and their places in the order of the controllers.\<close>

definition published_routes :: "(http_method \<times> segment list) list" where
  "published_routes =
    [(DELETE, [Literal ''api'', Literal ''v1'', Literal ''auth'', Literal ''sessions'', Parameter]),
     (GET, [Literal ''.well-known'', Literal ''jwks.json'']),
     (GET, [Literal ''api'', Literal ''v1'', Literal ''auth'', Literal ''sessions'']),
     (GET, [Literal ''api'', Literal ''v1'', Literal ''identity-verification'', Literal ''attempts'', Parameter]),
     (GET, [Literal ''api'', Literal ''v1'', Literal ''identity-verification'', Literal ''status'']),
     (GET, [Literal ''api'', Literal ''v1'', Literal ''internal'', Literal ''operations'', Literal ''jobs'']),
     (GET, [Literal ''api'', Literal ''v1'', Literal ''step-up'', Literal ''challenges'', Parameter]),
     (GET, [Literal ''health'', Literal ''live'']),
     (GET, [Literal ''health'', Literal ''ready'']),
     (POST, [Literal ''api'', Literal ''v1'', Literal ''auth'', Literal ''login'']),
     (POST, [Literal ''api'', Literal ''v1'', Literal ''auth'', Literal ''logout'']),
     (POST, [Literal ''api'', Literal ''v1'', Literal ''auth'', Literal ''logout-all'']),
     (POST, [Literal ''api'', Literal ''v1'', Literal ''auth'', Literal ''password'', Literal ''change'']),
     (POST, [Literal ''api'', Literal ''v1'', Literal ''auth'', Literal ''password'', Literal ''forgot'']),
     (POST, [Literal ''api'', Literal ''v1'', Literal ''auth'', Literal ''password'', Literal ''reset'']),
     (POST, [Literal ''api'', Literal ''v1'', Literal ''auth'', Literal ''refresh'']),
     (POST, [Literal ''api'', Literal ''v1'', Literal ''auth'', Literal ''session'', Literal ''upgrade'']),
     (POST, [Literal ''api'', Literal ''v1'', Literal ''auth'', Literal ''passkeys'', Literal ''registration'', Literal ''options'']),
     (POST, [Literal ''api'', Literal ''v1'', Literal ''auth'', Literal ''passkeys'', Literal ''registration'', Literal ''verify'']),
     (POST, [Literal ''api'', Literal ''v1'', Literal ''auth'', Literal ''passkeys'', Literal ''authentication'', Literal ''options'']),
     (POST, [Literal ''api'', Literal ''v1'', Literal ''auth'', Literal ''passkeys'', Literal ''authentication'', Literal ''verify'']),
     (GET, [Literal ''api'', Literal ''v1'', Literal ''auth'', Literal ''passkeys'']),
     (DELETE, [Literal ''api'', Literal ''v1'', Literal ''auth'', Literal ''passkeys'', Parameter]),
     (POST, [Literal ''api'', Literal ''v1'', Literal ''auth'', Literal ''passkeys'', Literal ''recovery-codes'']),
     (POST, [Literal ''api'', Literal ''v1'', Literal ''auth'', Literal ''recovery-codes'', Literal ''consume'']),
     (POST, [Literal ''api'', Literal ''v1'', Literal ''identity-verification'', Literal ''attempts'']),
     (POST, [Literal ''api'', Literal ''v1'', Literal ''identity-verification'', Literal ''attempts'', Parameter, Literal ''liveness-session'']),
     (POST, [Literal ''api'', Literal ''v1'', Literal ''identity-verification'', Literal ''attempts'', Parameter, Literal ''media'', Literal ''confirm'']),
     (POST, [Literal ''api'', Literal ''v1'', Literal ''identity-verification'', Literal ''attempts'', Parameter, Literal ''submit'']),
     (POST, [Literal ''api'', Literal ''v1'', Literal ''identity-verification'', Literal ''attempts'', Parameter, Literal ''upload-policy'']),
     (POST, [Literal ''api'', Literal ''v1'', Literal ''internal'', Literal ''step-up'', Literal ''assertions'', Literal ''consume'']),
     (POST, [Literal ''api'', Literal ''v1'', Literal ''registration'']),
     (POST, [Literal ''api'', Literal ''v1'', Literal ''registration'', Literal ''citizen'', Literal ''lookup'']),
     (POST, [Literal ''api'', Literal ''v1'', Literal ''registration'', Literal ''email'', Literal ''resend'']),
     (POST, [Literal ''api'', Literal ''v1'', Literal ''registration'', Literal ''email'', Literal ''verify'']),
     (POST, [Literal ''api'', Literal ''v1'', Literal ''step-up'', Literal ''challenges'']),
     (POST, [Literal ''api'', Literal ''v1'', Literal ''step-up'', Literal ''challenges'', Parameter, Literal ''assertion''])]"

definition route_places :: "nat list" where
  "route_places = [31, 32, 34, 33, 25, 29, 27, 26, 28, 4, 3, 9, 15, 16, 1, 10, 11, 2, 0, 13, 14, 12, 35, 6, 36, 30, 5, 17, 18, 21, 22, 23, 19, 20, 24, 7, 8]"

lemma contract_parsed: "map contract_route auth_api_contract = map Some published_routes"
  by code_simp

lemma discovered_published: "discovered_routes = map (nth published_routes) route_places"
  by code_simp

lemma route_places: "set route_places = {..<length published_routes}" "distinct route_places"
  by (simp_all add: route_places_def published_routes_def lessThan_nat_numeral numeral_eq_Suc lessThan_Suc insert_commute)

lemma published_discovered: "set discovered_routes = set published_routes"
  by (auto simp: discovered_published route_places set_conv_nth [of published_routes])

lemma contract_checked: "missing_endpoints auth_api_contract = []" "undocumented_routes auth_api_contract = []"
proof -
  have "\<exists>r. contract_route e = Some r \<and> r \<in> set published_routes" if "e \<in> set auth_api_contract" for e
  proof -
    have "contract_route e \<in> set (map Some published_routes)"
      unfolding contract_parsed [symmetric] using that by simp
    then show ?thesis by auto
  qed
  then show "missing_endpoints auth_api_contract = []"
    by (fastforce simp: missing_endpoints_def published_discovered filter_empty_conv)
  show "undocumented_routes auth_api_contract = []"
    by (auto simp: undocumented_routes_def contract_parsed published_discovered filter_empty_conv)
qed

lemma contract_length: "length auth_api_contract = length route_table"
  using arg_cong [OF contract_parsed, of length] arg_cong [OF discovered_published, of length]
  by (simp add: discovered_routes_def route_places_def published_routes_def)

text \<open>C31. The service serves what its contract publishes and nothing else: a method and a path reach a
  handler exactly when an entry of \<open>auth-api-contract.json\<close> matches them; the check of the contract finds
  no endpoint missing and none undocumented, and the contract has as many entries as there are routes.\<close>

theorem contract_is_served:
  "((\<exists>e r. find_route m path = Some (e, r))
      \<longleftrightarrow> (\<exists>entry \<in> set auth_api_contract. \<exists>p. contract_route entry = Some (m, p) \<and> segments_match p path))
   \<and> missing_endpoints auth_api_contract = [] \<and> undocumented_routes auth_api_contract = []
   \<and> length auth_api_contract = length route_table"
proof -
  have "(\<exists>e r. find_route m path = Some (e, r)) \<longleftrightarrow> (\<exists>p. (m, p) \<in> set discovered_routes \<and> segments_match p path)"
  proof
    assume "\<exists>e r. find_route m path = Some (e, r)"
    then show "\<exists>p. (m, p) \<in> set discovered_routes \<and> segments_match p path"
      unfolding find_route_def discovered_routes_def by (fastforce dest: find_row_SomeD)
  next
    assume "\<exists>p. (m, p) \<in> set discovered_routes \<and> segments_match p path"
    then obtain e r where "(e, r) \<in> set route_table" "rte_method r = m" "segments_match (rte_path r) path"
      by (auto simp: discovered_routes_def)
    then show "\<exists>e r. find_route m path = Some (e, r)"
      unfolding find_route_def
      by (cases "find_row (\<lambda>(e, r). rte_method r = m \<and> segments_match (rte_path r) path) route_table")
        (auto dest: find_row_NoneD)
  qed
  also have "\<dots> \<longleftrightarrow> (\<exists>entry \<in> set auth_api_contract. \<exists>p. contract_route entry = Some (m, p) \<and> segments_match p path)"
  proof -
    have "(m, p) \<in> set discovered_routes \<longleftrightarrow> Some (m, p) \<in> set (map contract_route auth_api_contract)" for p
      by (auto simp: contract_parsed published_discovered)
    then show ?thesis unfolding set_map image_iff by (auto simp: eq_commute [of "Some _"])
  qed
  finally show ?thesis using contract_checked contract_length by simp
qed

subsection \<open>The generated document\<close>

text \<open>\<open>object[name] ??= value\<close>, and the assignment of a member.\<close>

type_synonym members = "(string \<times> json) list"

definition set_default :: "string \<Rightarrow> json \<Rightarrow> members \<Rightarrow> members" where
  "set_default k v fs = (case map_of fs k of None \<Rightarrow> AList.update k v fs
     | Some j \<Rightarrow> if j = JNull then AList.update k v fs else fs)"

definition correlation_schema :: json where
  "correlation_schema = JObj [(''type'', JStr ''string''), (''example'', JStr ''kigali-mobile-20260730-0001'')]"

definition correlation_parameter :: json where
  "correlation_parameter = JObj [(''name'', JStr ''x-correlation-id''), (''in'', JStr ''header''), (''required'', JBool False),
     (''description'', JStr ''Optional validated correlation ID returned on the response.''), (''schema'', correlation_schema)]"

definition correlation_header :: json where
  "correlation_header = JObj [(''description'', JStr ''Validated or generated request correlation ID.''),
     (''schema'', correlation_schema)]"

definition response_content :: json where
  "response_content = JObj [(''application/json'', JObj [(''schema'', JObj [(''type'', JStr ''object''),
     (''description'', JStr ''Endpoint response. Typed DTO schemas are used where the response is not provider-generated.''),
     (''additionalProperties'', JBool True)])])]"

definition errorResponse :: "string \<Rightarrow> json" where
  "errorResponse description = JObj [(''description'', JStr description),
     (''content'', JObj [(''application/json'', JObj [(''schema'', JObj [(''type'', JStr ''object''),
       (''required'', JArr [JStr ''code'', JStr ''message'']),
       (''properties'', JObj
         [(''code'', JObj [(''type'', JStr ''string''), (''example'', JStr ''REQUEST_INVALID'')]),
          (''message'', JObj [(''type'', JStr ''string''), (''example'', JStr ''The request could not be completed.'')]),
          (''correlationId'', correlation_schema),
          (''statusCode'', JObj [(''type'', JStr ''integer''), (''example'', JNum 400)])])])])])]"

text \<open>\<open>/^2\d\d$/\<close>\<close>

definition success_status :: "string \<Rightarrow> bool" where
  "success_status s \<longleftrightarrow> length s = 3 \<and> hd s = CHR ''2'' \<and> list_all is_digit s"

text \<open>
  One response.  A \<open>TypeError\<close> (\<open>in\<close> on a value that is not an object, or a member of one) is \<open>None\<close>;
  falsy responses are skipped.
\<close>

definition falsy :: "json \<Rightarrow> bool" where
  "falsy j \<longleftrightarrow> j = JNull \<or> j = JBool False \<or> j = JNum 0 \<or> j = JStr []"

definition document_response :: "string \<Rightarrow> json \<Rightarrow> json option" where
  "document_response status response =
     (if falsy response \<or> \<not> success_status status \<or> status = ''204'' then Some response
      else (case response of
          JObj fs \<Rightarrow>
            if map_of fs ''$ref'' \<noteq> None then Some response
            else (let fs1 = set_default ''headers'' (JObj []) fs
              in (case map_of fs1 ''headers'' of
                  Some (JObj hs) \<Rightarrow> Some (JObj (set_default ''content'' response_content
                    (AList.update ''headers'' (JObj (set_default ''x-correlation-id'' correlation_header hs)) fs1)))
                | _ \<Rightarrow> None))
        | _ \<Rightarrow> None))"

fun document_responses :: "members \<Rightarrow> members option" where
  "document_responses [] = Some []"
| "document_responses ((s, r) # rs) = (case document_response s r of None \<Rightarrow> None
     | Some r1 \<Rightarrow> map_option (\<lambda>rs1. (s, r1) # rs1) (document_responses rs))"

definition default_responses :: "members \<Rightarrow> members" where
  "default_responses rs =
     set_default ''503'' (errorResponse ''A required dependency is temporarily unavailable.'')
     (set_default ''500'' (errorResponse ''Unexpected failure with a minimized response.'')
     (set_default ''429'' (errorResponse ''A security rate limit was enforced.'')
     (set_default ''400'' (errorResponse ''Request validation failed.'') rs)))"

definition names_correlation :: "json \<Rightarrow> bool" where
  "names_correlation p \<longleftrightarrow> json_field ''name'' p = Some (JStr ''x-correlation-id'')"

definition document_parameters :: "json list \<Rightarrow> json list" where
  "document_parameters ps = (if list_ex names_correlation ps then ps else ps @ [correlation_parameter])"

definition document_security :: "string \<Rightarrow> members \<Rightarrow> members" where
  "document_security path fs =
     (let fs1 = (if prefix ''/api/v1/internal/'' path
            then AList.update ''security'' (JArr [JObj [(''internalServiceName'', JArr []), (''internalServiceKey'', JArr [])]]) fs
            else fs)
      in if path = ''/api/v1/auth/refresh''
         then AList.update ''security'' (JArr [JObj [], JObj [(''refreshCookie'', JArr []), (''csrf'', JArr [])]]) fs1
         else fs1)"

text \<open>
  One operation of \<open>enrichAuthOpenApiDocument\<close>.  The generator's parameters are objects (a reference has
  no \<open>name\<close>), so that \<open>in\<close> does not raise on them.
\<close>

definition document_operation :: "string \<Rightarrow> members \<Rightarrow> members option" where
  "document_operation path fs =
     (let fs1 = set_default ''parameters'' (JArr []) (set_default ''deprecated'' (JBool False) fs)
      in (case (map_of fs1 ''parameters'', map_of fs1 ''responses'') of
          (Some (JArr ps), Some (JObj rs)) \<Rightarrow>
            map_option (\<lambda>rs1. document_security path
                (AList.update ''responses'' (JObj rs1) (AList.update ''parameters'' (JArr (document_parameters ps)) fs1)))
              (document_responses (default_responses rs))
        | _ \<Rightarrow> None))"

text \<open>
  The methods of a path, and the paths of the document; a truthy operation that is not an object does not
  take members.
\<close>

definition document_method :: "string \<Rightarrow> string \<Rightarrow> members \<Rightarrow> members option" where
  "document_method path m fs = (case map_of fs m of
     None \<Rightarrow> Some fs
   | Some operation \<Rightarrow>
       if falsy operation then Some fs
       else (case operation of
           JObj os \<Rightarrow> map_option (\<lambda>os1. AList.update m (JObj os1) fs) (document_operation path os)
         | _ \<Rightarrow> None))"

fun document_methods :: "string \<Rightarrow> string list \<Rightarrow> members \<Rightarrow> members option" where
  "document_methods path [] fs = Some fs"
| "document_methods path (m # ms) fs = Option.bind (document_method path m fs) (document_methods path ms)"

definition document_item :: "string \<Rightarrow> json \<Rightarrow> json option" where
  "document_item path item = (case item of
     JObj fs \<Rightarrow> map_option JObj (document_methods path [''get'', ''post'', ''put'', ''patch'', ''delete''] fs)
   | _ \<Rightarrow> Some item)"

fun document_items :: "members \<Rightarrow> members option" where
  "document_items [] = Some []"
| "document_items ((path, item) # ps) = (case document_item path item of None \<Rightarrow> None
     | Some i \<Rightarrow> map_option (\<lambda>ps1. (path, i) # ps1) (document_items ps))"

definition enrichAuthOpenApiDocument :: "json \<Rightarrow> json option" where
  "enrichAuthOpenApiDocument document = (case document of
     JObj fs \<Rightarrow> (case map_of fs ''paths'' of
         Some (JObj ps) \<Rightarrow> map_option (\<lambda>ps1. JObj (AList.update ''paths'' (JObj ps1) fs)) (document_items ps)
       | _ \<Rightarrow> None)
   | _ \<Rightarrow> None)"

subsection \<open>Enriching twice is enriching once\<close>

lemma update_same: "map_of fs k = Some v \<Longrightarrow> AList.update k v fs = fs"
  by (induction fs) (auto split: if_splits)

lemma set_default_present: "map_of fs k = Some j \<Longrightarrow> j \<noteq> JNull \<Longrightarrow> set_default k v fs = fs"
  by (simp add: set_default_def)

lemma map_of_set_default:
  "map_of (set_default k v fs) = (if map_of fs k \<in> {None, Some JNull} then (map_of fs)(k \<mapsto> v) else map_of fs)"
  by (auto simp: set_default_def AList.update_conv split: option.split)

lemma set_default_member:
  "v \<noteq> JNull \<Longrightarrow> \<exists>j. map_of (set_default k v fs) k = Some j \<and> j \<noteq> JNull"
  "\<exists>j. map_of fs i = Some j \<and> j \<noteq> JNull \<Longrightarrow> \<exists>j. map_of (set_default k v fs) i = Some j \<and> j \<noteq> JNull"
  by (auto simp: map_of_set_default)

lemma document_response_done:
  assumes "map_of g ''headers'' = Some (JObj h)" and "\<exists>j. map_of g ''content'' = Some j \<and> j \<noteq> JNull"
    and "\<exists>j. map_of h ''x-correlation-id'' = Some j \<and> j \<noteq> JNull"
  shows "document_response s (JObj g) = Some (JObj g)"
  using assms by (auto simp: document_response_def Let_def set_default_present update_same)

lemma document_response_stable:
  assumes "document_response s r = Some r1"
  shows "document_response s r1 = Some r1" and "r \<noteq> JNull \<Longrightarrow> r1 \<noteq> JNull"
proof -
  have "document_response s r1 = Some r1 \<and> (r \<noteq> JNull \<longrightarrow> r1 \<noteq> JNull)"
  proof (cases "r1 = r")
    case False
    then obtain fs hs where u: "\<not> falsy r" "success_status s" "s \<noteq> ''204''" and r: "r = JObj fs" "map_of fs ''$ref'' = None"
      and h: "map_of (set_default ''headers'' (JObj []) fs) ''headers'' = Some (JObj hs)"
      and r1: "r1 = JObj (set_default ''content'' response_content
        (AList.update ''headers'' (JObj (set_default ''x-correlation-id'' correlation_header hs))
          (set_default ''headers'' (JObj []) fs)))"
      using assms by (auto simp: document_response_def Let_def split: if_splits json.splits option.splits)
    let ?hs = "set_default ''x-correlation-id'' correlation_header hs"
    let ?f = "AList.update ''headers'' (JObj ?hs) (set_default ''headers'' (JObj []) fs)"
    let ?g = "set_default ''content'' response_content ?f"
    have c: "\<exists>j. map_of ?g ''content'' = Some j \<and> j \<noteq> JNull"
      by (rule set_default_member) (simp add: response_content_def)
    have hh: "map_of ?g ''headers'' = Some (JObj ?hs)"
      by (simp add: map_of_set_default AList.update_conv)
    have x: "\<exists>j. map_of ?hs ''x-correlation-id'' = Some j \<and> j \<noteq> JNull"
      by (rule set_default_member) (simp add: correlation_header_def)
    have "document_response s (JObj ?g) = Some (JObj ?g)"
      by (rule document_response_done [OF hh c x])
    then show ?thesis by (simp add: r1)
  qed (use assms in auto)
  then show "document_response s r1 = Some r1" and "r \<noteq> JNull \<Longrightarrow> r1 \<noteq> JNull" by auto
qed

lemma document_responses_stable:
  "document_responses rs = Some rs1 \<Longrightarrow> document_responses rs1 = Some rs1"
  by (induction rs arbitrary: rs1 rule: document_responses.induct)
    (auto split: option.splits dest: document_response_stable(1))

lemma document_responses_member:
  "document_responses rs = Some rs1 \<Longrightarrow> map_of rs k = Some r \<Longrightarrow> r \<noteq> JNull
    \<Longrightarrow> \<exists>r1. map_of rs1 k = Some r1 \<and> r1 \<noteq> JNull"
  by (induction rs arbitrary: rs1 rule: document_responses.induct)
    (auto split: option.splits if_splits dest: document_response_stable(2))

lemma default_responses_present:
  assumes "\<And>k. k \<in> {''400'', ''429'', ''500'', ''503''} \<Longrightarrow> \<exists>r. map_of rs k = Some r \<and> r \<noteq> JNull"
  shows "default_responses rs = rs"
  using assms [of "''400''"] assms [of "''429''"] assms [of "''500''"] assms [of "''503''"]
  by (auto simp: default_responses_def set_default_present)

lemma default_responses_member:
  assumes "k \<in> {''400'', ''429'', ''500'', ''503''}"
  shows "\<exists>r. map_of (default_responses rs) k = Some r \<and> r \<noteq> JNull"
  using assms unfolding default_responses_def
  by (elim insertE emptyE) (hypsubst, intro set_default_member, simp add: errorResponse_def)+

lemma document_parameters_stable: "document_parameters (document_parameters ps) = document_parameters ps"
  by (simp add: document_parameters_def names_correlation_def correlation_parameter_def)

lemma document_security_frame: "k \<noteq> ''security'' \<Longrightarrow> map_of (document_security path fs) k = map_of fs k"
  by (simp add: document_security_def Let_def AList.update_conv)

lemma document_security_stable: "document_security path (document_security path fs) = document_security path fs"
  by (auto simp: document_security_def Let_def intro!: update_same)

lemma document_operation_stable:
  assumes "document_operation path fs = Some gs"
  shows "document_operation path gs = Some gs"
proof -
  let ?f = "set_default ''parameters'' (JArr []) (set_default ''deprecated'' (JBool False) fs)"
  obtain ps rs rs1 where p: "map_of ?f ''parameters'' = Some (JArr ps)"
    and rs1: "document_responses (default_responses rs) = Some rs1"
    and gs: "gs = document_security path
      (AList.update ''responses'' (JObj rs1) (AList.update ''parameters'' (JArr (document_parameters ps)) ?f))"
    using assms by (auto simp: document_operation_def Let_def split: option.splits json.splits)
  have m: "map_of gs ''parameters'' = Some (JArr (document_parameters ps))" "map_of gs ''responses'' = Some (JObj rs1)"
    by (simp_all add: gs document_security_frame AList.update_conv)
  have d: "\<exists>j. map_of gs ''deprecated'' = Some j \<and> j \<noteq> JNull"
    by (auto simp: gs document_security_frame AList.update_conv map_of_set_default)
  have "default_responses rs1 = rs1"
    by (rule default_responses_present)
      (use document_responses_member [OF rs1] default_responses_member in blast)
  moreover have "set_default ''parameters'' (JArr []) (set_default ''deprecated'' (JBool False) gs) = gs"
    using d m(1) by (auto simp: set_default_present)
  moreover have "document_security path gs = gs"
    unfolding gs by (rule document_security_stable)
  ultimately show ?thesis
    using m document_responses_stable [OF rs1]
    by (simp add: document_operation_def Let_def document_parameters_stable update_same)
qed

text \<open>A member that the enrichment leaves alone.\<close>

definition method_done :: "string \<Rightarrow> json option \<Rightarrow> bool" where
  "method_done path v \<longleftrightarrow> (case v of None \<Rightarrow> True
     | Some j \<Rightarrow> falsy j \<or> (\<exists>os. j = JObj os \<and> document_operation path os = Some os))"

lemma document_method_done:
  assumes "document_method path m fs = Some gs"
  shows "method_done path (map_of gs m)" and "method_done path (map_of fs k) \<Longrightarrow> method_done path (map_of gs k)"
  using assms
  by (auto simp: document_method_def method_done_def AList.update_conv dest: document_operation_stable
      split: option.splits if_splits json.splits)

lemma document_method_id: "method_done path (map_of fs m) \<Longrightarrow> document_method path m fs = Some fs"
  by (auto simp: document_method_def method_done_def update_same falsy_def split: option.splits json.splits)

lemma document_methods_done:
  "document_methods path ms fs = Some gs
    \<Longrightarrow> (\<forall>m \<in> set ms. method_done path (map_of gs m))
      \<and> (\<forall>k. method_done path (map_of fs k) \<longrightarrow> method_done path (map_of gs k))"
proof (induction ms arbitrary: fs)
  case (Cons m ms)
  then obtain f1 where f: "document_method path m fs = Some f1" "document_methods path ms f1 = Some gs"
    by (cases "document_method path m fs") auto
  show ?case
    using Cons.IH [OF f(2)] document_method_done [OF f(1)] by auto
qed simp

lemma document_methods_id:
  "(\<forall>m \<in> set ms. method_done path (map_of fs m)) \<Longrightarrow> document_methods path ms fs = Some fs"
  by (induction ms) (simp_all add: document_method_id)

lemma document_item_stable: "document_item path i = Some j \<Longrightarrow> document_item path j = Some j"
  by (auto simp del: document_methods.simps simp: document_item_def split: json.splits
      dest!: document_methods_done intro!: document_methods_id)

lemma document_items_stable: "document_items ps = Some qs \<Longrightarrow> document_items qs = Some qs"
  by (induction ps arbitrary: qs rule: document_items.induct)
    (auto split: option.splits dest: document_item_stable)

lemma enrichment_idempotent:
  "enrichAuthOpenApiDocument d = Some e \<Longrightarrow> enrichAuthOpenApiDocument e = Some e"
  by (auto simp: enrichAuthOpenApiDocument_def AList.update_conv update_same dest: document_items_stable
      split: json.splits option.splits)

text \<open>Every internal operation is documented with the credentials of internal services.\<close>

lemma internal_documented:
  assumes "document_operation path fs = Some gs" and "prefix ''/api/v1/internal/'' path"
  shows "map_of gs ''security'' =
    Some (JArr [JObj [(''internalServiceName'', JArr []), (''internalServiceKey'', JArr [])]])"
proof -
  have "path \<noteq> ''/api/v1/auth/refresh''" using assms(2) by (auto simp: prefix_def)
  with assms show ?thesis
    by (auto simp: document_operation_def document_security_def Let_def AList.update_conv split: option.splits json.splits)
qed

subsection \<open>Release evidence\<close>

text \<open>
  \<open>verify-release-evidence.ts\<close> on the parsed manifest.  \<open>Object.entries\<close> of an array are its items under
  their indices.
\<close>

definition digest_pattern :: "string \<Rightarrow> bool" where
  "digest_pattern s \<longleftrightarrow> take 7 s = ''sha256:'' \<and> length (drop 7 s) = 64
     \<and> list_all (\<lambda>c. is_digit c \<or> c \<in> set ''abcdef'') (drop 7 s)"

fun entry_values :: "json \<Rightarrow> json list option" where
  "entry_values (JObj fs) = Some (map snd fs)"
| "entry_values (JArr js) = Some js"
| "entry_values _ = None"

definition has_items :: "nat \<Rightarrow> json option \<Rightarrow> bool" where
  "has_items n v = (case v of Some (JArr js) \<Rightarrow> n \<le> length js | _ \<Rightarrow> False)"

definition verify_release_evidence :: "json \<Rightarrow> unit result" where
  "verify_release_evidence manifest =
     (if entry_values manifest = None then Inl (Raised ''Release evidence manifest must be an object.'')
      else if \<not> (case json_field ''releaseCandidate'' manifest of Some (JStr s) \<Rightarrow> digest_pattern s | _ \<Rightarrow> False)
      then Inl (Raised ''Release evidence requires an immutable sha256 image digest.'')
      else (case Option.bind (json_field ''gates'' manifest) entry_values of
          None \<Rightarrow> Inl (Raised ''Release evidence gates are required.'')
        | Some statuses \<Rightarrow>
            if \<not> list_all (\<lambda>v. v = JStr ''PASSED'') statuses then Inl (Raised ''Release evidence is incomplete'')
            else if \<not> has_items 3 (json_field ''approvers'' manifest)
              \<or> \<not> has_items (length statuses) (json_field ''evidenceReferences'' manifest)
            then Inl (Raised ''Release evidence requires three approvers and one reference per gate.'')
            else Inr ()))"

lemma release_needs_gates:
  assumes "verify_release_evidence (JObj fs) = Inr ()" and "map_of fs ''gates'' = Some (JObj gates)"
  shows "\<forall>(g, v) \<in> set gates. v = JStr ''PASSED''"
    and "\<exists>js. map_of fs ''approvers'' = Some (JArr js) \<and> 3 \<le> length js"
    and "\<exists>js. map_of fs ''evidenceReferences'' = Some (JArr js) \<and> length gates \<le> length js"
  using assms
  by (auto simp: verify_release_evidence_def has_items_def list_all_iff split: if_splits option.splits json.splits)

text \<open>A manifest without a single gate passes.\<close>

lemma no_gates_pass:
  "verify_release_evidence (JObj [(''releaseCandidate'', JStr (''sha256:'' @ replicate 64 (CHR ''0''))), (''gates'', JObj []),
     (''approvers'', JArr [JNull, JNull, JNull]), (''evidenceReferences'', JArr [])]) = Inr ()"
  by code_simp

end
