(* ===== verification/Readiness.thy ===== *)
theory Readiness
  imports Edge
begin

text \<open>
  The sharing of readiness checks (\<open>HealthService.ready\<close>, \<open>modules/health/health.service.ts\<close>): requests
  that arrive while a check is in flight wait for it.  One request is suspended between the start of its
  check and its result, so that the check is two steps here, and the requests between them interleave.
\<close>

record readiness_state =
  rdn_cached :: readiness_cache
  \<comment> \<open>the \<open>now\<close> of the request that started the check in flight\<close>
  rdn_promise :: "int option"
  rdn_waiting :: nat

datatype readiness_event = Ready_Asked int | Check_Settled health_status

datatype readiness_answer = Answered health_status | Waits | Starts_Check

text \<open>\<open>ready\<close> up to its first suspension, for a request that reads the clock as \<open>now\<close>.\<close>

definition ready_asked :: "int \<Rightarrow> readiness_state \<Rightarrow> readiness_answer \<times> readiness_state" where
  "ready_asked now s =
     (case rdn_cached s of
        Some (expiresAt, v) \<Rightarrow>
          if now < expiresAt then (Answered v, s)
          else if rdn_promise s \<noteq> None then (Waits, s\<lparr>rdn_waiting := rdn_waiting s + 1\<rparr>)
          else (Starts_Check, s\<lparr>rdn_promise := Some now\<rparr>)
      | None \<Rightarrow>
          if rdn_promise s \<noteq> None then (Waits, s\<lparr>rdn_waiting := rdn_waiting s + 1\<rparr>)
          else (Starts_Check, s\<lparr>rdn_promise := Some now\<rparr>))"

text \<open>
  The check in flight settles: \<open>checkReadiness\<close> never rejects.  The request that started it caches the
  value and clears the promise; everybody who waited gets it.
\<close>

definition check_settled :: "env \<Rightarrow> health_status \<Rightarrow> readiness_state \<Rightarrow> readiness_state" where
  "check_settled E v s = (case rdn_promise s of
     None \<Rightarrow> s
   | Some now \<Rightarrow> s\<lparr>rdn_cached := Some (now + int (cfg_num E ''READINESS_CACHE_TTL_MS''), v),
       rdn_promise := None, rdn_waiting := 0\<rparr>)"

definition readiness_step :: "env \<Rightarrow> readiness_event \<Rightarrow> readiness_state \<Rightarrow> readiness_state" where
  "readiness_step E e s = (case e of
     Ready_Asked now \<Rightarrow> snd (ready_asked now s) | Check_Settled v \<Rightarrow> check_settled E v s)"

text \<open>The instants at which checks of the dependencies start.\<close>

fun check_starts :: "env \<Rightarrow> readiness_event list \<Rightarrow> readiness_state \<Rightarrow> int list" where
  "check_starts E [] s = []"
| "check_starts E (e # es) s =
     (case e of
        Ready_Asked now \<Rightarrow> if fst (ready_asked now s) = Starts_Check then [now] else []
      | Check_Settled v \<Rightarrow> []) @ check_starts E es (readiness_step E e s)"

text \<open>No request of the rest starts a check before an instant.\<close>

definition quiet_before :: "env \<Rightarrow> int \<Rightarrow> readiness_state \<Rightarrow> bool" where
  "quiet_before E t s \<longleftrightarrow> (\<exists>now. rdn_promise s = Some now \<and> t \<le> now + int (cfg_num E ''READINESS_CACHE_TTL_MS''))
     \<or> (\<exists>x v. rdn_cached s = Some (x, v) \<and> t \<le> x)"

fun spaced :: "int \<Rightarrow> int list \<Rightarrow> bool" where
  "spaced d [] = True"
| "spaced d [t] = True"
| "spaced d (t # u # ts) = (t + d \<le> u \<and> spaced d (u # ts))"

text \<open>A check that is in flight was started when the cached value had expired.\<close>

definition readiness_wf :: "readiness_state \<Rightarrow> bool" where
  "readiness_wf s \<longleftrightarrow> (\<forall>n x v. rdn_promise s = Some n \<longrightarrow> rdn_cached s = Some (x, v) \<longrightarrow> x \<le> n)"

lemma readiness_wf_step: "readiness_wf s \<Longrightarrow> readiness_wf (readiness_step E e s)"
  by (cases e)
    (auto simp: readiness_wf_def readiness_step_def ready_asked_def check_settled_def split: option.splits if_splits)

lemma quiet_settled:
  assumes "readiness_wf s" and "quiet_before E t s"
  shows "quiet_before E t (readiness_step E (Check_Settled v) s)"
  using assms
  by (auto simp: readiness_wf_def quiet_before_def readiness_step_def check_settled_def split: option.splits)

lemma quiet_asked:
  assumes "quiet_before E t s"
  shows "quiet_before E t (readiness_step E (Ready_Asked now) s)"
    and "fst (ready_asked now s) = Starts_Check \<Longrightarrow> t \<le> now"
  using assms by (auto simp: quiet_before_def readiness_step_def ready_asked_def split: option.splits if_splits)

lemma starts_after:
  "readiness_wf s \<Longrightarrow> quiet_before E t s \<Longrightarrow> u \<in> set (check_starts E es s) \<Longrightarrow> t \<le> u"
proof (induction es arbitrary: s)
  case (Cons e es)
  have "readiness_wf (readiness_step E e s)" using Cons.prems(1) by (rule readiness_wf_step)
  moreover have "quiet_before E t (readiness_step E e s)"
    using Cons.prems(1,2) by (cases e) (simp_all add: quiet_settled quiet_asked)
  ultimately show ?case
    using Cons.IH [of "readiness_step E e s"] Cons.prems(2,3) quiet_asked(2)
    by (auto split: readiness_event.splits if_splits)
qed simp

lemma started_quiet:
  "fst (ready_asked now s) = Starts_Check
    \<Longrightarrow> quiet_before E (now + int (cfg_num E ''READINESS_CACHE_TTL_MS'')) (readiness_step E (Ready_Asked now) s)"
  by (auto simp: quiet_before_def readiness_step_def ready_asked_def split: option.splits if_splits)

lemma spaced_Cons: "(\<And>u. u \<in> set ts \<Longrightarrow> t + d \<le> u) \<Longrightarrow> spaced d ts \<Longrightarrow> spaced d (t # ts)"
  by (cases ts) auto

lemma starts_spaced:
  "readiness_wf s \<Longrightarrow> spaced (int (cfg_num E ''READINESS_CACHE_TTL_MS'')) (check_starts E es s)"
proof (induction es arbitrary: s)
  case (Cons e es)
  have wf: "readiness_wf (readiness_step E e s)" using Cons.prems by (rule readiness_wf_step)
  show ?case
  proof (cases "\<exists>now. e = Ready_Asked now \<and> fst (ready_asked now s) = Starts_Check")
    case True
    then obtain now where e: "e = Ready_Asked now" "fst (ready_asked now s) = Starts_Check" by blast
    have "now + int (cfg_num E ''READINESS_CACHE_TTL_MS'') \<le> u"
      if "u \<in> set (check_starts E es (readiness_step E e s))" for u
      by (rule starts_after [OF wf _ that]) (use started_quiet [OF e(2)] e(1) in simp)
    then have "spaced (int (cfg_num E ''READINESS_CACHE_TTL_MS'')) (now # check_starts E es (readiness_step E e s))"
      using Cons.IH [OF wf] by (intro spaced_Cons)
    with e show ?thesis by simp
  next
    case False
    then show ?thesis using Cons.IH [OF wf] by (auto split: readiness_event.splits)
  qed
qed simp

definition no_readiness :: readiness_state where
  "no_readiness = \<lparr>rdn_cached = None, rdn_promise = None, rdn_waiting = 0\<rparr>"

text \<open>C32. The dependencies are checked at most once in any stretch of \<open>READINESS_CACHE_TTL_MS\<close>, however many
  requests ask for the readiness, in whatever order the checks settle and even when the clock goes back:
  a request that finds a check in flight waits for it, and one that finds a fresh value gets that.\<close>

theorem readiness_checks_spaced:
  "spaced (int (cfg_num E ''READINESS_CACHE_TTL_MS'')) (check_starts E es no_readiness)"
  by (rule starts_spaced) (simp add: readiness_wf_def no_readiness_def)

text \<open>A request that is alone leaves the cache as \<open>ready\<close> does, and gets the same value.\<close>

lemma ready_alone:
  assumes "ready E up (rdn_cached s, r) = (v, cache, r1)" and "rdn_promise s = None"
  shows "(case ready_asked (clock E 0) s of
      (Answered w, s1) \<Rightarrow> w = v \<and> rdn_cached s1 = cache
    | (Waits, s1) \<Rightarrow> False
    | (Starts_Check, s1) \<Rightarrow> rdn_cached (check_settled E v s1) = cache \<and> v = fst (checkReadiness E up r))"
  using assms
  by (auto simp: ready_def ready_asked_def check_settled_def Let_def split: option.splits if_splits prod.splits)

end
