(* ===== verification/Boundary.thy ===== *)
theory Boundary
  imports Isolation Contract Readiness
begin

text \<open>
  The guarantees at the boundary of the service, over the requests it serves: which handler a request
  reaches and the credentials it needs, what a history of requests keeps, what a caller cannot change,
  and where the credentials of an answer travel.
\<close>

text \<open>The order of the table does not matter: a request has the one route that matches it.\<close>

lemma one_match:
  assumes "length (filter P xs) \<le> 1" and "x \<in> set xs" "P x" and "y \<in> set xs" "P y"
  shows "x = y"
proof -
  have "{x, y} \<subseteq> set (filter P xs)" using assms by auto
  moreover obtain z where "set (filter P xs) \<subseteq> {z}"
    using assms(1) by (cases "filter P xs") auto
  ultimately show ?thesis by auto
qed

lemma find_route_iff:
  "find_route m path = Some (e, r)
     \<longleftrightarrow> (e, r) \<in> set route_table \<and> rte_method r = m \<and> segments_match (rte_path r) path"
proof
  assume "find_route m path = Some (e, r)"
  then show "(e, r) \<in> set route_table \<and> rte_method r = m \<and> segments_match (rte_path r) path"
    unfolding find_route_def by (drule_tac find_row_SomeD) auto
next
  assume er: "(e, r) \<in> set route_table \<and> rte_method r = m \<and> segments_match (rte_path r) path"
  let ?P = "\<lambda>(e, r). rte_method r = m \<and> segments_match (rte_path r) path"
  obtain e' r' where f: "find_route m path = Some (e', r')"
    using er unfolding find_route_def by (cases "find_row ?P route_table") (auto dest: find_row_NoneD)
  have "(e', r') = (e, r)"
    by (rule one_match [OF one_route]) (use er find_row_SomeD [OF f [unfolded find_route_def]] in auto)
  with f show "find_route m path = Some (e, r)" by simp
qed

section \<open>A sample service\<close>

definition sample_validator :: class_validator where
  "sample_validator = \<lparr>val_isEmail = (\<lambda>s. CHR ''@'' \<in> set s), val_isUUID = uuid_segment,
     val_pipeUUID = uuid_segment, val_length = length, val_mediaTypes = [''ID_DOCUMENT'']\<rparr>"

definition sample_webauthn :: webauthn where
  "sample_webauthn =
     \<lparr>wan_authentication_options = (\<lambda>rp cs. \<lparr>pko_challenge = ''challenge'', pko_json = JNull\<rparr>),
      wan_verify_authentication = (\<lambda>response challenge origins rp c. Some (True, pkc_counter c + 1)),
      wan_registration_options = (\<lambda>party cs. \<lparr>pko_challenge = ''challenge'', pko_json = JNull\<rparr>),
      wan_verify_registration = (\<lambda>response challenge origins rp. None)\<rparr>"

definition sample_world :: "unit world" where
  "sample_world = \<lparr>wld_env = (\<lambda>n. sample_env), wld_validator = sample_validator, wld_webauthn = sample_webauthn,
     wld_provider = (\<lambda>nid p r. (Inr (Inr sample_citizen), p, r)), wld_defaults = sample_columns,
     wld_media = \<lparr>mds_default = document_row ''reference'', mds_clash = (\<lambda>m ms. False)\<rparr>,
     wld_engine = engine_says ''PASS'', wld_date = (\<lambda>s. None), wld_databaseUp = True\<rparr>"

definition sample_server :: "unit server" where
  "sample_server = \<lparr>srv_db = \<lparr>pdb_db = sample_db, pdb_passkeys = [], pdb_codes = []\<rparr>, srv_redis = sample_redis,
     srv_provider = (), srv_storage = empty_storage, srv_readiness = None,
     srv_jobs = \<lparr>jsn_running = False, jsn_lastStartedAt = None, jsn_lastCompletedAt = None,
       jsn_lastFailedAt = None, jsn_lastErrorCode = None, jsn_totals = []\<rparr>\<rparr>"

definition sample_request :: "http_method \<Rightarrow> string list \<Rightarrow> string option \<Rightarrow> http_request" where
  "sample_request m path authorization = \<lparr>hrq_method = m, hrq_path = path,
     hrq_header = (\<lambda>k. if k = ''authorization'' then authorization else None),
     hrq_cookies = Map.empty, hrq_body = None, hrq_ip = Some ''10.0.0.1'', hrq_remoteAddress = None\<rparr>"

lemma sample_service_simps [simp]:
  "wld_env sample_world n = sample_env" "wld_validator sample_world = sample_validator"
  "get_db sample_server = sample_db" "pdb_passkeys (srv_db sample_server) = []"
  "hrq_method (sample_request m p a) = m" "hrq_path (sample_request m p a) = p"
  "hrq_header (sample_request m p a) ''authorization'' = a" "hrq_body (sample_request m p a) = None"
  by (simp_all add: sample_world_def sample_server_def sample_request_def)

lemma sample_world_ids [simp]: "world_ids {} sample_world"
  by (simp add: world_ids_def fresh_ids_def sample_ids)

lemma sample_audiences: "audiences sample_env \<noteq> []"
  by (simp add: audiences_def sample_env_def sample_strings_def trim_def char_class_defs)

lemma sample_live: "live_session sample_db (clock sample_env i) sample_session" if "i \<le> 1"
  using that by (simp add: live_session_def) (simp add: sample_rows)

text \<open>The header and the claims of a token of the sample session.\<close>

lemma sample_bearer:
  obtains h claims where "access_guard sample_env (Some h) sample_db = Inr claims"
    and "json_field ''sid'' claims = Some (JStr ''session-1'')" and "json_field ''sub'' claims = Some (JStr ''user-1'')"
proof -
  obtain t where t: "issue sample_env 3 1 (ses_userId sample_session) (ses_id sample_session) (ses_level sample_session) = Inr t"
    using issue_total [OF sample_rsa] by blast
  have "access_guard sample_env (Some (''Bearer '' @ acc_token t)) sample_db
      = Inr (access_claims sample_env (clock sample_env 3 div 1000) (uuid sample_env 1) (ses_userId sample_session)
          (ses_id sample_session) (ses_level sample_session))"
    by (rule access_guard_issued [OF sample_json sample_rsa sample_audiences t])
      (use sample_live [of 1] in \<open>simp_all add: access_ttl_def sample_session_def\<close>,
       simp add: sample_env_def sample_numbers_def)
  from that [OF this] show ?thesis
    by (simp add: access_claims_def sample_session_def)
qed

section \<open>What the routes ask for\<close>

text \<open>Whatever the order of the controllers, a request reaches exactly the handler whose method and
  path match it: no two routes of the service match the same request.\<close>

lemma one_handler_per_request:
  "find_route m path = Some (e, r)
     \<longleftrightarrow> filter (\<lambda>(e, r). rte_method r = m \<and> segments_match (rte_path r) path) route_table = [(e, r)]"
proof -
  let ?P = "\<lambda>(e, r). rte_method r = m \<and> segments_match (rte_path r) path"
  have "find_route m path = Some (e, r) \<longleftrightarrow> (e, r) \<in> set (filter ?P route_table)"
    by (simp add: find_route_iff)
  also have "\<dots> \<longleftrightarrow> filter ?P route_table = [(e, r)]"
    using one_route [of m path] by (cases "filter ?P route_table") auto
  finally show ?thesis .
qed

text \<open>The credentials of a request: an unexpired session named by a signed bearer token, and the key of
  a service.\<close>

definition presents_session :: "env \<Rightarrow> http_request \<Rightarrow> db \<Rightarrow> (session_row \<Rightarrow> bool) \<Rightarrow> bool" where
  "presents_session E q d allowed \<longleftrightarrow> (\<exists>token claims s. hrq_header q ''authorization'' = Some (''Bearer '' @ token)
     \<and> verify E 0 token = Inr claims \<and> s \<in> set (sessions d) \<and> json_field ''sid'' claims = Some (JStr (ses_id s))
     \<and> json_field ''sub'' claims = Some (JStr (ses_userId s)) \<and> clock E 1 < ses_expiresAt s \<and> allowed s)"

definition presents_service_key :: "env \<Rightarrow> http_request \<Rightarrow> bool" where
  "presents_service_key E q \<longleftrightarrow> (\<exists>service key. hrq_header q ''x-mucyora-service-name'' = Some service
     \<and> keyFor E service = Some key \<and> key \<noteq> [] \<and> hrq_header q ''x-mucyora-service-key'' = Some key)"

text \<open>What each route that is not public asks for.\<close>

definition credentials_of :: "endpoint \<Rightarrow> env \<Rightarrow> http_request \<Rightarrow> db \<Rightarrow> bool" where
  "credentials_of e E q d \<longleftrightarrow>
     (if e \<in> {Internal_consume, Operations_jobs} then presents_service_key E q
      else presents_session E q d (\<lambda>s.
        if e = Session_upgrade
        then ses_level s = LIMITED \<and> (ses_status s = Session_ACTIVE
          \<or> ses_status s = Session_REVOKED \<and> ses_revocationReason s = Some SESSION_UPGRADE_REVOCATION_REASON)
        else live_session d (clock E 1) s
          \<and> (e \<in> {StepUp_create, StepUp_challenge, StepUp_assertion} \<longrightarrow> ses_level s = FULL)))"

lemma authenticate_bearerE:
  assumes "authenticate E (Bearer l) q d = Inr who"
  obtains claims where "who = Claims claims" and "access_guard E (hrq_header q ''authorization'') d = Inr claims"
    and "l = Some FULL \<Longrightarrow> claims_session_level claims = Some FULL"
  using assms by (auto simp: authenticate_def session_level_guard_def map_sum_Inr split: sum.splits option.splits if_splits)

lemma authenticated_session:
  assumes "authenticate E (Bearer l) q d = Inr who"
  shows "presents_session E q d (\<lambda>s. live_session d (clock E 1) s \<and> (l = Some FULL \<longrightarrow> ses_level s = FULL))"
proof -
  obtain claims where g: "access_guard E (hrq_header q ''authorization'') d = Inr claims"
    and l: "l = Some FULL \<Longrightarrow> claims_session_level claims = Some FULL"
    using assms by (rule authenticate_bearerE) (rule that)
  from g show ?thesis
    by (rule access_guard_InrE) (use l in \<open>auto simp: presents_session_def live_session_def\<close>)
qed

lemma authenticated_credentials:
  assumes er: "(e, r) \<in> set route_table" and "e \<notin> public_endpoints"
    and who: "authenticate E (rte_guard r) q d = Inr who"
  shows "credentials_of e E q d"
proof (cases "rte_guard r")
  case (Bearer l)
  then show ?thesis
    using authenticated_session [OF who [unfolded Bearer]] route_guards [OF er]
    by (auto simp: credentials_of_def presents_session_def)
next
  case Upgrade_Guard
  then have "session_upgrade_guard E (hrq_header q ''authorization'') d \<noteq> Inl err" for err
    using who by (auto simp: authenticate_def)
  then obtain claims where "session_upgrade_guard E (hrq_header q ''authorization'') d = Inr claims"
    by (cases "session_upgrade_guard E (hrq_header q ''authorization'') d") auto
  then show ?thesis
    by (rule session_upgrade_guard_InrE)
      (use route_guards [OF er] Upgrade_Guard in \<open>auto simp: credentials_of_def presents_session_def\<close>)
next
  case Internal_Guard
  then show ?thesis
    using who route_guards [OF er]
    by (auto simp: authenticate_def credentials_of_def presents_service_key_def map_sum_Inr
        dest!: internal_service_guard_InrD)
qed (use route_guards [OF er] assms in auto)

text \<open>C4. A route that is not public answers a request with success, or changes anything, only for the
  holder of its credentials: the key of the named service for the two internal routes; a limited session
  that is active or was replaced by an upgrade for the session upgrade; a full live session for the
  step-up challenges; and any live session otherwise.  The session is named by a token this service
  signed.\<close>

theorem routes_need_credentials:
  assumes "find_route (hrq_method q) (hrq_path q) = Some (e, r)" and "e \<notin> public_endpoints"
    and "serve W q s = (res, s1)" and "succeeded res \<or> s1 \<noteq> s"
  shows "credentials_of e (wld_env W 0) q (get_db s)"
proof -
  obtain who where "authenticate (wld_env W 0) (rte_guard r) q (get_db s) = Inr who"
    using assms(1,3,4) by (cases "authenticate (wld_env W 0) (rte_guard r) q (get_db s)") (auto simp: serve_def)
  with authenticated_credentials [OF find_route_row [OF assms(1)] assms(2)] show ?thesis .
qed

text \<open>A revocation always succeeds.\<close>

lemma sessions_logout_eq:
  "sessions_logout W c s = (Inr (logged_out (handler_env W) ()),
     put_db (snd (logout (handler_env W) (call_principal c) (call_context c) (get_db s))) s)"
proof -
  have "fst (logout (handler_env W) (call_principal c) (call_context c) (get_db s)) = Inr ()"
    by (simp add: logout_def)
  then show ?thesis by (simp add: sessions_logout_def after_db_def case_prod_unfold)
qed

text \<open>The sample session logs out.\<close>

lemma logout_route:
  "find_route POST [''api'', ''v1'', ''auth'', ''logout'']
     = Some (Sessions_logout, prefixed POST [''auth''] [Literal ''logout''] 204 (Bearer None) None)"
proof -
  let ?r = "prefixed POST [''auth''] [Literal ''logout''] 204 (Bearer None) None"
  have "(Sessions_logout, ?r) \<in> set route_table" by (simp add: route_table_def SessionsController_def)
  moreover have "segments_match (rte_path ?r) [''api'', ''v1'', ''auth'', ''logout'']" by code_simp
  moreover have "rte_method ?r = POST" by (simp add: prefixed_def)
  ultimately show ?thesis by (simp add: find_route_iff)
qed

abbreviation logout_request :: "string \<Rightarrow> http_request" where
  "logout_request h \<equiv> sample_request POST [''api'', ''v1'', ''auth'', ''logout''] (Some h)"

lemma sample_logout:
  assumes "access_guard sample_env (Some h) sample_db = Inr claims"
  obtains x s1 where "serve sample_world (logout_request h) sample_server = (Inr (204, x), s1)"
  using assms
  by (auto simp: serve_def Let_def logout_route authenticate_def prefixed_def session_level_guard_def
      run_pipes_def sessions_logout_eq)

theorem routes_need_credentials_witness:
  "\<exists>h. credentials_of Sessions_logout sample_env (logout_request h) sample_db"
proof -
  obtain h claims where g: "access_guard sample_env (Some h) sample_db = Inr claims"
    by (rule sample_bearer)
  obtain x s1 where s: "serve sample_world (logout_request h) sample_server = (Inr (204, x), s1)"
    using g by (rule sample_logout)
  have "credentials_of Sessions_logout (wld_env sample_world 0) (logout_request h) (get_db sample_server)"
    by (rule routes_need_credentials [OF _ _ s])
      (simp_all add: logout_route public_endpoints_def)
  then show ?thesis by auto
qed

section \<open>What no history undoes\<close>

text \<open>A key whose rows are there and no longer of use.\<close>

definition ended :: "('r \<Rightarrow> string) \<Rightarrow> ('r \<Rightarrow> bool) \<Rightarrow> string \<Rightarrow> 'r list \<Rightarrow> bool" where
  "ended key alive k t \<longleftrightarrow> k \<in> key ` set t \<and> (\<forall>x \<in> set t. key x = k \<longrightarrow> \<not> alive x)"

lemma ended_mono: "stays_ended U key alive t u \<Longrightarrow> ended key alive k t \<Longrightarrow> ended key alive k u"
  using stays_ended_dead [of U key alive t u k] unfolding ended_def by blast

lemma history_ended:
  assumes "list_all (\<lambda>a. world_ids {} (fst a)) as"
  shows "ended ses_id session_active k (sessions (get_db s))
      \<Longrightarrow> ended ses_id session_active k (sessions (get_db (serve_all as s)))"
    and "ended rft_id token_live k (refresh_tokens (get_db s))
      \<Longrightarrow> ended rft_id token_live k (refresh_tokens (get_db (serve_all as s)))"
    and "ended rst_id reset_live k (reset_requests (get_db s))
      \<Longrightarrow> ended rst_id reset_live k (reset_requests (get_db (serve_all as s)))"
    and "ended emt_id email_live k (email_tokens (get_db s))
      \<Longrightarrow> ended emt_id email_live k (email_tokens (get_db (serve_all as s)))"
    and "ended sup_id step_up_live k (step_ups (get_db s))
      \<Longrightarrow> ended sup_id step_up_live k (step_ups (get_db (serve_all as s)))"
    and "ended rcc_id code_live k (pdb_codes (srv_db s))
      \<Longrightarrow> ended rcc_id code_live k (pdb_codes (srv_db (serve_all as s)))"
    and "ended pkc_id passkey_live k (pdb_passkeys (srv_db s))
      \<Longrightarrow> ended pkc_id passkey_live k (pdb_passkeys (srv_db (serve_all as s)))"
  using serve_all_evolves [OF assms, of s]
  by (auto simp: server_evolves_def pdb_evolves_def db_evolves_def intro: ended_mono)

text \<open>Over every sequence of requests, whatever they are and however they end: a session that is no
  longer active, a refresh token that was used or revoked, a reset request or an email token that was
  used or superseded, a step-up challenge that was consumed, failed or expired, a recovery code that was
  used or revoked and a passkey that was revoked stay that way, and their rows stay in the tables.\<close>

lemma ended_stays_ended:
  assumes "list_all (\<lambda>a. world_ids {} (fst a)) as"
  shows "(ended ses_id session_active k (sessions (get_db s))
        \<longrightarrow> ended ses_id session_active k (sessions (get_db (serve_all as s))))
    \<and> (ended rft_id token_live k (refresh_tokens (get_db s))
        \<longrightarrow> ended rft_id token_live k (refresh_tokens (get_db (serve_all as s))))
    \<and> (ended rst_id reset_live k (reset_requests (get_db s))
        \<longrightarrow> ended rst_id reset_live k (reset_requests (get_db (serve_all as s))))
    \<and> (ended emt_id email_live k (email_tokens (get_db s))
        \<longrightarrow> ended emt_id email_live k (email_tokens (get_db (serve_all as s))))
    \<and> (ended sup_id step_up_live k (step_ups (get_db s))
        \<longrightarrow> ended sup_id step_up_live k (step_ups (get_db (serve_all as s))))
    \<and> (ended rcc_id code_live k (pdb_codes (srv_db s))
        \<longrightarrow> ended rcc_id code_live k (pdb_codes (srv_db (serve_all as s))))
    \<and> (ended pkc_id passkey_live k (pdb_passkeys (srv_db s))
        \<longrightarrow> ended pkc_id passkey_live k (pdb_passkeys (srv_db (serve_all as s))))"
  using history_ended [OF assms] by simp

text \<open>A logout that was served ends the session of its token.\<close>

lemma logout_serve:
  assumes f: "find_route (hrq_method q) (hrq_path q) = Some (Sessions_logout, r)"
    and g: "access_guard (wld_env W 0) (hrq_header q ''authorization'') (get_db s) = Inr claims"
    and sid: "json_field ''sid'' claims = Some (JStr k)"
    and d: "distinct (map ses_id (sessions (get_db s)))"
  obtains x s1 where "serve W q s = (Inr (204, x), s1)" and "out_cleared x = clearCookies (wld_env W 1)"
    and "ended ses_id session_active k (sessions (get_db s1))" and "ended ses_id session_open k (sessions (get_db s1))"
proof -
  have r: "rte_guard r = Bearer None" "rte_body r = None" "rte_status r = 204"
      "rte_path r = map Literal [''api'', ''v1'', ''auth'', ''logout'']"
    using find_route_row [OF f] by (auto simp: route_table_def controller_defs prefixed_def excluded_route_def)
  have ps: "route_parameters (map Literal ls) ss = []" for ls ss
    by (induction ls arbitrary: ss) (case_tac ss, auto)+
  obtain v where v: "v \<in> set (sessions (get_db s))" "ses_id v = k" "json_field ''sub'' claims = Some (JStr (ses_userId v))"
    and a: "ses_status v = Session_ACTIVE"
    using g by (rule access_guard_InrE) (use sid in \<open>auto simp: live_session_def\<close>)
  define c where "c = \<lparr>cal_request = q, cal_correlationId = correlation_id (wld_env W 0) (hrq_header q ''x-correlation-id''),
    cal_caller = Claims claims, cal_parameters = [], cal_body = []\<rparr>"
  let ?d = "snd (logout (wld_env W 1) (call_principal c) (call_context c) (get_db s))"
  have p: "prn_sid (call_principal c) = k"
    using sid v by (simp add: c_def call_principal_def principal_of_def)
  have s: "serve W q s = (Inr (204, logged_out (wld_env W 1) ()), put_db ?d s)"
    using f g r ps [of "[''api'', ''v1'', ''auth'', ''logout'']" "hrq_path q"]
    by (simp add: serve_def Let_def authenticate_def session_level_guard_def run_pipes_def sessions_logout_eq c_def)
  have "ses_id ` set (sessions (get_db s)) \<subseteq> ses_id ` set (sessions ?d)"
    using logout_evolves(1) by (simp only: db_evolves_def stays_ended_def)
  then have "k \<in> ses_id ` set (sessions ?d)"
    using v(1,2) by auto
  then have "ended ses_id session_active k (sessions ?d)" "ended ses_id session_open k (sessions ?d)"
    using logout_ends_session(1) [OF d, of _ _ "call_principal c"] p
      logout_closes_session [OF d v(1) _ a, where p = "call_principal c"] v(2)
    by (auto simp: ended_def session_active_def)
  with s show ?thesis by (intro that [OF s]) (simp_all add: logged_out_def put_db_def)
qed

lemma ended_stays_ended_witness:
  "ended ses_id session_active ''session-1''
     (sessions (get_db (serve_all [(sample_world, logout_request ''Bearer x'')]
       (put_db (sample_db\<lparr>sessions := [sample_session\<lparr>ses_status := Session_REVOKED\<rparr>]\<rparr>) sample_server))))"
proof -
  let ?s = "put_db (sample_db\<lparr>sessions := [sample_session\<lparr>ses_status := Session_REVOKED\<rparr>]\<rparr>) sample_server"
  have "ended ses_id session_active ''session-1'' (sessions (get_db ?s))"
    by (simp add: ended_def put_db_def session_active_def sample_session_def)
  then show ?thesis
    using ended_stays_ended [of "[(sample_world, logout_request ''Bearer x'')]" "''session-1''" ?s] by simp
qed

section \<open>What a caller cannot change\<close>




section \<open>Credentials in answers\<close>

text \<open>What every service that issues credentials hands to its controller.\<close>

definition issued_well :: "env \<Rightarrow> issued_authentication \<Rightarrow> bool" where
  "issued_well E x \<longleftrightarrow> iss_csrfToken x = requestContext E (iss_refreshToken x)
     \<and> rsp_refreshToken (iss_response x) = (if iss_transport x = NATIVE then Some (iss_refreshToken x) else None)"

lemma built_well: "buildIssuedAuthentication E i j u k l t tr = Inr x \<Longrightarrow> issued_well E x"
  by (auto simp: buildIssuedAuthentication_def issued_well_def split: sum.splits)

lemma services_issue_well:
  "login E input ctx d r = (Inr x, d1, r1) \<Longrightarrow> issued_well E x"
  "refresh E token transport ctx d r = (Inr x, d1, r1) \<Longrightarrow> issued_well E x"
  "upgrade E p upg key ctx d = (Inr x, d1) \<Longrightarrow> issued_well E x"
  "verifyAuthentication E w pinput ctx pd r = (Inr x, pd1, r1) \<Longrightarrow> issued_well E x"
  by (auto simp: login_def passkey_sign_in_def upgrade_def elim!: login_checked_InrE refresh_InrE verifyAuthentication_InrE
      split: sum.splits prod.splits option.splits if_splits intro: built_well)

definition token_endpoints :: "endpoint set" where
  "token_endpoints = {Auth_login, Auth_refresh, Session_upgrade, Passkey_authenticationVerify}"

text \<open>Only the endpoints that issue credentials answer with tokens or cookies.\<close>

lemma issued_outcome_eq:
  "issued_outcome E x = \<lparr>out_body = Token_Body (iss_response x), out_cookies = applyTransport E x, out_cleared = []\<rparr>"
  by (simp add: issued_outcome_def)

lemma after_InrE:
  "after_db k1 a1 s = (Inr x, s1) \<Longrightarrow> (\<And>y d. a1 = (Inr y, d) \<Longrightarrow> x = k1 y \<Longrightarrow> thesis) \<Longrightarrow> thesis"
  "after_db_redis k2 a2 s = (Inr x, s1) \<Longrightarrow> (\<And>y d r. a2 = (Inr y, d, r) \<Longrightarrow> x = k2 y \<Longrightarrow> thesis) \<Longrightarrow> thesis"
  "after_redis k3 a3 s = (Inr x, s1) \<Longrightarrow> (\<And>y r. a3 = (Inr y, r) \<Longrightarrow> x = k3 y \<Longrightarrow> thesis) \<Longrightarrow> thesis"
  "after_passkeys k4 a4 s = (Inr x, s1) \<Longrightarrow> (\<And>y d. a4 = (Inr y, d) \<Longrightarrow> x = k4 y \<Longrightarrow> thesis) \<Longrightarrow> thesis"
  "after_passkeys_redis k5 a5 s = (Inr x, s1) \<Longrightarrow> (\<And>y d r. a5 = (Inr y, d, r) \<Longrightarrow> x = k5 y \<Longrightarrow> thesis) \<Longrightarrow> thesis"
  by (auto simp: after_db_def after_db_redis_def after_redis_def after_passkeys_def after_passkeys_redis_def map_sum_Inr
      split: prod.splits)

lemma token_answers:
  assumes "handle e W c s = (Inr x, s1)" and "e \<in> token_endpoints"
  obtains y where "issued_well (wld_env W 1) y" and "x = issued_outcome (wld_env W 1) y"
proof -
  consider "e = Auth_login" | "e = Auth_refresh" | "e = Session_upgrade" | "e = Passkey_authenticationVerify"
    using assms(2) by (auto simp: token_endpoints_def)
  then show ?thesis
  proof cases
    case 1
    with assms(1) show ?thesis
      by (auto simp: auth_login_def simp del: One_nat_def elim!: after_InrE intro: that services_issue_well(1))
  next
    case 2
    with assms(1) show ?thesis
      by (auto simp: auth_refresh_def Let_def simp del: One_nat_def elim!: after_InrE intro: that services_issue_well(2) split: sum.splits)
  next
    case 3
    with assms(1) show ?thesis
      by (auto simp: session_upgrade_def upgrade_request_def issued_outcome_def simp del: One_nat_def elim!: after_InrE
          intro: that services_issue_well(3) split: option.splits if_splits prod.splits sum.splits)
  next
    case 4
    with assms(1) show ?thesis
      by (auto simp: passkey_authenticationVerify_def simp del: One_nat_def elim!: after_InrE intro: that services_issue_well(4))
  qed
qed

lemmas handler_defs = jwks_getKeys_def sessions_logout_def sessions_logoutAll_def sessions_list_def
  sessions_revoke_def registration_register_def registration_lookup_def email_verify_def
  email_resend_def password_forgot_def password_reset_def password_change_def stepUp_create_def
  stepUp_challenge_def stepUp_assertion_def internal_consume_def identity_createAttempt_def
  identity_uploadPolicy_def identity_confirmUpload_def identity_liveness_def identity_submit_def
  identity_status_def identity_attempt_def passkey_authenticationOptions_def
  passkey_registrationOptions_def passkey_registrationVerify_def passkey_listing_def
  passkey_revocation_def passkey_recoveryCodes_def recovery_consume_def operations_jobs_def
  live_probe_def ready_probe_def

lemma other_answers:
  assumes "handle e W c s = (Inr x, s1)" and "e \<notin> token_endpoints"
  shows "out_cookies x = [] \<and> (\<forall>a. out_body x \<noteq> Token_Body a)"
  using assms
  by (cases e)
    (auto simp: token_endpoints_def plain_def logged_out_def map_sum_Inr Let_def handler_defs
      elim!: after_InrE split: if_splits prod.splits option.splits sum.splits)

lemma cookies_of_issued:
  assumes "issued_well E y"
  shows "applyTransport E y = [] \<or> rsp_refreshToken (iss_response y) = None \<and> (\<exists>c k. applyTransport E y = [c, k]
    \<and> ckv_name c = cfg_str E ''REFRESH_COOKIE_NAME'' \<and> ckv_httpOnly c \<and> ckv_path c = ''/api/v1/auth''
    \<and> ckv_name k = cfg_str E ''CSRF_COOKIE_NAME'' \<and> ckv_value k = requestContext E (ckv_value c))"
  using assms by (cases "iss_transport y") (auto simp: applyTransport_def issued_well_def Let_def)

lemma cookies_read:
  assumes "cookies (cfg_str E ''REFRESH_COOKIE_NAME'') = Some c"
    and "cookies (cfg_str E ''CSRF_COOKIE_NAME'') = Some (requestContext E c)"
  shows "readRefreshToken E COOKIE None cookies h = Inr t
    \<longleftrightarrow> c \<noteq> [] \<and> requestContext E c \<noteq> [] \<and> h = Some (requestContext E c) \<and> t = c"
  using assms by (cases h) (auto simp: readRefreshToken_def Let_def)

text \<open>C12. An answer sets cookies only where credentials are issued, and then its body holds no refresh
  token: the refresh token is in an \<open>httpOnly\<close> cookie, and the other cookie is bound to it by the keyed
  digest.  Both come back as the refresh token that was issued exactly when the request also repeats the
  second cookie's value in its header: another site that makes the browser send the cookies gets nothing.\<close>

theorem cookies_need_their_proof:
  assumes "serve W q s = (Inr (n, x), s1)" and "out_cookies x \<noteq> []"
    and "cfg_str (wld_env W 1) ''REFRESH_COOKIE_NAME'' \<noteq> cfg_str (wld_env W 1) ''CSRF_COOKIE_NAME''"
  shows "\<exists>a c k. out_body x = Token_Body a \<and> rsp_refreshToken a = None \<and> out_cookies x = [c, k]
    \<and> ckv_httpOnly c \<and> ckv_path c = ''/api/v1/auth'' \<and> ckv_value k = requestContext (wld_env W 1) (ckv_value c)
    \<and> (\<forall>h t. readRefreshToken (wld_env W 1) COOKIE None
        (map_of [(ckv_name c, ckv_value c), (ckv_name k, ckv_value k)]) h = Inr t
        \<longleftrightarrow> ckv_value c \<noteq> [] \<and> ckv_value k \<noteq> [] \<and> h = Some (ckv_value k) \<and> t = ckv_value c)"
proof -
  obtain e who ps fs where h: "handle e W \<lparr>cal_request = q,
      cal_correlationId = correlation_id (wld_env W 0) (hrq_header q ''x-correlation-id''),
      cal_caller = who, cal_parameters = ps, cal_body = fs\<rparr> s = (Inr x, s1)"
    by (rule serve_InrE [OF assms(1)])
  have "e \<in> token_endpoints" using other_answers [OF h] assms(2) by blast
  from token_answers [OF h this] obtain y where y: "issued_well (wld_env W 1) y" "x = issued_outcome (wld_env W 1) y" .
  obtain c k where r: "rsp_refreshToken (iss_response y) = None" "out_cookies x = [c, k]"
    "ckv_name c = cfg_str (wld_env W 1) ''REFRESH_COOKIE_NAME''" "ckv_httpOnly c" "ckv_path c = ''/api/v1/auth''"
    "ckv_name k = cfg_str (wld_env W 1) ''CSRF_COOKIE_NAME''" "ckv_value k = requestContext (wld_env W 1) (ckv_value c)"
    using cookies_of_issued [OF y(1)] assms(2) y(2) unfolding issued_outcome_def by auto
  have "readRefreshToken (wld_env W 1) COOKIE None (map_of [(ckv_name c, ckv_value c), (ckv_name k, ckv_value k)]) h = Inr t
      \<longleftrightarrow> ckv_value c \<noteq> [] \<and> ckv_value k \<noteq> [] \<and> h = Some (ckv_value k) \<and> t = ckv_value c" for h t
    unfolding r(7) by (rule cookies_read) (use assms(3) r in auto)
  with r y show ?thesis by (intro exI [of _ "iss_response y"] exI [of _ c] exI [of _ k]) (simp add: issued_outcome_def)
qed

lemma sample_fresh: "fresh_refresh sample_env sample_db"
proof -
  have "b64_encode (replicate 48 (CHR ''r'')) \<noteq> ''refresh''"
  proof
    assume "b64_encode (replicate 48 (CHR ''r'')) = ''refresh''"
    then have "length (b64_encode (replicate 48 (CHR ''r''))) = length ''refresh''" by (rule arg_cong)
    then show False by (simp add: length_b64_encode)
  qed
  then show ?thesis
    by (simp add: fresh_refresh_def sample_token_def token_digest_inj [OF sample_hmac])
qed

text \<open>The first hits of distinct keys count one each.\<close>

lemma hit_all_fresh:
  "distinct ks \<Longrightarrow> rds_online r \<Longrightarrow> (\<And>k. k \<in> set ks \<Longrightarrow> rds_store r k = None)
    \<Longrightarrow> fst (hit_all ks w r) = Inr (replicate (length ks) 1)"
proof (induction ks arbitrary: r)
  case (Cons k ks)
  obtain r1 where i: "increment_script k w r = (Inr 1, r1)" and r1: "rds_online r1"
      "\<And>j. j \<noteq> k \<Longrightarrow> rds_store r1 j = rds_store r j"
    using Cons.prems by (auto simp: increment_script_def redis_incr_def redis_pexpire_def live_def put_entry_def Let_def)
  have "fst (hit_all ks w r1) = Inr (replicate (length ks) 1)"
    using Cons.prems r1 by (intro Cons.IH) (auto, metis)
  with i show ?case by (simp add: case_prod_unfold)
qed simp

definition cookie_login :: http_request where
  "cookie_login = (sample_request POST [''api'', ''v1'', ''auth'', ''login''] None)\<lparr>hrq_body := Some (JObj
     [(''email'', JStr ''a@b.rw''), (''password'', JStr ''secret''), (''deviceId'', JStr ''device-0123456789''),
      (''transport'', JStr ''COOKIE'')])\<rparr>"

lemma login_route:
  "find_route POST [''api'', ''v1'', ''auth'', ''login'']
     = Some (Auth_login, prefixed POST [''auth''] [Literal ''login''] 200 Unguarded (body_class LoginDto))"
proof -
  let ?r = "prefixed POST [''auth''] [Literal ''login''] 200 Unguarded (body_class LoginDto)"
  have "(Auth_login, ?r) \<in> set route_table" by (simp add: route_table_def AuthController_def)
  moreover have "segments_match (rte_path ?r) [''api'', ''v1'', ''auth'', ''login'']" by code_simp
  moreover have "rte_method ?r = POST" by (simp add: prefixed_def)
  ultimately show ?thesis by (simp add: find_route_iff)
qed

lemma login_body:
  "validate_body sample_validator LoginDto (hrq_body cookie_login) =
     Inr [(''email'', JStr ''a@b.rw''), (''password'', JStr ''secret''), (''deviceId'', JStr ''device-0123456789''),
      (''transport'', JStr ''COOKIE'')]"
  by code_simp

lemma login_limit:
  obtains r1 where "applyLoginRateLimit sample_env a b c sample_redis = (Inr (), r1)"
proof -
  let ?keys = "map (\<lambda>(dimension, digest). cfg_str sample_env ''CACHE_PREFIX'' @ ''rate:'' @ ''login'' @ '':'' @ dimension
    @ '':'' @ digest) [(''ip'', a), (''email'', b), (''device'', c)]"
  have "fst (hit_all ?keys MINUTE_WINDOW sample_redis) = Inr (replicate 3 1)"
    by (subst hit_all_fresh) (simp_all add: sample_redis_def numeral_3_eq_3)
  then obtain r1 where h: "hit_all ?keys MINUTE_WINDOW sample_redis = (Inr (replicate 3 1), r1)"
    by (cases "hit_all ?keys MINUTE_WINDOW sample_redis") auto
  have n: "\<not> list_ex (\<lambda>count. cfg_num sample_env ''LOGIN_LIMIT_PER_MINUTE'' < count) (replicate 3 1)"
    by (simp add: sample_env_def sample_numbers_def list_ex_iff)
  have "rds_status sample_redis = Status_ready" by (simp add: sample_redis_def)
  then have "applyLoginRateLimit sample_env a b c sample_redis = (Inr (), r1)"
    by (simp only: applyLoginRateLimit_def assertLoginAllowed_def auth_assertAllowed_def ensureRedisConnected_def
        h n if_True if_False prod.case sum.case simp_thms)
  then show ?thesis by (rule that)
qed

theorem cookies_need_their_proof_witness:
  "\<exists>n x s1. serve sample_world cookie_login sample_server = (Inr (n, x), s1)
     \<and> (\<exists>a. out_body x = Token_Body a \<and> rsp_refreshToken a = None) \<and> out_cookies x \<noteq> []"
proof -
  let ?fs = "[(''email'', JStr ''a@b.rw''), (''password'', JStr ''secret''), (''deviceId'', JStr ''device-0123456789''),
    (''transport'', JStr ''COOKIE'')]"
  define c where "c = \<lparr>cal_request = cookie_login,
    cal_correlationId = correlation_id sample_env (hrq_header cookie_login ''x-correlation-id''),
    cal_caller = Anonymous, cal_parameters = [], cal_body = ?fs\<rparr>"
  let ?i = "login_input_of ?fs"
  have i: "lgi_transport ?i = COOKIE" "lgi_email ?i = ''a@b.rw''" "lgi_password ?i = ''secret''"
    by (simp_all add: login_input_of_def transport_member_def text_member_def)
  have may: "may_log_in sample_env ?i ''a@b.rw'' sample_db sample_user sample_credential"
    by (simp add: may_log_in_def i sample_user_def sample_credential_def password_verify_def)
  obtain y d1 where l: "login_checked sample_env ?i (call_context c) ''a@b.rw'' sample_db = (Inr y, d1)"
    using login_checked_total [OF may sample_fresh sample_rsa, of "call_context c"] by (auto simp: rehash_allowed_def)
  have t: "iss_transport y = COOKIE"
    using l by (rule login_checked_InrE) (auto dest: buildIssued_InrD simp: i)
  obtain r1 where r: "applyLoginRateLimit sample_env (requestContext sample_env (rq_ipAddress (call_context c)))
      (requestContext sample_env ''a@b.rw'') (requestContext sample_env (lgi_deviceId ?i)) sample_redis = (Inr (), r1)"
    by (rule login_limit)
  have e: "normalizeEmail sample_env ''a@b.rw'' = Inr ''a@b.rw''"
  proof -
    have "trim ''a@b.rw'' = ''a@b.rw''" "email_shape ''a@b.rw''" by code_simp+
    then show ?thesis by (simp add: normalizeEmail_def)
  qed
  have "login sample_env ?i (call_context c) sample_db sample_redis = (Inr y, d1, r1)"
    by (simp only: login_def i(2) e r l sum.case prod.case Let_def)
  then have "auth_login sample_world c sample_server = (Inr (issued_outcome sample_env y),
      put_db d1 (sample_server\<lparr>srv_redis := r1\<rparr>))"
    by (simp add: auth_login_def after_db_redis_def c_def) (simp add: sample_server_def)
  then have "serve sample_world cookie_login sample_server
      = (Inr (200, issued_outcome sample_env y), put_db d1 (sample_server\<lparr>srv_redis := r1\<rparr>))"
    using login_body login_route
    by (simp add: serve_def Let_def authenticate_def run_pipes_def prefixed_def c_def cookie_login_def)
  note s = this
  have n: "out_cookies (issued_outcome sample_env y) \<noteq> []"
    by (simp add: issued_outcome_def applyTransport_def t Let_def)
  have "\<exists>a. out_body (issued_outcome sample_env y) = Token_Body a \<and> rsp_refreshToken a = None"
    using cookies_need_their_proof [OF s n] by (auto simp: sample_env_def sample_strings_def)
  with s n show ?thesis by blast
qed

section \<open>What the bodies say\<close>

lemma validate_body_InrE:
  assumes "validate_body V t body = Inr fs"
  obtains "list_all (\<lambda>(k, v). k \<in> fst ` set (dto_properties t)) fs"
    and "list_all (property_ok V fs) (dto_properties t)"
    and "list_all (\<lambda>(name, ps). elements_ok V ps (map_of fs name)) (dto_nested t)"
  using assms
  by (auto simp: validate_body_def Let_def members_ok_def split: option.splits json.splits if_splits)

lemma body_text:
  assumes "property_ok V fs (k, False, IsString # ds)"
  shows "map_of fs k = Some (JStr (text_member fs k)) \<and> list_all (\<lambda>c. satisfies V c (JStr (text_member fs k))) ds"
  using assms by (auto simp: property_ok_def on_text_def text_member_def split: option.splits json.splits)

lemma body_enum:
  assumes "property_ok V fs (k, False, [IsIn ss])"
  shows "map_of fs k = Some (JStr (text_member fs k)) \<and> text_member fs k \<in> set ss"
  using assms by (auto simp: property_ok_def on_text_def text_member_def split: option.splits json.splits)

lemma validated_keys:
  assumes "list_all (\<lambda>(k, v). k \<in> fst ` set ps) fs"
  shows "dom (map_of fs) \<subseteq> fst ` set ps"
  using assms by (auto simp: list_all_iff dom_map_of_conv_image_fst)

text \<open>What a consent says.\<close>

definition says_consent :: "class_validator \<Rightarrow> json \<Rightarrow> consent_type \<times> string \<Rightarrow> bool" where
  "says_consent V j c \<longleftrightarrow> (\<exists>fs. j = JObj fs \<and> map_of fs ''type'' = Some (JStr (consent_text (fst c)))
     \<and> map_of fs ''policyVersion'' = Some (JStr (snd c)) \<and> policy_version_pattern (snd c)
     \<and> dom (map_of fs) \<subseteq> {''type'', ''policyVersion''})"

lemma consent_read:
  assumes "members_ok V RegistrationConsentDto fs"
  shows "says_consent V (JObj fs) (consent_member fs, text_member fs ''policyVersion'')"
proof -
  have t: "map_of fs ''type'' = Some (JStr (text_member fs ''type''))" "text_member fs ''type'' \<in> set consent_types"
    using assms body_enum [of V fs "''type''" consent_types] by (simp_all add: members_ok_def RegistrationConsentDto_def)
  then have "consent_text (consent_member fs) = text_member fs ''type''"
    by (auto simp: consent_types_def consent_member_def)
  moreover have "map_of fs ''policyVersion'' = Some (JStr (text_member fs ''policyVersion''))"
      "policy_version_pattern (text_member fs ''policyVersion'')"
    using assms body_text [of V fs "''policyVersion''" "[Matches policy_version_pattern]"]
    by (simp_all add: members_ok_def RegistrationConsentDto_def on_text_def)
  moreover have "dom (map_of fs) \<subseteq> {''type'', ''policyVersion''}"
    using assms validated_keys [of RegistrationConsentDto fs] by (simp add: members_ok_def RegistrationConsentDto_def)
  ultimately show ?thesis using t by (simp add: says_consent_def)
qed

text \<open>A registration body that passes the global pipe is read without loss: each of its members is the
  member of the input, in the bounds that its class declares, there are exactly four consents, read one by
  one with their types and versions, and there is no member that the handler would not read.\<close>

lemma registration_body_read:
  assumes "validate_body V RegistrationDto body = Inr fs"
  shows "map_of fs ''registrationChallengeToken'' = Some (JStr (rgi_token (registration_input_of fs)))
    \<and> map_of fs ''email'' = Some (JStr (rgi_email (registration_input_of fs)))
    \<and> map_of fs ''password'' = Some (JStr (rgi_password (registration_input_of fs)))
    \<and> (\<exists>js. map_of fs ''consents'' = Some (JArr js) \<and> length js = 4
        \<and> list_all2 (says_consent V) js (rgi_consents (registration_input_of fs)))
    \<and> dom (map_of fs) \<subseteq> {''registrationChallengeToken'', ''email'', ''password'', ''consents''}
    \<and> val_length V (rgi_token (registration_input_of fs)) \<in> {64..2048}
    \<and> val_length V (rgi_password (registration_input_of fs)) \<in> {15..128}
    \<and> val_isEmail V (rgi_email (registration_input_of fs)) \<and> val_length V (rgi_email (registration_input_of fs)) \<le> 320"
proof -
  from assms have ks: "list_all (\<lambda>(k, v). k \<in> fst ` set (dto_properties RegistrationDto)) fs"
    and ps: "list_all (property_ok V fs) (dto_properties RegistrationDto)"
    and ns: "list_all (\<lambda>(name, ps). elements_ok V ps (map_of fs name)) (dto_nested RegistrationDto)"
    by (auto elim: validate_body_InrE)
  have p: "property_ok V fs (''registrationChallengeToken'', False, [IsString, MinLength 64, MaxLength 2048])"
      "property_ok V fs (''email'', False, [IsString, IsEmail, MaxLength 320])"
      "property_ok V fs (''password'', False, [IsString, MinLength 15, MaxLength 128])"
      "property_ok V fs (''consents'', False, [IsArray, ArrayMinSize 4, ArrayMaxSize 4])"
    using ps by (simp_all add: RegistrationDto_def)
  obtain js where js: "map_of fs ''consents'' = Some (JArr js)" "length js = 4"
    using p(4) by (auto simp: property_ok_def split: option.splits json.splits)
  have "list_all (\<lambda>j. case j of JObj cs \<Rightarrow> members_ok V RegistrationConsentDto cs | _ \<Rightarrow> False) js"
    using ns js by (simp add: RegistrationDto_def elements_ok_def)
  then have "list_all2 (says_consent V) js (rgi_consents (registration_input_of fs))"
    by (auto simp: registration_input_of_def js list_all2_map2 list_all2_same list_all_iff consent_read
        split: json.split json.splits)
  moreover have "dom (map_of fs) \<subseteq> {''registrationChallengeToken'', ''email'', ''password'', ''consents''}"
    using validated_keys [OF ks] by (simp add: RegistrationDto_def)
  ultimately show ?thesis
    using js body_text [OF p(1)] body_text [OF p(2)] body_text [OF p(3)]
    by (simp add: registration_input_of_def on_text_def)
qed

definition sample_consent :: "consent_type \<Rightarrow> json" where
  "sample_consent c = JObj [(''type'', JStr (consent_text c)), (''policyVersion'', JStr ''2026-01-01'')]"

definition sample_registration_members :: "(string \<times> json) list" where
  "sample_registration_members =
     [(''registrationChallengeToken'', JStr (replicate 64 (CHR ''x''))), (''email'', JStr ''c@d.rw''),
      (''password'', JStr ''a-long-password''),
      (''consents'', JArr (map sample_consent
        [TERMS_OF_SERVICE, PRIVACY_POLICY, IDENTITY_DATA_PROCESSING, BIOMETRIC_PROCESSING]))]"

lemma registration_body_read_witness:
  "validate_body sample_validator RegistrationDto (Some (JObj sample_registration_members)) = Inr sample_registration_members
   \<and> rgi_consents (registration_input_of sample_registration_members)
     = map (\<lambda>c. (c, ''2026-01-01'')) [TERMS_OF_SERVICE, PRIVACY_POLICY, IDENTITY_DATA_PROCESSING, BIOMETRIC_PROCESSING]
   \<and> dom (map_of sample_registration_members) \<subseteq> {''registrationChallengeToken'', ''email'', ''password'', ''consents''}"
proof -
  have v: "validate_body sample_validator RegistrationDto (Some (JObj sample_registration_members)) = Inr sample_registration_members"
    and c: "rgi_consents (registration_input_of sample_registration_members)
     = map (\<lambda>c. (c, ''2026-01-01'')) [TERMS_OF_SERVICE, PRIVACY_POLICY, IDENTITY_DATA_PROCESSING, BIOMETRIC_PROCESSING]"
    by code_simp+
  from registration_body_read [OF v] v c show ?thesis by blast
qed

section \<open>What errors say\<close>

text \<open>
  The exceptions that the errors of the model stand for: their codes and statuses are the model's, the
  messages beside a code are not.
\<close>

fun thrown_by :: "api_error \<Rightarrow> thrown \<Rightarrow> bool" where
  "thrown_by (Http n c) x = (\<exists>fs. x = Http_Exception n (Body_Object fs) \<and> map_of fs ''code'' = Some (JStr c))"
| "thrown_by (Http_Message n m) x =
     (\<exists>fs. x = Http_Exception n (Body_Object fs) \<and> map_of fs ''code'' = None)"
| "thrown_by (Raised m) x = (x = Other_Exception)"

text \<open>The body of the answer to a request that failed: the correlation middleware and the global filter.\<close>

definition error_answer :: "'p world \<Rightarrow> http_request \<Rightarrow> string \<Rightarrow> thrown \<Rightarrow> error_response" where
  "error_answer W q path x =
     buildResponse (wld_env W 1) x path (correlation_id (wld_env W 0) (hrq_header q ''x-correlation-id''))"

text \<open>C27. Every failed request is answered with the status of its error and the request's correlation
  identifier, which is the client's only when it is short and plain.  A code is shown only when it has the
  shape of a code, and an exception that the service did not mean for the client says the same whatever
  it is: status 500, one fixed message and no code.\<close>

theorem errors_tell_little:
  assumes "serve W q s = (Inl e, s1)" and "thrown_by e x"
    and "wld_env W 0 = E" and "length (uuid E 0) \<le> 128"
  shows "err_statusCode (error_answer W q path x) = error_status e
    \<and> length (err_correlationId (error_answer W q path x)) \<le> 128
    \<and> err_correlationId (error_answer W q path x) = correlation_id E (hrq_header q ''x-correlation-id'')
    \<and> err_code (error_answer W q path x) = (case e of Http n c \<Rightarrow> public_code (Some (JStr c)) | _ \<Rightarrow> None)
    \<and> (case e of
         Raised m \<Rightarrow> err_statusCode (error_answer W q path x) = 500
           \<and> err_message (error_answer W q path x) = [''An unexpected error occurred.'']
           \<and> err_error (error_answer W q path x) = Some ''Internal Server Error''
       | _ \<Rightarrow> True)"
  using assms
  by (cases e)
    (auto simp: error_answer_def buildResponse_def error_status_def thrown_status_def correlation_id_def
      isSafeCorrelationId_def public_code_def Let_def split: option.splits prod.splits)

theorem errors_tell_little_witness:
  "\<exists>s1. serve sample_world (logout_request ''Basic x'') sample_server = (Inl (Http 401 ''ACCESS_TOKEN_INVALID''), s1)
     \<and> err_code (error_answer sample_world (logout_request ''Basic x'') ''/logout''
         (Http_Exception 401 (Body_Object [(''code'', JStr ''ACCESS_TOKEN_INVALID'')]))) = Some ''ACCESS_TOKEN_INVALID''"
proof -
  have s: "serve sample_world (logout_request ''Basic x'') sample_server
      = (Inl (Http 401 ''ACCESS_TOKEN_INVALID''), sample_server)"
    by (simp add: serve_def Let_def logout_route authenticate_def prefixed_def access_guard_def bearer_token_def)
  have u: "length (uuid sample_env 0) \<le> 128"
    by (simp add: sample_env_def) (subst show_nat.simps, simp)
  have c: "public_code (Some (JStr ''ACCESS_TOKEN_INVALID'')) = Some ''ACCESS_TOKEN_INVALID''"
    by code_simp
  have "err_code (error_answer sample_world (logout_request ''Basic x'') ''/logout''
      (Http_Exception 401 (Body_Object [(''code'', JStr ''ACCESS_TOKEN_INVALID'')]))) = Some ''ACCESS_TOKEN_INVALID''"
    using errors_tell_little [OF s, of "Http_Exception 401 (Body_Object [(''code'', JStr ''ACCESS_TOKEN_INVALID'')])" sample_env "''/logout''"] u c
    by simp
  with s show ?thesis by blast
qed

end
