(* ===== verification/System.thy ===== *)
theory System
  imports Boundary MediaCleanup
begin

text \<open>
  The whole process: the served requests together with the three workers that the timers of
  \<open>onApplicationBootstrap\<close> start (the mail outbox, the operational jobs, the maintenance of media), over one
  database, one Redis store and one object store.  What ends stays ended in every history of them, also
  when retention deletes the rows.
\<close>

subsection \<open>The state and the steps\<close>

text \<open>
  Beside the state of the requests: the table that only retention touches, and what the outbox worker and
  the cleanup service keep in the process.
\<close>

record 'p system =
  sys_server :: "'p server"
  sys_legacy :: "legacy_token_row list"
  sys_dispatching :: bool
  sys_mailer :: mailer
  sys_cleaner :: cleaner

text \<open>
  A request; a tick of one of the timers, with the environment it runs in, the number of its first UUID and,
  for the jobs, the first that fails; time that passes in Redis; and rows that the schema's foreign keys
  remove when a row they refer to is deleted.
\<close>

datatype 'p system_event =
    Request "'p world" http_request
  | Outbox_Tick env nat mail_platform string
  | Jobs_Tick env nat "nat option"
  | Maintenance_Tick env nat
  | Time_Passes nat
  | Foreign_Keys "passkey_db \<Rightarrow> passkey_db"

abbreviation sys_db :: "'p system \<Rightarrow> db" where
  "sys_db s \<equiv> get_db (sys_server s)"

definition outbox_tick :: "env \<Rightarrow> nat \<Rightarrow> mail_platform \<Rightarrow> string \<Rightarrow> 'p system \<Rightarrow> 'p system" where
  "outbox_tick E i p worker s =
     (case dispatchBatch E i p worker (sys_dispatching s, sys_db s, sys_mailer s) (srv_redis (sys_server s)) of
        (res, (flag, d, ml), r) \<Rightarrow>
          s\<lparr>sys_server := (put_db d (sys_server s))\<lparr>srv_redis := r\<rparr>, sys_dispatching := flag, sys_mailer := ml\<rparr>)"

definition jobs_tick :: "env \<Rightarrow> nat \<Rightarrow> nat option \<Rightarrow> 'p system \<Rightarrow> 'p system" where
  "jobs_tick E i fails s =
     (case runCycle E i fails (srv_jobs (sys_server s), \<lparr>ops_db = sys_db s, ops_legacy = sys_legacy s\<rparr>)
         (srv_redis (sys_server s)) of
        (res, (snap, ops), r) \<Rightarrow>
          s\<lparr>sys_server := (put_db (ops_db ops) (sys_server s))\<lparr>srv_redis := r, srv_jobs := snap\<rparr>,
            sys_legacy := ops_legacy ops\<rparr>)"

definition maintenance_tick :: "env \<Rightarrow> nat \<Rightarrow> 'p system \<Rightarrow> 'p system" where
  "maintenance_tick E i s =
     (case runMaintenance E i (sys_db s, srv_storage (sys_server s), sys_cleaner s) (srv_redis (sys_server s)) of
        (res, (d, st, c), r) \<Rightarrow>
          s\<lparr>sys_server := (put_db d (sys_server s))\<lparr>srv_storage := st, srv_redis := r\<rparr>, sys_cleaner := c\<rparr>)"

fun system_step :: "'p system_event \<Rightarrow> 'p system \<Rightarrow> 'p system" where
  "system_step (Request W q) s = s\<lparr>sys_server := snd (serve W q (sys_server s))\<rparr>"
| "system_step (Outbox_Tick E i p worker) s = outbox_tick E i p worker s"
| "system_step (Jobs_Tick E i fails) s = jobs_tick E i fails s"
| "system_step (Maintenance_Tick E i) s = maintenance_tick E i s"
| "system_step (Time_Passes ms) s =
     s\<lparr>sys_server := (sys_server s)\<lparr>srv_redis := pass_time ms (srv_redis (sys_server s))\<rparr>\<rparr>"
| "system_step (Foreign_Keys f) s = s\<lparr>sys_server := (sys_server s)\<lparr>srv_db := f (srv_db (sys_server s))\<rparr>\<rparr>"

definition system_run :: "'p system_event list \<Rightarrow> 'p system \<Rightarrow> 'p system" where
  "system_run = fold system_step"

subsection \<open>Rows that end, or go\<close>

definition settles :: "string set \<Rightarrow> ('r \<Rightarrow> string) \<Rightarrow> ('r \<Rightarrow> bool) \<Rightarrow> 'r list \<Rightarrow> 'r list \<Rightarrow> bool" where
  "settles U key alive t u \<longleftrightarrow> (distinct (map key t) \<longrightarrow> distinct (map key u)) \<and>
     (\<forall>x \<in> set u. alive x \<longrightarrow> key x \<in> U \<longrightarrow> (\<exists>y \<in> set t. key y = key x \<and> alive y))"

lemma settles_refl [simp, intro]: "settles U key alive t t"
  by (auto simp: settles_def)

lemma settles_trans: "settles U key alive t u \<Longrightarrow> settles U key alive u v \<Longrightarrow> settles U key alive t v"
  unfolding settles_def by (metis (no_types))

lemma settles_stays_ended: "stays_ended U key alive t u \<Longrightarrow> settles U key alive t u"
  by (auto simp: settles_def stays_ended_def)

lemma settles_filter: "settles U key alive t (filter P t)"
  by (auto simp: settles_def distinct_map_filter)

lemma settles_update:
  "(\<And>x. P x \<Longrightarrow> key (f x) = key x) \<Longrightarrow> (\<And>x. P x \<Longrightarrow> alive (f x) \<Longrightarrow> alive x)
    \<Longrightarrow> settles U key alive t (update_rows P f t)"
  by (rule settles_stays_ended) (rule stays_ended_update)

lemma settles_deleteByIds: "settles U key alive t (snd (deleteByIds n k f P t))"
  by (simp add: deleteByIds_def Let_def delete_rows_def settles_filter)

definition pdb_settles :: "string set \<Rightarrow> passkey_db \<Rightarrow> passkey_db \<Rightarrow> bool" where
  "pdb_settles U d e \<longleftrightarrow>
     settles U ses_id session_active (sessions (pdb_db d)) (sessions (pdb_db e))
     \<and> settles U ses_id session_open (sessions (pdb_db d)) (sessions (pdb_db e))
     \<and> settles U rft_id token_live (refresh_tokens (pdb_db d)) (refresh_tokens (pdb_db e))
     \<and> settles U rst_id reset_live (reset_requests (pdb_db d)) (reset_requests (pdb_db e))
     \<and> settles U emt_id email_live (email_tokens (pdb_db d)) (email_tokens (pdb_db e))
     \<and> settles U sup_id step_up_live (step_ups (pdb_db d)) (step_ups (pdb_db e))
     \<and> settles U rcc_id code_live (pdb_codes d) (pdb_codes e)
     \<and> settles U pkc_id passkey_live (pdb_passkeys d) (pdb_passkeys e)
     \<and> (accounts_wf (pdb_db d) \<longrightarrow> accounts_wf (pdb_db e))"

definition system_settles :: "string set \<Rightarrow> 'p system \<Rightarrow> 'p system \<Rightarrow> bool" where
  "system_settles U s t \<longleftrightarrow> pdb_settles U (srv_db (sys_server s)) (srv_db (sys_server t))"

text \<open>The tables of the accounts, which no worker touches.\<close>

lemma accounts_wf_frame [simp]:
  "accounts_wf (d\<lparr>outbox := x1\<rparr>) = accounts_wf d" "accounts_wf (d\<lparr>media := x2\<rparr>) = accounts_wf d"
  "accounts_wf (d\<lparr>email_tokens := x3\<rparr>) = accounts_wf d" "accounts_wf (d\<lparr>reset_requests := x4\<rparr>) = accounts_wf d"
  "accounts_wf (d\<lparr>idempotency := x5\<rparr>) = accounts_wf d" "accounts_wf (d\<lparr>refresh_tokens := x6\<rparr>) = accounts_wf d"
  "accounts_wf (d\<lparr>sessions := x7\<rparr>) = accounts_wf d" "accounts_wf (d\<lparr>attempts := x8\<rparr>) = accounts_wf d"
  "accounts_wf (d\<lparr>events := x9\<rparr>) = accounts_wf d" "accounts_wf (d\<lparr>step_ups := x10\<rparr>) = accounts_wf d"
  by (simp_all add: accounts_wf_def accounts_unique_def)

lemma pdb_settles_refl [simp, intro]: "pdb_settles U d d"
  by (simp add: pdb_settles_def)

lemma pdb_settles_trans: "pdb_settles U d e \<Longrightarrow> pdb_settles U e f \<Longrightarrow> pdb_settles U d f"
  unfolding pdb_settles_def by (blast intro: settles_trans)

lemma pdb_settles_evolves: "pdb_evolves U d e \<Longrightarrow> pdb_settles U d e"
  by (simp add: pdb_evolves_def db_evolves_def pdb_settles_def settles_stays_ended)

subsection \<open>The workers\<close>

text \<open>What the work under a lock keeps, the locked work keeps.\<close>

lemma runExclusive_keeps:
  assumes "\<And>r. R (fst (snd (work d r)))" and "R d"
  shows "R (fst (snd (runExclusive E i k ttl work d r)))"
proof -
  have f: "fst (snd (finally_release key v x)) = fst (snd x)" for key v and x :: "'a option result \<times> 'b \<times> redis"
    by (auto simp: finally_release_def split: prod.split sum.split)
  have w: "R (fst (snd (case work d r1 of (Inl e, d1, r2) \<Rightarrow> (Inl e, d1, r2) | (Inr x, d1, r2) \<Rightarrow> (Inr (Some x), d1, r2))))"
    for r1
    using assms(1) [of r1] by (auto split: prod.split sum.split)
  obtain x r1 where c: "ensureRedisConnected r = (x, r1)" by force
  obtain y r2 where n: "redis_set_nx (cfg_str E ''CACHE_PREFIX'' @ ''lock:job:'' @ k) (uuid E i) ttl r1 = (y, r2)"
    by force
  show ?thesis
    using assms(2) w [of r2] by (cases x; cases y) (simp_all add: runExclusive_def Let_def c n [simplified] f)
qed

text \<open>The outbox and the media are not among the tables of which rows end.\<close>

lemma same_outbox: "\<exists>rows. (d :: db) = d\<lparr>outbox := rows\<rparr>"
  by (intro exI [of _ "outbox d"]) simp

lemma dispatchEvent_frame:
  assumes "dispatchEvent E p worker event (d, ml) = (ok, d1, ml1)"
  shows "\<exists>rows. d1 = d\<lparr>outbox := rows\<rparr>"
  using assms
  by (auto simp: dispatchEvent_def claim_event_def settle_event_def Let_def split: prod.split_asm if_split_asm)

lemma dispatch_slice_frame:
  "dispatch_slice E p worker n evs (d, ml) = (k, d1, ml1) \<Longrightarrow> \<exists>rows. d1 = d\<lparr>outbox := rows\<rparr>"
proof (induction evs arbitrary: n d ml k)
  case (Cons event evs)
  obtain ok d2 ml2 where e: "dispatchEvent (later (3 * n + 1) E) p worker event (d, ml) = (ok, d2, ml2)"
    by (metis prod_cases3)
  then obtain k' where "dispatch_slice E p worker (n + 1) evs (d2, ml2) = (k', d1, ml1)"
    using Cons.prems by (auto split: prod.split_asm)
  from Cons.IH [OF this] dispatchEvent_frame [OF e] show ?case by auto
qed (simp add: same_outbox)

lemma dispatch_loop_frame:
  assumes "dispatch_loop E p worker c evs offset s = Some x"
  shows "\<exists>rows. fst (snd x) = (fst (snd s))\<lparr>outbox := rows\<rparr>"
proof (rule dispatch_loop.raw_induct [of "\<lambda>E p worker c evs offset s x.
    \<exists>rows. fst (snd x) = (fst (snd s))\<lparr>outbox := rows\<rparr>", OF _ assms])
  fix loop E p worker c evs offset s x
  assume IH: "\<And>E p worker c evs offset s x. loop E p worker c evs offset s = Some x
      \<Longrightarrow> \<exists>rows. fst (snd x) = (fst (snd s))\<lparr>outbox := rows\<rparr>"
    and eq: "(if offset < length evs
      then loop E p worker c evs (offset + c)
        (let (published, t) = s; (k, t1) = dispatch_slice E p worker offset (take c (drop offset evs)) t
         in (published + k, t1))
      else Some s) = Some x"
  obtain n d ml where s: "s = (n, d, ml)" by (metis prod_cases3)
  obtain k d1 ml1 where sl: "dispatch_slice E p worker offset (take c (drop offset evs)) (d, ml) = (k, d1, ml1)"
    by (metis prod_cases3)
  obtain rows where d1: "d1 = d\<lparr>outbox := rows\<rparr>" using dispatch_slice_frame [OF sl] by blast
  show "\<exists>rows. fst (snd x) = (fst (snd s))\<lparr>outbox := rows\<rparr>"
  proof (cases "offset < length evs")
    case True
    then have "loop E p worker c evs (offset + c) (n + k, d1, ml1) = Some x" using eq by (simp add: s sl)
    from IH [OF this] show ?thesis by (auto simp: s d1)
  next
    case False
    then have "x = s" using eq by simp
    moreover have "d = d\<lparr>outbox := outbox d\<rparr>" by simp
    ultimately show ?thesis by (metis s fst_conv snd_conv)
  qed
qed

lemma dispatchBatch_frame: "\<exists>rows. fst (snd (fst (snd (dispatchBatch E i p worker (flag, d, ml) r)))) = d\<lparr>outbox := rows\<rparr>"
proof -
  note same = same_outbox [of d]
  have w: "\<exists>rows. fst (snd (fst (snd (outbox_work E p worker (True, d, ml) r1)))) = d\<lparr>outbox := rows\<rparr>" for r1
  proof (cases "dispatchAvailableEvents E p worker (d, ml)")
    case None
    then show ?thesis using same by (simp add: outbox_work_def)
  next
    case (Some x)
    then show ?thesis
      using dispatch_loop_frame [of E p worker _ _ 0 "(0, d, ml)"]
      by (auto simp: outbox_work_def dispatchAvailableEvents_def split: prod.splits)
  qed
  have x: "\<exists>rows. fst (snd (fst (snd (runExclusive E i k ttl (outbox_work E p worker) (True, d, ml) r)))) = d\<lparr>outbox := rows\<rparr>" for k ttl
    using runExclusive_keeps [of "\<lambda>x. \<exists>rows. fst (snd x) = d\<lparr>outbox := rows\<rparr>" "outbox_work E p worker" "(True, d, ml)" E i k ttl r]
      w same by simp
  show ?thesis
    using same_outbox x [of "''mail-outbox-batch''" "cfg_num E ''OPERATIONAL_JOB_LOCK_TTL_SECONDS''"]
    by (auto simp: dispatchBatch_def split: prod.split sum.split)
qed

text \<open>The jobs only end rows, or delete them.\<close>

definition ops_settles :: "string set \<Rightarrow> passkey_db \<Rightarrow> ops_state \<Rightarrow> bool" where
  "ops_settles U d s \<longleftrightarrow> pdb_settles U d (d\<lparr>pdb_db := ops_db s\<rparr>)"

lemmas settling = pdb_settles_def ops_settles_def

lemma settles_then:
  "settles U key alive t u \<Longrightarrow> settles U key alive t (snd (deleteByIds n k f P u))"
  "settles U key alive t u \<Longrightarrow> (\<And>x. P x \<Longrightarrow> key (f' x) = key x) \<Longrightarrow> (\<And>x. P x \<Longrightarrow> alive (f' x) \<Longrightarrow> alive x)
    \<Longrightarrow> settles U key alive t (update_rows P f' u)"
  by (erule settles_trans [OF _ settles_deleteByIds], erule settles_trans [OF _ settles_update], blast+)

lemma cycle_job_settles:
  assumes "job \<in> set (cycle_jobs E now)" and "ops_settles U d s"
  shows "ops_settles U d (snd (job s))"
  using assms unfolding cycle_jobs_def
  by (auto simp: settling delete_email_tokens_def delete_reset_requests_def delete_legacy_tokens_def
      delete_idempotency_def delete_refresh_tokens_def expireSessions_def expire_sessions_of_def
      deleteRetainedSessions_def expireStaleAttempts_def expire_attempts_of_def
      deleteRetainedSecurityEvents_def delete_step_ups_def count_dead_letters_def count_pending_def
      live_defs Let_def split_beta intro!: settles_then)

lemma cycle_work_settles: "ops_settles U d (snd st) \<Longrightarrow> ops_settles U d (snd (fst (snd (cycle_work E fails st r))))"
proof -
  assume s: "ops_settles U d (snd st)"
  have j: "ops_settles U d (snd (runSequentially jobs (snd st)))" if "set jobs \<subseteq> set (cycle_jobs E' now)" for jobs E' now
    by (rule runSequentially_keeps [where P = "ops_settles U d", OF _ s]) (use that cycle_job_settles in blast)
  have j: "ops_settles U d (snd (runSequentially (cycle_jobs E' now) (snd st)))"
    "ops_settles U d (snd (runSequentially (take k (cycle_jobs E' now)) (snd st)))" for k E' now
    by (rule j [OF subset_refl], rule j [OF set_take_subset])
  show ?thesis
    unfolding cycle_work_def executeJobs_def Let_def case_prod_unfold
    by (cases fails) (simp_all add: j)
qed

lemma runCycle_settles: "ops_settles U d (snd st) \<Longrightarrow> ops_settles U d (snd (fst (snd (runCycle E i fails st r))))"
  using runExclusive_keeps [of "\<lambda>x. ops_settles U d (snd x)" "cycle_work E fails" st E i _ _ r] cycle_work_settles
  by (auto simp: runCycle_def case_prod_unfold split: sum.split)

text \<open>The maintenance only touches the rows of the media.\<close>

definition only_media :: "db \<Rightarrow> cleanup_state \<Rightarrow> bool" where
  "only_media d s \<longleftrightarrow> (\<exists>rows. fst s = d\<lparr>media := rows\<rparr>)"

lemma only_media_refl: "only_media d (d, x)"
  unfolding only_media_def by (intro exI [of _ "media d"]) simp

lemma delete_batch_media: "\<exists>rows. fst (snd (delete_batch E ms d st)) = d\<lparr>media := rows\<rparr>"
proof (induction ms arbitrary: d st)
  case Nil
  show ?case by (intro exI [of _ "media d"]) simp
next
  case (Cons m ms)
  have "\<exists>rows. fst (snd (delete_batch E ms (mark_deleted k f d) st1)) = d\<lparr>media := rows\<rparr>" for k f st1
    using Cons.IH [of "mark_deleted k f d" st1] by (auto simp: mark_deleted_def)
  then show ?case
    by (simp add: Let_def case_prod_unfold split: sum.split)
qed

lemma scan_legacy_media: "\<exists>rows. snd (snd (scan_legacy E ms d)) = d\<lparr>media := rows\<rparr>"
proof (induction ms arbitrary: d)
  case Nil
  show ?case by (intro exI [of _ "media d"]) simp
next
  case (Cons m ms)
  have "\<exists>rows. snd (snd (scan_legacy E ms (d\<lparr>media := t\<rparr>))) = d\<lparr>media := rows\<rparr>" for t
    using Cons.IH [of "d\<lparr>media := t\<rparr>"] by auto
  with Cons.IH [of d] show ?case
    by (simp add: Let_def case_prod_unfold split: sum.split)
qed

lemma maintenance_work_media:
  "only_media d s \<Longrightarrow> only_media d (fst (snd (expired_work E s r)))"
  "only_media d s \<Longrightarrow> only_media d (fst (snd (orphan_work E s r)))"
proof -
  assume "only_media d s"
  then obtain rows st c where s: "s = (d\<lparr>media := rows\<rparr>, st, c)" by (cases s) (auto simp: only_media_def)
  show "only_media d (fst (snd (expired_work E s r)))"
    using delete_batch_media [of E _ "d\<lparr>media := rows\<rparr>" st]
    by (simp add: s only_media_def expired_work_def deleteExpiredMediaBatch_def case_prod_unfold)
  show "only_media d (fst (snd (orphan_work E s r)))"
    using scan_legacy_media [of E _ "d\<lparr>media := rows\<rparr>"]
    by (auto simp: s only_media_def orphan_work_def Let_def case_prod_unfold split: option.split
        intro: exI [of _ rows])
qed

lemma runMaintenance_media: "only_media d s \<Longrightarrow> only_media d (fst (snd (runMaintenance E i s r)))"
proof -
  have run [simp]: "only_media d (set_running b s') = only_media d s'" for b s'
    by (cases s') (simp add: set_running_def only_media_def)
  have e: "only_media d s1" if "reconcileExpiredMedia E i s r = (res, s1, r1)" "only_media d s" for i s r res s1 r1
    using runExclusive_keeps [of "only_media d" "expired_work E" "set_running True s" E i _ _ r]
      maintenance_work_media(1) that
    by (auto simp: reconcileExpiredMedia_def case_prod_unfold split: sum.split_asm if_split_asm)
  have k: "only_media d s1" if "reconcileOrphanedObjects E i s r = (res, s1, r1)" "only_media d s" for i s r res s1 r1
    using runExclusive_keeps [of "only_media d" "orphan_work E" s E i _ _ r] maintenance_work_media(2) that
    by (auto simp: reconcileOrphanedObjects_def split: prod.split_asm sum.split_asm) (metis fst_conv snd_conv)+
  assume "only_media d s"
  then show ?thesis by (auto simp: runMaintenance_def split: prod.split sum.split dest: e k)
qed

subsection \<open>Every history\<close>

text \<open>
  What is asked of a step: the identifiers that a request gives to new rows are none of \<open>U\<close>, and the
  foreign keys only remove rows.
\<close>

definition removes :: "'r list \<Rightarrow> 'r list \<Rightarrow> bool" where
  "removes t u \<longleftrightarrow> (\<exists>P. u = filter P t)"

definition cascades :: "passkey_db \<Rightarrow> passkey_db \<Rightarrow> bool" where
  "cascades d e \<longleftrightarrow> removes (sessions (pdb_db d)) (sessions (pdb_db e))
     \<and> removes (refresh_tokens (pdb_db d)) (refresh_tokens (pdb_db e))
     \<and> removes (reset_requests (pdb_db d)) (reset_requests (pdb_db e))
     \<and> removes (email_tokens (pdb_db d)) (email_tokens (pdb_db e))
     \<and> removes (step_ups (pdb_db d)) (step_ups (pdb_db e))
     \<and> removes (pdb_codes d) (pdb_codes e) \<and> removes (pdb_passkeys d) (pdb_passkeys e)
     \<and> removes (users (pdb_db d)) (users (pdb_db e)) \<and> removes (identities (pdb_db d)) (identities (pdb_db e))
     \<and> removes (credentials (pdb_db d)) (credentials (pdb_db e))"

lemma removes_refl [simp]: "removes t t"
  unfolding removes_def by (intro exI [of _ "\<lambda>x. True"]) simp

lemma removes_settles: "removes t u \<Longrightarrow> settles U key alive t u"
  by (auto simp: removes_def settles_filter)

lemma removes_accounts:
  "removes (users d) (users e) \<Longrightarrow> removes (identities d) (identities e)
    \<Longrightarrow> removes (credentials d) (credentials e) \<Longrightarrow> accounts_wf d \<Longrightarrow> accounts_wf e"
  by (auto simp: removes_def accounts_wf_def accounts_unique_def distinct_map_filter)

definition event_ok :: "string set \<Rightarrow> 'p system_event \<Rightarrow> bool" where
  "event_ok U ev \<longleftrightarrow> (case ev of Request W q \<Rightarrow> world_ids U W | Foreign_Keys f \<Rightarrow> \<forall>d. cascades d (f d) | _ \<Rightarrow> True)"

lemma system_step_settles:
  assumes "event_ok U ev"
  shows "system_settles U s (system_step ev s)"
proof (cases ev)
  case (Request W q)
  then have "server_evolves U (sys_server s) (snd (serve W q (sys_server s)))"
    using assms by (auto simp: event_ok_def intro: serve_evolves)
  with Request show ?thesis by (simp add: system_settles_def server_evolves_def pdb_settles_evolves)
next
  case (Outbox_Tick E i p worker)
  then show ?thesis
    using dispatchBatch_frame [of E i p worker "sys_dispatching s" "sys_db s" "sys_mailer s" "srv_redis (sys_server s)"]
    by (auto simp: system_settles_def outbox_tick_def put_db_def settling split: prod.split)
next
  case (Jobs_Tick E i fails)
  let ?d = "srv_db (sys_server s)"
  have "ops_settles U ?d \<lparr>ops_db = sys_db s, ops_legacy = sys_legacy s\<rparr>" by (simp add: ops_settles_def)
  then show ?thesis
    using runCycle_settles [of U ?d "(srv_jobs (sys_server s), \<lparr>ops_db = sys_db s, ops_legacy = sys_legacy s\<rparr>)"
        E i fails "srv_redis (sys_server s)"] Jobs_Tick
    by (auto simp: system_settles_def jobs_tick_def put_db_def ops_settles_def split: prod.split)
next
  case (Maintenance_Tick E i)
  then show ?thesis
    using runMaintenance_media [OF only_media_refl [of "sys_db s" "(srv_storage (sys_server s), sys_cleaner s)"],
        of E i "srv_redis (sys_server s)"]
    by (auto simp: system_settles_def maintenance_tick_def put_db_def only_media_def settling split: prod.split)
next
  case (Foreign_Keys f)
  then show ?thesis
    using assms by (auto simp: event_ok_def cascades_def system_settles_def settling
        intro: removes_settles removes_accounts)
qed (simp_all add: system_settles_def)

interpretation ss: monotone_system system_step "event_ok U" "system_settles U" for U
  by unfold_locales
    (auto simp: system_settles_def intro: pdb_settles_trans system_step_settles [unfolded system_settles_def])

text \<open>No row with this key is alive: it has ended, or has been deleted.\<close>

definition settled :: "('r \<Rightarrow> string) \<Rightarrow> ('r \<Rightarrow> bool) \<Rightarrow> string \<Rightarrow> 'r list \<Rightarrow> bool" where
  "settled key alive k t \<longleftrightarrow> list_all (\<lambda>x. key x = k \<longrightarrow> \<not> alive x) t"

lemma settled_mono: "settles {k} key alive t u \<Longrightarrow> settled key alive k t \<Longrightarrow> settled key alive k u"
  unfolding settles_def settled_def list_all_iff by (metis singletonI)

lemma settled_history:
  assumes "list_all (event_ok {k}) es"
  shows "pdb_settles {k} (srv_db (sys_server s)) (srv_db (sys_server (system_run es s)))"
  using ss.history_rel [OF assms, of s] by (simp add: system_run_def system_settles_def)

section \<open>What no request and no worker undoes\<close>

text \<open>C5. Over every history of the running service, requests in any order and of any outcome together with
  the ticks of the mail outbox, of the operational jobs and of the media maintenance, also when jobs fail
  half way and when retention deletes rows: a session that is no longer active, a refresh token that was
  used or revoked, a reset request or an email token that was used or superseded, a step-up challenge that
  was consumed, failed or expired, a recovery code that was used or revoked and a passkey that was revoked
  are never in force again.\<close>

theorem settled_for_good:
  assumes "list_all (event_ok {k}) es"
  shows "(settled ses_id session_active k (sessions (sys_db s))
        \<longrightarrow> settled ses_id session_active k (sessions (sys_db (system_run es s))))
    \<and> (settled rft_id token_live k (refresh_tokens (sys_db s))
        \<longrightarrow> settled rft_id token_live k (refresh_tokens (sys_db (system_run es s))))
    \<and> (settled rst_id reset_live k (reset_requests (sys_db s))
        \<longrightarrow> settled rst_id reset_live k (reset_requests (sys_db (system_run es s))))
    \<and> (settled emt_id email_live k (email_tokens (sys_db s))
        \<longrightarrow> settled emt_id email_live k (email_tokens (sys_db (system_run es s))))
    \<and> (settled sup_id step_up_live k (step_ups (sys_db s))
        \<longrightarrow> settled sup_id step_up_live k (step_ups (sys_db (system_run es s))))
    \<and> (settled rcc_id code_live k (pdb_codes (srv_db (sys_server s)))
        \<longrightarrow> settled rcc_id code_live k (pdb_codes (srv_db (sys_server (system_run es s)))))
    \<and> (settled pkc_id passkey_live k (pdb_passkeys (srv_db (sys_server s)))
        \<longrightarrow> settled pkc_id passkey_live k (pdb_passkeys (srv_db (sys_server (system_run es s)))))"
  using settled_history [OF assms, of s] by (auto simp: pdb_settles_def intro: settled_mono)

lemma settled_session_guard:
  assumes "settled ses_id session_active k (sessions d)" and "json_field ''sid'' claims = Some (JStr k)"
  shows "access_guard E authorization d \<noteq> Inr claims"
  by (rule access_guard_dead) (use assms in \<open>auto simp: settled_def list_all_iff session_active_def\<close>)

lemma settled_upgrade_guard:
  assumes "settled ses_id session_open k (sessions d)" and "json_field ''sid'' claims = Some (JStr k)"
  shows "session_upgrade_guard E authorization d \<noteq> Inr claims"
  by (rule upgrade_guard_dead) (use assms in \<open>auto simp: settled_def list_all_iff\<close>)

lemma settled_no_refresh:
  assumes "settled ses_id session_active k (sessions d)" and "find_refresh (token_digest E token) d = Some (t, v)"
    and "rft_sessionId t = k"
  shows "\<not> succeeded (fst (refresh E token transport ctx d r))"
proof
  assume "succeeded (fst (refresh E token transport ctx d r))"
  then obtain issued d' r' where "refresh E token transport ctx d r = (Inr issued, d', r')"
    by (metis (no_types) prod.exhaust fst_conv succeeded_def sum.collapse(2) sum.disc_eq_case(2))
  then show False
  proof (rule refresh_InrE)
    fix current session
    assume "find_refresh (token_digest E token) d = Some (current, session)" and "ses_status session = Session_ACTIVE"
    with assms find_refreshD [OF assms(2)] show False by (auto simp: settled_def list_all_iff session_active_def)
  qed
qed

text \<open>C11. A logout with a valid token is answered with 204 and clears both cookies, and after it no token
  of its session is accepted again, neither at once nor after any further history of the service, be it
  logins, refreshes and upgrades of the same user or the work of the jobs: no access token of the session
  passes the guard of the users' routes, none passes the guard of the upgrade route, and no refresh token of
  the session is exchanged.\<close>

theorem logout_final:
  assumes "find_route (hrq_method q) (hrq_path q) = Some (Sessions_logout, r)"
    and "access_guard (wld_env W 0) (hrq_header q ''authorization'') (sys_db s) = Inr claims"
    and "json_field ''sid'' claims = Some (JStr k)" and "json_field ''sid'' claims' = Some (JStr k)"
    and "distinct (map ses_id (sessions (sys_db s)))" and "list_all (event_ok {k}) es"
  shows "\<exists>x. fst (serve W q (sys_server s)) = Inr (204, x) \<and> out_cleared x = clearCookies (wld_env W 1)
    \<and> access_guard F authorization (sys_db (system_run (Request W q # es) s)) \<noteq> Inr claims'
    \<and> session_upgrade_guard F authorization (sys_db (system_run (Request W q # es) s)) \<noteq> Inr claims'
    \<and> (\<forall>token t v. find_refresh (token_digest F token) (sys_db (system_run (Request W q # es) s)) = Some (t, v)
        \<longrightarrow> rft_sessionId t = k
        \<longrightarrow> \<not> succeeded (fst (refresh F token transport ctx (sys_db (system_run (Request W q # es) s)) redis)))"
proof -
  obtain x s1 where srv: "serve W q (sys_server s) = (Inr (204, x), s1)" "out_cleared x = clearCookies (wld_env W 1)"
    and e: "ended ses_id session_active k (sessions (get_db s1))" "ended ses_id session_open k (sessions (get_db s1))"
    using assms(1-3,5) by (rule logout_serve)
  let ?t = "s\<lparr>sys_server := s1\<rparr>"
  have "settled ses_id session_active k (sessions (sys_db ?t))" "settled ses_id session_open k (sessions (sys_db ?t))"
    using e by (auto simp: settled_def ended_def list_all_iff)
  with settled_history [OF assms(6), of ?t]
  have "settled ses_id session_active k (sessions (sys_db (system_run es ?t)))"
    "settled ses_id session_open k (sessions (sys_db (system_run es ?t)))"
    by (auto simp: pdb_settles_def intro: settled_mono)
  moreover have "system_run (Request W q # es) s = system_run es ?t" by (simp add: system_run_def srv)
  ultimately show ?thesis
    using srv settled_session_guard [OF _ assms(4)] settled_upgrade_guard [OF _ assms(4)] settled_no_refresh by auto
qed

text \<open>What the schema declares unique: the identifiers of the rows, and the users' addresses, citizens and
  credentials.\<close>

definition keys_unique :: "passkey_db \<Rightarrow> bool" where
  "keys_unique d \<longleftrightarrow> distinct (map ses_id (sessions (pdb_db d))) \<and> distinct (map rft_id (refresh_tokens (pdb_db d)))
     \<and> distinct (map rst_id (reset_requests (pdb_db d))) \<and> distinct (map emt_id (email_tokens (pdb_db d)))
     \<and> distinct (map sup_id (step_ups (pdb_db d))) \<and> distinct (map rcc_id (pdb_codes d))
     \<and> distinct (map pkc_id (pdb_passkeys d)) \<and> accounts_wf (pdb_db d)"

text \<open>Over every history of the running service no two accounts come to share an identifier, an address, a
  citizen or a credential, and no two sessions, refresh tokens, reset requests, email tokens, step-up
  challenges, recovery codes or passkeys an identifier: of two registrations for the same citizen or the
  same address at most one is ever there.\<close>

lemma keys_stay_unique:
  assumes "keys_unique (srv_db (sys_server s))" and "list_all (event_ok {}) es"
  shows "keys_unique (srv_db (sys_server (system_run es s)))"
  using ss.history_rel [OF assms(2), of s] assms(1)
  by (auto simp: keys_unique_def system_run_def system_settles_def pdb_settles_def settles_def)

subsection \<open>A concrete history\<close>

definition sample_system :: "db \<Rightarrow> unit system" where
  "sample_system d = \<lparr>sys_server = put_db d sample_server, sys_legacy = [], sys_dispatching = False,
     sys_mailer = \<lparr>mlr_accepts = (\<lambda>_. True), mlr_sent = []\<rparr>, sys_cleaner = \<lparr>cln_running = False, cln_token = None\<rparr>\<rparr>"

lemma sample_world_apart: "k \<noteq> replicate (length k) CHR ''i'' \<Longrightarrow> world_ids {k} sample_world"
proof -
  assume k: "k \<noteq> replicate (length k) CHR ''i''"
  have "gen_id sample_env ids = longer_id ids" for ids by (simp add: sample_env_def)
  then have "gen_id sample_env ids \<noteq> k" for ids
    using k by (metis longer_id_def length_replicate)
  then show ?thesis by (simp add: world_ids_def fresh_ids_def sample_ids)
qed

lemma sample_history_ok:
  "list_all (event_ok {''session-1''}) [Request sample_world q, Jobs_Tick sample_env 0 None, Foreign_Keys id, Time_Passes 5]"
  by (simp add: event_ok_def cascades_def sample_world_apart numeral_eq_Suc)

lemma keys_stay_unique_witness:
  "keys_unique (srv_db (sys_server (system_run [Request sample_world (logout_request ''Bearer x''),
     Jobs_Tick sample_env 0 None, Foreign_Keys id, Time_Passes 5] (sample_system sample_db))))"
proof (rule keys_stay_unique)
  show "keys_unique (srv_db (sys_server (sample_system sample_db)))"
    by (simp add: keys_unique_def accounts_wf_def accounts_unique_def sample_system_def put_db_def sample_rows sample_server_def)
qed (simp add: event_ok_def cascades_def)

theorem settled_for_good_witness:
  "settled ses_id session_active ''session-1''
     (sessions (sys_db (system_run [Request sample_world (logout_request ''Bearer x''), Jobs_Tick sample_env 0 None,
         Foreign_Keys id, Time_Passes 5]
       (sample_system (sample_db\<lparr>sessions := [sample_session\<lparr>ses_status := Session_REVOKED\<rparr>]\<rparr>)))))"
proof -
  have "settled ses_id session_active ''session-1''
      (sessions (sys_db (sample_system (sample_db\<lparr>sessions := [sample_session\<lparr>ses_status := Session_REVOKED\<rparr>]\<rparr>))))"
    by (simp add: settled_def put_db_def sample_system_def session_active_def)
  then show ?thesis using settled_for_good [OF sample_history_ok] by blast
qed

theorem logout_final_witness:
  "\<exists>h claims. access_guard sample_env (Some h) sample_db = Inr claims
     \<and> access_guard sample_env (Some h) (sys_db (system_run [Request sample_world (logout_request h),
         Request sample_world (logout_request h), Jobs_Tick sample_env 0 None, Foreign_Keys id, Time_Passes 5]
         (sample_system sample_db))) \<noteq> Inr claims
     \<and> session_upgrade_guard sample_env (Some h) (sys_db (system_run [Request sample_world (logout_request h),
         Request sample_world (logout_request h), Jobs_Tick sample_env 0 None, Foreign_Keys id, Time_Passes 5]
         (sample_system sample_db))) \<noteq> Inr claims"
proof -
  obtain h claims where g: "access_guard sample_env (Some h) sample_db = Inr claims"
    and sid: "json_field ''sid'' claims = Some (JStr ''session-1'')"
    by (rule sample_bearer)
  have "sys_db (sample_system sample_db) = sample_db" by (simp add: sample_system_def put_db_def)
  then have "\<exists>x. fst (serve sample_world (logout_request h) (sys_server (sample_system sample_db))) = Inr (204, x)
      \<and> out_cleared x = clearCookies (wld_env sample_world 1)
      \<and> access_guard sample_env (Some h) (sys_db (system_run (Request sample_world (logout_request h)
          # [Request sample_world (logout_request h), Jobs_Tick sample_env 0 None, Foreign_Keys id, Time_Passes 5])
          (sample_system sample_db))) \<noteq> Inr claims
      \<and> session_upgrade_guard sample_env (Some h) (sys_db (system_run (Request sample_world (logout_request h)
          # [Request sample_world (logout_request h), Jobs_Tick sample_env 0 None, Foreign_Keys id, Time_Passes 5])
          (sample_system sample_db))) \<noteq> Inr claims
      \<and> (\<forall>token t v. find_refresh (token_digest sample_env token) (sys_db (system_run (Request sample_world (logout_request h)
          # [Request sample_world (logout_request h), Jobs_Tick sample_env 0 None, Foreign_Keys id, Time_Passes 5])
          (sample_system sample_db))) = Some (t, v) \<longrightarrow> rft_sessionId t = ''session-1''
        \<longrightarrow> \<not> succeeded (fst (refresh sample_env token NATIVE sample_ctx (sys_db (system_run (Request sample_world (logout_request h)
          # [Request sample_world (logout_request h), Jobs_Tick sample_env 0 None, Foreign_Keys id, Time_Passes 5])
          (sample_system sample_db))) sample_redis)))"
    by (intro logout_final [OF _ _ sid sid _ sample_history_ok]) (use g in \<open>simp_all add: logout_route\<close>)
  with g show ?thesis by blast
qed

end
