(* ===== verification/Settings.thy ===== *)
theory Settings
  imports SampleConfiguration
begin

text \<open>
  \<open>AuthEnvironment\<close>, the type at which the service reads its configuration (\<open>ConfigService.get\<close> with
  \<open>infer: true\<close>): the members of the interface, and why a validated environment has them.
\<close>

subsection \<open>The interface\<close>

datatype setting_type = Text_Type | Number_Type | Flag_Type | Union_Type "string list"

fun has_type :: "setting_value \<Rightarrow> setting_type \<Rightarrow> bool" where
  "has_type (Text_Value s) Text_Type = True"
| "has_type (Text_Value s) (Union_Type ss) = (s \<in> set ss)"
| "has_type (Num_Value n) Number_Type = True"
| "has_type (Flag_Value b) Flag_Type = True"
| "has_type v t = False"

definition service_types :: "(string \<times> setting_type) list" where
  "service_types =
    [(''APP_ENV'', Union_Type [''development'', ''test'', ''production'']),
     (''DATABASE_URL'', Text_Type),
     (''LOG_LEVEL'', Union_Type [''error'', ''warn'', ''log'', ''debug'', ''verbose'']),
     (''OTEL_ENABLED'', Flag_Type), (''OTEL_SERVICE_NAME'', Text_Type),
     (''OTEL_EXPORTER_OTLP_ENDPOINT'', Text_Type), (''CORS_ALLOWED_ORIGINS'', Text_Type),
     (''ENABLE_SWAGGER'', Flag_Type), (''DOCS_BASIC_AUTH_USER'', Text_Type),
     (''DOCS_BASIC_AUTH_PASS'', Text_Type), (''READINESS_CACHE_TTL_MS'', Number_Type),
     (''READINESS_REDIS_REQUIRED'', Flag_Type),
     (''IDENTITY_ENCRYPTION_PROVIDER'', Union_Type [''SOFTWARE_GCM'']),
     (''IDENTITY_ENCRYPTION_KEY_VERSION'', Text_Type), (''IDENTITY_ENCRYPTION_SECRET'', Text_Type),
     (''IDENTITY_LOOKUP_KEY_VERSION'', Text_Type), (''IDENTITY_LOOKUP_HMAC_KEY'', Text_Type),
     (''TOKEN_DIGEST_HMAC_KEY'', Text_Type), (''REQUEST_CONTEXT_HMAC_KEY'', Text_Type),
     (''REDIS_URL'', Text_Type), (''CACHE_PREFIX'', Text_Type), (''CITIZEN_API_URL'', Text_Type),
     (''CITIZEN_API_USERNAME'', Text_Type), (''CITIZEN_API_PASSWORD'', Text_Type),
     (''CITIZEN_API_FOSA_ID'', Text_Type), (''CITIZEN_API_CONNECT_TIMEOUT_MS'', Number_Type),
     (''CITIZEN_API_RESPONSE_TIMEOUT_MS'', Number_Type), (''CITIZEN_API_MAX_RETRIES'', Number_Type),
     (''CITIZEN_CACHE_TTL_SECONDS'', Number_Type), (''CITIZEN_CIRCUIT_FAILURE_THRESHOLD'', Number_Type),
     (''CITIZEN_CIRCUIT_RESET_TIMEOUT_MS'', Number_Type),
     (''CITIZEN_LOOKUP_IP_LIMIT_PER_MINUTE'', Number_Type),
     (''CITIZEN_LOOKUP_CLIENT_LIMIT_PER_MINUTE'', Number_Type),
     (''CITIZEN_LOOKUP_NID_LIMIT_PER_MINUTE'', Number_Type),
     (''REGISTRATION_CHALLENGE_TTL_SECONDS'', Number_Type),
     (''REGISTRATION_CHALLENGE_MAX_ATTEMPTS'', Number_Type),
     (''PASSWORD_ARGON2_MEMORY_KIB'', Number_Type)]"

definition delivery_types :: "(string \<times> setting_type) list" where
  "delivery_types =
    [(''PASSWORD_ARGON2_TIME_COST'', Number_Type), (''PASSWORD_ARGON2_PARALLELISM'', Number_Type),
     (''PASSWORD_HASH_MAX_CONCURRENCY'', Number_Type),
     (''COMPROMISED_PASSWORD_CHECK_ENABLED'', Flag_Type), (''COMPROMISED_PASSWORD_API_URL'', Text_Type),
     (''COMPROMISED_PASSWORD_TIMEOUT_MS'', Number_Type),
     (''PASSWORD_RESET_TOKEN_TTL_SECONDS'', Number_Type),
     (''PASSWORD_RESET_LIMIT_PER_HOUR'', Number_Type), (''PASSWORD_CHANGE_LIMIT_PER_HOUR'', Number_Type),
     (''EMAIL_TOKEN_TTL_SECONDS'', Number_Type), (''REGISTRATION_LIMIT_PER_HOUR'', Number_Type),
     (''EMAIL_RESEND_LIMIT_PER_HOUR'', Number_Type), (''MAIL_OUTBOX_WORKER_ENABLED'', Flag_Type),
     (''MAIL_PROVIDER_URL'', Text_Type), (''MAIL_FROM'', Text_Type), (''MAIL_API_KEY'', Text_Type),
     (''MUCYORA_USER_APP_URL'', Text_Type), (''MAIL_PROVIDER_TIMEOUT_MS'', Number_Type),
     (''OUTBOX_POLL_INTERVAL_MS'', Number_Type), (''OUTBOX_BATCH_SIZE'', Number_Type),
     (''OUTBOX_DELIVERY_CONCURRENCY'', Number_Type), (''OUTBOX_MAX_ATTEMPTS'', Number_Type),
     (''OUTBOX_LEASE_SECONDS'', Number_Type), (''OUTBOX_RETRY_BASE_SECONDS'', Number_Type),
     (''OUTBOX_RETRY_MAX_SECONDS'', Number_Type), (''MUCYORA_AUTH_ISSUER'', Text_Type),
     (''MUCYORA_AUTH_ACCESS_AUDIENCES'', Text_Type), (''MUCYORA_AUTH_SIGNING_KEY_ID'', Text_Type),
     (''MUCYORA_AUTH_SIGNING_PROVIDER'', Union_Type [''SOFTWARE_PEM'', ''AWS_KMS'']),
     (''MUCYORA_AUTH_SIGNING_PRIVATE_KEY'', Text_Type), (''MUCYORA_AUTH_SIGNING_PUBLIC_KEY'', Text_Type),
     (''MUCYORA_AUTH_KMS_KEY_ID'', Text_Type),
     (''MUCYORA_AUTH_PREVIOUS_SIGNING_PUBLIC_KEYS_JSON'', Text_Type),
     (''ACCESS_TOKEN_TTL_SECONDS'', Number_Type), (''LIMITED_ACCESS_TOKEN_TTL_SECONDS'', Number_Type),
     (''REFRESH_TOKEN_TTL_SECONDS'', Number_Type), (''REFRESH_REPLAY_GRACE_SECONDS'', Number_Type),
     (''SESSION_UPGRADE_IDEMPOTENCY_TTL_SECONDS'', Number_Type),
     (''LOGIN_LIMIT_PER_MINUTE'', Number_Type), (''REFRESH_LIMIT_PER_MINUTE'', Number_Type),
     (''LOGIN_LOCK_THRESHOLD'', Number_Type), (''LOGIN_LOCK_SECONDS'', Number_Type),
     (''COOKIE_DOMAIN'', Text_Type), (''COOKIE_SECURE'', Flag_Type),
     (''COOKIE_SAME_SITE'', Union_Type [''lax'', ''strict'', ''none'']),
     (''REFRESH_COOKIE_NAME'', Text_Type)]"

definition verification_types :: "(string \<times> setting_type) list" where
  "verification_types =
    [(''PASSKEY_RP_ID'', Text_Type), (''PASSKEY_RP_NAME'', Text_Type),
     (''PASSKEY_ALLOWED_ORIGINS'', Text_Type), (''PASSKEY_CHALLENGE_TTL_SECONDS'', Number_Type),
     (''RECOVERY_CODE_COUNT'', Number_Type), (''CSRF_COOKIE_NAME'', Text_Type),
     (''AWS_REGION'', Text_Type), (''AWS_S3_VERIFICATION_BUCKET'', Text_Type),
     (''AWS_S3_VERIFICATION_PREFIX'', Text_Type), (''AWS_S3_ENDPOINT'', Text_Type),
     (''AWS_S3_FORCE_PATH_STYLE'', Flag_Type), (''AWS_ACCESS_KEY_ID'', Text_Type),
     (''AWS_SECRET_ACCESS_KEY'', Text_Type), (''AWS_SESSION_TOKEN'', Text_Type),
     (''VERIFICATION_UPLOAD_TTL_SECONDS'', Number_Type),
     (''VERIFICATION_MEDIA_MAX_SIZE_BYTES'', Number_Type),
     (''VERIFICATION_MEDIA_MAX_PIXELS'', Number_Type),
     (''VERIFICATION_MEDIA_RETENTION_SECONDS'', Number_Type),
     (''VERIFICATION_MAX_ATTEMPTS'', Number_Type), (''VERIFICATION_ATTEMPT_WINDOW_HOURS'', Number_Type),
     (''VERIFICATION_RETRY_DELAY_SECONDS'', Number_Type), (''VERIFICATION_POLICY_VERSION'', Text_Type),
     (''VERIFICATION_CLEANUP_INTERVAL_MS'', Number_Type), (''VERIFICATION_CLEANUP_ENABLED'', Flag_Type),
     (''MUCYORA_ENGINE_URL'', Text_Type), (''MUCYORA_ENGINE_SERVICE_KEY'', Text_Type),
     (''MUCYORA_ENGINE_TIMEOUT_MS'', Number_Type), (''MUCYORA_ENGINE_MAX_CONCURRENCY'', Number_Type),
     (''STEP_UP_POLICY_VERSION'', Text_Type), (''STEP_UP_CHALLENGE_TTL_SECONDS'', Number_Type),
     (''STEP_UP_ASSERTION_TTL_SECONDS'', Number_Type), (''MUCYORA_USER_SERVICE_KEY'', Text_Type),
     (''MUCYORA_SIGNATURE_SERVICE_KEY'', Text_Type), (''MUCYORA_AUTH_RECOVERY_SERVICE_KEY'', Text_Type),
     (''MUCYORA_OPERATIONS_SERVICE_KEY'', Text_Type), (''OPERATIONAL_JOBS_ENABLED'', Flag_Type),
     (''OPERATIONAL_JOBS_INTERVAL_MS'', Number_Type), (''OPERATIONAL_JOB_BATCH_SIZE'', Number_Type),
     (''OPERATIONAL_JOB_LOCK_TTL_SECONDS'', Number_Type), (''TOKEN_RETENTION_DAYS'', Number_Type),
     (''SESSION_RETENTION_DAYS'', Number_Type), (''SECURITY_EVENT_RETENTION_DAYS'', Number_Type),
     (''STALE_VERIFICATION_ATTEMPT_HOURS'', Number_Type),
     (''MEDIA_DELETE_RETRY_BASE_SECONDS'', Number_Type),
     (''MEDIA_DELETE_RETRY_MAX_SECONDS'', Number_Type),
     (''VERIFICATION_ORPHAN_GRACE_SECONDS'', Number_Type)]"

definition AuthEnvironment :: "(string \<times> setting_type) list" where
  "AuthEnvironment = service_types @ delivery_types @ verification_types"

text \<open>An environment has the members of an interface, each at its type.\<close>

definition implements :: "environment \<Rightarrow> (string \<times> setting_type) list \<Rightarrow> bool" where
  "implements e members \<longleftrightarrow>
     list_all (\<lambda>k. case (map_of e k, map_of members k) of
       (Some v, Some t) \<Rightarrow> has_type v t | _ \<Rightarrow> False) (map fst members)"

subsection \<open>What the schema says of a setting\<close>

fun fits :: "setting \<Rightarrow> setting_type \<Rightarrow> bool" where
  "fits (Number_Setting lo hi dflt) Number_Type = True"
| "fits (Flag_Setting dflt) Flag_Type = True"
| "fits (Text_Setting rules allowed dflt) Text_Type = True"
| "fits (Text_Setting rules allowed dflt) (Union_Type ss) =
     (rules = [One_Of ss] \<and> \<not> allowed \<and> (case dflt of None \<Rightarrow> True | Some s \<Rightarrow> s \<in> set ss))"
| "fits s t = False"

lemma fitting_value:
  assumes "fits s t" and "read_setting E P s x = Some v"
  shows "has_type v t"
  using assms
  by (cases "(s, t)" rule: fits.cases; cases x) (auto split: option.split_asm if_split_asm)

lemma fitting_entries:
  assumes "list_all2 (\<lambda>(k, s) (l, t). k = l \<and> fits s t) ss ts"
  shows "rel_option fits (map_of ss k) (map_of ts k)"
  using assms by (induction rule: list_all2_induct) auto

lemma read_settings_implements:
  assumes "read_settings E P values ss = Some e" and "list_all2 (\<lambda>(k, s) (l, t). k = l \<and> fits s t) ss ts"
  shows "implements e ts"
proof -
  have "case (map_of e k, map_of ts k) of (Some v, Some t) \<Rightarrow> has_type v t | _ \<Rightarrow> False"
    if "k \<in> fst ` set ts" for k
  proof -
    from that obtain t where t: "map_of ts k = Some t" by (metis map_of_eq_None_iff not_None_eq)
    with fitting_entries [OF assms(2), of k] obtain s where s: "map_of ss k = Some s" "fits s t"
      by (cases "map_of ss k") auto
    from read_settings_map_of(2) [OF assms(1) s(1)]
    obtain v where v: "read_setting E P s (values k) = Some v" by blast
    with read_settings_map_of(1) [OF assms(1), of k] s(1) have "map_of e k = Some v" by simp
    with fitting_value [OF s(2) v] t show ?thesis by simp
  qed
  then show ?thesis by (auto simp: implements_def list_all_iff)
qed

lemma schema_fits: "list_all2 (\<lambda>(k, s) (l, t). k = l \<and> fits s t) environmentSchema AuthEnvironment"
proof -
  have "list_all2 (\<lambda>(k, s) (l, t). k = l \<and> fits s t) service_settings service_types"
    by (simp add: service_settings_def service_types_def)
  moreover have "list_all2 (\<lambda>(k, s) (l, t). k = l \<and> fits s t) delivery_settings delivery_types"
    by (simp add: delivery_settings_def delivery_types_def)
  moreover have "list_all2 (\<lambda>(k, s) (l, t). k = l \<and> fits s t) verification_settings verification_types"
    by (simp add: verification_settings_def verification_types_def)
  ultimately show ?thesis
    by (simp add: environmentSchema_def AuthEnvironment_def list_all2_appendI)
qed

end
