(* ===== verification/Modules.thy ===== *)
theory Modules
  imports Prelude
begin

text \<open>
  The modules of the application (\<open>*.module.ts\<close>) and the constructors of its classes, as the dependency
  injection of the framework sees them: which instance every constructor parameter is given.  A
  parameter is resolved among the providers of the class's own module, then among what the imported
  modules export, then among what the global modules export; a module may export what it imports.  The
  tables of modules and constructors translate the source; \<open>visible\<close>, \<open>resolve\<close>, \<open>given\<close> and
  \<open>create_instances\<close> say what the documentation of NestJS promises of its container, whose code is not in
  the repository.
\<close>

subsection \<open>Modules and providers\<close>

text \<open>The injection tokens (the classes, then the symbols and the classes of libraries), and the modules.\<close>

datatype (plugins only: code) token =
    DatabaseService_token | CorrelationIdMiddleware_token | PerformanceTelemetryMiddleware_token
    | DistributedJobLockService_token | IdempotencyService_token | IdentityEncryptionService_token
    | KeyedDigestService_token | PasswordPolicyService_token | TokenService_token
    | RedisCitizenCache_token | CitizenCircuitBreaker_token | CitizenMetricsService_token
    | CitizenResponseMapper_token | NidaCitizenAdapter_token | EngineService_token
    | HttpMailAdapter_token | MailOutboxWorker_token | MailTemplateService_token
    | VerificationStorageService_token | AccessAuthGuard_token | AccessTokenService_token
    | AuthRateLimiter_token | AuthController_token | AuthenticationService_token | JwksController_token
    | LoginRiskService_token | SessionLevelGuard_token | SessionUpgradeController_token
    | SessionUpgradeGuard_token | SessionUpgradeService_token | EmailVerificationController_token
    | EmailVerificationService_token | HealthController_token | HealthService_token
    | IdentityVerificationController_token | IdentityVerificationService_token
    | VerificationCleanupService_token | OperationalJobsService_token | OperationsController_token
    | PasskeyAuthenticationController_token | PasskeyController_token | PasskeyService_token
    | RecoveryCodeController_token | PasswordRateLimiter_token | PasswordController_token
    | PasswordService_token | AccountCreationRateLimiter_token | CitizenLookupRateLimiter_token
    | CitizenLookupService_token | RegistrationChallengeLifecycleService_token
    | RegistrationChallengeTokenService_token | RegistrationController_token | RegistrationService_token
    | SecurityEventWriter_token | SessionManagementService_token | SessionsController_token
    | InternalServiceGuard_token | InternalStepUpController_token | StepUpVerificationController_token
    | StepUpVerificationService_token | CITIZEN_CACHE_token | CITIZEN_IDENTITY_PROVIDER_token
    | CITIZEN_RETRY_DELAY_token | ConfigService_token | HttpService_token | IDENTITY_NONCE_FACTORY_token
    | MAIL_PROVIDER_token | REDIS_CLIENT_token | Reflector_token

datatype module_id =
    AccountsModule_id | AppModule_id | AuthModule_id | CitizenApiModule_id | CommonModule_id
    | ConfigModule_id | DatabaseModule_id | EmailVerificationModule_id | EngineModule_id
    | HealthModule_id | HttpModule_id | CitizenHttpModule_id | EngineHttpModule_id
    | IdentityVerificationModule_id | IntegrationsModule_id | InternalCoreModule_id | InternalModule_id
    | MailModule_id | OperationsModule_id | OtpModule_id | PasskeyModule_id | PasswordModule_id
    | RedisModule_id | RegistrationModule_id | SecurityEventsModule_id | SecurityPrimitivesModule_id
    | SessionsModule_id | StepUpVerificationModule_id | VerificationStorageModule_id

text \<open>A constructor parameter by its injection token; \<open>Wants\<close> is one with \<open>@Optional\<close>.\<close>

datatype parameter = Needs token | Wants token

text \<open>A class: its token and the parameters of its constructor.\<close>

type_synonym class_decl = "token \<times> parameter list"

text \<open>The tokens of a factory's \<open>inject\<close>; \<open>useExisting\<close> is an alias of another token.\<close>

datatype provider =
    Class class_decl
  | Use_Value token
  | Use_Factory token "token list"
  | Use_Existing token token

datatype nest_export = Token token | Reexport module_id

text \<open>A controller stands with the guards of its \<open>@UseGuards\<close>, which its module instantiates too.\<close>

record nest_module =
  mod_name :: module_id
  mod_global :: bool
  mod_imports :: "module_id list"
  mod_controllers :: "(class_decl \<times> class_decl list) list"
  mod_providers :: "provider list"
  mod_exports :: "nest_export list"

fun token_of :: "provider \<Rightarrow> token" where
  "token_of (Class c) = fst c"
| "token_of (Use_Value t) = t"
| "token_of (Use_Factory t ts) = t"
| "token_of (Use_Existing t u) = t"

fun parameters_of :: "provider \<Rightarrow> parameter list" where
  "parameters_of (Class c) = snd c"
| "parameters_of (Use_Value t) = []"
| "parameters_of (Use_Factory t ts) = map Needs ts"
| "parameters_of (Use_Existing t u) = [Needs u]"

subsection \<open>Resolution\<close>

abbreviation module_named :: "nest_module list \<Rightarrow> module_id \<Rightarrow> nest_module option" where
  "module_named ms n \<equiv> find_row (\<lambda>m. mod_name m = n) ms"

definition provides :: "nest_module \<Rightarrow> token \<Rightarrow> bool" where
  "provides m t \<longleftrightarrow> t \<in> token_of ` set (mod_providers m)"

text \<open>An instance: the module that holds it, and its token.\<close>

type_synonym nest_instance = "module_id \<times> token"

lemma find_row_shorter: "module_named ms n = Some m \<Longrightarrow> length (filter (\<lambda>k. mod_name k \<noteq> n) ms) < length ms"
  by (rule length_filter_less [of m]) (auto simp: find_Some_iff)

text \<open>What a module exports, by the module that provides it.\<close>

function exported :: "nest_module list \<Rightarrow> module_id \<Rightarrow> nest_instance list" where
  "exported ms n = (case module_named ms n of
     None \<Rightarrow> []
   | Some m \<Rightarrow> concat (map (\<lambda>x. case x of
         Token t \<Rightarrow> [(n, t)]
       | Reexport k \<Rightarrow> exported (filter (\<lambda>m. mod_name m \<noteq> n) ms) k) (mod_exports m)))"
  by pat_completeness auto

termination by (relation "measure (length \<circ> fst)") (auto intro: find_row_shorter)

declare exported.simps [simp del]

definition visible :: "nest_module list \<Rightarrow> nest_module \<Rightarrow> nest_instance list" where
  "visible ms m = map (\<lambda>p. (mod_name m, token_of p)) (mod_providers m)
     @ concat (map (exported ms) (mod_imports m))
     @ concat (map (\<lambda>k. exported ms (mod_name k)) (filter mod_global ms))"

definition resolve :: "nest_instance list \<Rightarrow> token \<Rightarrow> nest_instance option" where
  "resolve scope t = find_row (\<lambda>x. snd x = t) scope"

text \<open>
  The instances a constructor is given: \<open>None\<close> when one that it needs is missing.  One that it only
  wants is left out then.
\<close>

fun given :: "nest_instance list \<Rightarrow> parameter list \<Rightarrow> nest_instance list option" where
  "given scope [] = Some []"
| "given scope (Needs t # ps) = (case (resolve scope t, given scope ps) of
     (Some x, Some xs) \<Rightarrow> Some (x # xs) | _ \<Rightarrow> None)"
| "given scope (Wants t # ps) = (case (resolve scope t, given scope ps) of
     (Some x, Some xs) \<Rightarrow> Some (x # xs) | (None, xs) \<Rightarrow> xs | _ \<Rightarrow> None)"

text \<open>Everything a module instantiates, with what its constructor or factory is given.\<close>

definition module_instances :: "nest_module list \<Rightarrow> nest_module \<Rightarrow> (nest_instance \<times> nest_instance list option) list" where
  "module_instances ms m =
     (let scope = visible ms m; classes = concat (map (\<lambda>(c, gs). c # gs) (mod_controllers m))
      in map (\<lambda>p. ((mod_name m, token_of p), given scope (parameters_of p))) (mod_providers m)
         @ map (\<lambda>c. ((mod_name m, fst c), given scope (snd c))) classes)"

definition all_instances :: "nest_module list \<Rightarrow> (nest_instance \<times> nest_instance list option) list" where
  "all_instances ms = concat (map (module_instances ms) ms)"

text \<open>
  An export is a provider of the module or one of its imports, and every import exists: otherwise the
  framework stops while it scans the modules.
\<close>

definition well_scanned :: "nest_module list \<Rightarrow> bool" where
  "well_scanned ms \<longleftrightarrow> list_all (\<lambda>m.
     list_all (\<lambda>n. module_named ms n \<noteq> None) (mod_imports m)
     \<and> list_all (\<lambda>x. case x of Token t \<Rightarrow> provides m t | Reexport k \<Rightarrow> k \<in> set (mod_imports m)) (mod_exports m)) ms"

lemma filter_split_length: "filter P xs \<noteq> [] \<Longrightarrow> length (filter (\<lambda>x. \<not> P x) xs) < length xs"
  by (metis filter_False length_filter_less filter_empty_conv)

text \<open>
  Instances are created when everything they are given exists.  The injector follows the parameters
  depth first; which instances it can create in some order is computed here round by round: those
  that are created, in order, and those that never can be.
\<close>

function create_instances :: "(nest_instance \<times> nest_instance list) list \<Rightarrow> nest_instance list
    \<Rightarrow> nest_instance list \<times> (nest_instance \<times> nest_instance list) list" where
  "create_instances pending created =
     (let now = filter (\<lambda>(i, xs). list_all (\<lambda>x. x \<in> set created) xs) pending
      in if now = [] then (created, pending)
         else create_instances (filter (\<lambda>(i, xs). \<not> list_all (\<lambda>x. x \<in> set created) xs) pending)
           (created @ map fst now))"
  by pat_completeness auto

termination
  by (relation "measure (length \<circ> fst)") (auto simp: split_def intro!: filter_split_length [where P = "\<lambda>x. list_all (\<lambda>y. y \<in> set _) (snd x)"])

declare create_instances.simps [simp del]

subsection \<open>The classes\<close>

definition DatabaseService_class :: class_decl where
  "DatabaseService_class = (DatabaseService_token, [])"

definition CorrelationIdMiddleware_class :: class_decl where
  "CorrelationIdMiddleware_class = (CorrelationIdMiddleware_token, [])"

definition PerformanceTelemetryMiddleware_class :: class_decl where
  "PerformanceTelemetryMiddleware_class = (PerformanceTelemetryMiddleware_token, [])"

definition DistributedJobLockService_class :: class_decl where
  "DistributedJobLockService_class = (DistributedJobLockService_token,
     [Needs ConfigService_token, Needs REDIS_CLIENT_token])"

definition IdempotencyService_class :: class_decl where
  "IdempotencyService_class = (IdempotencyService_token, [Needs DatabaseService_token])"

definition IdentityEncryptionService_class :: class_decl where
  "IdentityEncryptionService_class = (IdentityEncryptionService_token,
     [Needs ConfigService_token, Needs IDENTITY_NONCE_FACTORY_token])"

definition KeyedDigestService_class :: class_decl where
  "KeyedDigestService_class = (KeyedDigestService_token, [Needs ConfigService_token])"

definition PasswordPolicyService_class :: class_decl where
  "PasswordPolicyService_class = (PasswordPolicyService_token, [Needs ConfigService_token])"

definition TokenService_class :: class_decl where
  "TokenService_class = (TokenService_token, [Needs KeyedDigestService_token])"

definition RedisCitizenCache_class :: class_decl where
  "RedisCitizenCache_class = (RedisCitizenCache_token, [Needs REDIS_CLIENT_token])"

definition CitizenCircuitBreaker_class :: class_decl where
  "CitizenCircuitBreaker_class = (CitizenCircuitBreaker_token, [Needs ConfigService_token])"

definition CitizenMetricsService_class :: class_decl where
  "CitizenMetricsService_class = (CitizenMetricsService_token, [])"

definition CitizenResponseMapper_class :: class_decl where
  "CitizenResponseMapper_class = (CitizenResponseMapper_token, [])"

definition NidaCitizenAdapter_class :: class_decl where
  "NidaCitizenAdapter_class = (NidaCitizenAdapter_token,
     [Needs HttpService_token, Needs ConfigService_token, Needs KeyedDigestService_token,
      Needs IdentityEncryptionService_token, Needs CitizenResponseMapper_token,
      Needs CitizenCircuitBreaker_token, Needs CitizenMetricsService_token, Needs CITIZEN_CACHE_token,
      Needs CITIZEN_RETRY_DELAY_token])"

definition EngineService_class :: class_decl where
  "EngineService_class = (EngineService_token,
     [Needs HttpService_token, Needs ConfigService_token])"

definition HttpMailAdapter_class :: class_decl where
  "HttpMailAdapter_class = (HttpMailAdapter_token,
     [Needs HttpService_token, Needs ConfigService_token])"

definition MailOutboxWorker_class :: class_decl where
  "MailOutboxWorker_class = (MailOutboxWorker_token,
     [Needs DatabaseService_token, Needs ConfigService_token, Needs IdentityEncryptionService_token,
      Needs MailTemplateService_token, Needs MAIL_PROVIDER_token, Needs DistributedJobLockService_token])"

definition MailTemplateService_class :: class_decl where
  "MailTemplateService_class = (MailTemplateService_token, [Needs ConfigService_token])"

definition VerificationStorageService_class :: class_decl where
  "VerificationStorageService_class = (VerificationStorageService_token, [Needs ConfigService_token])"

definition AccessAuthGuard_class :: class_decl where
  "AccessAuthGuard_class = (AccessAuthGuard_token,
     [Needs AccessTokenService_token, Needs DatabaseService_token])"

definition AccessTokenService_class :: class_decl where
  "AccessTokenService_class = (AccessTokenService_token, [Needs ConfigService_token])"

definition AuthRateLimiter_class :: class_decl where
  "AuthRateLimiter_class = (AuthRateLimiter_token,
     [Needs REDIS_CLIENT_token, Needs ConfigService_token])"

definition AuthController_class :: class_decl where
  "AuthController_class = (AuthController_token,
     [Needs AuthenticationService_token, Needs ConfigService_token, Needs KeyedDigestService_token])"

definition AuthenticationService_class :: class_decl where
  "AuthenticationService_class = (AuthenticationService_token,
     [Needs DatabaseService_token, Needs ConfigService_token, Needs PasswordPolicyService_token,
      Needs TokenService_token, Needs KeyedDigestService_token, Needs AccessTokenService_token,
      Needs AuthRateLimiter_token, Needs SecurityEventWriter_token, Needs REDIS_CLIENT_token,
      Wants LoginRiskService_token])"

definition JwksController_class :: class_decl where
  "JwksController_class = (JwksController_token, [Needs AccessTokenService_token])"

definition LoginRiskService_class :: class_decl where
  "LoginRiskService_class = (LoginRiskService_token, [Needs DatabaseService_token])"

definition SessionLevelGuard_class :: class_decl where
  "SessionLevelGuard_class = (SessionLevelGuard_token, [Needs Reflector_token])"

definition SessionUpgradeController_class :: class_decl where
  "SessionUpgradeController_class = (SessionUpgradeController_token,
     [Needs SessionUpgradeService_token, Needs ConfigService_token])"

definition SessionUpgradeGuard_class :: class_decl where
  "SessionUpgradeGuard_class = (SessionUpgradeGuard_token,
     [Needs AccessTokenService_token, Needs DatabaseService_token])"

definition SessionUpgradeService_class :: class_decl where
  "SessionUpgradeService_class = (SessionUpgradeService_token,
     [Needs DatabaseService_token, Needs ConfigService_token, Needs TokenService_token,
      Needs KeyedDigestService_token, Needs IdentityEncryptionService_token, Needs AccessTokenService_token])"

definition EmailVerificationController_class :: class_decl where
  "EmailVerificationController_class = (EmailVerificationController_token,
      [Needs EmailVerificationService_token])"

definition EmailVerificationService_class :: class_decl where
  "EmailVerificationService_class = (EmailVerificationService_token,
     [Needs DatabaseService_token, Needs ConfigService_token, Needs TokenService_token,
      Needs KeyedDigestService_token, Needs IdentityEncryptionService_token,
      Needs AccountCreationRateLimiter_token])"

definition HealthController_class :: class_decl where
  "HealthController_class = (HealthController_token, [Needs HealthService_token])"

definition HealthService_class :: class_decl where
  "HealthService_class = (HealthService_token,
     [Needs DatabaseService_token, Needs ConfigService_token, Needs REDIS_CLIENT_token])"

definition IdentityVerificationController_class :: class_decl where
  "IdentityVerificationController_class = (IdentityVerificationController_token,
      [Needs IdentityVerificationService_token])"

definition IdentityVerificationService_class :: class_decl where
  "IdentityVerificationService_class = (IdentityVerificationService_token,
     [Needs DatabaseService_token, Needs ConfigService_token, Needs KeyedDigestService_token,
      Needs IdentityEncryptionService_token, Needs VerificationStorageService_token,
      Needs EngineService_token, Needs VerificationCleanupService_token])"

definition VerificationCleanupService_class :: class_decl where
  "VerificationCleanupService_class = (VerificationCleanupService_token,
     [Needs DatabaseService_token, Needs ConfigService_token, Needs IdentityEncryptionService_token,
      Needs VerificationStorageService_token, Needs DistributedJobLockService_token])"

definition OperationalJobsService_class :: class_decl where
  "OperationalJobsService_class = (OperationalJobsService_token,
     [Needs DatabaseService_token, Needs ConfigService_token, Needs DistributedJobLockService_token])"

definition OperationsController_class :: class_decl where
  "OperationsController_class = (OperationsController_token, [Needs OperationalJobsService_token])"

definition PasskeyAuthenticationController_class :: class_decl where
  "PasskeyAuthenticationController_class = (PasskeyAuthenticationController_token,
     [Needs PasskeyService_token, Needs ConfigService_token])"

definition PasskeyController_class :: class_decl where
  "PasskeyController_class = (PasskeyController_token, [Needs PasskeyService_token])"

definition PasskeyService_class :: class_decl where
  "PasskeyService_class = (PasskeyService_token,
     [Needs DatabaseService_token, Needs ConfigService_token, Needs TokenService_token,
      Needs AccessTokenService_token, Needs KeyedDigestService_token, Needs REDIS_CLIENT_token])"

definition RecoveryCodeController_class :: class_decl where
  "RecoveryCodeController_class = (RecoveryCodeController_token, [Needs PasskeyService_token])"

definition PasswordRateLimiter_class :: class_decl where
  "PasswordRateLimiter_class = (PasswordRateLimiter_token,
     [Needs REDIS_CLIENT_token, Needs ConfigService_token])"

definition PasswordController_class :: class_decl where
  "PasswordController_class = (PasswordController_token, [Needs PasswordService_token])"

definition PasswordService_class :: class_decl where
  "PasswordService_class = (PasswordService_token,
     [Needs DatabaseService_token, Needs ConfigService_token, Needs TokenService_token,
      Needs KeyedDigestService_token, Needs IdentityEncryptionService_token,
      Needs PasswordPolicyService_token, Needs PasswordRateLimiter_token])"

definition AccountCreationRateLimiter_class :: class_decl where
  "AccountCreationRateLimiter_class = (AccountCreationRateLimiter_token,
     [Needs REDIS_CLIENT_token, Needs ConfigService_token])"

definition CitizenLookupRateLimiter_class :: class_decl where
  "CitizenLookupRateLimiter_class = (CitizenLookupRateLimiter_token,
     [Needs REDIS_CLIENT_token, Needs ConfigService_token])"

definition CitizenLookupService_class :: class_decl where
  "CitizenLookupService_class = (CitizenLookupService_token,
     [Needs CITIZEN_IDENTITY_PROVIDER_token, Needs DatabaseService_token, Needs ConfigService_token,
      Needs KeyedDigestService_token, Needs IdentityEncryptionService_token,
      Needs CitizenLookupRateLimiter_token, Needs RegistrationChallengeTokenService_token,
      Needs SecurityEventWriter_token])"

definition RegistrationChallengeLifecycleService_class :: class_decl where
  "RegistrationChallengeLifecycleService_class = (RegistrationChallengeLifecycleService_token,
      [Needs ConfigService_token])"

definition RegistrationChallengeTokenService_class :: class_decl where
  "RegistrationChallengeTokenService_class = (RegistrationChallengeTokenService_token,
      [Needs IdentityEncryptionService_token])"

definition RegistrationController_class :: class_decl where
  "RegistrationController_class = (RegistrationController_token,
     [Needs CitizenLookupService_token, Needs RegistrationService_token])"

definition RegistrationService_class :: class_decl where
  "RegistrationService_class = (RegistrationService_token,
     [Needs DatabaseService_token, Needs ConfigService_token, Needs IdentityEncryptionService_token,
      Needs KeyedDigestService_token, Needs TokenService_token, Needs PasswordPolicyService_token,
      Needs AccountCreationRateLimiter_token, Needs RegistrationChallengeTokenService_token,
      Needs RegistrationChallengeLifecycleService_token])"

definition SecurityEventWriter_class :: class_decl where
  "SecurityEventWriter_class = (SecurityEventWriter_token, [Needs DatabaseService_token])"

definition SessionManagementService_class :: class_decl where
  "SessionManagementService_class = (SessionManagementService_token,
     [Needs DatabaseService_token, Needs KeyedDigestService_token])"

definition SessionsController_class :: class_decl where
  "SessionsController_class = (SessionsController_token,
     [Needs SessionManagementService_token, Needs ConfigService_token])"

definition InternalServiceGuard_class :: class_decl where
  "InternalServiceGuard_class = (InternalServiceGuard_token, [Needs ConfigService_token])"

definition InternalStepUpController_class :: class_decl where
  "InternalStepUpController_class = (InternalStepUpController_token, [Needs StepUpVerificationService_token])"

definition StepUpVerificationController_class :: class_decl where
  "StepUpVerificationController_class = (StepUpVerificationController_token,
      [Needs StepUpVerificationService_token])"

definition StepUpVerificationService_class :: class_decl where
  "StepUpVerificationService_class = (StepUpVerificationService_token,
     [Needs DatabaseService_token, Needs ConfigService_token, Needs KeyedDigestService_token,
      Needs TokenService_token, Needs IdentityEncryptionService_token])"


subsection \<open>The modules\<close>

definition AccountsModule :: nest_module where
  "AccountsModule = \<lparr>mod_name = AccountsModule_id, mod_global = False,
     mod_imports = [],
     mod_controllers = [],
     mod_providers = [],
     mod_exports = []\<rparr>"

definition AppModule :: nest_module where
  "AppModule = \<lparr>mod_name = AppModule_id, mod_global = False,
     mod_imports = [ConfigModule_id, IntegrationsModule_id, AccountsModule_id, AuthModule_id,
        EmailVerificationModule_id, RegistrationModule_id,
        IdentityVerificationModule_id, InternalModule_id, SessionsModule_id,
        PasswordModule_id, OtpModule_id, SecurityEventsModule_id,
        StepUpVerificationModule_id, OperationsModule_id, PasskeyModule_id,
        HealthModule_id, CommonModule_id],
     mod_controllers = [],
     mod_providers = [],
     mod_exports = []\<rparr>"

definition AuthModule :: nest_module where
  "AuthModule = \<lparr>mod_name = AuthModule_id, mod_global = False,
     mod_imports = [IntegrationsModule_id, SecurityEventsModule_id],
     mod_controllers = [(AuthController_class, []), (SessionUpgradeController_class,
        [SessionUpgradeGuard_class]), (JwksController_class, [])],
     mod_providers = [Class AccessTokenService_class, Class AccessAuthGuard_class,
        Class SessionLevelGuard_class, Class SessionUpgradeGuard_class,
        Class AuthRateLimiter_class, Class AuthenticationService_class,
        Class SessionUpgradeService_class, Class LoginRiskService_class],
     mod_exports = [Token AccessTokenService_token, Token AccessAuthGuard_token,
        Token SessionLevelGuard_token]\<rparr>"

definition CitizenApiModule :: nest_module where
  "CitizenApiModule = \<lparr>mod_name = CitizenApiModule_id, mod_global = False,
     mod_imports = [RedisModule_id, CitizenHttpModule_id],
     mod_controllers = [],
     mod_providers = [Class CitizenResponseMapper_class, Class CitizenCircuitBreaker_class,
        Class CitizenMetricsService_class, Class NidaCitizenAdapter_class,
        Class RedisCitizenCache_class,
        Use_Existing CITIZEN_CACHE_token RedisCitizenCache_token,
        Use_Value CITIZEN_RETRY_DELAY_token,
        Use_Existing CITIZEN_IDENTITY_PROVIDER_token NidaCitizenAdapter_token],
     mod_exports = [Token CITIZEN_IDENTITY_PROVIDER_token]\<rparr>"

definition CommonModule :: nest_module where
  "CommonModule = \<lparr>mod_name = CommonModule_id, mod_global = True,
     mod_imports = [DatabaseModule_id, SecurityPrimitivesModule_id],
     mod_controllers = [],
     mod_providers = [Class DistributedJobLockService_class],
     mod_exports = [Reexport DatabaseModule_id, Reexport SecurityPrimitivesModule_id,
        Token DistributedJobLockService_token]\<rparr>"

definition DatabaseModule :: nest_module where
  "DatabaseModule = \<lparr>mod_name = DatabaseModule_id, mod_global = True,
     mod_imports = [],
     mod_controllers = [],
     mod_providers = [Class DatabaseService_class],
     mod_exports = [Token DatabaseService_token]\<rparr>"

definition EmailVerificationModule :: nest_module where
  "EmailVerificationModule = \<lparr>mod_name = EmailVerificationModule_id, mod_global = False,
     mod_imports = [RegistrationModule_id, MailModule_id],
     mod_controllers = [(EmailVerificationController_class, [])],
     mod_providers = [Class EmailVerificationService_class],
     mod_exports = []\<rparr>"

definition EngineModule :: nest_module where
  "EngineModule = \<lparr>mod_name = EngineModule_id, mod_global = False,
     mod_imports = [EngineHttpModule_id],
     mod_controllers = [],
     mod_providers = [Class EngineService_class],
     mod_exports = [Token EngineService_token]\<rparr>"

definition HealthModule :: nest_module where
  "HealthModule = \<lparr>mod_name = HealthModule_id, mod_global = False,
     mod_imports = [],
     mod_controllers = [(HealthController_class, [])],
     mod_providers = [Class HealthService_class],
     mod_exports = []\<rparr>"

definition IdentityVerificationModule :: nest_module where
  "IdentityVerificationModule = \<lparr>mod_name = IdentityVerificationModule_id, mod_global = False,
     mod_imports = [AuthModule_id, IntegrationsModule_id],
     mod_controllers = [(IdentityVerificationController_class, [AccessAuthGuard_class,
        SessionLevelGuard_class])],
     mod_providers = [Class IdentityVerificationService_class, Class VerificationCleanupService_class],
     mod_exports = []\<rparr>"

definition IntegrationsModule :: nest_module where
  "IntegrationsModule = \<lparr>mod_name = IntegrationsModule_id, mod_global = False,
     mod_imports = [RedisModule_id, CitizenApiModule_id, MailModule_id, EngineModule_id,
        VerificationStorageModule_id],
     mod_controllers = [],
     mod_providers = [],
     mod_exports = [Reexport RedisModule_id, Reexport CitizenApiModule_id, Reexport MailModule_id,
        Reexport EngineModule_id, Reexport VerificationStorageModule_id]\<rparr>"

definition InternalModule :: nest_module where
  "InternalModule = \<lparr>mod_name = InternalModule_id, mod_global = False,
     mod_imports = [],
     mod_controllers = [],
     mod_providers = [],
     mod_exports = []\<rparr>"

definition MailModule :: nest_module where
  "MailModule = \<lparr>mod_name = MailModule_id, mod_global = False,
     mod_imports = [HttpModule_id, RedisModule_id],
     mod_controllers = [],
     mod_providers = [Class HttpMailAdapter_class, Class MailTemplateService_class,
        Class MailOutboxWorker_class,
        Use_Existing MAIL_PROVIDER_token HttpMailAdapter_token],
     mod_exports = [Token MailOutboxWorker_token, Token MailTemplateService_token]\<rparr>"

definition OperationsModule :: nest_module where
  "OperationsModule = \<lparr>mod_name = OperationsModule_id, mod_global = False,
     mod_imports = [StepUpVerificationModule_id],
     mod_controllers = [(OperationsController_class, [InternalServiceGuard_class])],
     mod_providers = [Class OperationalJobsService_class],
     mod_exports = [Token OperationalJobsService_token]\<rparr>"

definition OtpModule :: nest_module where
  "OtpModule = \<lparr>mod_name = OtpModule_id, mod_global = False,
     mod_imports = [],
     mod_controllers = [],
     mod_providers = [],
     mod_exports = []\<rparr>"

definition PasskeyModule :: nest_module where
  "PasskeyModule = \<lparr>mod_name = PasskeyModule_id, mod_global = False,
     mod_imports = [AuthModule_id],
     mod_controllers = [(PasskeyController_class, [AccessAuthGuard_class, SessionLevelGuard_class]),
        (PasskeyAuthenticationController_class, []), (RecoveryCodeController_class, [])],
     mod_providers = [Class PasskeyService_class],
     mod_exports = []\<rparr>"

definition PasswordModule :: nest_module where
  "PasswordModule = \<lparr>mod_name = PasswordModule_id, mod_global = False,
     mod_imports = [AuthModule_id, IntegrationsModule_id],
     mod_controllers = [(PasswordController_class, [AccessAuthGuard_class, SessionLevelGuard_class])],
     mod_providers = [Class PasswordRateLimiter_class, Class PasswordService_class],
     mod_exports = []\<rparr>"

definition RedisModule :: nest_module where
  "RedisModule = \<lparr>mod_name = RedisModule_id, mod_global = True,
     mod_imports = [],
     mod_controllers = [],
     mod_providers = [Use_Factory REDIS_CLIENT_token [ConfigService_token]],
     mod_exports = [Token REDIS_CLIENT_token]\<rparr>"

definition RegistrationModule :: nest_module where
  "RegistrationModule = \<lparr>mod_name = RegistrationModule_id, mod_global = False,
     mod_imports = [IntegrationsModule_id, SecurityEventsModule_id],
     mod_controllers = [(RegistrationController_class, [])],
     mod_providers = [Class CitizenLookupRateLimiter_class, Class CitizenLookupService_class,
        Class AccountCreationRateLimiter_class,
        Class RegistrationChallengeLifecycleService_class,
        Class RegistrationChallengeTokenService_class, Class RegistrationService_class],
     mod_exports = [Token RegistrationChallengeLifecycleService_token,
        Token RegistrationChallengeTokenService_token, Token AccountCreationRateLimiter_token]\<rparr>"

definition SecurityEventsModule :: nest_module where
  "SecurityEventsModule = \<lparr>mod_name = SecurityEventsModule_id, mod_global = False,
     mod_imports = [],
     mod_controllers = [],
     mod_providers = [Class SecurityEventWriter_class],
     mod_exports = [Token SecurityEventWriter_token]\<rparr>"

definition SecurityPrimitivesModule :: nest_module where
  "SecurityPrimitivesModule = \<lparr>mod_name = SecurityPrimitivesModule_id, mod_global = True,
     mod_imports = [],
     mod_controllers = [],
     mod_providers = [Use_Value IDENTITY_NONCE_FACTORY_token, Class IdentityEncryptionService_class,
        Class IdempotencyService_class, Class KeyedDigestService_class,
        Class PasswordPolicyService_class, Class TokenService_class],
     mod_exports = [Token IdentityEncryptionService_token, Token IdempotencyService_token,
        Token KeyedDigestService_token, Token PasswordPolicyService_token,
        Token TokenService_token]\<rparr>"

definition SessionsModule :: nest_module where
  "SessionsModule = \<lparr>mod_name = SessionsModule_id, mod_global = False,
     mod_imports = [AuthModule_id],
     mod_controllers = [(SessionsController_class, [AccessAuthGuard_class, SessionLevelGuard_class])],
     mod_providers = [Class SessionManagementService_class],
     mod_exports = []\<rparr>"

definition StepUpVerificationModule :: nest_module where
  "StepUpVerificationModule = \<lparr>mod_name = StepUpVerificationModule_id, mod_global = False,
     mod_imports = [AuthModule_id],
     mod_controllers = [(StepUpVerificationController_class, [AccessAuthGuard_class,
        SessionLevelGuard_class]), (InternalStepUpController_class,
        [InternalServiceGuard_class])],
     mod_providers = [Class StepUpVerificationService_class, Class InternalServiceGuard_class],
     mod_exports = [Token InternalServiceGuard_token]\<rparr>"

definition VerificationStorageModule :: nest_module where
  "VerificationStorageModule = \<lparr>mod_name = VerificationStorageModule_id, mod_global = False,
     mod_imports = [],
     mod_controllers = [],
     mod_providers = [Class VerificationStorageService_class],
     mod_exports = [Token VerificationStorageService_token]\<rparr>"
text \<open>
  The modules of the framework that the application uses: the global \<open>ConfigModule\<close>, the core module
  with \<open>Reflector\<close>, and one \<open>HttpModule\<close> for each registration, every one with a client of its own.
\<close>

definition library_module :: "module_id \<Rightarrow> bool \<Rightarrow> token \<Rightarrow> nest_module" where
  "library_module n g t = \<lparr>mod_name = n, mod_global = g, mod_imports = [], mod_controllers = [],
     mod_providers = [Use_Value t], mod_exports = [Token t]\<rparr>"

definition library_modules :: "nest_module list" where
  "library_modules =
     [library_module InternalCoreModule_id True Reflector_token, library_module ConfigModule_id True ConfigService_token,
      library_module HttpModule_id False HttpService_token,
      library_module CitizenHttpModule_id False HttpService_token,
      library_module EngineHttpModule_id False HttpService_token]"

definition own_modules :: "nest_module list" where
  "own_modules =
     [AppModule, IntegrationsModule, RedisModule, CitizenApiModule, MailModule, EngineModule,
      VerificationStorageModule, AccountsModule, AuthModule, SecurityEventsModule, EmailVerificationModule,
      RegistrationModule, IdentityVerificationModule, InternalModule, SessionsModule, PasswordModule, OtpModule,
      StepUpVerificationModule, OperationsModule, PasskeyModule, HealthModule, CommonModule, DatabaseModule,
      SecurityPrimitivesModule]"

definition app_modules :: "nest_module list" where
  "app_modules = own_modules @ library_modules"

text \<open>The modules that are reached from \<open>AppModule\<close> through imports.\<close>

function reached :: "nest_module list \<Rightarrow> module_id list \<Rightarrow> module_id list" where
  "reached ms [] = []"
| "reached ms (n # ns) = (case module_named ms n of
     None \<Rightarrow> reached ms ns
   | Some m \<Rightarrow> n # reached (filter (\<lambda>k. mod_name k \<noteq> n) ms) (mod_imports m @ ns))"
  by pat_completeness auto

termination
  by (relation "measures [length \<circ> fst, length \<circ> snd]") (auto intro: find_row_shorter)

subsection \<open>The instances of the application\<close>

definition instance_graph :: "nest_module list \<Rightarrow> (nest_instance \<times> nest_instance list) list" where
  "instance_graph ms = map (\<lambda>(i, xs). (i, the xs)) (all_instances ms)"

definition creation_order :: "nest_module list \<Rightarrow> nest_instance list" where
  "creation_order ms = fst (create_instances (instance_graph ms) [])"

definition created_before :: "nest_instance list \<Rightarrow> nest_instance \<Rightarrow> nest_instance \<Rightarrow> bool" where
  "created_before order x i \<longleftrightarrow> i \<in> set order \<and> x \<in> set (takeWhile (\<lambda>y. y \<noteq> i) order)"

text \<open>The module that provides a token, if one of the application does.\<close>

definition home_of :: "token \<Rightarrow> module_id option" where
  "home_of t = map_option mod_name (find_row (\<lambda>m. provides m t) own_modules)"

text \<open>
  An instance that can be created after everything it is given, and what it is given: for a token of the
  application always the instance of the module that provides it.
\<close>

definition assembled :: "nest_instance list \<Rightarrow> nest_instance \<times> nest_instance list option \<Rightarrow> bool" where
  "assembled order x = (case snd x of
     None \<Rightarrow> False
   | Some xs \<Rightarrow> list_all (\<lambda>y. created_before order y (fst x)
       \<and> (home_of (snd y) = None \<or> home_of (snd y) = Some (fst y))) xs)"

lemma modules_scanned: "well_scanned app_modules"
  by code_simp

lemma modules_reached: "set (map mod_name own_modules) \<subseteq> set (reached app_modules [AppModule_id])"
  by code_simp

lemma instances_assembled: "list_all (assembled (creation_order app_modules)) (all_instances app_modules)"
  by code_simp

lemma providers_distinct: "distinct (map token_of (concat (map mod_providers own_modules)))"
  by code_simp

text \<open>The optional assessment of the risk of a login is wired, and the clients of the integrations are apart.\<close>

lemma wired_instances:
  "given (visible app_modules AuthModule) [Wants LoginRiskService_token] = Some [(AuthModule_id, LoginRiskService_token)]"
  "given (visible app_modules CitizenApiModule) [Needs HttpService_token] = Some [(CitizenHttpModule_id, HttpService_token)]"
  "given (visible app_modules EngineModule) [Needs HttpService_token] = Some [(EngineHttpModule_id, HttpService_token)]"
  "given (visible app_modules MailModule) [Needs HttpService_token] = Some [(HttpModule_id, HttpService_token)]"
  by code_simp+

text \<open>Every constructor parameter of the application resolves, and the instances can be created one after
  the other so that each is created after everything it is given, without a cycle.  Every class is
  provided by one module only, so that all its users share one instance and with it the state it keeps
  (locks, gates, the circuit, caches).\<close>

lemma application_assembles:
  assumes "(i, xs) \<in> set (all_instances app_modules)"
  shows "\<exists>ys. xs = Some ys
    \<and> (\<forall>y \<in> set ys. created_before (creation_order app_modules) y i
         \<and> (home_of (snd y) \<noteq> None \<longrightarrow> home_of (snd y) = Some (fst y)))"
proof -
  have "assembled (creation_order app_modules) (i, xs)"
    using instances_assembled assms by (auto simp: list_all_iff)
  then show ?thesis by (auto simp: assembled_def list_all_iff split: option.split_asm)
qed

lemma authentication_instance:
  "map_of (all_instances app_modules) (AuthModule_id, AuthenticationService_token) =
     Some (given (visible app_modules AuthModule) (snd AuthenticationService_class))"
  by code_simp

lemma login_risk_given:
  "(case given (visible app_modules AuthModule) (snd AuthenticationService_class) of
      None \<Rightarrow> False | Some ys \<Rightarrow> (AuthModule_id, LoginRiskService_token) \<in> set ys)"
  by code_simp

lemma application_assembles_witness:
  "created_before (creation_order app_modules) (AuthModule_id, LoginRiskService_token)
     (AuthModule_id, AuthenticationService_token)"
  using application_assembles [OF map_of_SomeD [OF authentication_instance]] login_risk_given
  by (auto split: option.split_asm)

end
