(* ===== verification/Startup.thy ===== *)
theory Startup
  imports Settings Modules Edge
begin

text \<open>
  The start of the service (\<open>main.ts\<close>): the environment is validated, the container creates the instances
  of Modules in their order, CORS and the documentation are configured, and the workers set their timers.
  Here are the constructors that do more than keep their parameters, and the options of the clients.
  What a constructor asks of a library alone (the database client, Redis, S3, argon2) is an argument.
\<close>

subsection \<open>Clients and options\<close>

text \<open>\<open>HttpModule.registerAsync\<close>; both agents keep their connections and verify certificates.\<close>

record http_options =
  hop_baseURL :: string
  hop_timeout :: int
  hop_maxRedirects :: nat
  hop_maxSockets :: nat
  hop_socketTimeout :: "int option"
  hop_rejectUnauthorized :: bool

definition citizen_http :: "environment \<Rightarrow> http_options" where
  "citizen_http e = \<lparr>hop_baseURL = text_of e ''CITIZEN_API_URL'',
     hop_timeout = num_of e ''CITIZEN_API_RESPONSE_TIMEOUT_MS'', hop_maxRedirects = 0, hop_maxSockets = 50,
     hop_socketTimeout = Some (num_of e ''CITIZEN_API_CONNECT_TIMEOUT_MS''), hop_rejectUnauthorized = True\<rparr>"

definition engine_http :: "environment \<Rightarrow> http_options" where
  "engine_http e = \<lparr>hop_baseURL = text_of e ''MUCYORA_ENGINE_URL'',
     hop_timeout = num_of e ''MUCYORA_ENGINE_TIMEOUT_MS'', hop_maxRedirects = 0, hop_maxSockets = 32,
     hop_socketTimeout = None, hop_rejectUnauthorized = True\<rparr>"

record redis_options =
  rdo_url :: string
  rdo_lazyConnect :: bool
  rdo_enableOfflineQueue :: bool
  rdo_maxRetriesPerRequest :: nat
  rdo_connectTimeout :: int

definition redis_client :: "environment \<Rightarrow> redis_options" where
  "redis_client e = \<lparr>rdo_url = text_of e ''REDIS_URL'', rdo_lazyConnect = True, rdo_enableOfflineQueue = False,
     rdo_maxRetriesPerRequest = 1, rdo_connectTimeout = num_of e ''CITIZEN_API_CONNECT_TIMEOUT_MS''\<rparr>"

record s3_options =
  s3o_region :: string
  s3o_endpoint :: "string option"
  s3o_forcePathStyle :: bool
  s3o_credentials :: "(string \<times> string \<times> string option) option"

definition text_option :: "string \<Rightarrow> string option" where
  "text_option s = (if s = [] then None else Some s)"

definition storage_client :: "environment \<Rightarrow> s3_options" where
  "storage_client e =
     (let accessKeyId = text_of e ''AWS_ACCESS_KEY_ID''; secretAccessKey = text_of e ''AWS_SECRET_ACCESS_KEY''
      in \<lparr>s3o_region = text_of e ''AWS_REGION'', s3o_endpoint = text_option (text_of e ''AWS_S3_ENDPOINT''),
          s3o_forcePathStyle = flag_of e ''AWS_S3_FORCE_PATH_STYLE'',
          s3o_credentials = (if accessKeyId \<noteq> [] \<and> secretAccessKey \<noteq> []
            then Some (accessKeyId, secretAccessKey, text_option (text_of e ''AWS_SESSION_TOKEN'')) else None)\<rparr>)"

record hash_options =
  hso_memoryCost :: int
  hso_timeCost :: int
  hso_parallelism :: int

text \<open>\<open>PasswordPolicyService.options\<close>, with argon2id.\<close>

definition hash_options_of :: "environment \<Rightarrow> hash_options" where
  "hash_options_of e = \<lparr>hso_memoryCost = num_of e ''PASSWORD_ARGON2_MEMORY_KIB'',
     hso_timeCost = num_of e ''PASSWORD_ARGON2_TIME_COST'', hso_parallelism = num_of e ''PASSWORD_ARGON2_PARALLELISM''\<rparr>"

subsection \<open>Constructors\<close>

text \<open>\<open>AccessTokenService\<close>: the key of the signing provider, and the verification keys.\<close>

definition access_token_new :: "env \<Rightarrow> config_platform \<Rightarrow> environment \<Rightarrow> unit result" where
  "access_token_new E P e =
     (if text_of e ''MUCYORA_AUTH_SIGNING_PROVIDER'' = ''SOFTWARE_PEM''
         \<and> cpl_private_rsa P (text_of e ''MUCYORA_AUTH_SIGNING_PRIVATE_KEY'') = None
      then Inl (Raised ''createPrivateKey'')
      else if rsa_public_key E (text_of e ''MUCYORA_AUTH_SIGNING_PUBLIC_KEY'') = None
      then Inl (Raised ''createPublicKey'')
      else (case parsePreviousSigningKeys E (text_of e ''MUCYORA_AUTH_PREVIOUS_SIGNING_PUBLIC_KEYS_JSON'')
          (text_of e ''MUCYORA_AUTH_SIGNING_KEY_ID'') of
        Inl x \<Rightarrow> Inl x
      | Inr previous \<Rightarrow> all_checks (map (\<lambda>(k, key).
          if rsa_public_key E key = None then Inl (Raised ''createPublicKey'') else Inr ()) previous)))"

definition construct :: "env \<Rightarrow> config_platform \<Rightarrow> (token \<Rightarrow> unit result) \<Rightarrow> environment \<Rightarrow> token \<Rightarrow> unit result" where
  "construct E P library e t =
     (if t = KeyedDigestService_token then map_sum id (\<lambda>_. ()) (keyed_digest_new (text_of e))
      else if t = IdentityEncryptionService_token then map_sum id (\<lambda>_. ()) (identity_encryption_new (text_of e))
      else if t = AccessTokenService_token then access_token_new E P e
      else library t)"

subsection \<open>Timers\<close>

datatype worker = Mail_Outbox_Worker | Operational_Jobs | Media_Maintenance

text \<open>\<open>onApplicationBootstrap\<close> of the three: who sets a timer, and its interval in milliseconds.\<close>

definition outbox_timer :: "environment \<Rightarrow> (worker \<times> int) list" where
  "outbox_timer e = (if \<not> flag_of e ''MAIL_OUTBOX_WORKER_ENABLED'' then []
     else [(Mail_Outbox_Worker, num_of e ''OUTBOX_POLL_INTERVAL_MS'')])"

definition jobs_timer :: "environment \<Rightarrow> (worker \<times> int) list" where
  "jobs_timer e = (if \<not> flag_of e ''OPERATIONAL_JOBS_ENABLED'' then []
     else [(Operational_Jobs, num_of e ''OPERATIONAL_JOBS_INTERVAL_MS'')])"

definition cleanup_timer :: "environment \<Rightarrow> (worker \<times> int) list" where
  "cleanup_timer e = (if \<not> flag_of e ''VERIFICATION_CLEANUP_ENABLED'' then []
     else [(Media_Maintenance, num_of e ''VERIFICATION_CLEANUP_INTERVAL_MS'')])"

definition timers :: "environment \<Rightarrow> (worker \<times> int) list" where
  "timers e = outbox_timer e @ cleanup_timer e @ jobs_timer e"

subsection \<open>main.ts\<close>

definition resolveBootstrapLogLevel :: "string option \<Rightarrow> string" where
  "resolveBootstrapLogLevel v = (case v of None \<Rightarrow> ''log''
     | Some s \<Rightarrow> if s \<in> set log_levels then s else ''log'')"

text \<open>\<open>configureSwagger\<close>: whether the documentation is served, and whether its guard stands in front.\<close>

datatype documentation = No_Documentation | Open_Documentation | Guarded_Documentation string string

definition configureSwagger :: "environment \<Rightarrow> documentation" where
  "configureSwagger e =
     (if \<not> flag_of e ''ENABLE_SWAGGER'' then No_Documentation
      else if production e
      then Guarded_Documentation (text_of e ''DOCS_BASIC_AUTH_USER'') (text_of e ''DOCS_BASIC_AUTH_PASS'')
      else Open_Documentation)"

record application =
  app_environment :: environment
  app_allowedOrigins :: "string list"
  app_documentation :: documentation
  app_timers :: "(worker \<times> int) list"

definition bootstrap :: "env \<Rightarrow> config_platform \<Rightarrow> (token \<Rightarrow> unit result) \<Rightarrow> (string \<Rightarrow> string option)
    \<Rightarrow> application result" where
  "bootstrap E P library values =
     (case validateEnvironment E P values of
        Inl x \<Rightarrow> Inl x
      | Inr e \<Rightarrow>
     (case all_checks (map (\<lambda>(m, t). construct E P library e t) (creation_order app_modules)) of
        Inl x \<Rightarrow> Inl x
      | Inr _ \<Rightarrow>
     (case parseAllowedOrigins P (text_of e ''CORS_ALLOWED_ORIGINS'') of
        Inl x \<Rightarrow> Inl x
      | Inr origins \<Rightarrow> Inr \<lparr>app_environment = e, app_allowedOrigins = origins,
          app_documentation = configureSwagger e, app_timers = timers e\<rparr>)))"

subsection \<open>What a validated environment leaves to fail\<close>

lemma encoded_key_decodes:
  assumes "assertEncodedKeys e = Inr ()" and "text_of e k \<in> set (encoded_keys e)"
  shows "decodeKeyMaterial (text_of e k) name 32 = Inr (b64_decode (text_of e k))"
proof -
  let ?check = "\<lambda>v. if \<not> key_syntax v
    then Inl (Raised ''Auth environment validation failed: key must be base64url encoded'')
    else reject_if (length (b64_decode v) < 32)
      ''Auth environment validation failed: key must decode to at least 32 bytes''"
  have "\<forall>c \<in> set (map ?check (encoded_keys e)). c = Inr ()"
    using assms(1) unfolding assertEncodedKeys_def all_checks_Inr set_append by blast
  then have "?check (text_of e k) = Inr ()"
    using assms(2) unfolding set_map by blast
  then show ?thesis by (simp add: decodeKeyMaterial_def Let_def split: if_split_asm)
qed

lemma validated_keyed_digests:
  assumes "assertEncodedKeys e = Inr ()"
  shows "succeeded (keyed_digest_new (text_of e))"
proof -
  have "distinct (map (\<lambda>v. b64_decode v) (encoded_keys e))"
    using assms by (simp add: assertEncodedKeys_def all_checks_Inr)
  then have "distinct (map (\<lambda>k. b64_decode (text_of e k))
      [''IDENTITY_LOOKUP_HMAC_KEY'', ''TOKEN_DIGEST_HMAC_KEY'', ''REQUEST_CONTEXT_HMAC_KEY''])"
    by (simp add: encoded_keys_def)
  then have "assertPurposeSeparatedKeys (map (\<lambda>k. (k, b64_decode (text_of e k)))
      [''IDENTITY_LOOKUP_HMAC_KEY'', ''TOKEN_DIGEST_HMAC_KEY'', ''REQUEST_CONTEXT_HMAC_KEY'']) = Inr ()"
    unfolding assertPurposeSeparatedKeys_ok by (simp add: comp_def)
  moreover have "decodeKeyMaterial (text_of e k) k 32 = Inr (b64_decode (text_of e k))"
    if "k \<in> set [''IDENTITY_LOOKUP_HMAC_KEY'', ''TOKEN_DIGEST_HMAC_KEY'', ''REQUEST_CONTEXT_HMAC_KEY'']" for k
    using that by (intro encoded_key_decodes [OF assms]) (auto simp: encoded_keys_def)
  ultimately show ?thesis
    by (simp add: keyed_digest_new_def del: assertPurposeSeparatedKeys.simps)
qed

lemma validated_encryption:
  assumes "assertEncodedKeys e = Inr ()"
  shows "succeeded (identity_encryption_new (text_of e))
    \<longleftrightarrow> length (b64_decode (text_of e ''IDENTITY_ENCRYPTION_SECRET'')) = 32"
proof -
  have "text_of e ''IDENTITY_ENCRYPTION_SECRET'' \<in> set (encoded_keys e)" by (simp add: encoded_keys_def)
  then show ?thesis by (simp add: identity_encryption_new_def encoded_key_decodes [OF assms])
qed

text \<open>The previous keys that \<open>parsePreviousSigningKeys\<close> lets through are RSA keys.\<close>

lemma previous_keys_rsa:
  "previous_keys_from E seen cs = Inr ks \<Longrightarrow> (k, key) \<in> set ks \<Longrightarrow> rsa_public_key E key = Some True"
  by (induction E seen cs arbitrary: ks rule: previous_keys_from.induct)
    (auto split: option.splits json.splits sum.splits if_splits)

lemma validated_signing:
  assumes "signing_keys_valid E P e"
  shows "access_token_new E P e = Inr ()"
proof -
  obtain ks where ks: "parsePreviousSigningKeys E (text_of e ''MUCYORA_AUTH_PREVIOUS_SIGNING_PUBLIC_KEYS_JSON'')
      (text_of e ''MUCYORA_AUTH_SIGNING_KEY_ID'') = Inr ks"
    using assms unfolding signing_keys_valid_def by (metis succeeded_simps(1) sum.exhaust)
  then have "rsa_public_key E key = Some True" if "(k, key) \<in> set ks" for k key
    using that previous_keys_rsa by (auto simp: parsePreviousSigningKeys_def split: option.split_asm json.split_asm if_split_asm)
  with ks assms show ?thesis
    by (auto simp: access_token_new_def signing_keys_valid_def all_checks_Inr)
qed

lemma encryption_created: "(SecurityPrimitivesModule_id, IdentityEncryptionService_token) \<in> set (creation_order app_modules)"
  by code_simp

lemma validated_checks:
  assumes "validateEnvironment E P values = Inr e"
  shows "assertEncodedKeys e = Inr ()" and "signing_keys_valid E P e"
    and "succeeded (parseAllowedOrigins P (text_of e ''CORS_ALLOWED_ORIGINS''))"
proof -
  note c = validateEnvironment_InrD(2) [OF assms, unfolded config_checks_def]
  show "assertEncodedKeys e = Inr ()" by (rule c) simp
  have "assertAuthSigningConfiguration E P e = Inr ()" by (rule c) simp
  then show "signing_keys_valid E P e" by (simp add: assertAuthSigningConfiguration_def all_checks_Inr)
  have "(case parseAllowedOrigins P (text_of e ''CORS_ALLOWED_ORIGINS'') of
        Inl x \<Rightarrow> Inl x
      | Inr origins \<Rightarrow> reject_if (origins = []) ''CORS_ALLOWED_ORIGINS must contain at least one origin'') = Inr ()"
    by (rule c) simp
  then show "succeeded (parseAllowedOrigins P (text_of e ''CORS_ALLOWED_ORIGINS''))"
    by (auto split: sum.split_asm)
qed

lemma constructed:
  assumes "validateEnvironment E P values = Inr e" and "\<And>t. library t = Inr ()"
  shows "all_checks (map (\<lambda>(m, t). construct E P library e t) (creation_order app_modules)) = Inr ()
    \<longleftrightarrow> length (b64_decode (text_of e ''IDENTITY_ENCRYPTION_SECRET'')) = 32" (is "?all \<longleftrightarrow> ?exact")
proof -
  note v = validated_checks [OF assms(1)]
  have enc: "construct E P library e IdentityEncryptionService_token = Inr () \<longleftrightarrow> ?exact"
    using validated_encryption [OF v(1)]
    by (cases "identity_encryption_new (text_of e)") (simp_all add: construct_def)
  have other: "construct E P library e t = Inr ()" if "t \<noteq> IdentityEncryptionService_token" for t
    using that validated_keyed_digests [OF v(1)] validated_signing [OF v(2)] assms(2)
    by (cases "keyed_digest_new (text_of e)") (simp_all add: construct_def)
  show ?thesis
  proof
    assume ?all
    then have "construct E P library e IdentityEncryptionService_token = Inr ()"
      using encryption_created by (force simp: all_checks_Inr)
    then show ?exact using enc by simp
  next
    assume ?exact
    then have "construct E P library e t = Inr ()" for t
      using enc other by (cases "t = IdentityEncryptionService_token") simp_all
    then show ?all by (auto simp: all_checks_Inr)
  qed
qed

text \<open>The intervals of the timers are between a second and an hour.\<close>

lemma timer_bounds:
  assumes "validateEnvironment E P values = Inr e" and "(w, t) \<in> set (timers e)"
  shows "1000 \<le> t \<and> t \<le> 3600000"
proof -
  have s: "map_of environmentSchema ''OUTBOX_POLL_INTERVAL_MS'' = Some (Number_Setting 1000 60000 5000)"
    "map_of environmentSchema ''OPERATIONAL_JOBS_INTERVAL_MS'' = Some (Number_Setting 10000 3600000 300000)"
    "map_of environmentSchema ''VERIFICATION_CLEANUP_INTERVAL_MS'' = Some (Number_Setting 10000 3600000 300000)"
    by (simp_all only: schema_defs)
  show ?thesis
    using validated_number [OF assms(1) s(1)] validated_number [OF assms(1) s(2)] validated_number [OF assms(1) s(3)]
      assms(2)
    by (auto simp: timers_def outbox_timer_def jobs_timer_def cleanup_timer_def split: if_split_asm)
qed

text \<open>C26. The service starts on a validated environment, when its libraries do, exactly if the identity encryption
  secret decodes to 32 bytes: every other constructor that can fail has been checked by the validation.
  The validation itself asks for 32 bytes or more.\<close>

theorem validated_service_starts:
  assumes "validateEnvironment E P values = Inr e" and "\<And>t. library t = Inr ()"
  shows "succeeded (bootstrap E P library values)
    \<longleftrightarrow> length (b64_decode (text_of e ''IDENTITY_ENCRYPTION_SECRET'')) = 32"
  using constructed [OF assms] validated_checks(3) [OF assms(1)]
  by (auto simp: bootstrap_def assms(1) split: sum.split)

theorem validated_service_starts_witness:
  "succeeded (validateEnvironment sample_env sample_platform sample_values)
    \<and> \<not> succeeded (bootstrap sample_env sample_platform (\<lambda>t. Inr ()) sample_values)"
proof -
  obtain e where v: "validateEnvironment sample_env sample_platform sample_values = Inr e"
    by (rule sample_environment)
  have "text_of e ''IDENTITY_ENCRYPTION_SECRET'' = sample_key (CHR ''a'')"
    using sample_texts [OF validateEnvironment_InrD(1) [OF v]] by simp
  then show ?thesis
    using validated_service_starts [OF v, of "\<lambda>t. Inr ()"] v by (simp add: sample_key_decodes)
qed

text \<open>A validated environment has every member of \<open>AuthEnvironment\<close>, at the type the interface declares.\<close>

lemma validated_environment_typed:
  assumes "validateEnvironment E P values = Inr e"
  shows "implements e AuthEnvironment"
  by (rule read_settings_implements [OF validateEnvironment_InrD(1) [OF assms] schema_fits])

lemma validated_environment_typed_witness:
  "\<exists>e. validateEnvironment sample_env sample_platform sample_values = Inr e \<and> implements e AuthEnvironment"
proof -
  obtain e where v: "validateEnvironment sample_env sample_platform sample_values = Inr e"
    by (rule sample_environment)
  with validated_environment_typed [OF v] show ?thesis by blast
qed

end
