(* ===== verification/Document.thy ===== *)
theory Document
  imports Contract Startup
begin

text \<open>
  The OpenAPI document (\<open>openapi.ts\<close>, \<open>contracts/openapi.json\<close>) and where the service shows it (\<open>main.ts\<close>): what the
  document says of every route against the routes, the address it gives them, and which of its own
  addresses the Basic authentication of production protects.  The generator and the user interface are
  library code; what they do is the committed document, and a parameter.
\<close>

subsection \<open>The configuration of the document\<close>

datatype security_scheme = Http_Scheme string string | Api_Key string string

record document_config =
  dcf_title :: string
  dcf_description :: string
  dcf_version :: string
  dcf_servers :: "(string \<times> string) list"
  dcf_security :: "(string \<times> security_scheme) list"

definition AUTH_API_VERSION :: string where
  "AUTH_API_VERSION = ''1.0.0''"

text \<open>A scheme over HTTP and its format; a key by its place and name.\<close>

definition auth_document_config :: document_config where
  "auth_document_config =
     \<lparr>dcf_title = ''MUCYORA Auth Service'',
      dcf_description = ''Versioned authentication and identity-verification API. All people and identifiers in examples are fictional Rwandan test data.'',
      dcf_version = AUTH_API_VERSION,
      dcf_servers = [(''/api/v1'', ''Version 1 public and internal API'')],
      dcf_security =
        [(''bearer'', Http_Scheme ''bearer'' ''JWT''), (''refreshCookie'', Api_Key ''cookie'' ''mucyora_refresh''),
         (''csrf'', Api_Key ''header'' ''x-csrf-token''),
         (''internalServiceName'', Api_Key ''header'' ''x-mucyora-service-name''),
         (''internalServiceKey'', Api_Key ''header'' ''x-mucyora-service-key'')]\<rparr>"

subsection \<open>The operations of the committed document\<close>

text \<open>Identifier, method, path, status of success, and the alternatives of schemes that it asks for.\<close>

datatype operation = Operation string http_method string nat "string list list"

definition published_operations :: "operation list" where
  "published_operations =
    [Operation ''Jwks_getKeys'' GET ''/.well-known/jwks.json'' 200 [],
     Operation ''Auth_login'' POST ''/api/v1/auth/login'' 200 [],
     Operation ''Sessions_logout'' POST ''/api/v1/auth/logout'' 204 [[''bearer'']],
     Operation ''Sessions_logoutAll'' POST ''/api/v1/auth/logout-all'' 204 [[''bearer'']],
     Operation ''Passkey_list'' GET ''/api/v1/auth/passkeys'' 200 [[''bearer'']],
     Operation ''Passkey_revoke'' DELETE ''/api/v1/auth/passkeys/{credentialId}'' 204 [[''bearer'']],
     Operation ''PasskeyAuthentication_options'' POST ''/api/v1/auth/passkeys/authentication/options'' 201 [],
     Operation ''PasskeyAuthentication_verify'' POST ''/api/v1/auth/passkeys/authentication/verify'' 200 [],
     Operation ''Passkey_recoveryCodes'' POST ''/api/v1/auth/passkeys/recovery-codes'' 201 [[''bearer'']],
     Operation ''Passkey_options'' POST ''/api/v1/auth/passkeys/registration/options'' 201 [[''bearer'']],
     Operation ''Passkey_verify'' POST ''/api/v1/auth/passkeys/registration/verify'' 200 [[''bearer'']],
     Operation ''Password_change'' POST ''/api/v1/auth/password/change'' 200 [[''bearer'']],
     Operation ''Password_forgot'' POST ''/api/v1/auth/password/forgot'' 200 [],
     Operation ''Password_reset'' POST ''/api/v1/auth/password/reset'' 200 [],
     Operation ''RecoveryCode_consume'' POST ''/api/v1/auth/recovery-codes/consume'' 200 [],
     Operation ''Auth_refresh'' POST ''/api/v1/auth/refresh'' 200 [[], [''csrf'', ''refreshCookie'']],
     Operation ''SessionUpgrade_upgrade'' POST ''/api/v1/auth/session/upgrade'' 200 [[''bearer'']],
     Operation ''Sessions_list'' GET ''/api/v1/auth/sessions'' 200 [[''bearer'']],
     Operation ''Sessions_revoke'' DELETE ''/api/v1/auth/sessions/{sessionId}'' 204 [[''bearer'']],
     Operation ''IdentityVerification_createAttempt'' POST ''/api/v1/identity-verification/attempts'' 200 [[''bearer'']],
     Operation ''IdentityVerification_attempt'' GET ''/api/v1/identity-verification/attempts/{attemptId}'' 200 [[''bearer'']],
     Operation ''IdentityVerification_createLivenessSession'' POST ''/api/v1/identity-verification/attempts/{attemptId}/liveness-session'' 200 [[''bearer'']],
     Operation ''IdentityVerification_confirmUpload'' POST ''/api/v1/identity-verification/attempts/{attemptId}/media/confirm'' 200 [[''bearer'']],
     Operation ''IdentityVerification_submit'' POST ''/api/v1/identity-verification/attempts/{attemptId}/submit'' 200 [[''bearer'']],
     Operation ''IdentityVerification_createUploadPolicy'' POST ''/api/v1/identity-verification/attempts/{attemptId}/upload-policy'' 201 [[''bearer'']],
     Operation ''IdentityVerification_status'' GET ''/api/v1/identity-verification/status'' 200 [[''bearer'']],
     Operation ''Operations_status'' GET ''/api/v1/internal/operations/jobs'' 200 [[''internalServiceKey'', ''internalServiceName'']],
     Operation ''InternalStepUp_consume'' POST ''/api/v1/internal/step-up/assertions/consume'' 200 [[''internalServiceKey'', ''internalServiceName'']],
     Operation ''Registration_register'' POST ''/api/v1/registration'' 201 [],
     Operation ''Registration_initiateCitizenLookup'' POST ''/api/v1/registration/citizen/lookup'' 201 [],
     Operation ''EmailVerification_resend'' POST ''/api/v1/registration/email/resend'' 202 [],
     Operation ''EmailVerification_verify'' POST ''/api/v1/registration/email/verify'' 200 [],
     Operation ''StepUpVerification_create'' POST ''/api/v1/step-up/challenges'' 201 [[''bearer'']],
     Operation ''StepUpVerification_challenge'' GET ''/api/v1/step-up/challenges/{challengeId}'' 200 [[''bearer'']],
     Operation ''StepUpVerification_assertion'' POST ''/api/v1/step-up/challenges/{challengeId}/assertion'' 200 [[''bearer'']],
     Operation ''Health_live'' GET ''/health/live'' 200 [],
     Operation ''Health_ready'' GET ''/health/ready'' 200 []]"

definition documented_segment :: "string \<Rightarrow> segment" where
  "documented_segment s = (case s of [] \<Rightarrow> Literal [] | c # cs \<Rightarrow> if c = CHR ''{'' then Parameter else Literal s)"

definition documented_path :: "string \<Rightarrow> segment list" where
  "documented_path p = map documented_segment (drop 1 (split_on (CHR ''/'') p))"

text \<open>The schemes of a guard; a refresh presents its token in the body, or the cookie and the CSRF value.\<close>

definition guard_schemes :: "endpoint \<Rightarrow> guarded \<Rightarrow> string list list" where
  "guard_schemes e g = (case g of
     Bearer l \<Rightarrow> [[''bearer'']] | Upgrade_Guard \<Rightarrow> [[''bearer'']]
   | Internal_Guard \<Rightarrow> [[''internalServiceKey'', ''internalServiceName'']]
   | Unguarded \<Rightarrow> if e = Auth_refresh then [[], [''csrf'', ''refreshCookie'']] else [])"

fun describes :: "operation \<Rightarrow> endpoint \<times> route \<Rightarrow> bool" where
  "describes (Operation k m p status schemes) (e, r) \<longleftrightarrow> m = rte_method r \<and> documented_path p = rte_path r
     \<and> schemes = guard_schemes e (rte_guard r) \<and> (status = rte_status r \<longleftrightarrow> e \<noteq> Identity_createAttempt)"

fun operation_id :: "operation \<Rightarrow> string" where
  "operation_id (Operation k m p status schemes) = k"

fun known_schemes :: "operation \<Rightarrow> bool" where
  "known_schemes (Operation k m p status schemes) =
     list_all (list_all (\<lambda>x. x \<in> fst ` set (dcf_security auth_document_config))) schemes"

text \<open>The routes in the order of the document.\<close>

definition documented_endpoints :: "endpoint list" where
  "documented_endpoints =
     [Jwks_getKeys, Auth_login, Sessions_logout, Sessions_logoutAll, Passkey_list, Passkey_revoke,
      Passkey_authenticationOptions, Passkey_authenticationVerify, Passkey_recoveryCodes,
      Passkey_registrationOptions, Passkey_registrationVerify, Password_change, Password_forgot,
      Password_reset, Recovery_consume, Auth_refresh, Session_upgrade, Sessions_list, Sessions_revoke,
      Identity_createAttempt, Identity_attempt, Identity_liveness, Identity_confirmUpload,
      Identity_submit, Identity_uploadPolicy, Identity_status, Operations_jobs, Internal_consume,
      Registration_register, Registration_lookup, Email_resend, Email_verify, StepUp_create,
      StepUp_challenge, StepUp_assertion, Health_live, Health_ready]"

definition route_of :: "endpoint \<Rightarrow> route option" where
  "route_of e = map_option snd (find_row (\<lambda>x. fst x = e) route_table)"

lemma documented_endpoints_all: "distinct documented_endpoints" "set documented_endpoints = UNIV"
proof -
  show "distinct documented_endpoints" by (simp add: documented_endpoints_def)
  have "e \<in> set documented_endpoints" for e by (cases e) (simp_all add: documented_endpoints_def)
  then show "set documented_endpoints = UNIV" by blast
qed

text \<open>The published document is true of the service: it has one operation for every route and no other, under
  its method and path, with the credentials that the route's guard asks for and the status it answers on
  success, except that it announces 200 for the creation of a verification attempt, which answers 201.
  The identifiers of the operations are distinct, and every scheme they name is declared.\<close>

lemma document_describes_routes:
  "list_all2 (\<lambda>op e. case route_of e of None \<Rightarrow> False | Some r \<Rightarrow> describes op (e, r))
     published_operations documented_endpoints
    \<and> distinct documented_endpoints \<and> set documented_endpoints = UNIV
    \<and> distinct (map operation_id published_operations) \<and> list_all known_schemes published_operations"
proof (intro conjI documented_endpoints_all)
  show "list_all2 (\<lambda>op e. case route_of e of None \<Rightarrow> False | Some r \<Rightarrow> describes op (e, r))
     published_operations documented_endpoints"
    by code_simp
  show "distinct (map operation_id published_operations)" by code_simp
  show "list_all known_schemes published_operations" by code_simp
qed

subsection \<open>The addresses of the operations\<close>

text \<open>The address of an operation is its path behind the address of the server.\<close>

fun operation_address :: "operation \<Rightarrow> http_method \<times> segment list" where
  "operation_address (Operation k m p status schemes) =
     (m, documented_path (fst (hd (dcf_servers auth_document_config)) @ p))"

text \<open>What the routes and the addresses begin with.\<close>

fun third_literal :: "segment list \<Rightarrow> string" where
  "third_literal (a # b # Literal c # p) = c"
| "third_literal p = []"

lemma operation_addresses: "list_all (\<lambda>op. third_literal (snd (operation_address op))
    \<in> {''api'', ''.well-known'', ''health''}) published_operations"
  by code_simp

lemma route_thirds: "list_all (\<lambda>(e, r). third_literal (rte_path r) \<notin> {''api'', ''.well-known'', ''health''}
    \<and> list_all (\<lambda>x. x \<noteq> Parameter) (take 3 (rte_path r))) route_table"
  by code_simp

lemma match_literal:
  "segments_match p path \<Longrightarrow> i < length p \<Longrightarrow> p ! i = Literal l \<Longrightarrow> ascii_lower (path ! i) = l"
  by (induction p path arbitrary: i rule: segments_match.induct) (auto simp: nth_Cons split: nat.splits)

lemma match_length: "segments_match p path \<Longrightarrow> length p = length path"
  by (induction p path rule: segments_match.induct) auto

lemma third_literal_nth: "third_literal p \<noteq> [] \<Longrightarrow> 2 < length p \<and> p ! 2 = Literal (third_literal p)"
  by (cases p rule: third_literal.cases) (auto simp: numeral_2_eq_2)

lemma match_third:
  assumes p: "segments_match p path" "third_literal p \<noteq> []"
    and q: "segments_match q path" "list_all (\<lambda>x. x \<noteq> Parameter) (take 3 q)"
  shows "third_literal q = third_literal p"
proof -
  note t = third_literal_nth [OF p(2)]
  have len: "2 < length q" using t match_length [OF p(1)] match_length [OF q(1)] by simp
  have "take 3 q ! 2 \<in> set (take 3 q)" by (rule nth_mem) (use len in simp)
  then have "q ! 2 \<in> set (take 3 q)" by simp
  then have "q ! 2 \<noteq> Parameter" using q(2) unfolding list_all_iff by blast
  then obtain l where l: "q ! 2 = Literal l" by (cases "q ! 2") auto
  have "l = third_literal p"
    using match_literal [OF p(1), of 2] match_literal [OF q(1) len l] t by simp
  moreover have "third_literal q = l"
    using len l by (cases q rule: third_literal.cases) (auto simp: numeral_2_eq_2)
  ultimately show ?thesis by simp
qed

text \<open>The address that the published document gives to an operation, the path behind the address of the
  server, reaches no route of the service: the paths of the document already begin with the prefix that the
  server's address has, and the routes outside the prefix are documented inside it.\<close>

lemma documented_addresses_lead_nowhere:
  assumes "op \<in> set published_operations" and "segments_match (snd (operation_address op)) path"
  shows "find_route m path = None"
proof (rule ccontr)
  assume "find_route m path \<noteq> None"
  then obtain e r where f: "find_row (\<lambda>(e, r). rte_method r = m \<and> segments_match (rte_path r) path) route_table = Some (e, r)"
    by (auto simp: find_route_def)
  from find_row_SomeD [OF f] have er: "(e, r) \<in> set route_table" and r: "segments_match (rte_path r) path" by auto
  have op: "third_literal (snd (operation_address op)) \<in> {''api'', ''.well-known'', ''health''}"
    using operation_addresses assms(1) by (auto simp: list_all_iff)
  have thirds: "third_literal (rte_path r) \<notin> {''api'', ''.well-known'', ''health''}"
    "list_all (\<lambda>x. x \<noteq> Parameter) (take 3 (rte_path r))"
    using route_thirds er by (auto simp: list_all_iff)
  have "third_literal (rte_path r) = third_literal (snd (operation_address op))"
    by (rule match_third [OF assms(2) _ r thirds(2)]) (use op in auto)
  with op thirds(1) show False by simp
qed

lemma documented_addresses_lead_nowhere_witness:
  "find_route POST [''api'', ''v1'', ''api'', ''v1'', ''auth'', ''login''] = None"
proof (rule documented_addresses_lead_nowhere)
  show "Operation ''Auth_login'' POST ''/api/v1/auth/login'' 200 [] \<in> set published_operations"
    by (simp add: published_operations_def)
  show "segments_match (snd (operation_address (Operation ''Auth_login'' POST ''/api/v1/auth/login'' 200 [])))
      [''api'', ''v1'', ''api'', ''v1'', ''auth'', ''login'']"
    by code_simp
qed

subsection \<open>Where the document is shown\<close>

record swagger_options =
  swo_path :: string
  swo_jsonDocumentUrl :: "string option"
  swo_yamlDocumentUrl :: "string option"
  swo_displayOperationId :: bool
  swo_persistAuthorization :: bool

definition setupAuthSwagger :: swagger_options where
  "setupAuthSwagger = \<lparr>swo_path = ''api/docs'', swo_jsonDocumentUrl = Some ''api/docs-json'', swo_yamlDocumentUrl = None,
     swo_displayOperationId = True, swo_persistAuthorization = False\<rparr>"

text \<open>
  \<open>SwaggerModule.setup\<close> is library code: the paths that it serves are a parameter.  Its documentation says that
  the interface is at the path, and the document as JSON and as YAML at the addresses of the options, of
  which the second is the path with \<open>-yaml\<close> behind it unless it is given.
\<close>

definition swagger_laws :: "(swagger_options \<Rightarrow> string list) \<Rightarrow> bool" where
  "swagger_laws served \<longleftrightarrow> (\<forall>w. CHR ''/'' # swo_path w \<in> set (served w)
     \<and> CHR ''/'' # (case swo_jsonDocumentUrl w of None \<Rightarrow> swo_path w @ ''-json'' | Some u \<Rightarrow> u) \<in> set (served w)
     \<and> CHR ''/'' # (case swo_yamlDocumentUrl w of None \<Rightarrow> swo_path w @ ''-yaml'' | Some u \<Rightarrow> u) \<in> set (served w))"

text \<open>\<open>app.use\<close> of \<open>configureSwagger\<close>: the guard stands before every path that continues one of these with a segment.\<close>

definition protected_paths :: "string list" where
  "protected_paths = [''/api/docs'', ''/api/docs-json'']"

definition mounted_at :: "string \<Rightarrow> string \<Rightarrow> bool" where
  "mounted_at mount path \<longleftrightarrow> prefix (split_on (CHR ''/'') mount) (split_on (CHR ''/'') path)"

definition document_shown :: "(swagger_options \<Rightarrow> string list) \<Rightarrow> (string \<Rightarrow> string) \<Rightarrow> documentation \<Rightarrow> string
    \<Rightarrow> string option \<Rightarrow> bool" where
  "document_shown served base64 docs path authorization = (case docs of
     No_Documentation \<Rightarrow> False
   | Open_Documentation \<Rightarrow> path \<in> set (served setupAuthSwagger)
   | Guarded_Documentation user pass \<Rightarrow> path \<in> set (served setupAuthSwagger)
       \<and> (list_ex (\<lambda>m. mounted_at m path) protected_paths \<longrightarrow> docs_admitted base64 user pass authorization))"

lemma mounted_documents:
  "mounted_at ''/api/docs'' ''/api/docs''" "mounted_at ''/api/docs-json'' ''/api/docs-json''"
  "\<not> mounted_at ''/api/docs'' ''/api/docs-yaml''" "\<not> mounted_at ''/api/docs-json'' ''/api/docs-yaml''"
  by code_simp+

text \<open>In production the interface of the documentation and its JSON are shown to nobody without the configured
  credentials; but the same document as YAML, which the library serves beside them, is shown to everybody,
  because the guard stands in front of the first two alone.\<close>

lemma documentation_guard_misses_yaml:
  assumes "swagger_laws served" and "production e" and "flag_of e ''ENABLE_SWAGGER''"
  shows "(document_shown served base64 (configureSwagger e) ''/api/docs'' authorization \<longleftrightarrow>
       docs_admitted base64 (text_of e ''DOCS_BASIC_AUTH_USER'') (text_of e ''DOCS_BASIC_AUTH_PASS'') authorization)
    \<and> (document_shown served base64 (configureSwagger e) ''/api/docs-json'' authorization \<longleftrightarrow>
       docs_admitted base64 (text_of e ''DOCS_BASIC_AUTH_USER'') (text_of e ''DOCS_BASIC_AUTH_PASS'') authorization)
    \<and> document_shown served base64 (configureSwagger e) ''/api/docs-yaml'' None"
proof -
  have "''/api/docs'' \<in> set (served setupAuthSwagger)" "''/api/docs-json'' \<in> set (served setupAuthSwagger)"
    "''/api/docs-yaml'' \<in> set (served setupAuthSwagger)"
    using assms(1) [unfolded swagger_laws_def, rule_format, of setupAuthSwagger] by (simp_all add: setupAuthSwagger_def)
  then show ?thesis
    using assms(2,3) mounted_documents
    by (simp add: document_shown_def configureSwagger_def protected_paths_def)
qed

definition sample_swagger :: "swagger_options \<Rightarrow> string list" where
  "sample_swagger w = map (\<lambda>u. CHR ''/'' # u) [swo_path w,
     case swo_jsonDocumentUrl w of None \<Rightarrow> swo_path w @ ''-json'' | Some u \<Rightarrow> u,
     case swo_yamlDocumentUrl w of None \<Rightarrow> swo_path w @ ''-yaml'' | Some u \<Rightarrow> u]"

lemma documentation_guard_misses_yaml_witness:
  "\<exists>e. flag_of e ''ENABLE_SWAGGER''
    \<and> \<not> document_shown sample_swagger id (configureSwagger e) ''/api/docs'' None
    \<and> document_shown sample_swagger id (configureSwagger e) ''/api/docs-yaml'' None"
proof -
  have laws: "swagger_laws sample_swagger" by (simp add: swagger_laws_def sample_swagger_def)
  define e where "e = [(''APP_ENV'', Text_Value ''production''), (''ENABLE_SWAGGER'', Flag_Value True),
     (''DOCS_BASIC_AUTH_USER'', Text_Value ''docs''), (''DOCS_BASIC_AUTH_PASS'', Text_Value ''pass'')]"
  have "production e" "flag_of e ''ENABLE_SWAGGER''"
    by (simp_all add: e_def production_def flag_of_def text_of_def)
  from documentation_guard_misses_yaml [OF laws this, of id None] this show ?thesis
    by (auto simp: docs_admitted_def parseBasicCredentials_def)
qed

end
