(* ===== verification/Telemetry.thy ===== *)
theory Telemetry
  imports Startup
begin

text \<open>
  What the service tells its operators: the instruments of the telemetry (\<open>telemetry.ts\<close>), the line of a
  completed request (\<open>performance-telemetry.middleware.ts\<close>), of a failed one (\<open>global-exception.filter.ts\<close>), of
  the citizen provider (\<open>citizen-metrics.service.ts\<close>), of an alert of the jobs and of a failed start, each as
  \<open>JsonLogger\<close> writes it.
\<close>

subsection \<open>Instruments\<close>

text \<open>The instrument of HTTP with the path that it leaves out.\<close>

datatype instrument = Http_Instrument string | Nest_Instrument | IORedis_Instrument | Pg_Instrument

definition telemetry_instruments :: "(string \<Rightarrow> string option) \<Rightarrow> instrument list option" where
  "telemetry_instruments variable =
     (let enabled = (variable ''OTEL_ENABLED'' = Some ''true'')
      in if enabled
         then Some [Http_Instrument ''/health/live'', Nest_Instrument, IORedis_Instrument, Pg_Instrument]
         else None)"

subsection \<open>Entries\<close>

text \<open>\<open>durationMs\<close> counts the thousandths of a millisecond that \<open>toFixed(3)\<close> keeps.\<close>

definition request_completed :: "string \<Rightarrow> string \<Rightarrow> nat \<Rightarrow> int \<Rightarrow> json" where
  "request_completed meth path statusCode durationMs = JObj
     [(''event'', JStr ''http_request_completed''), (''method'', JStr meth),
      (''route'', JStr (normalizedRoute path)), (''statusCode'', JNum (int statusCode)),
      (''durationMs'', JNum durationMs)]"

text \<open>\<open>exception\<close> is the name of the error, \<open>None\<close> where what was thrown is no \<open>Error\<close>.\<close>

definition request_failed :: "thrown \<Rightarrow> string option \<Rightarrow> string \<Rightarrow> string \<Rightarrow> string \<Rightarrow> json option" where
  "request_failed x exception meth path correlationId =
     (if thrown_status x \<ge> 500
      then Some (JObj
        [(''event'', JStr ''request_failed''), (''statusCode'', JNum (int (thrown_status x))),
         (''method'', JStr meth), (''path'', JStr path), (''correlationId'', JStr correlationId),
         (''exception'', JObj [(''name'', JStr (case exception of Some n \<Rightarrow> n | None \<Rightarrow> ''UnknownError''))])])
      else None)"

datatype citizen_outcome =
  Cache_Hit | Cache_Miss | Outcome_Success | Outcome_Not_Found | Outcome_Unavailable | Invalid_Response

fun outcome_text :: "citizen_outcome \<Rightarrow> string" where
  "outcome_text Cache_Hit = ''cache_hit''"
| "outcome_text Cache_Miss = ''cache_miss''"
| "outcome_text Outcome_Success = ''success''"
| "outcome_text Outcome_Not_Found = ''not_found''"
| "outcome_text Outcome_Unavailable = ''unavailable''"
| "outcome_text Invalid_Response = ''invalid_response''"

text \<open>A member that is \<open>undefined\<close> is left out, as \<open>JSON.stringify\<close> leaves it out.\<close>

definition citizen_record :: "citizen_outcome \<Rightarrow> int \<Rightarrow> string \<Rightarrow> nat option \<Rightarrow> json" where
  "citizen_record outcome durationMs correlationId attempt = JObj
     ([(''message'', JStr ''Citizen provider operation''), (''event'', JStr ''citizen_provider_operation''),
       (''outcome'', JStr (outcome_text outcome)), (''durationMs'', JNum durationMs),
       (''correlationId'', JStr correlationId)]
      @ (case attempt of None \<Rightarrow> [] | Some n \<Rightarrow> [(''attempt'', JNum (int n))]))"

definition cycle_failed_alert :: json where
  "cycle_failed_alert = JObj [(''event'', JStr ''operational_job_alert''), (''code'', JStr ''OPERATIONAL_CYCLE_FAILED'')]"

definition dead_letter_alert :: "nat \<Rightarrow> json option" where
  "dead_letter_alert outboxDeadLetters =
     (if outboxDeadLetters > 0
      then Some (JObj [(''event'', JStr ''operational_job_alert''), (''code'', JStr ''OUTBOX_DEAD_LETTERS_PRESENT''),
        (''count'', JNum (int outboxDeadLetters))])
      else None)"

text \<open>The name and message of the error that ended the start, the entry it leaves and the exit code.\<close>

definition start_failed :: "(string \<times> string) option \<Rightarrow> json \<times> nat" where
  "start_failed error =
     ((case error of
         Some (name, message) \<Rightarrow> JObj [(''name'', JStr name), (''message'', JStr message)]
       | None \<Rightarrow> JStr ''Auth bootstrap failed''), 1)"

subsection \<open>What the entries show\<close>

text \<open>Every key of an entry at any depth that a line replaces.\<close>

lemma correlationId_sensitive: "isSensitiveKey ''correlationId''"
  by code_simp

lemma failed_line:
  assumes "request_failed x exception meth path correlationId = Some entry"
  shows "sanitizeLogValue entry = JObj
    [(''event'', JStr ''request_failed''), (''statusCode'', JNum (int (thrown_status x))),
     (''method'', JStr (redact_text meth)), (''path'', JStr (redact_text path)),
     (''correlationId'', JStr ''[REDACTED]''),
     (''exception'', JObj [(''name'', JStr (redact_text (case exception of Some n \<Rightarrow> n | None \<Rightarrow> ''UnknownError'')))])]"
proof -
  have "\<not> isSensitiveKey ''event''" "\<not> isSensitiveKey ''statusCode''" "\<not> isSensitiveKey ''method''"
    "\<not> isSensitiveKey ''path''" "\<not> isSensitiveKey ''exception''" "\<not> isSensitiveKey ''name''"
    by code_simp+
  moreover have "redact_text ''request_failed'' = ''request_failed''" by code_simp
  ultimately show ?thesis using assms correlationId_sensitive
    by (auto simp: request_failed_def split: if_split_asm)
qed

lemma citizen_line_untraced:
  "sanitizeLogValue (citizen_record outcome d c1 attempt) = sanitizeLogValue (citizen_record outcome d c2 attempt)"
  using correlationId_sensitive by (simp add: citizen_record_def)

text \<open>C28. A failed request cannot be found in the log by the identifier that its answer gives: of every request
  that ends in an error of the server, the answer repeats the correlation identifier, the line is written, and
  the line is the same whatever the identifier was, because \<open>correlationId\<close> contains \<open>nid\<close> and is redacted.
  The same holds of every line about the citizen provider.\<close>

theorem failures_untraceable:
  assumes "thrown_status x \<ge> 500"
  shows "\<exists>entry1 entry2.
      request_failed x exception meth path c1 = Some entry1 \<and> request_failed x exception meth path c2 = Some entry2
    \<and> formatMessage E ''error'' (Log_Value entry1) context_name = formatMessage E ''error'' (Log_Value entry2) context_name
    \<and> err_correlationId (buildResponse E x path c1) = c1 \<and> err_correlationId (buildResponse E x path c2) = c2
    \<and> formatMessage E ''log'' (Log_Value (citizen_record outcome d c1 attempt)) context_name
      = formatMessage E ''log'' (Log_Value (citizen_record outcome d c2 attempt)) context_name"
proof -
  obtain e1 e2 where e: "request_failed x exception meth path c1 = Some e1"
      "request_failed x exception meth path c2 = Some e2"
    using assms by (simp add: request_failed_def)
  then have "sanitizeLogValue e1 = sanitizeLogValue e2"
    by (simp add: failed_line [OF e(1)] failed_line [OF e(2)])
  moreover have "err_correlationId (buildResponse E x path c) = c" for c
    by (simp add: buildResponse_def Let_def split: thrown.split http_body.split prod.split)
  ultimately show ?thesis
    using e citizen_line_untraced [of outcome d c1 attempt c2]
    by (simp add: formatMessage_def sanitize_message_def)
qed

theorem failures_untraceable_witness:
  "\<exists>entry1 entry2.
      request_failed Other_Exception (Some ''TypeError'') ''POST'' ''/api/v1/auth/login'' ''req-1'' = Some entry1
    \<and> request_failed Other_Exception (Some ''TypeError'') ''POST'' ''/api/v1/auth/login'' ''req-2'' = Some entry2
    \<and> formatMessage sample_env ''error'' (Log_Value entry1) [] = formatMessage sample_env ''error'' (Log_Value entry2) []"
  using failures_untraceable [of Other_Exception "Some ''TypeError''" "''POST''" "''/api/v1/auth/login''"
      "''req-1''" "''req-2''" sample_env "[]"]
  by (simp add: thrown_status_def) blast

text \<open>The route of a completed request names neither a UUID nor a long value.\<close>

lemma split_on_segments:
  "CHR ''/'' \<notin> set s \<Longrightarrow> list_all (\<lambda>t. CHR ''/'' \<notin> set t) ss \<Longrightarrow>
   split_on (CHR ''/'') (s @ concat (map (\<lambda>t. CHR ''/'' # t) ss)) = s # ss"
  by (induction ss arbitrary: s) (simp_all add: split_on_none split_on_append)

lemma split_on_parts: "t \<in> set (split_on sep s) \<Longrightarrow> sep \<notin> set t"
  by (induction s arbitrary: t) (auto split: list.splits if_splits)

lemma normalized_segment_plain:
  "\<not> uuid_segment (normalized_segment t) \<and> \<not> long_segment (normalized_segment t)"
proof -
  have "\<not> uuid_segment '':id''" "\<not> uuid_segment '':value''" "\<not> long_segment '':id''" "\<not> long_segment '':value''"
    by code_simp+
  then show ?thesis by (simp add: normalized_segment_def)
qed

lemma completed_route_plain:
  assumes "t \<in> set (tl (split_on (CHR ''/'') (normalizedRoute path)))"
  shows "\<not> uuid_segment t \<and> \<not> long_segment t"
proof -
  obtain s ss where s: "split_on (CHR ''/'') path = s # ss"
    by (cases "split_on (CHR ''/'') path") auto
  have parts: "CHR ''/'' \<notin> set u" if "u \<in> set (s # ss)" for u
    using split_on_parts [of u "CHR ''/''" path] that s by simp
  have "CHR ''/'' \<notin> set (normalized_segment u)" if "u \<in> set ss" for u
    using parts [of u] that by (simp add: normalized_segment_def)
  then have "split_on (CHR ''/'') (normalizedRoute path) = s # map normalized_segment ss"
    using split_on_segments [of s "map normalized_segment ss"] parts [of s]
    by (simp add: normalizedRoute_def s list_all_iff comp_def)
  then show ?thesis using assms normalized_segment_plain by auto
qed

end
