(* ===== verification/Browser.thy ===== *)
theory Browser
  imports Boundary
begin

text \<open>
  The service as a page in a browser reaches it (\<open>common/security/cors.config.ts\<close> and its users): the options of
  CORS, what a preflight with them admits, and which requests of the routes survive it.
\<close>

subsection \<open>The options\<close>

record cors_options =
  cor_origin :: "string option \<Rightarrow> bool result"
  cor_methods :: "string list"
  cor_allowedHeaders :: "string list"
  cor_exposedHeaders :: "string list"
  cor_credentials :: bool
  cor_maxAge :: nat

definition CORRELATION_HEADER :: string where
  "CORRELATION_HEADER = ''X-Correlation-Id''"

definition buildCorsOptions :: "config_platform \<Rightarrow> string \<Rightarrow> cors_options result" where
  "buildCorsOptions P allowedOriginValue =
     (case parseAllowedOrigins P allowedOriginValue of
        Inl e \<Rightarrow> Inl e
      | Inr allowedOrigins \<Rightarrow> Inr
          \<lparr>cor_origin = cors_allows P allowedOriginValue,
           cor_methods = [''GET'', ''POST'', ''PATCH'', ''DELETE'', ''OPTIONS''],
           cor_allowedHeaders = [''Authorization'', ''Content-Type'', ''Idempotency-Key'', CORRELATION_HEADER,
             ''X-CSRF-Token''],
           cor_exposedHeaders = [CORRELATION_HEADER, ''Retry-After''],
           cor_credentials = True, cor_maxAge = 86400\<rparr>)"

subsection \<open>Requests of a page\<close>

text \<open>
  A page of another origin sets headers on a request only if the answer to the preflight names them, without
  regard to case, and uses a method only if it names it.  \<open>own\<close> are the headers that the browser sets itself.
\<close>

definition method_text :: "http_method \<Rightarrow> string" where
  "method_text m = (case m of GET \<Rightarrow> ''GET'' | POST \<Rightarrow> ''POST'' | DELETE \<Rightarrow> ''DELETE'')"

definition may_carry :: "string set \<Rightarrow> cors_options \<Rightarrow> string \<Rightarrow> bool" where
  "may_carry own opts h \<longleftrightarrow> h \<in> own \<or> h \<in> set (map ascii_lower (cor_allowedHeaders opts))"

definition sent_by_page :: "string set \<Rightarrow> cors_options \<Rightarrow> string \<Rightarrow> http_request \<Rightarrow> bool" where
  "sent_by_page own opts origin q \<longleftrightarrow> cor_origin opts (Some origin) = Inr True
     \<and> method_text (hrq_method q) \<in> set (cor_methods opts)
     \<and> (\<forall>h. hrq_header q h \<noteq> None \<longrightarrow> may_carry own opts h)"

text \<open>The request with the headers that it may carry alone.\<close>

definition page_request :: "string set \<Rightarrow> cors_options \<Rightarrow> http_request \<Rightarrow> http_request" where
  "page_request own opts q = q\<lparr>hrq_header := (\<lambda>h. if may_carry own opts h then hrq_header q h else None)\<rparr>"

definition service_endpoints :: "endpoint set" where
  "service_endpoints = {Internal_consume, Operations_jobs}"

lemma page_request_simps [simp]:
  "hrq_method (page_request own opts q) = hrq_method q" "hrq_path (page_request own opts q) = hrq_path q"
  "hrq_cookies (page_request own opts q) = hrq_cookies q" "hrq_body (page_request own opts q) = hrq_body q"
  "client_address (page_request own opts q) = client_address q"
  "may_carry own opts h \<Longrightarrow> hrq_header (page_request own opts q) h = hrq_header q h"
  "\<not> may_carry own opts h \<Longrightarrow> hrq_header (page_request own opts q) h = None"
  by (simp_all add: page_request_def client_address_def)

lemma allowed_headers:
  assumes "buildCorsOptions P v = Inr opts"
  shows "may_carry own opts h \<longleftrightarrow> h \<in> own
    \<or> h \<in> {''authorization'', ''content-type'', ''idempotency-key'', ''x-correlation-id'', ''x-csrf-token''}"
proof -
  have "map ascii_lower [''Authorization'', ''Content-Type'', ''Idempotency-Key'', CORRELATION_HEADER, ''X-CSRF-Token'']
      = [''authorization'', ''content-type'', ''idempotency-key'', ''x-correlation-id'', ''x-csrf-token'']"
    by code_simp
  moreover have "cor_allowedHeaders opts
      = [''Authorization'', ''Content-Type'', ''Idempotency-Key'', CORRELATION_HEADER, ''X-CSRF-Token'']"
    using assms by (cases "parseAllowedOrigins P v") (auto simp add: buildCorsOptions_def)
  ultimately have "set (map ascii_lower (cor_allowedHeaders opts))
      = {''authorization'', ''content-type'', ''idempotency-key'', ''x-correlation-id'', ''x-csrf-token''}"
    by (simp only: list.set)
  then show ?thesis unfolding may_carry_def by simp
qed

lemma page_request_sent:
  assumes "buildCorsOptions P v = Inr opts" and "cor_origin opts (Some origin) = Inr True"
  shows "sent_by_page own opts origin (page_request own opts q)"
proof -
  have "method_text m \<in> set (cor_methods opts)" for m
    using assms(1) by (cases m) (auto simp: buildCorsOptions_def method_text_def split: sum.split_asm)
  moreover have "may_carry own opts h" if "hrq_header (page_request own opts q) h \<noteq> None" for h
    using that by (cases "may_carry own opts h") simp_all
  ultimately show ?thesis using assms(2) unfolding sent_by_page_def by blast
qed

text \<open>What the handlers read of the headers.\<close>

definition same_call :: "endpoint \<Rightarrow> call \<Rightarrow> call \<Rightarrow> bool" where
  "same_call e c c' \<longleftrightarrow> cal_correlationId c' = cal_correlationId c \<and> cal_caller c' = cal_caller c
     \<and> cal_parameters c' = cal_parameters c \<and> cal_body c' = cal_body c
     \<and> client_address (cal_request c') = client_address (cal_request c)
     \<and> hrq_cookies (cal_request c') = hrq_cookies (cal_request c)
     \<and> (\<forall>h \<in> {''user-agent'', ''idempotency-key'', ''x-csrf-token''}. call_header c' h = call_header c h)
     \<and> (e = Registration_lookup \<longrightarrow> call_header c' ''x-client-instance-id'' = call_header c ''x-client-instance-id'')"

lemma handle_same_call: "same_call e c c' \<Longrightarrow> handle e W c' s = handle e W c s"
proof -
  assume same: "same_call e c c'"
  then have "call_context c' = call_context c" "call_principal c' = call_principal c"
    "call_parameter c' = call_parameter c" "call_service c' = call_service c"
    by (simp_all add: same_call_def call_context_def user_agent_def call_principal_def call_parameter_def call_service_def)
  with same show ?thesis
    by (cases e)
      (simp_all add: same_call_def auth_login_def auth_refresh_def session_upgrade_def sessions_logout_def
        sessions_logoutAll_def sessions_list_def sessions_revoke_def password_forgot_def password_reset_def
        password_change_def registration_register_def registration_lookup_def email_verify_def email_resend_def
        stepUp_create_def stepUp_challenge_def stepUp_assertion_def internal_consume_def identity_createAttempt_def
        identity_uploadPolicy_def identity_confirmUpload_def identity_liveness_def identity_submit_def
        identity_status_def identity_attempt_def passkey_authenticationOptions_def passkey_authenticationVerify_def
        passkey_registrationOptions_def passkey_registrationVerify_def passkey_listing_def passkey_revocation_def
        passkey_recoveryCodes_def recovery_consume_def operations_jobs_def jwks_getKeys_def live_probe_def
        ready_probe_def Let_def split: sum.split option.split)
qed

lemma serve_page_request:
  assumes f: "find_route (hrq_method q) (hrq_path q) = Some (e, r)" and e: "e \<notin> insert Registration_lookup service_endpoints"
    and opts: "buildCorsOptions P v = Inr opts" and ua: "''user-agent'' \<in> own"
  shows "serve W (page_request own opts q) s = serve W q s"
proof -
  let ?q = "page_request own opts q"
  have h: "hrq_header ?q h = hrq_header q h"
    if "h \<in> {''user-agent'', ''authorization'', ''idempotency-key'', ''x-correlation-id'', ''x-csrf-token''}" for h
    using that ua allowed_headers [OF opts, of own h] by auto
  have "rte_guard r \<noteq> Internal_Guard"
    using e route_guards(4) [OF find_route_row [OF f]] by (auto simp: service_endpoints_def)
  then have a: "authenticate E (rte_guard r) ?q d = authenticate E (rte_guard r) q d" for E d
    by (auto simp: authenticate_def h split: guarded.split)
  have p: "run_pipes V r ?q = run_pipes V r q" for V by (simp add: run_pipes_def Let_def split: option.split)
  have c: "handle e W (c\<lparr>cal_request := ?q\<rparr>) s = handle e W (c\<lparr>cal_request := q\<rparr>) s" for c
    by (rule handle_same_call) (use e h in \<open>simp add: same_call_def\<close>)
  have call: "handle e W \<lparr>cal_request = ?q, cal_correlationId = k, cal_caller = w, cal_parameters = ps, cal_body = fs\<rparr> s
      = handle e W \<lparr>cal_request = q, cal_correlationId = k, cal_caller = w, cal_parameters = ps, cal_body = fs\<rparr> s"
    for k w ps fs
    using c [of "\<lparr>cal_request = q, cal_correlationId = k, cal_caller = w, cal_parameters = ps, cal_body = fs\<rparr>"] by simp
  show ?thesis by (simp add: serve_def Let_def f a p h call split: sum.split prod.split)
qed

lemma serve_page_refused:
  assumes f: "find_route (hrq_method q) (hrq_path q) = Some (e, r)" and e: "e \<in> insert Registration_lookup service_endpoints"
    and opts: "buildCorsOptions P v = Inr opts"
    and own: "''x-client-instance-id'' \<notin> own" "''x-mucyora-service-key'' \<notin> own"
  shows "\<exists>x. serve W (page_request own opts q) s = (Inl x, s) \<and> error_status x \<in> {400, 401}"
proof -
  let ?q = "page_request own opts q"
  have h: "hrq_header ?q ''x-client-instance-id'' = None" "hrq_header ?q ''x-mucyora-service-key'' = None"
    using own allowed_headers [OF opts, of own] by simp_all
  consider "e = Registration_lookup" | "rte_guard r = Internal_Guard"
    using e route_guards(4) [OF find_route_row [OF f]] by (auto simp: service_endpoints_def)
  then show ?thesis
  proof cases
    case 1
    then have "rte_guard r = Unguarded" using route_guards(1) [OF find_route_row [OF f]] by (simp add: public_endpoints_def)
    then show ?thesis
      using 1 h(1)
      by (auto simp: serve_def Let_def f authenticate_def run_pipes_def registration_lookup_def valid_client_instance_def
          truthy_text_def validate_body_def error_status_def map_sum_Inr split: sum.splits option.splits json.splits)
  next
    case 2
    then show ?thesis
      using h(2) by (auto simp: serve_def Let_def f authenticate_def internal_service_guard_def error_status_def
          split: sum.split option.split)
  qed
qed

text \<open>C30. A page of an allowed origin can use every route for users except one: whatever it asks, stripped of the
  headers that CORS does not let it set, is sent and answered as if it had them all.  The exception is the
  citizen lookup with which a registration begins: its client identifier is required and is not among the
  allowed headers, so that a page's lookup is always refused and changes nothing.  The routes between
  services refuse pages likewise, as they are meant to.\<close>

theorem pages_reach_routes:
  assumes "find_route (hrq_method q) (hrq_path q) = Some (e, r)" and "buildCorsOptions P v = Inr opts"
    and "cor_origin opts (Some origin) = Inr True" and "''user-agent'' \<in> own"
    and "''x-client-instance-id'' \<notin> own" and "''x-mucyora-service-key'' \<notin> own"
  shows "sent_by_page own opts origin (page_request own opts q)
    \<and> (if e \<in> insert Registration_lookup service_endpoints
       then \<exists>x. serve W (page_request own opts q) s = (Inl x, s) \<and> error_status x \<in> {400, 401}
       else serve W (page_request own opts q) s = serve W q s)"
proof (cases "e \<in> insert Registration_lookup service_endpoints")
  case True
  then show ?thesis
    using page_request_sent [OF assms(2,3)] serve_page_refused [OF assms(1) True assms(2,5,6)] by simp
next
  case False
  then show ?thesis
    using page_request_sent [OF assms(2,3)] serve_page_request [OF assms(1) False assms(2,4)] by simp
qed

definition lookup_request :: http_request where
  "lookup_request = (sample_request POST [''api'', ''v1'', ''registration'', ''citizen'', ''lookup''] None)
     \<lparr>hrq_header := map_of [(''x-client-instance-id'', ''web-kigali-000001''), (''user-agent'', ''browser'')]\<rparr>"

lemma lookup_route:
  "find_route POST [''api'', ''v1'', ''registration'', ''citizen'', ''lookup'']
     = Some (Registration_lookup, snd (last RegistrationController))"
proof -
  have "(Registration_lookup, snd (last RegistrationController)) \<in> set route_table"
    by (simp add: route_table_def RegistrationController_def)
  moreover have "segments_match (rte_path (snd (last RegistrationController)))
      [''api'', ''v1'', ''registration'', ''citizen'', ''lookup'']"
    by code_simp
  moreover have "rte_method (snd (last RegistrationController)) = POST"
    by (simp add: RegistrationController_def prefixed_def)
  ultimately show ?thesis by (simp add: find_route_iff)
qed

theorem pages_reach_routes_witness:
  "\<exists>opts x. buildCorsOptions sample_platform ''https://m.rw'' = Inr opts
    \<and> cor_origin opts (Some ''https://m.rw'') = Inr True
    \<and> valid_client_instance (hrq_header lookup_request ''x-client-instance-id'')
    \<and> serve sample_world (page_request {''user-agent''} opts lookup_request) sample_server = (Inl x, sample_server)
    \<and> error_status x \<in> {400, 401}"
proof -
  have p: "parseAllowedOrigins sample_platform ''https://m.rw'' = Inr [''https://m.rw'']" by code_simp
  define opts where "opts = projr (buildCorsOptions sample_platform ''https://m.rw'')"
  have o: "buildCorsOptions sample_platform ''https://m.rw'' = Inr opts" "cor_origin opts (Some ''https://m.rw'') = Inr True"
    by (simp_all add: opts_def buildCorsOptions_def p cors_allows_def)
  have v: "valid_client_instance (hrq_header lookup_request ''x-client-instance-id'')" by code_simp
  have "find_route (hrq_method lookup_request) (hrq_path lookup_request)
      = Some (Registration_lookup, snd (last RegistrationController))"
    by (simp add: lookup_request_def lookup_route)
  from pages_reach_routes [OF this o, of "{''user-agent''}" sample_world sample_server] o v
  show ?thesis by auto
qed

end
