(* ===== verification/LoadTest.thy ===== *)
theory LoadTest
  imports Browser
begin

text \<open>
  The load test (\<open>performance/k6/auth-load.js\<close>): its settings, its scenarios, the requests it sends and the
  checks on their answers, against the service as \<open>serve\<close> answers.  The environment of k6 and the parsers of
  JavaScript are parameters.
\<close>

subsection \<open>Settings\<close>

text \<open>\<open>ldv_number\<close> is \<open>Number\<close>, \<open>None\<close> where it is not finite; \<open>ldv_hostname\<close> is the host of \<open>new URL\<close>, \<open>None\<close> where it throws.\<close>

record load_env =
  ldv_env :: "string \<Rightarrow> string option"
  ldv_number :: "string \<Rightarrow> int option"
  ldv_parse :: "string \<Rightarrow> json option"
  ldv_hostname :: "string \<Rightarrow> string option"

definition env_or :: "load_env \<Rightarrow> string \<Rightarrow> string \<Rightarrow> string" where
  "env_or L k fallback = (case ldv_env L k of None \<Rightarrow> fallback | Some v \<Rightarrow> if v = [] then fallback else v)"

definition numberEnv :: "load_env \<Rightarrow> string \<Rightarrow> int \<Rightarrow> int" where
  "numberEnv L name fallback = (case ldv_env L name of
     None \<Rightarrow> fallback
   | Some v \<Rightarrow> if v = [] then fallback
       else (case ldv_number L v of None \<Rightarrow> fallback | Some n \<Rightarrow> if n \<ge> 0 then n else fallback))"

definition parseJsonArray :: "load_env \<Rightarrow> string \<Rightarrow> json list result" where
  "parseJsonArray L v = (case ldv_parse L v of
     None \<Rightarrow> Inl (Raised ''REFRESH_TOKENS_JSON must be a JSON array.'')
   | Some j \<Rightarrow> Inr (case j of JArr js \<Rightarrow> js | _ \<Rightarrow> []))"

definition assertSafeTarget :: "load_env \<Rightarrow> string \<Rightarrow> unit result" where
  "assertSafeTarget L v = (case ldv_hostname L v of
     None \<Rightarrow> Inl (Raised ''Invalid URL'')
   | Some host \<Rightarrow>
       (let local = (host = ''127.0.0.1'' \<or> host = ''localhost'')
        in if \<not> local \<and> ldv_env L ''ALLOW_APPROVED_STAGING_TARGET'' \<noteq> Some ''true''
           then Inl (Raised ''Load tests default to localhost; approve staging explicitly.'')
           else if str_includes (ascii_lower host) ''production'' \<or> str_includes (ascii_lower host) ''prod.''
           then Inl (Raised ''Production targets are forbidden.'')
           else Inr ()))"

record load_test =
  ldt_baseUrl :: string
  ldt_accessToken :: string
  ldt_refreshTokens :: "json list"
  ldt_email :: string
  ldt_password :: string
  ldt_nid :: string
  ldt_challengeToken :: string

definition load_init :: "load_env \<Rightarrow> load_test result" where
  "load_init L = (case parseJsonArray L (env_or L ''REFRESH_TOKENS_JSON'' ''[]'') of
     Inl e \<Rightarrow> Inl e
   | Inr tokens \<Rightarrow> (case assertSafeTarget L (env_or L ''BASE_URL'' ''http://127.0.0.1:3000'') of
       Inl e \<Rightarrow> Inl e
     | Inr _ \<Rightarrow> Inr \<lparr>ldt_baseUrl = env_or L ''BASE_URL'' ''http://127.0.0.1:3000'',
         ldt_accessToken = env_or L ''ACCESS_TOKEN'' [], ldt_refreshTokens = tokens,
         ldt_email = env_or L ''SYNTHETIC_EMAIL'' ''load-user@example.test'',
         ldt_password = env_or L ''SYNTHETIC_PASSWORD'' ''Synthetic load password 2026!'',
         ldt_nid = env_or L ''SYNTHETIC_NID'' ''1000000000000001'',
         ldt_challengeToken = env_or L ''REGISTRATION_CHALLENGE_TOKEN'' []\<rparr>))"

subsection \<open>Scenarios\<close>

datatype executor =
    Constant_Arrival_Rate int string nat nat
  | Per_VU_Iterations nat int string string
  | Shared_Iterations nat nat string string
  | Constant_VUs int string string

text \<open>The rate per second, its duration, and the virtual users; the users, iterations, start and limit; the users, duration and start.\<close>

definition load_scenarios :: "load_env \<Rightarrow> load_test \<Rightarrow> (string \<times> executor) list" where
  "load_scenarios L t =
     [(''login'', Constant_Arrival_Rate (numberEnv L ''LOGIN_RATE'' 2) (env_or L ''LOAD_DURATION'' ''2m'') 4 20),
      (''refresh'', Per_VU_Iterations (max 1 (length (ldt_refreshTokens t))) (numberEnv L ''REFRESH_ITERATIONS'' 20)
        ''5s'' ''3m''),
      (''refreshRace'', Shared_Iterations 1 (if ldt_refreshTokens t \<noteq> [] then 1 else 0) ''10s'' ''30s''),
      (''registrationRace'', Shared_Iterations 1 (if ldt_challengeToken t \<noteq> [] then 1 else 0) ''15s'' ''30s''),
      (''citizenCache'', Constant_VUs (numberEnv L ''CITIZEN_VUS'' 2) (env_or L ''LOAD_DURATION'' ''2m'') ''5s'')]"

definition load_thresholds :: "(string \<times> string list) list" where
  "load_thresholds =
     [(''http_req_failed'', [''rate<0.02'']), (''mucyora_request_failures'', [''rate<0.02'']),
      (''mucyora_login_duration'', [''p(95)<750'', ''p(99)<1200'']),
      (''mucyora_refresh_duration'', [''p(95)<250'', ''p(99)<500'']),
      (''http_req_duration'', [''p(95)<750'', ''p(99)<1200''])]"

definition expectedStatuses :: "nat list" where
  "expectedStatuses = [200, 201, 401, 409, 429]"

subsection \<open>Requests\<close>

definition jsonHeaders :: "load_test \<Rightarrow> (string \<times> string) list" where
  "jsonHeaders t = (''content-type'', ''application/json'')
     # (if ldt_accessToken t \<noteq> [] then [(''authorization'', ''Bearer '' @ ldt_accessToken t)] else [])"

text \<open>A post of the load test; later headers win over earlier ones.\<close>

definition load_post :: "string list \<Rightarrow> (string \<times> string) list \<Rightarrow> json \<Rightarrow> http_request" where
  "load_post path headers body = \<lparr>hrq_method = POST, hrq_path = path, hrq_header = map_of (rev headers),
     hrq_cookies = (\<lambda>_. None), hrq_body = Some body, hrq_ip = None, hrq_remoteAddress = Some ''127.0.0.1''\<rparr>"

definition login_load :: "load_test \<Rightarrow> nat \<Rightarrow> nat \<Rightarrow> http_request" where
  "login_load t vu iteration = load_post [''api'', ''v1'', ''auth'', ''login''] (jsonHeaders t)
     (JObj [(''email'', JStr (ldt_email t)), (''password'', JStr (ldt_password t)),
       (''deviceId'', JStr (''k6-'' @ decimal_digits vu @ ''-'' @ decimal_digits iteration)),
       (''transport'', JStr ''NATIVE'')])"

definition login_accepted :: "nat \<Rightarrow> bool" where
  "login_accepted status \<longleftrightarrow> status = 200 \<or> status = 429"

definition refresh_post :: "load_test \<Rightarrow> json \<Rightarrow> http_request" where
  "refresh_post t token = load_post [''api'', ''v1'', ''auth'', ''refresh''] (jsonHeaders t)
     (JObj [(''transport'', JStr ''NATIVE''), (''refreshToken'', token)])"

text \<open>The token of a virtual user, counted from one, and the tokens after an answer with that status and body.\<close>

definition refresh_load :: "load_test \<Rightarrow> nat \<Rightarrow> json list \<Rightarrow> http_request option" where
  "refresh_load t vu tokens = (if tokens = [] then None
     else Some (refresh_post t (tokens ! ((vu - 1) mod length tokens))))"

definition refresh_answered :: "nat \<Rightarrow> nat \<Rightarrow> json option \<Rightarrow> json list \<Rightarrow> json list" where
  "refresh_answered vu status body tokens = (case body of
     None \<Rightarrow> tokens
   | Some new \<Rightarrow> if status = 200 then tokens[(vu - 1) mod length tokens := new] else tokens)"

definition refreshRace :: "load_test \<Rightarrow> http_request list" where
  "refreshRace t = (case ldt_refreshTokens t of
     [] \<Rightarrow> [] | token # _ \<Rightarrow> replicate 5 (refresh_post t token))"

definition refresh_race_checks :: "nat list \<Rightarrow> bool" where
  "refresh_race_checks statuses \<longleftrightarrow> length (filter (\<lambda>n. n = 200) statuses) \<le> 1
     \<and> list_all (\<lambda>n. n \<in> {200, 401, 409}) statuses"

definition load_consent :: "consent_type \<Rightarrow> json" where
  "load_consent c = JObj [(''type'', JStr (consent_text c)), (''policyVersion'', JStr ''2026-07-01'')]"

definition registrationRace :: "load_test \<Rightarrow> http_request list" where
  "registrationRace t = (if ldt_challengeToken t = [] then []
     else replicate 5 (load_post [''api'', ''v1'', ''registration'']
       (jsonHeaders t @ [(''idempotency-key'', ''k6-registration-race-0001'')])
       (JObj [(''registrationChallengeToken'', JStr (ldt_challengeToken t)), (''email'', JStr (ldt_email t)),
         (''password'', JStr (ldt_password t)),
         (''consents'', JArr (map load_consent
            [IDENTITY_DATA_PROCESSING, BIOMETRIC_PROCESSING, TERMS_OF_SERVICE, PRIVACY_POLICY]))])))"

definition registration_race_check :: "nat list \<Rightarrow> bool" where
  "registration_race_check statuses \<longleftrightarrow> list_all (\<lambda>n. n \<in> {201, 409}) statuses"

definition citizenCache :: "load_test \<Rightarrow> nat \<Rightarrow> http_request" where
  "citizenCache t vu = load_post [''api'', ''v1'', ''registration'', ''citizen'', ''lookup'']
     (jsonHeaders t @ [(''x-client-instance-id'', ''k6-client-'' @ decimal_digits vu)])
     (JObj [(''nid'', JStr (ldt_nid t)), (''email'', JStr (ldt_email t))])"

definition citizen_accepted :: "nat \<Rightarrow> bool" where
  "citizen_accepted status \<longleftrightarrow> status = 201 \<or> status = 429"

subsection \<open>What the service answers\<close>

lemma length_decimal_digits: "n < 10 ^ k \<Longrightarrow> 0 < k \<Longrightarrow> length (decimal_digits n) \<le> k"
proof (induction k arbitrary: n)
  case (Suc k)
  show ?case
  proof (cases "n < 10")
    case True
    then show ?thesis by (subst decimal_digits.simps) simp
  next
    case False
    then have "k \<noteq> 0" using Suc.prems by (cases k) auto
    moreover have "n div 10 < 10 ^ k" using Suc.prems(1) by (simp add: less_mult_imp_div_less mult.commute)
    ultimately have "length (decimal_digits (n div 10)) \<le> k" using Suc.IH by simp
    then show ?thesis using False by (subst decimal_digits.simps) simp
  qed
qed simp

lemma login_route_of: "find_route POST [''api'', ''v1'', ''auth'', ''login''] = Some (Auth_login, snd (hd AuthController))"
proof -
  have "(Auth_login, snd (hd AuthController)) \<in> set route_table" by (simp add: route_table_def AuthController_def)
  moreover have "segments_match (rte_path (snd (hd AuthController))) [''api'', ''v1'', ''auth'', ''login'']" by code_simp
  moreover have "rte_method (snd (hd AuthController)) = POST" by (simp add: AuthController_def prefixed_def)
  ultimately show ?thesis by (simp add: find_route_iff)
qed

lemma login_load_refused:
  assumes "length (decimal_digits vu) + length (decimal_digits iteration) < 12"
  shows "serve W (login_load t vu iteration) s = (Inl validation_failed, s)"
proof -
  let ?fs = "[(''email'', JStr (ldt_email t)), (''password'', JStr (ldt_password t)),
       (''deviceId'', JStr (''k6-'' @ decimal_digits vu @ ''-'' @ decimal_digits iteration)), (''transport'', JStr ''NATIVE'')]"
  have "\<not> property_ok V ?fs (''deviceId'', False, [IsString, Matches instance_pattern])" for V
    using assms by (simp add: property_ok_def on_text_def instance_pattern_def)
  then have "validate_body V LoginDto (Some (JObj ?fs)) = Inl validation_failed" for V
    by (simp add: validate_body_def members_ok_def LoginDto_def)
  then show ?thesis
    by (simp add: serve_def Let_def login_load_def load_post_def login_route_of authenticate_def run_pipes_def
        AuthController_def prefixed_def)
qed

lemma citizenCache_refused:
  assumes "length (decimal_digits vu) < 6"
  shows "\<exists>x. serve W (citizenCache t vu) s = (Inl x, s) \<and> error_status x = 400"
proof -
  have "\<not> valid_client_instance (hrq_header (citizenCache t vu) ''x-client-instance-id'')"
    using assms by (simp add: citizenCache_def load_post_def jsonHeaders_def valid_client_instance_def truthy_text_def
        instance_pattern_def)
  moreover have "find_route (hrq_method (citizenCache t vu)) (hrq_path (citizenCache t vu))
      = Some (Registration_lookup, snd (last RegistrationController))"
    by (simp add: citizenCache_def load_post_def lookup_route)
  moreover have "rte_guard (snd (last RegistrationController)) = Unguarded"
    by (simp add: RegistrationController_def prefixed_def)
  ultimately show ?thesis
    by (auto simp: serve_def Let_def authenticate_def run_pipes_def registration_lookup_def validate_body_def
        error_status_def map_sum_Inr split: sum.splits option.splits json.splits)
qed

text \<open>The load test measures refusals: every login that it sends (from fewer than a hundred users with fewer
  than a thousand million iterations) and every citizen lookup is answered with 400 by the
  validation of the service, before any password, limit or provider is looked at, and fails the check of the
  load test, because its device and client identifiers are shorter than the 16 characters they must have.\<close>

lemma load_test_refused:
  assumes "vu < 100" and "iteration < 10 ^ 9"
  shows "answer_status (fst (serve W (login_load t vu iteration) s)) = 400
    \<and> snd (serve W (login_load t vu iteration) s) = s
    \<and> \<not> login_accepted (answer_status (fst (serve W (login_load t vu iteration) s)))
    \<and> answer_status (fst (serve W (citizenCache t vu) s)) = 400 \<and> snd (serve W (citizenCache t vu) s) = s
    \<and> \<not> citizen_accepted (answer_status (fst (serve W (citizenCache t vu) s)))"
proof -
  have d: "length (decimal_digits vu) \<le> 2" "length (decimal_digits iteration) \<le> 9"
    by (rule length_decimal_digits; use assms in simp)+
  then have l: "serve W (login_load t vu iteration) s = (Inl validation_failed, s)"
    by (intro login_load_refused) simp
  obtain x where "serve W (citizenCache t vu) s = (Inl x, s)" "error_status x = 400"
    using citizenCache_refused [of vu W t s] d by auto
  with l show ?thesis
    by (simp add: answer_status_def error_status_def login_accepted_def citizen_accepted_def)
qed

lemma load_test_refused_witness:
  "answer_status (fst (serve sample_world (login_load
      \<lparr>ldt_baseUrl = ''http://127.0.0.1:3000'', ldt_accessToken = [], ldt_refreshTokens = [],
       ldt_email = ''load-user@example.test'', ldt_password = ''Synthetic load password 2026!'',
       ldt_nid = ''1000000000000001'', ldt_challengeToken = []\<rparr> 20 240) sample_server)) = 400"
  using load_test_refused [of 20 240 sample_world _ sample_server] by simp

text \<open>A run that starts is against this machine, or an approved target whose name does not say production.\<close>

lemma load_target_safe:
  assumes "load_init L = Inr t"
  shows "\<exists>host. ldv_hostname L (ldt_baseUrl t) = Some host
    \<and> (host = ''127.0.0.1'' \<or> host = ''localhost'' \<or> ldv_env L ''ALLOW_APPROVED_STAGING_TARGET'' = Some ''true'')
    \<and> \<not> str_includes (ascii_lower host) ''production''"
  using assms by (auto simp: load_init_def assertSafeTarget_def Let_def split: sum.split_asm option.split_asm if_split_asm)

end
