(* ===== verification/Tooling.thy ===== *)
theory Tooling
  imports LoadTest
begin

text \<open>
  The checks and measurements beside the service: the boundary of the project
  (\<open>scripts/assert-project-boundary.mjs\<close>) over the tree of its files, the percentiles of the benchmarks
  (\<open>benchmark-auth-paths.ts\<close>), the soak (\<open>soak-auth-runtime.ts\<close>, \<open>performance/k6/auth-soak.js\<close>) and the
  inspection of the query plans (\<open>inspect-query-plans.ts\<close>).
\<close>

subsection \<open>The tree of files\<close>

text \<open>A file with its text, a directory, and a link with what it leads to, \<open>None\<close> where that cannot be read.\<close>

datatype node = File_Node string | Dir_Node "(string \<times> node) list" | Link_Node "node option"

fun follow :: "node \<Rightarrow> node option" where
  "follow (Link_Node (Some t)) = follow t"
| "follow (Link_Node None) = None"
| "follow t = Some t"

fun node_at :: "node \<Rightarrow> string list \<Rightarrow> node option" where
  "node_at t [] = follow t"
| "node_at t (n # p) = (case follow t of
     Some (Dir_Node es) \<Rightarrow> (case map_of es n of Some t' \<Rightarrow> node_at t' p | None \<Rightarrow> None)
   | _ \<Rightarrow> None)"

definition pathExists :: "node \<Rightarrow> string list \<Rightarrow> bool" where
  "pathExists root path = (case node_at root path of
     Some (Dir_Node es) \<Rightarrow> True
   | Some (File_Node c) \<Rightarrow> True
   | _ \<Rightarrow> False)"

text \<open>\<open>readFile\<close> and \<open>readdir\<close>; what they throw ends the check.\<close>

definition read_file :: "node \<Rightarrow> string list \<Rightarrow> string result" where
  "read_file root path = (case node_at root path of
     Some (File_Node c) \<Rightarrow> Inr c
   | Some (Dir_Node es) \<Rightarrow> Inl (Raised ''EISDIR'')
   | _ \<Rightarrow> Inl (Raised ''ENOENT''))"

definition read_directory :: "node \<Rightarrow> string list \<Rightarrow> (string \<times> node) list result" where
  "read_directory root path = (case node_at root path of
     Some (Dir_Node es) \<Rightarrow> Inr es
   | Some (File_Node c) \<Rightarrow> Inl (Raised ''ENOTDIR'')
   | _ \<Rightarrow> Inl (Raised ''ENOENT''))"

fun collectFiles :: "string list \<Rightarrow> (string \<times> node) list \<Rightarrow> string list list" where
  "collectFiles directory [] = []"
| "collectFiles directory ((name, Dir_Node es) # rest) =
     collectFiles (directory @ [name]) es @ collectFiles directory rest"
| "collectFiles directory ((name, File_Node c) # rest) =
     (if suffix ''.ts'' name then [directory @ [name]] else []) @ collectFiles directory rest"
| "collectFiles directory ((name, Link_Node t) # rest) = collectFiles directory rest"

subsection \<open>The boundary of the project\<close>

definition forbiddenPaths :: "string list" where
  "forbiddenPaths = [''prisma'', ''prisma.config.ts'', ''src/generated/prisma'', ''src/modules/admin'',
     ''src/modules/devices'', ''src/modules/payments'', ''src/modules/signatures'']"

definition forbiddenPackages :: "string list" where
  "forbiddenPackages = [''@prisma/client'', ''prisma'']"

definition forbiddenEnvironmentNames :: "string list" where
  "forbiddenEnvironmentNames = [''DATABASE_MIGRATION_URL'']"

definition truthy_json :: "json option \<Rightarrow> bool" where
  "truthy_json v = (case v of
     None \<Rightarrow> False | Some JNull \<Rightarrow> False | Some (JBool b) \<Rightarrow> b | Some (JNum n) \<Rightarrow> n \<noteq> 0 | Some (JStr s) \<Rightarrow> s \<noteq> []
   | Some _ \<Rightarrow> True)"

text \<open>The spread of the two members: the development dependencies win.\<close>

definition dependency :: "json \<Rightarrow> string \<Rightarrow> json option" where
  "dependency packageJson name =
     (case Option.bind (json_field ''devDependencies'' packageJson) (json_field name) of
        Some v \<Rightarrow> Some v
      | None \<Rightarrow> Option.bind (json_field ''dependencies'' packageJson) (json_field name))"

text \<open>\<open>['"]@prisma\/client['"]\<close> at the start of a text, and the text behind it.\<close>

definition quote_mark :: "char \<Rightarrow> bool" where
  "quote_mark c \<longleftrightarrow> code_of c = 39 \<or> code_of c = 34"

definition quoted_client :: "string \<Rightarrow> string option" where
  "quoted_client s = (case s of
     [] \<Rightarrow> None
   | q # r \<Rightarrow>
       if quote_mark q \<and> prefix ''@prisma/client'' r
       then (case drop (length ''@prisma/client'') r of
               [] \<Rightarrow> None | q' # r' \<Rightarrow> if quote_mark q' then Some r' else None)
       else None)"

text \<open>\<open>from\s+['"]...['"]\<close> and \<open>require\(['"]...['"]\)\<close> at the start of a text.\<close>

definition client_import_at :: "string \<Rightarrow> bool" where
  "client_import_at s \<longleftrightarrow>
     prefix ''from'' s \<and> (case drop 4 s of [] \<Rightarrow> False
       | c # r \<Rightarrow> is_space c \<and> quoted_client (dropWhile is_space r) \<noteq> None)
   \<or> prefix ''require('' s \<and> (case quoted_client (drop 8 s) of Some (c # r) \<Rightarrow> c = CHR '')'' | _ \<Rightarrow> False)"

definition imports_client :: "string \<Rightarrow> bool" where
  "imports_client content = list_ex client_import_at (suffixes content)"

fun shown_path :: "string list \<Rightarrow> string" where
  "shown_path [] = []"
| "shown_path [n] = n"
| "shown_path (n # p) = n @ ''/'' @ shown_path p"

definition file_violations :: "string list \<Rightarrow> string \<Rightarrow> string list" where
  "file_violations file content =
     (if imports_client content then [''direct Prisma client import: '' @ shown_path file] else [])
     @ map (\<lambda>environmentName. ''migration-only environment reference in Auth runtime: '' @ shown_path file)
         (filter (str_includes content) forbiddenEnvironmentNames)"

fun scan_files :: "node \<Rightarrow> string list list \<Rightarrow> string list result" where
  "scan_files root [] = Inr []"
| "scan_files root (file # files) = (case read_file root file of
     Inl e \<Rightarrow> Inl e
   | Inr content \<Rightarrow> (case scan_files root files of
       Inl e \<Rightarrow> Inl e
     | Inr vs \<Rightarrow> Inr (file_violations file content @ vs)))"

text \<open>\<open>parse\<close> is \<open>JSON.parse\<close>, \<open>None\<close> where it throws; a member of \<open>null\<close> throws as well.\<close>

definition read_package :: "(string \<Rightarrow> json option) \<Rightarrow> node \<Rightarrow> json result" where
  "read_package parse root = (case read_file root [''package.json''] of
     Inl e \<Rightarrow> Inl e
   | Inr c \<Rightarrow> (case parse c of
       None \<Rightarrow> Inl (Raised ''SyntaxError'') | Some JNull \<Rightarrow> Inl (Raised ''TypeError'') | Some j \<Rightarrow> Inr j))"

definition boundary_violations :: "(string \<Rightarrow> json option) \<Rightarrow> node \<Rightarrow> string list result" where
  "boundary_violations parse root =
     (let paths = map (\<lambda>p. ''forbidden Auth-owned path: '' @ p)
            (filter (\<lambda>p. pathExists root (split_on (CHR ''/'') p)) forbiddenPaths)
      in case read_package parse root of
           Inl e \<Rightarrow> Inl e
         | Inr packageJson \<Rightarrow>
             (let packages = map (\<lambda>p. ''forbidden direct dependency: '' @ p)
                    (filter (\<lambda>p. truthy_json (dependency packageJson p)) forbiddenPackages)
              in case read_directory root [''src''] of
                   Inl e \<Rightarrow> Inl e
                 | Inr es \<Rightarrow> (case scan_files root (collectFiles [''src''] es) of
                     Inl e \<Rightarrow> Inl e
                   | Inr files \<Rightarrow> Inr (paths @ packages @ files))))"

text \<open>The exit code and the lines.  What is thrown ends the process with code 1.\<close>

definition project_check :: "(string \<Rightarrow> json option) \<Rightarrow> node \<Rightarrow> nat \<times> string list" where
  "project_check parse root = (case boundary_violations parse root of
     Inl e \<Rightarrow> (1, [])
   | Inr [] \<Rightarrow> (0, [''Auth project boundary check passed.''])
   | Inr vs \<Rightarrow> (1, ''Auth project boundary check failed:'' # map (\<lambda>v. ''- '' @ v) vs))"

text \<open>The entry of a directory at a path, without following links, and names that are not repeated.\<close>

fun entry_at :: "(string \<times> node) list \<Rightarrow> string list \<Rightarrow> node option" where
  "entry_at es [] = None"
| "entry_at es [n] = map_of es n"
| "entry_at es (n # p) = (case map_of es n of Some (Dir_Node es') \<Rightarrow> entry_at es' p | _ \<Rightarrow> None)"

fun distinct_names :: "(string \<times> node) list \<Rightarrow> bool" where
  "distinct_names [] = True"
| "distinct_names ((n, Dir_Node es) # rest) \<longleftrightarrow> n \<notin> fst ` set rest \<and> distinct_names es \<and> distinct_names rest"
| "distinct_names ((n, t) # rest) \<longleftrightarrow> n \<notin> fst ` set rest \<and> distinct_names rest"

lemma entry_at_Cons: "p \<noteq> [] \<Longrightarrow>
  entry_at es (n # p) = (case map_of es n of Some (Dir_Node es') \<Rightarrow> entry_at es' p | _ \<Rightarrow> None)"
  by (cases p) auto

lemma collected_directory:
  "(n, Dir_Node es') \<in> set es \<Longrightarrow> q \<in> set (collectFiles (d @ [n]) es') \<Longrightarrow> q \<in> set (collectFiles d es)"
  by (induction d es rule: collectFiles.induct) auto

lemma collected_file:
  "(n, File_Node c) \<in> set es \<Longrightarrow> suffix ''.ts'' n \<Longrightarrow> d @ [n] \<in> set (collectFiles d es)"
  by (induction d es rule: collectFiles.induct) auto

lemma collectFiles_complete:
  "entry_at es p = Some (File_Node c) \<Longrightarrow> suffix ''.ts'' (last p) \<Longrightarrow> d @ p \<in> set (collectFiles d es)"
proof (induction es p arbitrary: d rule: entry_at.induct)
  case (2 es n)
  then show ?case using collected_file [of n c es d] by (auto dest: map_of_SomeD)
next
  case (3 es n m p)
  from 3(2) obtain es' where e: "map_of es n = Some (Dir_Node es')" "entry_at es' (m # p) = Some (File_Node c)"
    by (auto split: option.split_asm node.split_asm)
  then have "(d @ [n]) @ m # p \<in> set (collectFiles (d @ [n]) es')"
    using 3(1) [of "Dir_Node es'" es' "d @ [n]"] 3(3) by simp
  then show ?case using collected_directory [of n es' es _ d] e(1) by (auto dest: map_of_SomeD)
qed simp

lemma entry_at_skip:
  "n \<notin> fst ` set rest \<Longrightarrow> entry_at rest p = Some t \<Longrightarrow> entry_at ((n, x) # rest) p = Some t"
  by (cases "(rest, p)" rule: entry_at.cases) (force dest: map_of_SomeD split: option.split_asm)+

lemma collectFiles_sound:
  "distinct_names es \<Longrightarrow> q \<in> set (collectFiles d es) \<Longrightarrow>
   \<exists>p c. q = d @ p \<and> p \<noteq> [] \<and> entry_at es p = Some (File_Node c) \<and> suffix ''.ts'' (last p)"
proof (induction d es rule: collectFiles.induct)
  case (2 d n es rest)
  from 2(4) consider "q \<in> set (collectFiles (d @ [n]) es)" | "q \<in> set (collectFiles d rest)" by auto
  then show ?case
  proof cases
    case 1
    with 2(1,3) obtain p c where "q = d @ n # p" "p \<noteq> []" "entry_at es p = Some (File_Node c)" "suffix ''.ts'' (last p)"
      by auto
    then show ?thesis by (intro exI [of _ "n # p"] exI [of _ c]) (simp add: entry_at_Cons)
  next
    case 2
    then show ?thesis using "2.IH"(2) "2.prems"(1) by (fastforce intro: entry_at_skip)
  qed
next
  case (3 d n c rest)
  from 3(3) consider "suffix ''.ts'' n" "q = d @ [n]" | "q \<in> set (collectFiles d rest)" by (auto split: if_split_asm)
  then show ?case
  proof cases
    case 1
    then show ?thesis by (intro exI [of _ "[n]"] exI [of _ c]) simp
  next
    case 2
    then show ?thesis using "3.IH" "3.prems"(1) by (fastforce intro: entry_at_skip)
  qed
next
  case (4 d n t rest)
  then show ?case by (fastforce intro: entry_at_skip)
qed simp

lemma node_at_entry: "entry_at es p = Some (File_Node c) \<Longrightarrow> node_at (Dir_Node es) p = Some (File_Node c)"
  by (induction es p rule: entry_at.induct) (auto split: option.split_asm node.split_asm)

lemma node_at_below:
  "node_at root [n] = Some (Dir_Node es) \<Longrightarrow> node_at root (n # p) = node_at (Dir_Node es) p"
proof -
  have f: "follow t = Some (Dir_Node es) \<Longrightarrow> node_at t p = node_at (Dir_Node es) p" for t
    by (cases p) auto
  show "node_at root [n] = Some (Dir_Node es) \<Longrightarrow> node_at root (n # p) = node_at (Dir_Node es) p"
    by (auto split: option.split_asm node.split_asm intro: f)
qed

lemma scan_files_all:
  assumes "\<And>f. f \<in> set files \<Longrightarrow> read_file root f = Inr (content f)"
  shows "scan_files root files = Inr (concat (map (\<lambda>f. file_violations f (content f)) files))"
  using assms by (induction files) simp_all

lemma file_violations_none:
  "file_violations f c = [] \<longleftrightarrow> \<not> imports_client c \<and> \<not> str_includes c ''DATABASE_MIGRATION_URL''"
  by (simp add: file_violations_def forbiddenEnvironmentNames_def)

lemma client_import_iff:
  "imports_client c \<longleftrightarrow> (\<exists>u v. c = u @ v \<and> client_import_at v)"
  unfolding imports_client_def list_ex_iff by (auto simp: suffix_def; blast)

lemma scan_source:
  assumes src: "node_at root [''src''] = Some (Dir_Node es)" and "distinct_names es"
  shows "\<exists>vs. scan_files root (collectFiles [''src''] es) = Inr vs
    \<and> (vs = [] \<longleftrightarrow> (\<forall>p c. entry_at es p = Some (File_Node c) \<and> suffix ''.ts'' (last p)
          \<longrightarrow> \<not> imports_client c \<and> \<not> str_includes c ''DATABASE_MIGRATION_URL''))"
proof -
  define content where "content f = (case read_file root f of Inr c \<Rightarrow> c | Inl e \<Rightarrow> [])" for f
  have at: "read_file root (''src'' # p) = Inr c" if "entry_at es p = Some (File_Node c)" for p c
    using node_at_below [OF src, of p] node_at_entry [OF that] by (simp add: read_file_def)
  have in_src: "\<exists>p c. f = ''src'' # p \<and> entry_at es p = Some (File_Node c) \<and> suffix ''.ts'' (last p)"
    if "f \<in> set (collectFiles [''src''] es)" for f
    using collectFiles_sound [OF assms(2) that] by auto
  have "scan_files root (collectFiles [''src''] es)
      = Inr (concat (map (\<lambda>f. file_violations f (content f)) (collectFiles [''src''] es)))"
    by (rule scan_files_all) (use in_src at in \<open>fastforce simp: content_def\<close>)
  moreover have "(\<forall>f \<in> set (collectFiles [''src''] es). file_violations f (content f) = []) \<longleftrightarrow>
      (\<forall>p c. entry_at es p = Some (File_Node c) \<and> suffix ''.ts'' (last p)
          \<longrightarrow> \<not> imports_client c \<and> \<not> str_includes c ''DATABASE_MIGRATION_URL'')"
  proof (intro iffI allI impI ballI; (elim conjE)?)
    fix p c
    assume all: "\<forall>f \<in> set (collectFiles [''src''] es). file_violations f (content f) = []"
      and e: "entry_at es p = Some (File_Node c)" "suffix ''.ts'' (last p)"
    have "''src'' # p \<in> set (collectFiles [''src''] es)"
      using collectFiles_complete [OF e, of "[''src'']"] by simp
    with all have "file_violations (''src'' # p) c = []" using at [OF e(1)] by (force simp: content_def)
    then show "\<not> imports_client c \<and> \<not> str_includes c ''DATABASE_MIGRATION_URL''"
      by (simp add: file_violations_none)
  next
    fix f
    assume all: "\<forall>p c. entry_at es p = Some (File_Node c) \<and> suffix ''.ts'' (last p)
          \<longrightarrow> \<not> imports_client c \<and> \<not> str_includes c ''DATABASE_MIGRATION_URL''"
      and "f \<in> set (collectFiles [''src''] es)"
    then obtain p c where "f = ''src'' # p" "entry_at es p = Some (File_Node c)" "suffix ''.ts'' (last p)"
      using in_src by blast
    with all at [of p c] show "file_violations f (content f) = []"
      by (auto simp: content_def file_violations_none)
  qed
  ultimately show ?thesis by auto
qed

text \<open>The boundary check passes exactly for a project that keeps the boundary: none of the forbidden paths
  exists, the package file can be read and names neither package, and no TypeScript file at any depth of the source
  directory imports the Prisma client in one of the two forms or mentions the variable of the migrations.\<close>

lemma boundary_check_exact:
  assumes "\<forall>es. read_directory root [''src''] = Inr es \<longrightarrow> distinct_names es"
  shows "fst (project_check parse root) = 0 \<longleftrightarrow>
      list_all (\<lambda>p. \<not> pathExists root (split_on (CHR ''/'') p)) forbiddenPaths
    \<and> (\<exists>j. read_package parse root = Inr j \<and> list_all (\<lambda>p. \<not> truthy_json (dependency j p)) forbiddenPackages)
    \<and> (\<exists>es. read_directory root [''src''] = Inr es
        \<and> (\<forall>p c. entry_at es p = Some (File_Node c) \<and> suffix ''.ts'' (last p)
            \<longrightarrow> \<not> (\<exists>u v. c = u @ v \<and> client_import_at v) \<and> \<not> str_includes c ''DATABASE_MIGRATION_URL''))"
proof -
  have passes: "fst (project_check parse root) = 0 \<longleftrightarrow> boundary_violations parse root = Inr []"
    by (simp add: project_check_def split: sum.split list.split)
  have dir: "node_at root [''src''] = Some (Dir_Node es)" if "read_directory root [''src''] = Inr es" for es
    using that unfolding read_directory_def by (simp split: option.split_asm node.split_asm)
  have none: "filter P xs = [] \<longleftrightarrow> list_all (\<lambda>p. \<not> P p) xs" for P and xs :: "string list"
    by (simp add: list_all_iff filter_empty_conv)
  show ?thesis
  proof (cases "read_directory root [''src'']")
    case (Inl e)
    then show ?thesis unfolding passes
      by (simp add: boundary_violations_def Let_def split: sum.split)
  next
    case (Inr es)
    then obtain vs where "scan_files root (collectFiles [''src''] es) = Inr vs"
      "vs = [] \<longleftrightarrow> (\<forall>p c. entry_at es p = Some (File_Node c) \<and> suffix ''.ts'' (last p)
          \<longrightarrow> \<not> imports_client c \<and> \<not> str_includes c ''DATABASE_MIGRATION_URL'')"
      using scan_source [OF dir [OF Inr]] assms by blast
    with Inr show ?thesis unfolding passes client_import_iff [symmetric]
      by (auto simp: boundary_violations_def Let_def none split: sum.split)
  qed
qed

definition client_line :: string where
  "client_line = ''from  '' @ CHR 0x22 # ''@prisma/client'' @ [CHR 0x22]"

definition sample_project :: node where
  "sample_project = Dir_Node [(''package.json'', File_Node ''{}''),
     (''src'', Dir_Node [(''main.ts'', File_Node ''import express''),
        (''common'', Dir_Node [(''database.ts'', File_Node (''const a = 1 '' @ client_line))])])]"

lemma boundary_check_exact_witness:
  "fst (project_check (\<lambda>c. Some (JObj [])) sample_project) \<noteq> 0"
proof -
  have src: "read_directory sample_project [''src''] = Inr es \<longleftrightarrow>
      es = [(''main.ts'', File_Node ''import express''),
        (''common'', Dir_Node [(''database.ts'', File_Node (''const a = 1 '' @ client_line))])]" for es
    by (auto simp: read_directory_def sample_project_def)
  have "client_import_at client_line" by code_simp
  then have client: "\<exists>u v. ''const a = 1 '' @ client_line = u @ v \<and> client_import_at v"
    by (intro exI [of _ "''const a = 1 ''"] exI [of _ client_line]) simp
  show ?thesis
  proof
    assume "fst (project_check (\<lambda>c. Some (JObj [])) sample_project) = 0"
    then have all: "\<forall>p c. entry_at [(''main.ts'', File_Node ''import express''),
        (''common'', Dir_Node [(''database.ts'', File_Node (''const a = 1 '' @ client_line))])] p = Some (File_Node c)
        \<and> suffix ''.ts'' (last p) \<longrightarrow> \<not> (\<exists>u v. c = u @ v \<and> client_import_at v) \<and> \<not> str_includes c ''DATABASE_MIGRATION_URL''"
      using boundary_check_exact [of sample_project "\<lambda>c. Some (JObj [])"] by (simp add: src)
    have "suffix ''.ts'' ''database.ts''" by code_simp
    then show False using all [rule_format, of "[''common'', ''database.ts'']" "''const a = 1 '' @ client_line"] client
      by simp blast
  qed
qed

subsection \<open>Benchmarks\<close>

text \<open>\<open>value / 100 * length\<close> exactly; the benchmarks take 6 and 10000 samples.\<close>

definition percentile :: "int list \<Rightarrow> nat \<Rightarrow> int option" where
  "percentile sorted_values v =
     (let n = int (length sorted_values);
          index = min (n - 1) (int ((v * length sorted_values + 99) div 100) - 1);
          i = nat (max 0 index)
      in if i < length sorted_values then Some (sorted_values ! i) else None)"

text \<open>A duration counts thousandths of a millisecond; a percentile of no samples throws.\<close>

definition report :: "string \<Rightarrow> int list \<Rightarrow> (string \<times> json) list \<Rightarrow> json result" where
  "report benchmark durations metadata =
     (let sorted_values = sort durations
      in case (percentile sorted_values 50, percentile sorted_values 95, percentile sorted_values 99) of
           (Some p50, Some p95, Some p99) \<Rightarrow> Inr (JObj
             ([(''benchmark'', JStr benchmark), (''samples'', JNum (int (length sorted_values))),
               (''p50Ms'', JNum p50), (''p95Ms'', JNum p95), (''p99Ms'', JNum p99)] @ metadata))
         | _ \<Rightarrow> Inl (Raised ''TypeError''))"

text \<open>\<open>number\<close> is \<open>Number\<close>, \<open>None\<close> where it is no integer.\<close>

definition numberEnvironment ::
    "(string \<Rightarrow> string option) \<Rightarrow> (string \<Rightarrow> int option) \<Rightarrow> string \<Rightarrow> int \<Rightarrow> int result" where
  "numberEnvironment variable number name fallback =
     (case (case variable name of None \<Rightarrow> Some fallback | Some v \<Rightarrow> number v) of
        None \<Rightarrow> Inl (Raised (name @ '' must be a positive integer.''))
      | Some n \<Rightarrow> if n < 1 then Inl (Raised (name @ '' must be a positive integer.'')) else Inr n)"

text \<open>Memory, time cost and parallelism of the hash that is measured.\<close>

definition benchmark_options ::
    "(string \<Rightarrow> string option) \<Rightarrow> (string \<Rightarrow> int option) \<Rightarrow> (int \<times> int \<times> int) result" where
  "benchmark_options variable number =
     (case numberEnvironment variable number ''PASSWORD_ARGON2_MEMORY_KIB'' 65536 of
        Inl e \<Rightarrow> Inl e
      | Inr m \<Rightarrow> (case numberEnvironment variable number ''PASSWORD_ARGON2_TIME_COST'' 3 of
          Inl e \<Rightarrow> Inl e
        | Inr t \<Rightarrow> (case numberEnvironment variable number ''PASSWORD_ARGON2_PARALLELISM'' 1 of
            Inl e \<Rightarrow> Inl e
          | Inr p \<Rightarrow> Inr (m, t, p))))"

text \<open>The percentile is the nearest rank: at least \<open>v\<close> of a hundred samples are at most it, and fewer are below it.\<close>

lemma percentile_rank:
  assumes "sorted xs" "xs \<noteq> []" "1 \<le> v" "v \<le> 100"
  shows "\<exists>x. percentile xs v = Some x \<and> x \<in> set xs
    \<and> v * length xs \<le> 100 * length (filter (\<lambda>y. y \<le> x) xs) \<and> 100 * length (filter (\<lambda>y. y < x) xs) < v * length xs"
proof -
  let ?n = "length xs"
  define r where "r = (v * ?n + 99) div 100"
  have n: "1 \<le> ?n" using assms(2) by (cases xs) auto
  have vn: "1 \<le> v * ?n" "v * ?n \<le> 100 * ?n" using n assms(3,4) by simp_all
  have r: "1 \<le> r" "r \<le> ?n" "v * ?n \<le> 100 * r" "100 * (r - 1) < v * ?n"
    unfolding r_def using vn by linarith+
  have i: "nat (max 0 (min (int ?n - 1) (int r - 1))) = r - 1" using r by linarith
  let ?x = "xs ! (r - 1)"
  have p: "percentile xs v = Some ?x"
    unfolding percentile_def Let_def r_def [symmetric] i using r by auto
  have le: "r \<le> length (filter (\<lambda>y. y \<le> ?x) xs)"
  proof -
    have "filter (\<lambda>y. y \<le> ?x) (take r xs) = take r xs"
      using r(1,2) assms(1) by (fastforce simp: filter_id_conv in_set_conv_nth intro!: sorted_nth_mono)
    then have "length (filter (\<lambda>y. y \<le> ?x) (take r xs)) = r" using r(2) by simp
    then show ?thesis
      by (metis append_take_drop_id filter_append length_append le_add1)
  qed
  have "filter (\<lambda>y. y < ?x) (drop (r - 1) xs) = []"
    using r assms(1) by (auto simp: filter_empty_conv in_set_conv_nth not_less intro!: sorted_nth_mono)
  then have "length (filter (\<lambda>y. y < ?x) xs) = length (filter (\<lambda>y. y < ?x) (take (r - 1) xs))"
    by (metis append_Nil2 append_take_drop_id filter_append)
  also have "\<dots> \<le> r - 1" by (rule order_trans [OF length_filter_le]) simp
  finally have less: "length (filter (\<lambda>y. y < ?x) xs) \<le> r - 1" .
  have "?x \<in> set xs" using r by simp
  with p le less r show ?thesis by (intro exI [of _ ?x]) (auto intro: order_trans le_less_trans)
qed

text \<open>Hence every report of a measurement is written.\<close>

lemma report_written: "durations \<noteq> [] \<Longrightarrow> \<exists>j. report benchmark durations metadata = Inr j"
proof -
  assume "durations \<noteq> []"
  then have "sort durations \<noteq> []" by (metis length_0_conv length_sort)
  then have "\<exists>x. percentile (sort durations) v = Some x" if "1 \<le> v" "v \<le> 100" for v
    using percentile_rank [of "sort durations" v] that by auto
  from this [of 50] this [of 95] this [of 99] show ?thesis by (auto simp: report_def Let_def)
qed

subsection \<open>The soak and the query plans\<close>

definition soak_seconds :: "(string \<Rightarrow> string option) \<Rightarrow> (string \<Rightarrow> int option) \<Rightarrow> int result" where
  "soak_seconds variable number =
     (case (case variable ''LOCAL_SOAK_SECONDS'' of None \<Rightarrow> Some 30 | Some v \<Rightarrow> number v) of
        None \<Rightarrow> Inl (Raised ''LOCAL_SOAK_SECONDS must be an integer between 5 and 600.'')
      | Some n \<Rightarrow>
          if n < 5 \<or> n > 600 then Inl (Raised ''LOCAL_SOAK_SECONDS must be an integer between 5 and 600.'')
          else Inr n)"

text \<open>The soak against a running service: its scenarios, without a start time, and its thresholds.\<close>

definition soak_scenarios :: "load_env \<Rightarrow> (string \<times> executor) list" where
  "soak_scenarios L =
     [(''soakLogin'', Constant_Arrival_Rate 1 (env_or L ''SOAK_DURATION'' ''30m'') 4 12),
      (''soakRefresh'', Constant_VUs 2 (env_or L ''SOAK_DURATION'' ''30m'') []),
      (''soakCitizenCache'', Constant_VUs 1 (env_or L ''SOAK_DURATION'' ''30m'') [])]"

definition soak_thresholds :: "(string \<times> string list) list" where
  "soak_thresholds = [(''http_req_failed'', [''rate<0.02'']), (''http_req_duration'', [''p(95)<750'', ''p(99)<1200''])]"

text \<open>\<open>host\<close> is the host of \<open>new URL\<close>, \<open>None\<close> where it throws; \<open>/prod(uction)?/i\<close> matches wherever \<open>prod\<close> occurs.\<close>

definition inspection_target :: "(string \<Rightarrow> string option) \<Rightarrow> (string \<Rightarrow> string option) \<Rightarrow> string result" where
  "inspection_target variable host = (case variable ''PERFORMANCE_DATABASE_URL'' of
     None \<Rightarrow> Inl (Raised ''Set PERFORMANCE_DATABASE_URL and ALLOW_QUERY_PLAN_INSPECTION=true for an approved disposable database branch.'')
   | Some connectionString \<Rightarrow>
       if connectionString = [] \<or> variable ''ALLOW_QUERY_PLAN_INSPECTION'' \<noteq> Some ''true''
       then Inl (Raised ''Set PERFORMANCE_DATABASE_URL and ALLOW_QUERY_PLAN_INSPECTION=true for an approved disposable database branch.'')
       else (case host connectionString of
           None \<Rightarrow> Inl (Raised ''Invalid URL'')
         | Some h \<Rightarrow> if str_includes (ascii_lower h) ''prod'' then Inl (Raised ''Production query-plan inspection is forbidden.'')
             else Inr connectionString))"

lemma inspection_safe:
  "inspection_target variable host = Inr c \<Longrightarrow> variable ''ALLOW_QUERY_PLAN_INSPECTION'' = Some ''true''
   \<and> (\<exists>h. host c = Some h \<and> \<not> str_includes (ascii_lower h) ''prod'')"
  by (auto simp: inspection_target_def split: option.split_asm if_split_asm)

end
