(* ===== verification/Spec2Isabelle.thy ===== *)
theory Spec2Isabelle
  imports System Document Telemetry Tooling
begin

text \<open>
  A verification development for the Mucyora authentication service: account registration against a
  national identity provider, sign-in with rotating refresh tokens, limited and full sessions,
  password recovery, identity verification with an external engine, step-up assertions for other
  services, passkeys, and the workers that send mail and clean up.

  \<^bold>\<open>How the model reads.\<close>  The service is a NestJS application; every request is one handler over a
  database (Prisma), a Redis store and a few external providers.  A handler is a function of an
  environment \<open>E\<close> (the validated configuration, the keys, the readings of the clock, random bytes and
  UUIDs, and the cryptographic primitives as parameters), its input, the database \<open>d\<close> (a record of
  tables, each a list of rows) and, where it uses them, the Redis store \<open>r\<close>, the object store or the
  mailer, to a result (\<open>Inl\<close> the exception, \<open>Inr\<close> the answer) and the new state.  \<open>updateMany\<close> is
  \<open>update_rows\<close> with its count \<open>count_rows\<close>, \<open>findUnique\<close> and \<open>findFirst\<close> are \<open>find_row\<close>, \<open>take\<close> and
  \<open>orderBy\<close> are \<open>take_rows\<close> and its variants, and a \<open>$transaction\<close> is \<open>transact\<close>: it commits, or leaves
  the database as it was.  A handler that suspends between a read and a conditional write is split at
  that point, so that other requests can be interleaved: a refresh, a reset, an upgrade, the start of an
  attempt (\<open>attempt_read\<close>, \<open>attempt_create\<close>), its submission (\<open>submit_read\<close>, \<open>submit_claim\<close>,
  \<open>submit_finish\<close>) and the consumption of an assertion (\<open>expireDue\<close>, \<open>consume_find\<close>, \<open>consume_claim\<close>).  What
  the conditional writes guarantee is proved once in the locale \<open>single_use\<close> (Prelude) and interpreted on
  each of them; where the code has no conditional write, as at the start of an attempt, the guarantee is
  stated with what came in between.

  \<^bold>\<open>The theories\<close>, each naming the files under \<open>src/src\<close> that it translates:
  \<^item> Prelude, Text, Schema, Environment: tables and their lemmas, the collections of simplification
    rules, JavaScript's texts, base64url and JSON values, the enumerations of the Prisma schema, and
    the environment with the documented laws of its parameters (\<open>json_laws\<close>, \<open>gcm_laws\<close>, \<open>hmac_laws\<close>,
    \<open>rsa_laws\<close>, \<open>id_laws\<close>, \<open>default_laws\<close>).  Sample shows that the laws can hold together.
  \<^item> Primitives: \<open>common/security\<close> (key material, keyed digests, encryption, tokens, masking,
    normalisation, the password policy).  Database: the rows, the creates, and the security events.
  \<^item> Redis: \<open>integrations/redis\<close>, the four rate limiters and the distributed lock, over a store with
    expiry; the locales \<open>window_counter\<close> and \<open>owner_lock\<close>.
  \<^item> AccessToken, Guards: \<open>modules/auth\<close> access tokens and the guards of requests.
  \<^item> Authentication, SessionMgmt, SessionUpgrade: login, refresh, reuse detection, cookies, logout, and
    the upgrade of a limited session with its idempotency record.
  \<^item> Password: \<open>modules/password\<close> and \<open>modules/email-verification\<close>.
  \<^item> CitizenProvider, Registration: \<open>integrations/citizen-api\<close> (circuit breaker, mapper, cache, adapter)
    and \<open>modules/registration\<close> (challenge tokens, citizen lookup, the registration transaction).
  \<^item> StepUp: \<open>modules/step-up-verification\<close>, with its requests as an inductive step relation.
  \<^item> MediaCleanup: \<open>integrations/verification-storage\<close> and the cleanup of documents and orphans.
  \<^item> Engine, Identity: \<open>integrations/engine\<close> (signed requests, validated answers, the concurrency gate)
    and \<open>modules/identity-verification\<close> (attempts, uploads, liveness, submission).
  \<^item> Outbox, Jobs: \<open>integrations/mail\<close> and \<open>modules/operations\<close>.  Delivery: the deliveries of a slice
    (\<open>Promise.all\<close>) as claims, requests and settlements in any order; \<open>dispatch_slice\<close> of Outbox is one of
    these orders, and all of them end in its state (\<open>concurrent_slice_sequential\<close>).
  \<^item> Passkeys: \<open>modules/passkeys\<close>.  Configuration: \<open>config/environment.validation.ts\<close>, its 129 settings
    as a table.  Edge: \<open>common/middleware\<close>, \<open>common/logging\<close>, \<open>common/filters\<close>, CORS, the guard of the
    documentation, and \<open>modules/health\<close>.  Readiness: the sharing of a readiness check in flight.
  \<^item> Validation: the request classes of the \<open>dto\<close> directories as tables of decorators, and the global
    pipe of \<open>main.ts\<close>.  Routes: the fifteen controllers as one table of routes with their guards and
    statuses, their handlers over the services above, and \<open>serve\<close>, which composes a request the way
    the framework does (router, guards, pipes, handler) over the state of the whole service.
  \<^item> Contract: \<open>contracts/auth-api-contract.json\<close> and its check, the additions of \<open>openapi.ts\<close>, and the
    release evidence of \<open>scripts/verify-release-evidence.ts\<close>.  Document: the configuration of the OpenAPI
    document, the operations of \<open>contracts/openapi.json\<close>, and where \<open>main.ts\<close> lets the document be shown.
  \<^item> Modules: every module with its imports, providers and exports, and every constructor's parameters.  What
    \<open>visible\<close>, \<open>resolve\<close>, \<open>given\<close> and \<open>create_instances\<close> say of them follows the documentation of NestJS's
    container and is no translation; the lemmas on them are no property of the development.  Settings: the interface \<open>AuthEnvironment\<close> against the schema.
    Startup: \<open>bootstrap\<close> of \<open>main.ts\<close>, the constructors that can throw, the options of the clients, and the
    timers of the workers.
  \<^item> Browser: \<open>common/security/cors.config.ts\<close> and which requests a page of another origin can send.
    Telemetry: \<open>telemetry.ts\<close> and the lines that the service writes to its log.
  \<^item> LoadTest: \<open>performance/k6/auth-load.js\<close>, its requests answered by \<open>serve\<close>.  Tooling:
    \<open>scripts/assert-project-boundary.mjs\<close> over a tree of files, the settings, percentiles and reports of the
    benchmarks, the soak, and the guard of the inspection of query plans.
  \<^item> Lifetimes, Isolation, Service: the lemmas about \<open>serve\<close>: what no request undoes, what a signed-in
    user cannot change of others, and what the guards of the routes establish.
  \<^item> SampleData, SampleConfiguration: the inputs of the witnesses.  Guarantees: the properties of
    registration, identity verification, step-up, outbox, jobs, passkeys and configuration.  Boundary:
    the properties of served requests.  System: the whole system, in which requests and the ticks of the
    outbox, the operational jobs and the media maintenance are the steps, in any order, and the properties
    of its histories.  This theory: the properties of limits and locks, cryptography, tokens and guards,
    login, sessions, passwords and email verification.

  \<^bold>\<open>What the lemmas show.\<close>  Every single-use secret is used at most once over every sequence of attempts:
  refresh tokens (\<open>ru\<close>), reset requests (\<open>rr\<close>), password changes (\<open>cp\<close>), email tokens (\<open>ev\<close>),
  registration challenges (\<open>rg\<close>), step-up assertions (\<open>sa\<close>, and their claims alone \<open>ca\<close>), idempotency keys (\<open>ic\<close>), the claim of an
  attempt (\<open>lc\<close>), passkey flows (\<open>pk\<close>) and recovery codes (\<open>rc\<close>).  Invariants: step-up challenges
  (\<open>step_up_wf\<close>), unique accounts (\<open>accounts_unique\<close>); the bound on enrolment attempts counts the starts
  that came between the reading and the writing of a start (\<open>meanwhile\<close>); over every history of requests and worker ticks, what has ended stays
  ended (\<open>settled_for_good\<close>), identifiers and addresses stay unique as the database's constraints ask
  (\<open>keys_stay_unique\<close>, a lemma) and no token of a session that was logged out is accepted by a guard or exchanged
  (\<open>logout_final\<close>); and a request leaves the rows of other users as
  they were (\<open>serve_apart\<close>).  The start: a validated
  environment starts the service up to the length of one key (\<open>validated_service_starts\<close>).  The routes: at most one matches a request
  (\<open>one_route\<close>), they are those of the contract (\<open>contract_checked\<close>).  Refinement: the outbox worker against the state machine
  \<open>mail_spec\<close>.  Termination: the dispatch loop and the recursion of \<open>issueAssertion\<close>, both
  \<open>partial_function (option)\<close> with a proof that they return.  Round trips: base64url, sealed
  envelopes, signed tokens, registration challenges, cached citizens.  Beyond the properties: the
  orphan scan deletes no referenced object (\<open>orphan_work_safe\<close>), the cleanup jobs drain their backlog
  (\<open>deleteByIds_drains\<close>), nobody waits at an idle gate (\<open>gate_no_idle_waiter\<close>), members with sensitive
  names are redacted at every depth (\<open>sanitized_members\<close>), error codes have their public shape, the committed
  document is true of every route (\<open>document_describes_routes\<close>) although the addresses it gives reach none
  (\<open>documented_addresses_lead_nowhere\<close>), its YAML form passes the guard (\<open>documentation_guard_misses_yaml\<close>), the
  load test is refused (\<open>load_test_refused\<close>), and the boundary check passes exactly for a project that keeps
  the boundary (\<open>boundary_check_exact\<close>).

  \<^bold>\<open>Bounds and fuel.\<close>  No definition uses fuel.  Times are integers in milliseconds, counters natural
  numbers: the service's values stay far below \<open>2\<^sup>5\<^sup>3\<close>, where JavaScript's numbers are exact.  Texts are
  lists of 8-bit characters; Unicode normalisation and case mapping are parameters.  Scores of the
  engine are whole numbers in the model.

  \<^bold>\<open>Not modelled.\<close>  Transactions are atomic and serial but for the start of an attempt, whose reads no
  conditional update protects; the retries of serialisation failures are an argument where the code has
  them.  A served request is one step; the interleaving inside a request is modelled where it matters, in the
  theory of its service.  The schema of the database is not in the repository: of its constraints the model has
  the unique identifiers, addresses, citizens and credentials, on which the code relies.
  Of the framework, what the documentation of class-validator and of the router promises is written out
  (the decorators, matching by segments); whether a text is an address or a UUID and how its length is
  counted are the parameters in \<open>class_validator\<close>, and the WebAuthn library, the engine's and the citizen
  provider's answers are fields of \<open>world\<close>.  The parsers and size limits of bodies and cookies, the headers
  of helmet, HEAD and OPTIONS requests, cache headers and the messages of validation errors are left out.  The
  duration of a request is an argument of its line.  The SDK of OpenTelemetry, the generator of the document
  and its user interface, and the handling of process signals are calls of libraries; the measuring loops of the
  benchmarks, the explained queries and the lint configuration hold no state of the service.
\<close>

section \<open>Rate limits and locks\<close>

text \<open>In a timed sequence of refresh requests spanning less than the window of a minute, the
  limiter admits exactly the first \<open>REFRESH_LIMIT_PER_MINUTE\<close> requests of each token digest,
  however the requests of other tokens are interleaved with them.\<close>

lemma refresh_rate_window:
  assumes "counters_only (refresh_prefix E) r" and "rds_status r = Status_ready"
    and "counted (refresh_prefix E @ k) r = 0" and "sum_list (map fst evs) < MINUTE_WINDOW"
  shows "count_rows (\<lambda>(d, res). d = k \<and> succeeded res) (refresh_requests E evs r)
    = min (cfg_num E ''REFRESH_LIMIT_PER_MINUTE'') (count_rows (\<lambda>(dt, d). d = k) evs)"
  unfolding refresh_requests_admitted [OF assms(1,2)]
  using rl.admitted_in_window [OF assms(1), of k evs 59999 "cfg_num E ''REFRESH_LIMIT_PER_MINUTE''"] assms(3,4)
  by simp

lemma sample_counters: "counters_only p sample_redis"
  by (simp add: counters_only_def sample_redis_def)

lemma refresh_rate_window_witness:
  "count_rows (\<lambda>(d, res). d = ''t'' \<and> succeeded res)
     (refresh_requests sample_env [(0, ''t''), (5, ''u''), (9, ''t'')] sample_redis)
   = min (cfg_num sample_env ''REFRESH_LIMIT_PER_MINUTE'') 2"
  using refresh_rate_window [of sample_env sample_redis "''t''" "[(0, ''t''), (5, ''u''), (9, ''t'')]"]
  by (simp add: sample_counters) (simp add: sample_redis_def counted_def live_def)


text \<open>Once an owner has the lock of a key, nobody acquires it again until the owner releases it or
  its time to live has passed, whatever other owners do in between: their releases do not free it.\<close>

lemma lock_exclusive:
  assumes "lock_entry key r" and "redis_get key r = None" and "Release u \<notin> set ops"
    and "elapsed ops < Suc secs * 1000"
  shows "fst (lock_run (lock_acquire key (Suc secs)) (lock_release key) pass_time (Acquire u # ops) r) = [u]"
  by (rule lk.exclusive [OF assms])

lemma lock_exclusive_witness:
  "fst (lock_run (lock_acquire ''k'' (Suc 4)) (lock_release ''k'') pass_time
     [Acquire ''a'', Elapse 100, Acquire ''b'', Release ''b'', Acquire ''c''] sample_redis) = [''a'']"
  using lock_exclusive [of "''k''" sample_redis "''a''" "[Elapse 100, Acquire ''b'', Release ''b'', Acquire ''c'']" 4]
  by (simp add: lock_entry_def redis_get_def live_def sample_redis_def)

section \<open>Security primitives\<close>

text \<open>C33. A sealed text opens again under its own purpose and under no other: an envelope of one
  purpose is never accepted where another is expected.\<close>

theorem sealed_for_one_purpose:
  assumes "json_laws E" and "gcm_laws E" and "seal E i plaintext purpose = Inr s"
  shows "open_sealed E s purpose = Inr plaintext
    \<and> (other \<noteq> purpose \<longrightarrow> \<not> succeeded (open_sealed E s other))"
  using open_seal [OF assms] by simp

theorem sealed_for_one_purpose_witness:
  "\<exists>s. seal sample_env 0 ''token'' Password_Reset_Token = Inr s
     \<and> \<not> succeeded (open_sealed sample_env s Email_Verification_Token)"
proof -
  obtain s where s: "seal sample_env 0 ''token'' Password_Reset_Token = Inr s"
    using seal_total [of sample_env 0 "''token''" Password_Reset_Token] by auto
  show ?thesis
    using sealed_for_one_purpose [OF sample_json sample_gcm s, of Email_Verification_Token] s by simp
qed

text \<open>A keyed-digest service only starts with three keys of at least 32 bytes that are pairwise
  different, so that no purpose shares its key.\<close>

lemma digest_keys_separated:
  assumes "keyed_digest_new config = Inr k"
  shows "distinct [lookupKey k, tokenKey k, contextKey k]
    \<and> 32 \<le> length (lookupKey k) \<and> 32 \<le> length (tokenKey k) \<and> 32 \<le> length (contextKey k)"
  using assms assertPurposeSeparatedKeys_ok
  by (auto simp: keyed_digest_new_def decodeKeyMaterial_def Let_def split: sum.splits if_splits)

definition sample_keys :: "string \<Rightarrow> string" where
  "sample_keys k = b64_encode (replicate 32 (if k = ''IDENTITY_LOOKUP_HMAC_KEY'' then CHR ''L''
     else if k = ''TOKEN_DIGEST_HMAC_KEY'' then CHR ''T'' else CHR ''C''))"

lemma digest_keys_separated_witness:
  "\<exists>k. keyed_digest_new sample_keys = Inr k \<and> distinct [lookupKey k, tokenKey k, contextKey k]"
proof -
  have "succeeded (keyed_digest_new sample_keys)"
    by (simp add: keyed_digest_new_def sample_keys_def decodeKeyMaterial_encode replicate_eq_replicate
        split: sum.splits)
  then obtain k where k: "keyed_digest_new sample_keys = Inr k"
    by (cases "keyed_digest_new sample_keys") auto
  from digest_keys_separated [OF k] k show ?thesis by blast
qed

text \<open>A masked identifier keeps its length and shows its last \<open>n\<close> characters only, for every
  \<open>n\<close> above zero.\<close>

lemma mask_hides_prefix:
  assumes "maskIdentifier v n = Inr m" and "0 < n"
  shows "length m = length v
    \<and> (\<forall>i < length v. m ! i = (if i < length v - nat n then CHR ''*'' else v ! i))"
  using assms by (auto simp: maskIdentifier_def slice_from_end_def nth_append split: if_splits)

lemma mask_hides_prefix_witness:
  "maskIdentifier ''1199880012345678'' 4 = Inr ''************5678''
   \<and> length ''************5678'' = length ''1199880012345678''"
proof -
  have m: "maskIdentifier ''1199880012345678'' 4 = Inr ''************5678''"
    by (simp add: maskIdentifier_def slice_from_end_def numeral_eq_Suc)
  from mask_hides_prefix [OF m] m show ?thesis by simp
qed

text \<open>For a suffix length of zero the mask hides nothing: the identifier follows the asterisks in
  full, because \<open>slice(-0)\<close> is the whole string.\<close>

lemma mask_zero_reveals: "maskIdentifier v 0 = Inr (replicate (length v) (CHR ''*'') @ v)"
  by (simp add: maskIdentifier_def slice_from_end_def)


section \<open>Access tokens and guards\<close>

text \<open>C25. A token issued for a session is accepted by the access guard, with the claims it was issued
  with, as long as it has not expired and the session is active, unexpired and its user active.\<close>

theorem issued_token_accepted:
  assumes "json_laws E" and "rsa_laws E" and "audiences E \<noteq> []"
    and "issue E i j (ses_userId s) (ses_id s) (ses_level s) = Inr t"
    and "clock E 0 div 1000 < clock E i div 1000 + int (access_ttl E (ses_level s))"
    and "distinct (map ses_id (sessions d))" and "live_session d (clock E 1) s"
  shows "access_guard E (Some (''Bearer '' @ acc_token t)) d =
    Inr (access_claims E (clock E i div 1000) (uuid E j) (ses_userId s) (ses_id s) (ses_level s))"
  by (rule access_guard_issued [OF assms])

theorem issued_token_accepted_witness:
  "\<exists>t. issue sample_env 3 1 ''user-1'' ''session-1'' LIMITED = Inr t
     \<and> succeeded (access_guard sample_env (Some (''Bearer '' @ acc_token t)) sample_db)"
proof -
  obtain t where t: "issue sample_env 3 1 ''user-1'' ''session-1'' LIMITED = Inr t"
    using issue_total [OF sample_rsa] by blast
  have "succeeded (access_guard sample_env (Some (''Bearer '' @ acc_token t)) sample_db)"
    using issued_token_accepted [OF sample_json sample_rsa sample_audiences, of 3 1 sample_session t sample_db]
      t sample_live [of 1]
    by (simp add: sample_session_def access_ttl_def) (simp add: sample_env_def sample_numbers_def)
  with t show ?thesis by blast
qed

text \<open>C3. The access guard accepts a request only if its token is a bearer token signed by a known
  verification key, of type \<open>ACCESS\<close>, from this issuer and for one of its audiences, not expired by the
  expiry it states (a token that states none passes), and names a session that is active, unexpired, of
  the level and the user the token states, and whose user's account is active.\<close>

theorem access_guard_sound:
  assumes "access_guard E authorization d = Inr claims"
  shows "\<exists>h p s header kid key session.
    authorization = Some (''Bearer '' @ h @ ''.'' @ p @ ''.'' @ s)
    \<and> decodeJson E h = Some header \<and> decodeJson E p = Some claims
    \<and> json_field ''kid'' header = Some (JStr kid) \<and> map_of (verificationKeys E) kid = Some key
    \<and> json_field ''alg'' header = Some (JStr ''RS256'') \<and> rsa_verify E key (h @ ''.'' @ p) (b64_decode s)
    \<and> json_field ''iss'' claims = Some (JStr (issuer E))
    \<and> json_field ''tokenType'' claims = Some (JStr ''ACCESS'') \<and> aud_accepted E claims
    \<and> (\<forall>j t. json_field ''exp'' claims = Some j \<longrightarrow> js_number j = Some t \<longrightarrow> clock E 0 div 1000 < t)
    \<and> live_session d (clock E 1) session \<and> json_field ''sid'' claims = Some (JStr (ses_id session))
    \<and> json_field ''sub'' claims = Some (JStr (ses_userId session))
    \<and> claims_session_level claims = Some (ses_level session)"
  using assms
  by (elim access_guard_InrE verify_InrE) (intro exI conjI, assumption?, simp_all add: js_at_most_def split: option.splits)

theorem access_guard_sound_witness:
  "\<exists>token claims. access_guard sample_env (Some (''Bearer '' @ token)) sample_db = Inr claims
     \<and> json_field ''iss'' claims = Some (JStr (issuer sample_env))"
proof -
  obtain t where "issue sample_env 3 1 ''user-1'' ''session-1'' LIMITED = Inr t"
    using issue_total [OF sample_rsa] by blast
  then obtain claims where g: "access_guard sample_env (Some (''Bearer '' @ acc_token t)) sample_db = Inr claims"
    using access_guard_issued [OF sample_json sample_rsa sample_audiences, of 3 1 sample_session t sample_db]
      sample_live [of 1]
    by (simp add: sample_session_def access_ttl_def) (simp add: sample_env_def sample_numbers_def)
  from access_guard_sound [OF g] g show ?thesis by blast
qed

text \<open>An internal service is authenticated only as one of the four known services and only by that
  service's own, non-empty key.\<close>

lemma internal_service_own_key:
  assumes "internal_service_guard E service presented = Inr s"
  shows "service = Some s
    \<and> s \<in> {''mucyora-user'', ''mucyora-signature'', ''mucyora-auth-recovery'', ''mucyora-operations''}
    \<and> (\<exists>k. keyFor E s = Some k \<and> k \<noteq> [] \<and> presented = Some k)"
  using internal_service_guard_InrD [OF assms] by (auto simp: keyFor_def split: if_splits)

definition keyed_env :: env where
  "keyed_env = sample_env\<lparr>cfg_str := (\<lambda>k. if k = ''MUCYORA_USER_SERVICE_KEY'' then ''user-key'' else [])\<rparr>"

lemma internal_service_own_key_witness:
  "internal_service_guard keyed_env (Some ''mucyora-user'') (Some ''user-key'') = Inr ''mucyora-user''
   \<and> keyFor keyed_env ''mucyora-user'' = Some ''user-key''"
proof -
  have g: "internal_service_guard keyed_env (Some ''mucyora-user'') (Some ''user-key'') = Inr ''mucyora-user''"
    by (simp add: internal_service_guard_def keyFor_def keyed_env_def)
  from internal_service_own_key [OF g] g show ?thesis by auto
qed


section \<open>Login\<close>

text \<open>C7. A login succeeds exactly when the address is that of a user whose password the input
  matches, who is not locked out at that moment, whose account is neither disabled, suspended nor
  locked and whose email address is verified; and, where the stored hash is outdated, when the password
  can be hashed again, which today's policy and the breach service may refuse.\<close>

theorem login_exactly_when:
  assumes "fresh_refresh E d" and "rsa_laws E"
  shows "succeeded (fst (login_checked E input ctx email d)) \<longleftrightarrow> (\<exists>u c.
     find_row (\<lambda>u. usr_emailNormalized u = email) (users d) = Some u
     \<and> find_row (\<lambda>c. cred_userId c = usr_id u) (credentials d) = Some c
     \<and> password_verify E (cred_passwordHash c) (lgi_password input)
     \<and> (\<forall>t. cred_lockedUntil c = Some t \<longrightarrow> t \<le> clock E 0)
     \<and> usr_accountStatus u \<notin> {Account_DISABLED, Account_SUSPENDED, Account_LOCKED}
     \<and> usr_emailVerifiedAt u \<noteq> None
     \<and> (argon2_needsRehash E (cred_passwordHash c) \<longrightarrow> succeeded (password_hash E (lgi_password input) email)))"
  using login_checked_iff [OF assms, of input ctx email] by (simp add: may_log_in_def rehash_allowed_def)

definition sample_login :: login_input where
  "sample_login = \<lparr>lgi_email = ''a@b.rw'', lgi_password = ''secret'', lgi_deviceId = ''device'',
     lgi_deviceLabel = None, lgi_transport = NATIVE\<rparr>"

theorem login_exactly_when_witness:
  "succeeded (fst (login_checked sample_env sample_login sample_ctx ''a@b.rw'' sample_db))"
  using login_exactly_when [OF sample_fresh sample_rsa, of sample_login sample_ctx "''a@b.rw''"]
  by (simp add: sample_user_def sample_credential_def sample_login_def password_verify_def)

text \<open>C24. A successful login adds one session and one refresh token and changes no other: the session
  belongs to the user, is active and full exactly when the user's identity is verified and the
  risk of the login is low; the token is bound to it by the digest of the token handed out.\<close>

theorem login_creates_session:
  assumes "login_checked E input ctx email d = (Inr issued, d')"
  shows "\<exists>u s t. find_row (\<lambda>u. usr_emailNormalized u = email) (users d) = Some u
     \<and> sessions d' = sessions d @ [s] \<and> refresh_tokens d' = refresh_tokens d @ [t]
     \<and> ses_userId s = usr_id u \<and> ses_status s = Session_ACTIVE
     \<and> (ses_level s = FULL \<longleftrightarrow> usr_identityStatus u = Identity_VERIFIED
          \<and> rsk_level (assess (usr_id u) (lgi_deviceId input) (requestContext E (rq_ipAddress ctx))
              (requestContext E (rq_userAgent ctx)) d) = Risk_LOW)
     \<and> rft_sessionId t = ses_id s \<and> rft_userId t = usr_id u
     \<and> rft_tokenDigest t = token_digest E (iss_refreshToken issued)
     \<and> rft_expiresAt t = ses_expiresAt s \<and> rsp_sessionLevel (iss_response issued) = ses_level s"
proof (rule login_checked_InrE [OF assms])
  fix u :: user_row and c :: credential_row and sid rehashed
  let ?risk = "assess (usr_id u) (lgi_deviceId input) (requestContext E (rq_ipAddress ctx))
    (requestContext E (rq_userAgent ctx)) d"
  assume may: "may_log_in E input email d u c"
    and com: "login_commit E input ctx u c (requestContext E (rq_ipAddress ctx)) ?risk
      (token_digest E (iss_refreshToken issued)) rehashed d = (Inr sid, d')"
    and built: "buildIssuedAuthentication E 3 1 (usr_id u) sid (login_level u ?risk)
      (iss_refreshToken issued) (lgi_transport input) = Inr issued"
  show ?thesis
    using may login_commit_InrD [OF com] buildIssued_InrD [OF built]
    by (auto simp: may_log_in_def login_session_def login_refresh_row_def login_level_def)
qed

theorem login_creates_session_witness:
  "\<exists>issued d'. login_checked sample_env sample_login sample_ctx ''a@b.rw'' sample_db = (Inr issued, d')
     \<and> length (sessions d') = 2"
proof -
  have "may_log_in sample_env sample_login ''a@b.rw'' sample_db sample_user sample_credential"
    by (simp add: may_log_in_def sample_user_def sample_credential_def sample_login_def password_verify_def)
  moreover have "rehash_allowed sample_env sample_login ''a@b.rw'' sample_credential" by (simp add: rehash_allowed_def)
  ultimately obtain issued d' where l: "login_checked sample_env sample_login sample_ctx ''a@b.rw'' sample_db = (Inr issued, d')"
    using login_checked_total [OF _ sample_fresh sample_rsa] by blast
  from login_creates_session [OF l] obtain s where "sessions d' = sessions sample_db @ [s]" by blast
  with l show ?thesis by simp
qed

text \<open>A login that is refused creates no session and no refresh token, whatever the reason.\<close>

lemma refused_login_creates_nothing:
  assumes "login_checked E input ctx email d = (Inl e, d')" and "rsa_laws E"
  shows "sessions d' = sessions d \<and> refresh_tokens d' = refresh_tokens d \<and> users d' = users d"
  by (rule login_checked_InlD [OF assms])

lemma refused_login_creates_nothing_witness:
  "\<exists>e d'. login_checked sample_env sample_login sample_ctx ''x@b.rw'' sample_db = (Inl e, d')
     \<and> sessions d' = [sample_session]"
proof -
  have "\<not> succeeded (fst (login_checked sample_env sample_login sample_ctx ''x@b.rw'' sample_db))"
    using login_checked_iff [OF sample_fresh sample_rsa, of sample_login sample_ctx "''x@b.rw''"]
    by (auto simp: may_log_in_def sample_user_def)
  then obtain e d' where l: "login_checked sample_env sample_login sample_ctx ''x@b.rw'' sample_db = (Inl e, d')"
    by (cases "login_checked sample_env sample_login sample_ctx ''x@b.rw'' sample_db";
        cases "fst (login_checked sample_env sample_login sample_ctx ''x@b.rw'' sample_db)") auto
  from refused_login_creates_nothing [OF l sample_rsa] l show ?thesis by simp
qed



text \<open>A login with an unknown address, a wrong password, a locked credential or a disabled,
  suspended or locked account gets one and the same answer: nothing distinguishes an existing
  account from a missing one.\<close>

lemma login_refusals_uniform:
  assumes "(\<nexists>u. find_row (\<lambda>u. usr_emailNormalized u = email) (users d) = Some u)
     \<or> (\<exists>u. find_row (\<lambda>u. usr_emailNormalized u = email) (users d) = Some u
          \<and> (find_row (\<lambda>c. cred_userId c = usr_id u) (credentials d) = None
             \<or> usr_accountStatus u \<in> {Account_DISABLED, Account_SUSPENDED, Account_LOCKED}
             \<or> (\<exists>c. find_row (\<lambda>c. cred_userId c = usr_id u) (credentials d) = Some c
                 \<and> (\<not> password_verify E (cred_passwordHash c) (lgi_password input)
                    \<or> (\<exists>t. cred_lockedUntil c = Some t \<and> clock E 0 < t)))))"
  shows "fst (login_checked E input ctx email d) = Inl invalidCredentials"
proof (cases "find_row (\<lambda>u. usr_emailNormalized u = email) (users d)")
  case None
  then show ?thesis by (simp add: login_checked_def)
next
  case u: (Some u)
  show ?thesis
  proof (cases "find_row (\<lambda>c. cred_userId c = usr_id u) (credentials d)")
    case None
    with u show ?thesis by (simp add: login_checked_def)
  next
    case c: (Some c)
    show ?thesis
    proof (cases "\<not> password_verify E (cred_passwordHash c) (lgi_password input)
        \<or> (\<exists>t. cred_lockedUntil c = Some t \<and> clock E 0 < t)")
      case True
      then show ?thesis by (simp add: login_refused [OF u c])
    next
      case False
      with assms u c show ?thesis by (auto simp: login_checked_def Let_def split: option.splits)
    qed
  qed
qed

lemma login_refusals_uniform_witness:
  "fst (login_checked sample_env sample_login sample_ctx ''nobody@b.rw'' sample_db) = Inl invalidCredentials"
  by (rule login_refusals_uniform) (simp add: sample_user_def)


section \<open>Refresh\<close>

text \<open>C21. A successful refresh spends the presented token, names its replacement and adds exactly that
  replacement: the next generation, bound to the same session and user, unspent, identified by the
  digest of the token handed out; the session was active and unexpired.\<close>

theorem refresh_rotates:
  assumes "refresh E token transport ctx d r = (Inr issued, d', r')" and "id_laws E"
    and "distinct (map rft_id (refresh_tokens d))"
  shows "\<exists>t s new. find_refresh (token_digest E token) d = Some (t, s)
     \<and> ses_status s = Session_ACTIVE \<and> clock E 3 < ses_expiresAt s
     \<and> rft_usedAt t = None \<and> rft_revokedAt t = None \<and> clock E 2 < rft_expiresAt t
     \<and> refresh_tokens d' = update_rows (unspent E (rft_id t))
         (\<lambda>t. t\<lparr>rft_usedAt := Some (clock E 4), rft_replacedBy := Some (rft_id new)\<rparr>) (refresh_tokens d) @ [new]
     \<and> count_rows (unspent E (rft_id t)) (refresh_tokens d) = 1
     \<and> rft_generation new = rft_generation t + 1 \<and> rft_sessionId new = rft_sessionId t
     \<and> rft_userId new = rft_userId t \<and> rft_usedAt new = None \<and> rft_revokedAt new = None
     \<and> rft_tokenDigest new = token_digest E (iss_refreshToken issued)"
proof (rule refresh_InrE [OF assms(1)])
  fix t s
  assume f: "find_refresh (token_digest E token) d = Some (t, s)"
    and a: "rft_usedAt t = None" "rft_revokedAt t = None" "clock E 2 < rft_expiresAt t"
      "ses_status s = Session_ACTIVE" "clock E 3 < ses_expiresAt s"
    and rot: "rotate E ctx t s (token_digest E (iss_refreshToken issued)) d = (Inr (), d')"
  have k: "token_known (rft_id t) d" using find_refreshD [OF f] assms(3) by (simp add: token_known_def)
  show ?thesis
    by (rule rotate_InrE [OF rot assms(2) k]) (use f a in force)
qed

lemma sample_token_session: "find_refresh (token_digest sample_env ''refresh'') sample_db = Some (sample_token, sample_session)"
  by (simp add: find_refresh_def sample_token_def sample_session_def)

lemma sample_refresh_prefix: "counted k sample_redis = 0" "live sample_redis k = None"
  "rds_online sample_redis" "rds_status sample_redis = Status_ready"
  by (simp_all add: counted_def live_def sample_redis_def)

definition limited_redis :: redis where
  "limited_redis = snd (applyRefreshRateLimit sample_env (token_digest sample_env ''refresh'') sample_redis)"

lemma sample_rate: "applyRefreshRateLimit sample_env (token_digest sample_env ''refresh'') sample_redis = (Inr (), limited_redis)"
  "rds_online limited_redis" "rds_status limited_redis = Status_ready"
proof -
  let ?k = "token_digest sample_env ''refresh''"
  have h: "hit_key (refresh_prefix sample_env) MINUTE_WINDOW ?k sample_redis
      = (1, put_entry (refresh_prefix sample_env @ ?k) (Counter 1, Some 60000)
          (put_entry (refresh_prefix sample_env @ ?k) (Counter 1, None) sample_redis))"
    by (simp add: hit_key_def increment_counters_only [OF sample_counters] sample_refresh_prefix)
      (simp add: sample_redis_def)
  have l: "1 \<le> cfg_num sample_env ''REFRESH_LIMIT_PER_MINUTE''"
    by (simp add: sample_env_def sample_numbers_def)
  note a = assertRefreshAllowed_hit [OF sample_counters sample_refresh_prefix(4), of sample_env ?k]
  show "applyRefreshRateLimit sample_env ?k sample_redis = (Inr (), limited_redis)"
    and "rds_online limited_redis" "rds_status limited_redis = Status_ready"
    using a l unfolding limited_redis_def applyRefreshRateLimit_def h
    by (simp_all add: put_entry_def sample_redis_def)
qed

lemma sample_lock_free: "live limited_redis (refresh_lock_key sample_env ''session-1'') = None"
proof -
  have "refresh_lock_key sample_env j \<noteq> refresh_prefix sample_env @ k" for k j
    by (simp add: refresh_prefix_def refresh_lock_key_def)
  moreover have "rds_store limited_redis = (rds_store sample_redis)
      (refresh_prefix sample_env @ token_digest sample_env ''refresh'' \<mapsto> (Counter 1, Some 60000))"
    using assertRefreshAllowed_hit [OF sample_counters sample_refresh_prefix(4), of sample_env "token_digest sample_env ''refresh''"]
    by (simp add: limited_redis_def applyRefreshRateLimit_def hit_key_def increment_counters_only [OF sample_counters]
        sample_refresh_prefix put_entry_def split: sum.splits if_splits) (simp_all add: sample_redis_def)
  ultimately show ?thesis by (simp add: live_def sample_redis_def)
qed

text \<open>C23. A refresh whose token is unspent, unrevoked and unexpired and whose session is active and
  unexpired succeeds when the limiter admits it and no other refresh of the session holds the
  lock; and the session's lock is free again afterwards.\<close>

theorem refresh_completes:
  assumes "applyRefreshRateLimit E (token_digest E token) r = (Inr (), r1)"
    and "rds_online r1" and "rds_status r1 = Status_ready"
    and "find_refresh (token_digest E token) d = Some (t, s)"
    and "live r1 (refresh_lock_key E (rft_sessionId t)) = None"
    and "may_refresh E t s" and "fresh_refresh E d" and "id_laws E" and "rsa_laws E"
    and "distinct (map rft_id (refresh_tokens d))" and "distinct (map ses_id (sessions d))"
  shows "\<exists>issued d' r'. refresh E token transport ctx d r = (Inr issued, d', r')
    \<and> live r' (refresh_lock_key E (rft_sessionId t)) = None"
proof -
  obtain x d' where "refresh_locked E t s transport ctx d = (Inr x, d')"
    using refresh_locked_total [OF assms(4,6-11)] by blast
  then show ?thesis
    using refresh_releases [OF assms(1,4,2,3,5)] by (simp add: live_def del_entry_def)
qed

lemma sample_may_refresh: "may_refresh sample_env sample_token sample_session"
  by (simp add: may_refresh_def sample_token_def sample_session_def)

theorem refresh_completes_witness:
  "\<exists>issued d' r'. refresh sample_env ''refresh'' NATIVE sample_ctx sample_db sample_redis = (Inr issued, d', r')
    \<and> live r' (refresh_lock_key sample_env ''session-1'') = None"
  using refresh_completes [OF sample_rate sample_token_session _ sample_may_refresh sample_fresh sample_ids sample_rsa,
      of NATIVE sample_ctx] sample_lock_free
  by (simp add: sample_token_def sample_session_def)

theorem refresh_rotates_witness:
  "\<exists>issued d' r'. refresh sample_env ''refresh'' NATIVE sample_ctx sample_db sample_redis = (Inr issued, d', r')
    \<and> length (refresh_tokens d') = 2"
proof -
  obtain x d' where l: "refresh_locked sample_env sample_token sample_session NATIVE sample_ctx sample_db = (Inr x, d')"
    using refresh_locked_total [OF sample_token_session sample_may_refresh sample_fresh sample_ids sample_rsa]
    by (metis distinct_singleton list.simps(8,9) sample_db_simps(3,4))
  have lock: "live limited_redis (refresh_lock_key sample_env (rft_sessionId sample_token)) = None"
    using sample_lock_free by (simp add: sample_token_def)
  have r: "refresh sample_env ''refresh'' NATIVE sample_ctx sample_db sample_redis = (Inr x, d',
      del_entry (refresh_lock_key sample_env (rft_sessionId sample_token)) limited_redis)"
    by (simp add: refresh_releases [OF sample_rate(1) sample_token_session sample_rate(2,3) lock] l)
  have "length (refresh_tokens d') = 2"
    using refresh_rotates [OF r sample_ids] by auto
  with r show ?thesis by blast
qed

text \<open>C1. Of any sequence of refreshes that read the same token row, in whatever order their
  transactions run and also when the Redis lock no longer separates them, at most one rotates it.\<close>

theorem refresh_token_single_use:
  assumes "token_known k d" and "list_all (rotation_of k) as"
  shows "length (wins rotation_attempt as d) \<le> 1"
  by (rule ru.at_most_one_win [OF assms])

theorem refresh_token_single_use_witness:
  "length (wins rotation_attempt
     [(sample_env, sample_ctx, sample_token, sample_session, ''a''),
      (sample_env, sample_ctx, sample_token, sample_session, ''b'')] sample_db) \<le> 1"
  by (rule refresh_token_single_use [of "''token-1''"])
    (simp_all add: token_known_def rotation_of_def sample_token_def sample_ids)

text \<open>C10. Presenting a token that was rotated longer ago than the grace period is answered as invalid,
  marks the session as compromised and revokes every refresh token of it; other sessions keep
  their rows.\<close>

theorem reuse_compromises_session:
  assumes "find_refresh (token_digest E token) d = Some (t, s)" and "rft_usedAt t = Some at"
    and "seconds E ''REFRESH_REPLAY_GRACE_SECONDS'' < clock E 0 - at"
    and "applyRefreshRateLimit E (token_digest E token) r = (Inr (), r1)"
    and "rds_online r1" and "rds_status r1 = Status_ready"
    and "live r1 (refresh_lock_key E (rft_sessionId t)) = None"
  shows "\<exists>d' r'. refresh E token transport ctx d r = (Inl invalidRefresh, d', r')
    \<and> (\<forall>x \<in> set (sessions d'). ses_id x = rft_sessionId t \<longrightarrow> ses_status x = Session_COMPROMISED)
    \<and> (\<forall>x \<in> set (refresh_tokens d'). rft_sessionId x = rft_sessionId t \<longrightarrow> rft_revokedAt x \<noteq> None)
    \<and> (\<forall>x \<in> set (sessions d'). ses_id x \<noteq> rft_sessionId t \<longrightarrow> x \<in> set (sessions d))"
proof -
  have t: "t \<in> set (refresh_tokens d)" using find_refreshD [OF assms(1)] by simp
  note v = revokeForReuse_eq [OF t, where E = E and ctx = ctx]
  have "refresh_locked E t s transport ctx d = (Inl invalidRefresh, snd (revokeForReuse E t ctx d))"
    using v(1) assms(2,3) by (auto simp: refresh_locked_def split: prod.splits sum.splits)
  then have "refresh E token transport ctx d r = (Inl invalidRefresh, snd (revokeForReuse E t ctx d),
      del_entry (refresh_lock_key E (rft_sessionId t)) r1)"
    by (simp add: refresh_releases [OF assms(4,1,5-7)])
  with v(2-4) show ?thesis by auto
qed

definition reused_db :: db where
  "reused_db = sample_db\<lparr>refresh_tokens := [sample_token\<lparr>rft_usedAt := Some 1\<rparr>]\<rparr>"

theorem reuse_compromises_session_witness:
  "\<exists>d' r'. refresh sample_env ''refresh'' NATIVE sample_ctx reused_db sample_redis = (Inl invalidRefresh, d', r')
    \<and> (\<forall>x \<in> set (sessions d'). ses_id x = ''session-1'' \<longrightarrow> ses_status x = Session_COMPROMISED)"
proof -
  let ?t = "sample_token\<lparr>rft_usedAt := Some 1\<rparr>"
  have "find_refresh (token_digest sample_env ''refresh'') reused_db = Some (?t, sample_session)"
    by (simp add: find_refresh_def reused_db_def sample_token_def sample_session_def)
  moreover have "seconds sample_env ''REFRESH_REPLAY_GRACE_SECONDS'' < clock sample_env 0 - 1"
    by (simp add: sample_env_def sample_numbers_def)
  ultimately show ?thesis
    using reuse_compromises_session [of sample_env "''refresh''" reused_db ?t sample_session 1 sample_redis
        limited_redis NATIVE sample_ctx] sample_rate sample_lock_free
    by (simp add: sample_token_def) blast
qed


section \<open>Sessions\<close>

text \<open>After a logout no access token that names the session passes the access guard again, at any
  later time and for any signature.\<close>

lemma logout_is_final:
  assumes "distinct (map ses_id (sessions d))" and "json_field ''sid'' claims = Some (JStr (prn_sid p))"
  shows "access_guard F authorization (snd (logout E p ctx d)) \<noteq> Inr claims"
  by (rule logout_guard [OF assms])

lemma logout_is_final_witness:
  "\<forall>authorization. access_guard sample_env authorization
     (snd (logout sample_env \<lparr>prn_sub = ''user-1'', prn_sid = ''session-1''\<rparr> sample_ctx sample_db))
     \<noteq> Inr (JObj [(''sid'', JStr ''session-1'')])"
  by (intro allI logout_is_final) (simp_all add: sample_session_def)

text \<open>Logging out of all sessions revokes at most a hundred of them: of the user's active sessions
  exactly the number above a hundred stays active, none when there are no more than that, although
  the operation is documented to revoke every active session.\<close>

lemma logout_all_leaves_rest:
  assumes "distinct (map ses_id (sessions d))"
  shows "count_rows (\<lambda>s. ses_userId s = prn_sub p \<and> ses_status s = Session_ACTIVE)
      (sessions (snd (logoutAll E p ctx d)))
    = count_rows (\<lambda>s. ses_userId s = prn_sub p \<and> ses_status s = Session_ACTIVE) (sessions d) - 100"
  unfolding logoutAll_def by (rule revokeSessions_remaining [OF assms])

lemma logout_all_leaves_rest_witness:
  "\<exists>d. distinct (map ses_id (sessions d))
     \<and> count_rows (\<lambda>s. ses_userId s = ''user-1'' \<and> ses_status s = Session_ACTIVE)
         (sessions (snd (logoutAll sample_env \<lparr>prn_sub = ''user-1'', prn_sid = ''session-1''\<rparr> sample_ctx d))) = 1"
proof -
  let ?d = "sample_db\<lparr>sessions := map (\<lambda>i. sample_session\<lparr>ses_id := replicate i (CHR ''s'')\<rparr>) [0..<101]\<rparr>"
  have inj: "inj_on (\<lambda>i. replicate i (CHR ''s'')) A" for A
    by (rule inj_onI) (metis length_replicate)
  have dist: "distinct (map ses_id (sessions ?d))"
    by (simp add: o_def distinct_map inj)
  have "count_rows (\<lambda>s. ses_userId s = ''user-1'' \<and> ses_status s = Session_ACTIVE) (sessions ?d) = 101"
    by (simp add: count_rows_def o_def sample_session_def)
  then show ?thesis
    using logout_all_leaves_rest [OF dist, of "\<lparr>prn_sub = ''user-1'', prn_sid = ''session-1''\<rparr>" sample_env sample_ctx]
      dist by (intro exI [of _ ?d]) simp
qed

section \<open>Session upgrade\<close>

text \<open>C14. An upgrade that is not a replay revokes exactly the caller's own active limited session and
  adds one full session of the same user, and only for a user whose account is active and whose
  identity is verified and who names a passed enrolment attempt of his own.\<close>

theorem upgrade_requires_verification:
  assumes "upgrade_transaction E claims input key ctx generated d = (Inr u, d')"
    and "\<not> slot_taken (upgrade_scope claims) key d" and "default_laws E"
  shows "\<exists>user a new. user \<in> set (users d) \<and> usr_id user = prn_sub claims
     \<and> usr_accountStatus user = Account_ACTIVE \<and> usr_identityStatus user = Identity_VERIFIED
     \<and> a \<in> set (attempts d) \<and> att_id a = upi_verificationAttemptId input
     \<and> att_userId a = prn_sub claims \<and> att_purpose a = ACCOUNT_ENROLLMENT \<and> att_status a = Attempt_PASSED
     \<and> count_rows (upgrade_target claims) (sessions d) = 1
     \<and> sessions d' = update_rows (upgrade_target claims)
         (\<lambda>s. s\<lparr>ses_status := Session_REVOKED, ses_revokedAt := Some (clock E 0),
                ses_revocationReason := Some SESSION_UPGRADE_REVOCATION_REASON,
                ses_version := ses_version s + 1\<rparr>) (sessions d) @ [new]
     \<and> ses_level new = FULL \<and> ses_status new = Session_ACTIVE \<and> ses_userId new = prn_sub claims
     \<and> ses_id new = upr_sessionId u"
proof (rule upgrade_transaction_freshE [OF assms(1,2)])
  fix limited :: session_row and user :: user_row
  assume l: "find_row (\<lambda>s. ses_id s = prn_sid claims) (sessions d) = Some limited" "upgradable E claims limited"
    and us: "find_row (\<lambda>u. usr_id u = ses_userId limited) (users d) = Some user"
      "usr_accountStatus user = Account_ACTIVE" "usr_identityStatus user = Identity_VERIFIED"
    and at: "\<exists>a \<in> set (attempts d). att_id a = upi_verificationAttemptId input \<and> att_userId a = prn_sub claims
      \<and> att_purpose a = ACCOUNT_ENROLLMENT \<and> att_status a = Attempt_PASSED"
    and rep: "upgrade_replace E claims input (upgrade_scope claims) key ctx generated limited
      (d\<lparr>idempotency := idempotency d @ [new_idempotency E (upgrade_scope claims) key
         (upgrade_digest E claims input) (clock E 0 + seconds E ''SESSION_UPGRADE_IDEMPOTENCY_TTL_SECONDS'') d]\<rparr>)
      = (Inr u, d')"
  have "user \<in> set (users d)" "usr_id user = prn_sub claims"
    using find_row_SomeD [OF us(1)] l(2) by (auto simp: upgradable_def)
  with us at show ?thesis
    using assms(3) by - (rule upgrade_replace_InrE [OF rep], fastforce simp: full_session_def default_laws_def)
qed

definition enrolled_attempt :: attempt_row where
  "enrolled_attempt = \<lparr>att_id = ''attempt-1'', att_userId = ''user-1'', att_purpose = ACCOUNT_ENROLLMENT,
     att_status = Attempt_PASSED, att_policyVersion = ''p'', att_documentBindingVerified = True,
     att_attemptNumber = 1, att_ipHash = ''ip'', att_userAgentHash = ''ua'', att_startedAt = 1,
     att_completedAt = Some 2, att_retryAfter = None, att_reasonCode = None, att_livenessSessionId = None,
     att_engineRequestId = None, att_faceSimilarity = None, att_livenessConfidence = None,
     att_compositeScore = None\<rparr>"

definition upgrade_db :: db where
  "upgrade_db = sample_db\<lparr>attempts := [enrolled_attempt]\<rparr>"

definition sample_upgrade :: upgrade_input where
  "sample_upgrade = \<lparr>upi_verificationAttemptId = ''attempt-1'', upi_transport = NATIVE\<rparr>"

definition sample_opaque :: opaque_token where
  "sample_opaque = \<lparr>tok_token = ''next'', tok_digest = ''next-digest''\<rparr>"

lemma sample_upgrade_runs:
  "\<exists>u d'. upgrade_transaction sample_env sample_principal sample_upgrade key sample_ctx sample_opaque upgrade_db = (Inr u, d')"
proof -
  have s: "seal sample_env i t p \<noteq> Inl x" for i t p x
    using seal_total [of sample_env i t p] by auto
  have d: "token_digest sample_env ''refresh'' \<noteq> ''next-digest''"
    by (simp add: token_digest_def digest_def sample_env_def put_str_def put_nat_def show_nat.simps)
  have rows: "upgrade_target sample_principal sample_session" "upgradable sample_env sample_principal sample_session"
    "find_row (\<lambda>s. ses_id s = prn_sid sample_principal) [sample_session] = Some sample_session"
    "find_row (\<lambda>u. usr_id u = ses_userId sample_session) [sample_user] = Some sample_user"
    "usr_accountStatus sample_user = Account_ACTIVE" "usr_identityStatus sample_user = Identity_VERIFIED"
    "tok_digest sample_opaque = ''next-digest''" "rft_tokenDigest sample_token = token_digest sample_env ''refresh''"
    by (simp_all add: upgrade_target_def upgradable_def sample_principal_def sample_session_def sample_user_def
        sample_opaque_def sample_token_def)
  have att: "find_row (\<lambda>a. att_id a = upi_verificationAttemptId sample_upgrade
      \<and> att_userId a = prn_sub sample_principal \<and> att_purpose a = ACCOUNT_ENROLLMENT
      \<and> att_status a = Attempt_PASSED) [enrolled_attempt] \<noteq> None"
    by (simp add: enrolled_attempt_def sample_upgrade_def sample_principal_def)
  show ?thesis
    using s d rows att
    by (auto simp: upgrade_transaction_def transact_def Let_def upgrade_db_def create_idempotency_def
        upgrade_replace_def create_session_def create_refresh_token_def full_refresh_row_def
        split: sum.splits prod.splits option.splits)
qed

theorem upgrade_requires_verification_witness:
  "\<exists>u d'. upgrade_transaction sample_env sample_principal sample_upgrade ''key'' sample_ctx sample_opaque upgrade_db
      = (Inr u, d') \<and> length (sessions d') = 2"
proof -
  obtain u d' where up: "upgrade_transaction sample_env sample_principal sample_upgrade ''key'' sample_ctx
      sample_opaque upgrade_db = (Inr u, d')"
    using sample_upgrade_runs by blast
  have "\<not> slot_taken (upgrade_scope sample_principal) ''key'' upgrade_db"
    by (simp add: slot_taken_def upgrade_db_def)
  from upgrade_requires_verification [OF up this sample_defaults] have "length (sessions d') = 2"
    by (auto simp: upgrade_db_def)
  with up show ?thesis by blast
qed


text \<open>Retrying an upgrade with the same idempotency key and input before the record expires returns
  the result of the first request, the same session and refresh token, and changes nothing.\<close>

lemma upgrade_replays:
  assumes "upgrade_transaction E claims input key ctx generated d = (Inr u, d')"
    and "\<not> slot_taken (upgrade_scope claims) key d"
    and "json_laws E" and "gcm_laws E" and "prn_sub claims \<noteq> []" and "tok_token generated \<noteq> []"
    and "gen_id E (map ses_id (sessions d)) \<noteq> []"
    and "c 0 < clock E 0 + seconds E ''SESSION_UPGRADE_IDEMPOTENCY_TTL_SECONDS''"
  shows "upgrade_transaction (retry_env E c g b) claims input key ctx' generated' d' = (Inr u, d')"
  by (rule upgrade_replay [where c = c, OF assms])

lemma upgrade_replays_witness:
  "\<exists>u d'. upgrade_transaction sample_env sample_principal sample_upgrade ''key'' sample_ctx sample_opaque upgrade_db
      = (Inr u, d')
    \<and> upgrade_transaction (retry_env sample_env (\<lambda>i. 1000005) (uuid sample_env) (random_bytes sample_env)) sample_principal sample_upgrade ''key''
        sample_ctx sample_opaque d' = (Inr u, d')"
proof -
  obtain u d' where up: "upgrade_transaction sample_env sample_principal sample_upgrade ''key'' sample_ctx
      sample_opaque upgrade_db = (Inr u, d')"
    using sample_upgrade_runs by blast
  have "\<not> slot_taken (upgrade_scope sample_principal) ''key'' upgrade_db"
    by (simp add: slot_taken_def upgrade_db_def)
  from upgrade_replays [OF up this sample_json sample_gcm, of "\<lambda>i. 1000005" "uuid sample_env" "random_bytes sample_env" sample_ctx sample_opaque] up
  show ?thesis
    by (auto simp: sample_principal_def sample_opaque_def sample_env_def sample_numbers_def longer_id_def)
qed

text \<open>A limited session is upgraded at most once: after an upgrade a request with another key is
  refused as already upgraded and changes nothing.\<close>

lemma upgrade_happens_once:
  assumes "upgrade_transaction E claims input key ctx generated d = (Inr u, d')"
    and "\<not> slot_taken (upgrade_scope claims) key d" and "distinct (map ses_id (sessions d))"
    and "id_laws E" and "\<not> slot_taken (upgrade_scope claims) key' d'"
  shows "upgrade_transaction F claims input' key' ctx' generated' d'
    = (Inl (Http 409 ''SESSION_ALREADY_UPGRADED''), d')"
  by (rule upgrade_once [OF assms])

lemma upgrade_happens_once_witness:
  "\<exists>u d'. upgrade_transaction sample_env sample_principal sample_upgrade ''key'' sample_ctx sample_opaque upgrade_db
      = (Inr u, d')
    \<and> upgrade_transaction sample_env sample_principal sample_upgrade ''other'' sample_ctx sample_opaque d'
      = (Inl (Http 409 ''SESSION_ALREADY_UPGRADED''), d')"
proof -
  obtain u d' where up: "upgrade_transaction sample_env sample_principal sample_upgrade ''key'' sample_ctx
      sample_opaque upgrade_db = (Inr u, d')"
    using sample_upgrade_runs by blast
  have free: "\<not> slot_taken (upgrade_scope sample_principal) ''key'' upgrade_db"
    by (simp add: slot_taken_def upgrade_db_def)
  obtain limited where rep: "upgrade_replace sample_env sample_principal sample_upgrade (upgrade_scope sample_principal)
      ''key'' sample_ctx sample_opaque limited
      (upgrade_db\<lparr>idempotency := [] @ [new_idempotency sample_env (upgrade_scope sample_principal) ''key''
         (upgrade_digest sample_env sample_principal sample_upgrade)
         (clock sample_env 0 + seconds sample_env ''SESSION_UPGRADE_IDEMPOTENCY_TTL_SECONDS'') upgrade_db]\<rparr>)
      = (Inr u, d')"
    by (rule upgrade_transaction_freshE [OF up free]) (simp add: upgrade_db_def)
  have "\<not> slot_taken (upgrade_scope sample_principal) ''other'' d'"
    by (rule upgrade_replace_InrE [OF rep])
      (simp add: slot_taken_def idempotency_slot_def new_idempotency_def)
  from upgrade_happens_once [OF up free _ sample_ids this, of sample_env sample_upgrade sample_ctx sample_opaque] up
  show ?thesis by (auto simp: upgrade_db_def)
qed

section \<open>Passwords and email verification\<close>

text \<open>C35. The answer to a request for a password reset depends on the address and the limiter only: with
  any two states of the database, one with and one without the account, it is the same.\<close>

theorem forgot_does_not_enumerate:
  assumes "\<And>t. generate_token E 0 32 = Inr t \<Longrightarrow>
      tok_digest t \<notin> rst_tokenDigest ` set (reset_requests d)
      \<and> tok_digest t \<notin> rst_tokenDigest ` set (reset_requests d2)"
  shows "fst (forgot E email ctx d r) = fst (forgot E email ctx d2 r)
    \<and> snd (snd (forgot E email ctx d r)) = snd (snd (forgot E email ctx d2 r))"
  by (intro conjI forgot_uniform [OF assms])

theorem forgot_does_not_enumerate_witness:
  "fst (forgot sample_env ''a@b.rw'' sample_ctx sample_db sample_redis)
   = fst (forgot sample_env ''a@b.rw'' sample_ctx empty_db sample_redis)"
  using forgot_does_not_enumerate [of sample_env sample_db empty_db "''a@b.rw''" sample_ctx sample_redis]
  by (simp add: empty_db_def)

text \<open>C13. Of the resets that found the same request, in whatever order their transactions run, at most
  one sets a password.\<close>

theorem reset_token_single_use:
  assumes "request_known d" and "list_all (reset_of k) as"
  shows "length (wins reset_attempt as d) \<le> 1"
  by (rule rr.at_most_one_win [OF assms])

definition sample_request :: reset_request_row where
  "sample_request = \<lparr>rst_id = ''reset-1'', rst_userId = ''user-1'', rst_tokenDigest = ''digest'',
     rst_expiresAt = 90000000, rst_usedAt = None, rst_revokedAt = None, rst_requestedIpHash = None\<rparr>"

definition reset_db :: db where
  "reset_db = sample_db\<lparr>reset_requests := [sample_request]\<rparr>"

theorem reset_token_single_use_witness:
  "length (wins reset_attempt
     [(sample_env, sample_request, ''a@b.rw'', ''argon2:one'', ''ip'', sample_ctx),
      (sample_env, sample_request, ''a@b.rw'', ''argon2:two'', ''ip'', sample_ctx)] reset_db) \<le> 1"
  by (rule reset_token_single_use [of _ "''reset-1''"])
    (simp_all add: request_known_def reset_db_def reset_of_def sample_request_def)

text \<open>C18. A reset leaves the user with the new password hash and a cleared lock, with no active session,
  no unrevoked refresh token and no reset request that could still be used, and leaves the
  credentials of other users alone.\<close>

theorem reset_signs_out:
  assumes "reset_transaction E q recipient h ipHash ctx d = (Inr u, d')" and "request_known d"
    and "q \<in> set (reset_requests d)"
  shows "(\<forall>s \<in> set (sessions d'). ses_userId s = rst_userId q \<longrightarrow> ses_status s \<noteq> Session_ACTIVE)
    \<and> (\<forall>t \<in> set (refresh_tokens d'). rft_userId t = rst_userId q \<longrightarrow> rft_revokedAt t \<noteq> None)
    \<and> (\<forall>x \<in> set (reset_requests d'). rst_userId x = rst_userId q \<longrightarrow> rst_usedAt x \<noteq> None \<or> rst_revokedAt x \<noteq> None)
    \<and> (\<forall>c \<in> set (credentials d'). cred_userId c = rst_userId q \<longrightarrow>
         cred_passwordHash c = h \<and> cred_failedLoginCount c = 0 \<and> cred_lockedUntil c = None)
    \<and> filter (\<lambda>c. cred_userId c \<noteq> rst_userId q) (credentials d')
      = filter (\<lambda>c. cred_userId c \<noteq> rst_userId q) (credentials d)"
proof -
  note D = reset_transaction_InrD [OF assms(1)]
  have "request_spent (rst_id q) d'"
    using reset_attempt_effect [of "rst_id q" "(E, q, recipient, h, ipHash, ctx)" d "Inr u" d'] assms
    by (simp add: reset_of_def reset_attempt_def)
  then have "\<forall>x \<in> set (reset_requests d'). rst_userId x = rst_userId q \<longrightarrow> rst_usedAt x \<noteq> None \<or> rst_revokedAt x \<noteq> None"
    unfolding request_spent_def D(4) ball_update_rows by auto
  moreover have "filter (\<lambda>c. cred_userId c \<noteq> rst_userId q) (credentials d')
      = filter (\<lambda>c. cred_userId c \<noteq> rst_userId q) (credentials d)"
  proof -
    have "filter (\<lambda>c. cred_userId c \<noteq> rst_userId q)
        (update_rows (\<lambda>c. cred_userId c = rst_userId q) (set_password h (clock E 0)) cs)
      = filter (\<lambda>c. cred_userId c \<noteq> rst_userId q) cs" for cs
      by (induction cs) (auto simp: set_password_def)
    then show ?thesis by (simp add: D(3))
  qed
  ultimately show ?thesis
    using D(2) unfolding signed_out_def D(3) ball_update_rows by (simp add: set_password_def)
qed

theorem reset_signs_out_witness:
  "\<exists>d'. reset_transaction sample_env sample_request ''a@b.rw'' ''argon2:new'' ''ip'' sample_ctx reset_db = (Inr (), d')
    \<and> (\<forall>s \<in> set (sessions d'). ses_userId s = ''user-1'' \<longrightarrow> ses_status s \<noteq> Session_ACTIVE)"
proof -
  have "\<exists>d'. reset_transaction sample_env sample_request ''a@b.rw'' ''argon2:new'' ''ip'' sample_ctx reset_db = (Inr (), d')"
    by (simp add: reset_transaction_def transact_def Let_def reset_db_def unspent_request_def sample_request_def
        sample_credential_def)
  then obtain d' where r: "reset_transaction sample_env sample_request ''a@b.rw'' ''argon2:new'' ''ip'' sample_ctx
      reset_db = (Inr (), d')" by blast
  from reset_signs_out [OF r] r show ?thesis
    by (auto simp: reset_db_def request_known_def sample_request_def)
qed

text \<open>Of the password changes that verified the same current hash at most one takes effect; the
  others see that the credential has changed.\<close>

lemma password_change_once:
  assumes "list_all (\<lambda>(E, recipient, h, ipHash, ctx). h \<noteq> old) as"
  shows "length (wins (change_attempt userId old) as d) \<le> 1"
  by (rule cp.at_most_one_win [OF _ assms]) simp

lemma password_change_once_witness:
  "length (wins (change_attempt ''user-1'' ''argon2:secret'')
     [(sample_env, ''a@b.rw'', ''argon2:one'', ''ip'', sample_ctx),
      (sample_env, ''a@b.rw'', ''argon2:two'', ''ip'', sample_ctx)] sample_db) \<le> 1"
  by (rule password_change_once) simp

text \<open>C34. A verification token verifies at most once, and only an account that is pending and not yet
  verified becomes active by it: no other user row changes, so that a disabled or suspended
  account is never reactivated by its old mail.\<close>

theorem email_token_activates_once:
  assumes "email_tokens_ok d" and "list_all (\<lambda>(E, token, ctx). token_digest E token = k) as"
  shows "length (wins verify_attempt as d) \<le> 1
    \<and> (\<forall>E token ctx d' u. verify_email E token ctx d = (Inr (), d') \<and> u \<in> set (users d)
         \<and> usr_accountStatus u \<noteq> Account_PENDING_EMAIL_VERIFICATION \<longrightarrow> u \<in> set (users d'))"
proof (intro conjI allI impI)
  show "length (wins verify_attempt as d) \<le> 1" by (rule ev.at_most_one_win [OF assms])
  fix E token ctx d' u
  assume v: "verify_email E token ctx d = (Inr (), d') \<and> u \<in> set (users d)
    \<and> usr_accountStatus u \<noteq> Account_PENDING_EMAIL_VERIFICATION"
  then have "verify_email E token ctx d = (Inr (), d')" by simp
  then obtain t f where "users d' = update_rows (pending_user t) f (users d)"
    by (rule verify_email_InrE) (rule that)
  with v show "u \<in> set (users d')"
    by (auto simp: set_update_rows pending_user_def intro!: image_eqI [of _ _ u])
qed

definition pending_db :: db where
  "pending_db = sample_db\<lparr>users := [sample_user\<lparr>usr_accountStatus := Account_PENDING_EMAIL_VERIFICATION,
       usr_emailVerifiedAt := None\<rparr>],
     email_tokens := [\<lparr>emt_id = ''mail-1'', emt_userId = ''user-1'',
       emt_tokenDigest = token_digest sample_env ''mail'', emt_expiresAt = 90000000, emt_used = False,
       emt_usedAt = None, emt_supersededAt = None\<rparr>]\<rparr>"

theorem email_token_activates_once_witness:
  "length (wins verify_attempt [(sample_env, ''mail'', sample_ctx), (sample_env, ''mail'', sample_ctx)] pending_db) \<le> 1"
  using email_token_activates_once [of pending_db "token_digest sample_env ''mail''"
      "[(sample_env, ''mail'', sample_ctx), (sample_env, ''mail'', sample_ctx)]"]
  by (simp add: email_tokens_ok_def pending_db_def)

end
